(* ===== verification/Prelude.thy ===== *)
theory Prelude
  imports Main "HOL-Library.Word" "HOL-Library.List_Lexorder" "HOL-Library.Char_ord"
begin

text \<open>
  Shared foundations of the development: how a C++ call that may fail is a value
  (\<open>res\<close>), the hash map of the standard library as an association list kept in key
  order together with the contract its clients use (locale \<open>dict\<close>), decimal printing
  of unsigned numbers, and the collections of rewrite rules that carry the component
  proofs.
\<close>

section \<open>Collections\<close>

named_theorems res_simps \<open>computation rules for fallible code\<close>
named_theorems dict_simps \<open>lookup rules of the hash maps\<close>

section \<open>Machine types\<close>

type_synonym byte = "8 word"
type_synonym u16 = "16 word"
type_synonym u32 = "32 word"
type_synonym u64 = "64 word"

text \<open>A \<open>std::string\<close> is a sequence of \<open>char\<close>; its bytes and back.\<close>

definition bytes_of_string :: "string \<Rightarrow> byte list" where
  "bytes_of_string s = map (\<lambda>c. word_of_nat (of_char c)) s"

definition string_of_bytes :: "byte list \<Rightarrow> string" where
  "string_of_bytes bs = map (\<lambda>b. char_of (unat b)) bs"

lemma string_of_bytes_of_string [simp]: "string_of_bytes (bytes_of_string s) = s"
proof -
  have "unat (word_of_nat (of_char c) :: byte) = of_char c" for c :: char
    by (simp add: unat_of_nat of_char_eq_iff take_bit_nat_eq_self_iff
        flip: take_bit_eq_mod)
  then show ?thesis
    by (induction s) (simp_all add: bytes_of_string_def string_of_bytes_def)
qed

lemma bytes_of_string_of_bytes [simp]: "bytes_of_string (string_of_bytes bs) = bs"
proof -
  have "word_of_nat (of_char (char_of (unat b) :: char)) = b" for b :: byte
  proof -
    have "unat b < 2 ^ LENGTH(8)" by (rule unsigned_less)
    then show ?thesis by simp
  qed
  then show ?thesis
    by (induction bs) (simp_all add: bytes_of_string_def string_of_bytes_def)
qed

section \<open>Failure as a value\<close>

text \<open>
  \<open>Throw w\<close>: an \<open>ailoy::exception\<close> whose reason is \<open>w\<close> (before
  \<open>build_errstr\<close> decorates it); \<open>LibThrow w\<close>: an exception raised by the standard
  library or by a third-party one; \<open>UB w\<close>: the code has undefined behaviour, such as a
  null dereference or a read past the end of a buffer.
\<close>

datatype fault = Throw string | LibThrow string | UB string

type_synonym 'a res = "fault + 'a"

definition bindR :: "'a res \<Rightarrow> ('a \<Rightarrow> 'b res) \<Rightarrow> 'b res" where
  "bindR r f = (case r of Inl e \<Rightarrow> Inl e | Inr a \<Rightarrow> f a)"

lemma bindR_simps [simp, res_simps]:
  "bindR (Inl e) f = Inl e"
  "bindR (Inr a) f = f a"
  by (simp_all add: bindR_def)

lemma bindR_eq_Inr [res_simps]: "bindR r f = Inr b \<longleftrightarrow> (\<exists>a. r = Inr a \<and> f a = Inr b)"
  by (cases r) simp_all

lemma bindR_cong [fundef_cong]:
  "r = r' \<Longrightarrow> (\<And>a. r' = Inr a \<Longrightarrow> f a = g a) \<Longrightarrow> bindR r f = bindR r' g"
  by (cases r') simp_all

lemma bindR_assoc: "bindR (bindR r f) g = bindR r (\<lambda>a. bindR (f a) g)"
  by (cases r) simp_all

definition mapR_res :: "('a \<Rightarrow> 'b) \<Rightarrow> 'a res \<Rightarrow> 'b res" where
  "mapR_res f r = bindR r (\<lambda>a. Inr (f a))"

lemma mapR_res_simps [simp, res_simps]:
  "mapR_res f (Inl e) = Inl e"
  "mapR_res f (Inr a) = Inr (f a)"
  by (simp_all add: mapR_res_def)

text \<open>Following a pointer: \<open>None\<close> is \<open>nullptr\<close>.\<close>

definition deref :: "'a option \<Rightarrow> 'a res" where
  "deref p = (case p of None \<Rightarrow> Inl (UB ''null pointer dereference'') | Some a \<Rightarrow> Inr a)"

lemma deref_simps [simp, res_simps]:
  "deref None = Inl (UB ''null pointer dereference'')"
  "deref (Some a) = Inr a"
  by (simp_all add: deref_def)

lemma deref_eq_Inr [res_simps]: "deref p = Inr a \<longleftrightarrow> p = Some a"
  by (cases p) simp_all

text \<open>A loop over a vector whose body may throw.\<close>

fun mapR :: "('a \<Rightarrow> 'b res) \<Rightarrow> 'a list \<Rightarrow> 'b list res" where
  "mapR f [] = Inr []"
| "mapR f (x # xs) = bindR (f x) (\<lambda>y. bindR (mapR f xs) (\<lambda>ys. Inr (y # ys)))"

lemma mapR_cong [fundef_cong]:
  "xs = ys \<Longrightarrow> (\<And>x. x \<in> set ys \<Longrightarrow> f x = g x) \<Longrightarrow> mapR f xs = mapR g ys"
  by (induction ys arbitrary: xs) (auto intro: bindR_cong)

lemma mapR_Inr: "(\<And>x. x \<in> set xs \<Longrightarrow> f x = Inr (g x)) \<Longrightarrow> mapR f xs = Inr (map g xs)"
  by (induction xs) auto

lemma mapR_length: "mapR f xs = Inr ys \<Longrightarrow> length ys = length xs"
  by (induction xs arbitrary: ys) (auto simp: bindR_eq_Inr)

lemma mapR_set:
  "mapR f xs = Inr ys \<Longrightarrow> y \<in> set ys \<Longrightarrow> \<exists>x \<in> set xs. f x = Inr y"
  by (induction xs arbitrary: ys) (auto simp: bindR_eq_Inr)

section \<open>Hash maps\<close>

text \<open>
  \<open>std::unordered_map\<close> leaves its iteration order open. The model keeps the entries of
  such a map in key order, so that two maps with the same entries are equal values;
  \<open>std::map\<close>, which the JSON library uses for objects, really has this order.
  \<open>put\<close> is \<open>insert_or_assign\<close>, \<open>put_new\<close> is \<open>insert\<close> (which keeps an entry
  that is there), \<open>del\<close> is \<open>erase\<close> by key and \<open>map_of\<close> is \<open>find\<close>.
\<close>

fun put :: "'k::linorder \<Rightarrow> 'v \<Rightarrow> ('k \<times> 'v) list \<Rightarrow> ('k \<times> 'v) list" where
  "put k v [] = [(k, v)]"
| "put k v (e # m) =
     (if k = fst e then (k, v) # m
      else if k < fst e then (k, v) # e # m
      else e # put k v m)"

definition put_new :: "'k::linorder \<Rightarrow> 'v \<Rightarrow> ('k \<times> 'v) list \<Rightarrow> ('k \<times> 'v) list" where
  "put_new k v m = (if map_of m k = None then put k v m else m)"

definition del :: "'k \<Rightarrow> ('k \<times> 'v) list \<Rightarrow> ('k \<times> 'v) list" where
  "del k m = filter (\<lambda>e. fst e \<noteq> k) m"

definition dict_ok :: "('k::linorder \<times> 'v) list \<Rightarrow> bool" where
  "dict_ok m \<longleftrightarrow> sorted_wrt (<) (map fst m)"

text \<open>The contract of the maps that the clients rely on.\<close>

locale dict =
  fixes look :: "'m \<Rightarrow> 'k \<Rightarrow> 'v option"
    and void :: 'm
    and assign :: "'k \<Rightarrow> 'v \<Rightarrow> 'm \<Rightarrow> 'm"
    and erase :: "'k \<Rightarrow> 'm \<Rightarrow> 'm"
    and ok :: "'m \<Rightarrow> bool"
  assumes ok_void: "ok void"
    and ok_assign: "ok m \<Longrightarrow> ok (assign k v m)"
    and ok_erase: "ok m \<Longrightarrow> ok (erase k m)"
    and look_void: "look void k = None"
    and look_assign: "look (assign k v m) j = (if j = k then Some v else look m j)"
    and look_erase: "look (erase k m) j = (if j = k then None else look m j)"
    and ext: "ok m \<Longrightarrow> ok n \<Longrightarrow> (\<And>j. look m j = look n j) \<Longrightarrow> m = n"
begin

lemma assign_twice: "ok m \<Longrightarrow> assign k v (assign k w m) = assign k v m"
  by (rule ext) (simp_all add: ok_assign look_assign)

lemma assign_commute: "ok m \<Longrightarrow> k \<noteq> l \<Longrightarrow> assign k v (assign l w m) = assign l w (assign k v m)"
  by (rule ext) (auto simp: ok_assign look_assign)

lemma erase_assign: "ok m \<Longrightarrow> look m k = None \<Longrightarrow> erase k (assign k v m) = m"
  by (rule ext) (simp_all add: ok_assign ok_erase look_assign look_erase)

lemma erase_absent: "ok m \<Longrightarrow> look m k = None \<Longrightarrow> erase k m = m"
  by (rule ext) (simp_all add: ok_erase look_erase)

lemma assign_same: "ok m \<Longrightarrow> look m k = Some v \<Longrightarrow> assign k v m = m"
  by (rule ext) (simp_all add: ok_assign look_assign)

lemma look_assign_all:
  "look (fold (\<lambda>e. assign (fst e) (snd e)) es m) j =
     (case map_of (rev es) j of None \<Rightarrow> look m j | Some v \<Rightarrow> Some v)"
proof (induction es arbitrary: m)
  case Nil
  then show ?case by simp
next
  case (Cons e es)
  then show ?case
    by (cases "map_of (rev es) j") (auto simp: look_assign map_add_def)
qed

lemma ok_assign_all: "ok m \<Longrightarrow> ok (fold (\<lambda>e. assign (fst e) (snd e)) es m)"
  by (induction es arbitrary: m) (simp_all add: ok_assign)

end

lemma map_of_put [simp, dict_simps]: "map_of (put k v m) j = (if j = k then Some v else map_of m j)"
  by (induction m) auto

lemma map_of_del [simp, dict_simps]: "map_of (del k m) j = (if j = k then None else map_of m j)"
  by (induction m) (auto simp: del_def)

lemma keys_put [simp]: "fst ` set (put k v m) = insert k (fst ` set m)"
  by (induction m) auto

lemma set_del: "set (del k m) = {e \<in> set m. fst e \<noteq> k}"
  by (auto simp: del_def)

lemma dict_ok_Nil [simp]: "dict_ok []"
  by (simp add: dict_ok_def)

lemma dict_ok_Cons: "dict_ok (e # m) \<longleftrightarrow> (\<forall>k \<in> fst ` set m. fst e < k) \<and> dict_ok m"
  by (auto simp: dict_ok_def)

lemma set_putD: "e \<in> set (put k v m) \<Longrightarrow> e = (k, v) \<or> e \<in> set m"
  by (induction m) (auto split: if_splits)

lemma dict_ok_put [simp, intro]: "dict_ok m \<Longrightarrow> dict_ok (put k v m)"
proof (induction m)
  case Nil
  then show ?case by (simp add: dict_ok_def)
next
  case (Cons e m)
  then show ?case
    by (fastforce simp: dict_ok_Cons dest: set_putD)
qed

lemma dict_ok_filter [intro]: "dict_ok m \<Longrightarrow> dict_ok (filter P m)"
  by (induction m) (auto simp: dict_ok_Cons)

lemma dict_ok_del [simp, intro]: "dict_ok m \<Longrightarrow> dict_ok (del k m)"
  by (simp add: del_def dict_ok_filter)

lemma dict_ok_distinct: "dict_ok m \<Longrightarrow> distinct (map fst m)"
  by (simp add: dict_ok_def strict_sorted_iff)

lemma dict_ok_put_new [intro]: "dict_ok m \<Longrightarrow> dict_ok (put_new k v m)"
  by (simp add: put_new_def)

lemma map_of_put_new [dict_simps]:
  "map_of (put_new k v m) j = (if j = k \<and> map_of m k = None then Some v else map_of m j)"
  by (auto simp: put_new_def)

lemma dict_ok_keys: "dict_ok m \<Longrightarrow> m = map (\<lambda>k. (k, the (map_of m k))) (map fst m)"
proof -
  assume "dict_ok m"
  then have "distinct (map fst m)" by (rule dict_ok_distinct)
  then have "\<forall>e \<in> set m. (fst e, the (map_of m (fst e))) = e"
    by auto
  then show ?thesis by (simp add: map_idI)
qed

lemma dict_ok_ext:
  assumes m: "dict_ok m" and n: "dict_ok n" and look: "\<And>j. map_of m j = map_of n j"
  shows "m = n"
proof -
  have eq: "map_of m = map_of n"
    using look by (rule HOL.ext)
  have "set (map fst m) = set (map fst n)"
    using arg_cong [OF eq, of dom] by (simp add: dom_map_of_conv_image_fst)
  with m n have "map fst m = map fst n"
    unfolding dict_ok_def by (metis strict_sorted_equal)
  then show ?thesis
    using dict_ok_keys [OF m] dict_ok_keys [OF n] eq by metis
qed

interpretation umap: dict map_of "[]" put del dict_ok
proof unfold_locales
  show "m = n" if "dict_ok m" "dict_ok n" "\<And>j. map_of m j = map_of n j"
    for m n :: "('a::linorder \<times> 'b) list"
    using that by (rule dict_ok_ext)
qed auto

lemma map_of_map_values: "map_of (map (\<lambda>e. (fst e, f (snd e))) m) j = map_option f (map_of m j)"
  by (induction m) auto

section \<open>Decimal printing\<close>

text \<open>\<open>std::to_string\<close> and \<open>std::format\<close> on an unsigned number.\<close>

definition digit :: "nat \<Rightarrow> char" where
  "digit d = char_of (48 + d)"

fun show_nat :: "nat \<Rightarrow> string" where
  "show_nat n = (if n < 10 then [digit n] else show_nat (n div 10) @ [digit (n mod 10)])"

declare show_nat.simps [simp del]

definition read_nat :: "string \<Rightarrow> nat" where
  "read_nat s = foldl (\<lambda>a c. a * 10 + (of_char c - 48)) 0 s"

lemma of_char_digit: "d < 10 \<Longrightarrow> (of_char (digit d) :: nat) = 48 + d"
  by (simp add: digit_def of_char_of)

lemma read_show_nat [simp]: "read_nat (show_nat n) = n"
proof (induction n rule: show_nat.induct)
  case (1 n)
  show ?case
  proof (cases "n < 10")
    case True
    then show ?thesis
      by (simp add: show_nat.simps [of n] read_nat_def of_char_digit)
  next
    case False
    with "1.IH" have "read_nat (show_nat (n div 10)) = n div 10" by simp
    with False show ?thesis
      by (simp add: show_nat.simps [of n] read_nat_def of_char_digit)
  qed
qed

lemma show_nat_inject [simp]: "show_nat m = show_nat n \<longleftrightarrow> m = n"
  by (metis read_show_nat)

lemma show_nat_digits: "c \<in> set (show_nat n) \<Longrightarrow> \<exists>d < 10. c = digit d"
proof (induction n rule: show_nat.induct)
  case (1 n)
  show ?case
  proof (cases "n < 10")
    case True
    with "1.prems" show ?thesis by (auto simp: show_nat.simps [of n])
  next
    case False
    with "1.prems" have "c \<in> set (show_nat (n div 10)) \<or> c = digit (n mod 10)"
      by (auto simp: show_nat.simps [of n])
    with False "1.IH" show ?thesis by (metis mod_less_divisor zero_less_numeral)
  qed
qed

lemma show_nat_not_Nil [simp]: "show_nat n \<noteq> []"
  by (simp add: show_nat.simps [of n])

definition show_u64 :: "u64 \<Rightarrow> string" where
  "show_u64 w = show_nat (unat w)"

lemma show_u64_inject [simp]: "show_u64 a = show_u64 b \<longleftrightarrow> a = b"
  by (simp add: show_u64_def word_unat_eq_iff)

end
