(* ===== verification/Bytes.thy ===== *)
theory Bytes
  imports Prelude
begin

text \<open>
  Fixed-width numbers in a byte buffer. The code writes and reads them through
  \<open>reinterpret_cast\<close> of the buffer's bytes; on the targets the project supports
  (x86-64, arm64) the layout is little endian. A read past the end of the buffer is
  undefined behaviour. The contract of such a format is the locale \<open>byte_format\<close>;
  it is interpreted for the 16, 32 and 64 bit numbers.
\<close>

section \<open>Little-endian numbers\<close>

fun le_put :: "nat \<Rightarrow> nat \<Rightarrow> byte list" where
  "le_put 0 x = []"
| "le_put (Suc n) x = word_of_nat (x mod 256) # le_put n (x div 256)"

fun le_get :: "byte list \<Rightarrow> nat" where
  "le_get [] = 0"
| "le_get (b # bs) = unat b + 256 * le_get bs"

lemma length_le_put [simp]: "length (le_put n x) = n"
  by (induction n arbitrary: x) auto

lemma le_get_put: "le_get (le_put n x) = x mod 256 ^ n"
proof (induction n arbitrary: x)
  case 0
  then show ?case by simp
next
  case (Suc n)
  have "unat (word_of_nat (x mod 256) :: byte) = x mod 256"
    by (simp add: unat_of_nat)
  with Suc show ?case by (simp add: mod_mult2_eq)
qed

lemma le_put_get: "le_put (length bs) (le_get bs) = bs"
proof (induction bs)
  case Nil
  then show ?case by simp
next
  case (Cons b bs)
  have b: "unat b < 256"
    using unsigned_less [of b, where 'a = nat] by simp
  then have "(unat b + 256 * le_get bs) mod 256 = unat b"
    and "(unat b + 256 * le_get bs) div 256 = le_get bs"
    by simp_all
  with Cons show ?case by simp
qed

lemma le_get_bound: "le_get bs < 256 ^ length bs"
  using le_get_put [of "length bs" "le_get bs"] le_put_get [of bs]
  by (metis mod_less_divisor zero_less_numeral zero_less_power)

section \<open>Reading at an iterator\<close>

text \<open>A reader takes the bytes from the iterator on and returns what is left of them.\<close>

type_synonym 'a reader = "byte list \<Rightarrow> ('a \<times> byte list) res"

definition take_bytes :: "nat \<Rightarrow> byte list reader" where
  "take_bytes n bs =
     (if length bs < n then Inl (UB ''read past the end of the buffer'')
      else Inr (take n bs, drop n bs))"

lemma take_bytes_append [simp]: "length xs = n \<Longrightarrow> take_bytes n (xs @ rest) = Inr (xs, rest)"
  by (simp add: take_bytes_def)

definition put_u16 :: "u16 \<Rightarrow> byte list" where "put_u16 w = le_put 2 (unat w)"
definition put_u32 :: "u32 \<Rightarrow> byte list" where "put_u32 w = le_put 4 (unat w)"
definition put_u64 :: "u64 \<Rightarrow> byte list" where "put_u64 w = le_put 8 (unat w)"

definition get_u8 :: "byte reader" where
  "get_u8 bs = bindR (take_bytes 1 bs) (\<lambda>(xs, rest). Inr (word_of_nat (le_get xs), rest))"
definition get_u16 :: "u16 reader" where
  "get_u16 bs = bindR (take_bytes 2 bs) (\<lambda>(xs, rest). Inr (word_of_nat (le_get xs), rest))"
definition get_u32 :: "u32 reader" where
  "get_u32 bs = bindR (take_bytes 4 bs) (\<lambda>(xs, rest). Inr (word_of_nat (le_get xs), rest))"
definition get_u64 :: "u64 reader" where
  "get_u64 bs = bindR (take_bytes 8 bs) (\<lambda>(xs, rest). Inr (word_of_nat (le_get xs), rest))"

fun get_many :: "nat \<Rightarrow> 'a reader \<Rightarrow> 'a list reader" where
  "get_many 0 g bs = Inr ([], bs)"
| "get_many (Suc n) g bs =
     bindR (g bs) (\<lambda>(x, rest). bindR (get_many n g rest) (\<lambda>(xs, rest'). Inr (x # xs, rest')))"

lemma get_many_length: "get_many n g bs = Inr (xs, rest) \<Longrightarrow> length xs = n"
  by (induction n arbitrary: bs xs rest) (auto simp: bindR_eq_Inr split: prod.splits)

locale byte_format =
  fixes enc :: "'a \<Rightarrow> byte list"
    and dec :: "'a reader"
    and width :: nat
  assumes dec_enc: "dec (enc x @ rest) = Inr (x, rest)"
    and enc_width: "length (enc x) = width"
    and short_read: "length bs < width \<Longrightarrow> dec bs = Inl (UB ''read past the end of the buffer'')"
begin

lemma enc_inject: "enc x = enc y \<longleftrightarrow> x = y"
proof
  assume "enc x = enc y"
  then have "dec (enc x @ []) = dec (enc y @ [])" by simp
  then show "x = y" by (simp only: dec_enc) simp
qed simp

lemma get_many_enc:
  "get_many (length xs) dec (concat (map enc xs) @ rest) = Inr (xs, rest)"
  by (induction xs) (simp_all add: dec_enc)

lemma get_many_take:
  assumes "k \<le> length xs"
  shows "\<exists>rest'. get_many k dec (concat (map enc xs) @ rest) = Inr (take k xs, rest')"
proof -
  have "concat (map enc xs) @ rest = concat (map enc (take k xs)) @ concat (map enc (drop k xs)) @ rest"
    by (simp flip: append_assoc concat_append map_append)
  with get_many_enc [of "take k xs" "concat (map enc (drop k xs)) @ rest"] assms show ?thesis by simp
qed

lemma length_enc_many: "length (concat (map enc xs)) = width * length xs"
  by (induction xs) (simp_all add: enc_width)

lemma get_many_truncated:
  "0 < width \<Longrightarrow> get_many (Suc n) dec [] = Inl (UB ''read past the end of the buffer'')"
  by (simp add: short_read)

end

lemma unat_mod_width [simp]:
  "unat (v :: u16) mod 65536 = unat v"
  "unat (w :: u32) mod 4294967296 = unat w"
  "unat (x :: u64) mod 18446744073709551616 = unat x"
  using unsigned_less [of v, where 'a = nat] unsigned_less [of w, where 'a = nat]
    unsigned_less [of x, where 'a = nat] by simp_all

lemma get_put_word [simp]:
  "get_u16 (put_u16 v @ rest) = Inr (v, rest)"
  "get_u32 (put_u32 w @ rest) = Inr (w, rest)"
  "get_u64 (put_u64 x @ rest) = Inr (x, rest)"
  by (simp_all add: get_u16_def put_u16_def get_u32_def put_u32_def get_u64_def put_u64_def
      le_get_put)

interpretation fmt16: byte_format put_u16 get_u16 2
  by unfold_locales (simp_all, simp_all add: put_u16_def get_u16_def take_bytes_def)

interpretation fmt32: byte_format put_u32 get_u32 4
  by unfold_locales (simp_all, simp_all add: put_u32_def get_u32_def take_bytes_def)

interpretation fmt64: byte_format put_u64 get_u64 8
  by unfold_locales (simp_all, simp_all add: put_u64_def get_u64_def take_bytes_def)

end
