(* ===== verification/Exceptions.thy ===== *)
theory Exceptions
  imports Prelude
begin

text \<open>
  The reasons of \<open>core/include/exception.hpp\<close>: the text each constructor builds, which
  is what operators send back to their caller, and the decoration that
  \<open>exception_t\<close> adds. A constructor that C++ overloads on its number of arguments has
  that number in its name.
\<close>

definition nl :: string where "nl = [CHR 0x0A]"
definition esc :: string where "esc = [CHR 0x1B]"

definition runtime_error0 :: string where "runtime_error0 = ''Internal error''"
definition runtime_error1 :: "string \<Rightarrow> string" where "runtime_error1 what = what"

definition type_error0 :: string where "type_error0 = ''Type error''"
definition type_error1 :: "string \<Rightarrow> string" where
  "type_error1 what = ''Type error: '' @ what"
definition type_error2 :: "string \<Rightarrow> string \<Rightarrow> string" where
  "type_error2 ctx name = ''['' @ ctx @ ''] Type error: '' @ name"
definition type_error4 :: "string \<Rightarrow> string \<Rightarrow> string \<Rightarrow> string \<Rightarrow> string" where
  "type_error4 ctx name expected actual =
     ''['' @ ctx @ ''] Type error:'' @ nl @ '' - name: '' @ name @ nl @
     '' - expected: '' @ expected @ nl @ '' - actual: '' @ actual"

definition range_error1 :: "string \<Rightarrow> string" where "range_error1 what = what"
definition range_error0 :: string where "range_error0 = range_error1 ''Range error''"
definition range_error2 :: "string \<Rightarrow> string \<Rightarrow> string" where
  "range_error2 ctx name = ''['' @ ctx @ ''] Range error: '' @ name"

definition value_error1 :: "string \<Rightarrow> string" where "value_error1 what = what"
definition value_error0 :: string where "value_error0 = value_error1 ''Value error''"
definition value_error2 :: "string \<Rightarrow> string \<Rightarrow> string" where
  "value_error2 ctx name = ''['' @ ctx @ ''] Value error: '' @ name"
definition value_error4 :: "string \<Rightarrow> string \<Rightarrow> string \<Rightarrow> string \<Rightarrow> string" where
  "value_error4 ctx name expected actual =
     ''['' @ ctx @ ''] Value error:'' @ nl @ '' - name: '' @ name @ nl @
     '' - expected: '' @ expected @ nl @ '' - actual: '' @ actual"

definition not_implemented0 :: string where "not_implemented0 = ''Not implemented:''"
definition not_implemented1 :: "string \<Rightarrow> string" where
  "not_implemented1 what = ''Not implemented: '' @ what"

text \<open>
  \<open>build_errstr\<close>. The frames of the stack trace and their rendering come from the
  library cpptrace: \<open>symbols\<close> are the frames' symbols, \<open>render\<close> prints the frames
  that are left. The loop removes the leading frames of \<open>build_errstr\<close> itself.
\<close>

definition starts_with :: "string \<Rightarrow> string \<Rightarrow> bool" where
  "starts_with s p \<longleftrightarrow> take (length p) s = p"

definition build_errstr :: "(string list \<Rightarrow> string) \<Rightarrow> string list \<Rightarrow> string \<Rightarrow> string" where
  "build_errstr render symbols what =
     esc @ ''[1;31m'' @ what @ esc @ ''[0m'' @ nl @
     render (dropWhile (\<lambda>f. starts_with f ''ailoy::build_errstr'') symbols)"

definition build_errstr_emscripten :: "string \<Rightarrow> string" where
  "build_errstr_emscripten what = esc @ ''[1;31m'' @ what @ esc @ ''[0m''"

end
