(* ===== verification/Floats.thy ===== *)
theory Floats
  imports Prelude
begin

text \<open>
  The arithmetic of \<open>float\<close> and \<open>double\<close> on their bits, as the language defines it on the
  targets of the project: IEEE 754 with rounding to the nearest number, ties to the even one.
  A format has \<open>p\<close> bits of fraction and \<open>ew\<close> bits of exponent. The magnitude of a finite number
  is a natural number of the format's smallest steps, \<open>2 ^ - fp_unit p ew\<close> each.
\<close>

section \<open>Fields and magnitude\<close>

definition fp_neg :: "nat \<Rightarrow> nat \<Rightarrow> nat \<Rightarrow> bool" where
  "fp_neg p ew n \<longleftrightarrow> odd (n div 2 ^ (p + ew))"

definition fp_abs :: "nat \<Rightarrow> nat \<Rightarrow> nat \<Rightarrow> nat" where
  "fp_abs p ew n = n mod 2 ^ (p + ew)"

definition fp_inf :: "nat \<Rightarrow> nat \<Rightarrow> nat" where
  "fp_inf p ew = (2 ^ ew - 1) * 2 ^ p"

definition fp_nan :: "nat \<Rightarrow> nat \<Rightarrow> nat" where
  "fp_nan p ew = fp_inf p ew + 2 ^ (p - 1)"

definition is_fp_nan :: "nat \<Rightarrow> nat \<Rightarrow> nat \<Rightarrow> bool" where
  "is_fp_nan p ew n \<longleftrightarrow> fp_abs p ew n > fp_inf p ew"

definition is_fp_inf :: "nat \<Rightarrow> nat \<Rightarrow> nat \<Rightarrow> bool" where
  "is_fp_inf p ew n \<longleftrightarrow> fp_abs p ew n = fp_inf p ew"

definition fp_finite :: "nat \<Rightarrow> nat \<Rightarrow> nat \<Rightarrow> bool" where
  "fp_finite p ew n \<longleftrightarrow> fp_abs p ew n < fp_inf p ew"

text \<open>The magnitude of bits without a sign. The exponents 0 and 1 have the same step.\<close>

definition fp_mag :: "nat \<Rightarrow> nat \<Rightarrow> nat" where
  "fp_mag p n =
     (let e = n div 2 ^ p; f = n mod 2 ^ p in if e = 0 then f else (2 ^ p + f) * 2 ^ (e - 1))"

definition fp_unit :: "nat \<Rightarrow> nat \<Rightarrow> nat" where
  "fp_unit p ew = 2 ^ (ew - 1) - 2 + p"

section \<open>Rounding\<close>

fun msb_pos :: "nat \<Rightarrow> nat" where
  "msb_pos n = (if n < 2 then 0 else Suc (msb_pos (n div 2)))"

declare msb_pos.simps [simp del]

definition half_even :: "nat \<Rightarrow> nat \<Rightarrow> nat" where
  "half_even a b =
     (let q = a div b; r = a mod b in if 2 * r < b \<or> 2 * r = b \<and> even q then q else q + 1)"

text \<open>
  The bits of the number nearest to \<open>a / b\<close> steps. The step at this size is \<open>2 ^ fp_shift\<close>; since
  the fields of the bits lie one above the other, a carry of the rounded fraction goes into the
  exponent by itself.
\<close>

definition fp_shift :: "nat \<Rightarrow> nat \<Rightarrow> nat \<Rightarrow> nat" where
  "fp_shift p a b = msb_pos (a div b) - p"

definition fp_round :: "nat \<Rightarrow> nat \<Rightarrow> nat \<Rightarrow> nat \<Rightarrow> nat" where
  "fp_round p ew a b =
     (let s = fp_shift p a b in min (fp_inf p ew) (s * 2 ^ p + half_even a (b * 2 ^ s)))"

definition fp_signed :: "nat \<Rightarrow> nat \<Rightarrow> bool \<Rightarrow> nat \<Rightarrow> nat" where
  "fp_signed p ew neg n = (if neg then 2 ^ (p + ew) else 0) + n"

section \<open>Arithmetic\<close>

text \<open>
  An operation on a NaN gives a NaN; which one is left open by the standard, here it is the
  quiet NaN without sign.
\<close>

definition fp_value :: "nat \<Rightarrow> nat \<Rightarrow> nat \<Rightarrow> int" where
  "fp_value p ew n = (if fp_neg p ew n then -1 else 1) * int (fp_mag p (fp_abs p ew n))"

definition fp_add :: "nat \<Rightarrow> nat \<Rightarrow> nat \<Rightarrow> nat \<Rightarrow> nat" where
  "fp_add p ew a b =
     (if is_fp_nan p ew a \<or> is_fp_nan p ew b then fp_nan p ew
      else if is_fp_inf p ew a \<and> is_fp_inf p ew b \<and> fp_neg p ew a \<noteq> fp_neg p ew b then fp_nan p ew
      else if is_fp_inf p ew a then a
      else if is_fp_inf p ew b then b
      else (let x = fp_value p ew a + fp_value p ew b in
        if x = 0 then fp_signed p ew (fp_neg p ew a \<and> fp_neg p ew b) 0
        else fp_signed p ew (x < 0) (fp_round p ew (nat \<bar>x\<bar>) 1)))"

definition fp_negate :: "nat \<Rightarrow> nat \<Rightarrow> nat \<Rightarrow> nat" where
  "fp_negate p ew n = fp_signed p ew (\<not> fp_neg p ew n) (fp_abs p ew n)"

definition fp_sub :: "nat \<Rightarrow> nat \<Rightarrow> nat \<Rightarrow> nat \<Rightarrow> nat" where
  "fp_sub p ew a b = fp_add p ew a (fp_negate p ew b)"

definition fp_mul :: "nat \<Rightarrow> nat \<Rightarrow> nat \<Rightarrow> nat \<Rightarrow> nat" where
  "fp_mul p ew a b =
     (let neg = (fp_neg p ew a \<noteq> fp_neg p ew b);
          x = fp_mag p (fp_abs p ew a); y = fp_mag p (fp_abs p ew b) in
      if is_fp_nan p ew a \<or> is_fp_nan p ew b then fp_nan p ew
      else if is_fp_inf p ew a \<and> y = 0 \<or> is_fp_inf p ew b \<and> x = 0 then fp_nan p ew
      else if is_fp_inf p ew a \<or> is_fp_inf p ew b then fp_signed p ew neg (fp_inf p ew)
      else fp_signed p ew neg (fp_round p ew (x * y) (2 ^ fp_unit p ew)))"

definition fp_div :: "nat \<Rightarrow> nat \<Rightarrow> nat \<Rightarrow> nat \<Rightarrow> nat" where
  "fp_div p ew a b =
     (let neg = (fp_neg p ew a \<noteq> fp_neg p ew b);
          x = fp_mag p (fp_abs p ew a); y = fp_mag p (fp_abs p ew b) in
      if is_fp_nan p ew a \<or> is_fp_nan p ew b then fp_nan p ew
      else if is_fp_inf p ew a \<and> is_fp_inf p ew b \<or> x = 0 \<and> y = 0 then fp_nan p ew
      else if is_fp_inf p ew a \<or> y = 0 then fp_signed p ew neg (fp_inf p ew)
      else if is_fp_inf p ew b then fp_signed p ew neg 0
      else fp_signed p ew neg (fp_round p ew (x * 2 ^ fp_unit p ew) y))"

text \<open>A conversion to another format; a NaN keeps its sign and becomes quiet.\<close>

definition fp_convert :: "nat \<Rightarrow> nat \<Rightarrow> nat \<Rightarrow> nat \<Rightarrow> nat \<Rightarrow> nat" where
  "fp_convert p ew q fw n =
     (let neg = fp_neg p ew n; f = fp_abs p ew n mod 2 ^ p in
      if is_fp_nan p ew n then
        fp_signed q fw neg (fp_nan q fw + (if p \<le> q then f * 2 ^ (q - p) else f div 2 ^ (p - q)) mod 2 ^ (q - 1))
      else if is_fp_inf p ew n then fp_signed q fw neg (fp_inf q fw)
      else fp_signed q fw neg
        (fp_round q fw (fp_mag p (fp_abs p ew n) * 2 ^ fp_unit q fw) (2 ^ fp_unit p ew)))"

text \<open>An integer as a floating point number.\<close>

definition fp_of_int :: "nat \<Rightarrow> nat \<Rightarrow> int \<Rightarrow> nat" where
  "fp_of_int p ew i = fp_signed p ew (i < 0) (fp_round p ew (nat \<bar>i\<bar> * 2 ^ fp_unit p ew) 1)"

section \<open>Fields of bits\<close>

lemma fp_mag_fields:
  assumes "f < 2 ^ p"
  shows "fp_mag p (e * 2 ^ p + f) = (if e = 0 then f else (2 ^ p + f) * 2 ^ (e - 1))"
proof -
  have "(e * D + f) div D = e \<and> (e * D + f) mod D = f" if "f < D" for D
    using that by simp
  from this [OF assms] show ?thesis by (simp add: fp_mag_def)
qed

section \<open>Rounding finds the nearest number\<close>

lemma two_power_less: "(2 :: nat) ^ i < 2 ^ Suc j \<Longrightarrow> i \<le> j"
  using power_less_imp_less_exp [of "2 :: nat" i "Suc j"] by (simp del: power_Suc)

lemma msb_pos_bounds: "0 < n \<Longrightarrow> 2 ^ msb_pos n \<le> n \<and> n < 2 ^ Suc (msb_pos n)"
proof (induction n rule: msb_pos.induct)
  case (1 n)
  show ?case
  proof (cases "n < 2")
    case False
    then have "2 ^ msb_pos (n div 2) \<le> n div 2 \<and> n div 2 < 2 ^ Suc (msb_pos (n div 2))"
      using "1.IH" by simp
    then have "2 ^ Suc (msb_pos (n div 2)) \<le> n" "n < 2 ^ Suc (Suc (msb_pos (n div 2)))"
      unfolding power_Suc by linarith+
    then show ?thesis using False by (subst (1 2) msb_pos.simps) simp
  qed (use 1 in \<open>simp add: msb_pos.simps [of n]\<close>)
qed

lemma msb_pos_less: "n < 2 ^ k \<Longrightarrow> 0 < k \<Longrightarrow> msb_pos n < k"
proof (cases "n = 0")
  case False
  assume "n < 2 ^ k"
  with msb_pos_bounds [of n] False have "(2 :: nat) ^ msb_pos n < 2 ^ k" by linarith
  then show ?thesis by simp
qed (simp add: msb_pos.simps)

lemma half_even_nearest:
  assumes "0 < b"
  shows "\<bar>int (half_even a b * b) - int a\<bar> \<le> \<bar>int (m * b) - int a\<bar>"
proof -
  define q r where "q = a div b" and "r = a mod b"
  have a: "int a = int q * int b + int r" and r: "int r < int b" "0 \<le> int r"
    using assms by (simp_all add: q_def r_def flip: of_nat_mult of_nat_add)
  have le: "int m * int b \<le> int q * int b \<or> int q * int b + int b \<le> int m * int b"
  proof (cases "m \<le> q")
    case False
    then have "(q + 1) * b \<le> m * b" by (intro mult_le_mono1) simp
    then have "int ((q + 1) * b) \<le> int (m * b)" by (simp only: of_nat_le_iff)
    then show ?thesis by (simp add: algebra_simps)
  qed (simp add: mult_right_mono)
  have h: "half_even a b = q \<and> 2 * int r \<le> int b \<or> half_even a b = q + 1 \<and> int b \<le> 2 * int r"
    by (auto simp: half_even_def Let_def q_def [symmetric] r_def [symmetric])
  have m: "int (m * b) = int m * int b" by simp
  from h show ?thesis
  proof
    assume "half_even a b = q \<and> 2 * int r \<le> int b"
    then have "int (half_even a b * b) = int q * int b" "2 * int r \<le> int b" by simp_all
    with le a r m show ?thesis by linarith
  next
    assume "half_even a b = q + 1 \<and> int b \<le> 2 * int r"
    then have "int (half_even a b * b) = int q * int b + int b" "int b \<le> 2 * int r"
      by (simp_all add: algebra_simps)
    with le a r m show ?thesis by linarith
  qed
qed

lemma fp_mag_cases:
  obtains m t where "fp_mag p n = m * 2 ^ t" "m < 2 ^ Suc p" "t = 0 \<or> 2 ^ p \<le> m" "n = t * 2 ^ p + m"
proof (cases "n div 2 ^ p = 0")
  case True
  moreover have "n mod 2 ^ p < 2 ^ p" "(2 :: nat) ^ p < 2 ^ Suc p" by simp_all
  moreover have "n = n mod 2 ^ p" using True by (metis div_eq_0_iff mod_less power_not_zero zero_neq_numeral)
  ultimately show ?thesis using that [of "n mod 2 ^ p" 0] by (simp add: fp_mag_def)
next
  case False
  have "n mod 2 ^ p < 2 ^ p" by simp
  moreover have "(n div 2 ^ p - 1) * 2 ^ p + 2 ^ p = n div 2 ^ p * 2 ^ p"
    using False by (simp add: diff_mult_distrib)
  then have "(n div 2 ^ p - 1) * 2 ^ p + (2 ^ p + n mod 2 ^ p) = n"
    using div_mult_mod_eq [of n "2 ^ p"] by linarith
  ultimately show ?thesis
    using False that [of "2 ^ p + n mod 2 ^ p" "n div 2 ^ p - 1"] by (simp add: fp_mag_def Let_def)
qed

lemma fp_mag_encode:
  assumes "n \<le> 2 ^ Suc p" and "s = 0 \<or> 2 ^ p \<le> n"
  shows "fp_mag p (s * 2 ^ p + n) = n * 2 ^ s"
proof -
  have pos: "(0 :: nat) < 2 ^ p" by simp
  consider "n < 2 ^ p" | "2 ^ p \<le> n" "n < 2 ^ Suc p" | "n = 2 ^ Suc p" using assms(1) by linarith
  then show ?thesis
  proof cases
    case 1
    with assms(2) have "s = 0" by linarith
    with 1 show ?thesis by (simp add: fp_mag_def)
  next
    case 2
    define f where "f = n - 2 ^ p"
    have f: "f < 2 ^ p" "n = 2 ^ p + f" using 2 by (simp_all add: f_def)
    then have "s * 2 ^ p + n = f + (s + 1) * 2 ^ p" by simp
    then have "(s * 2 ^ p + n) div 2 ^ p = s + 1" "(s * 2 ^ p + n) mod 2 ^ p = f"
      using f(1) by (simp_all only: div_mult_self1 [OF power_not_zero [OF zero_neq_numeral [symmetric]]]
          div_less mod_mult_self1 mod_less add_0_right)
    with f show ?thesis by (simp add: fp_mag_def)
  next
    case 3
    then have "s * 2 ^ p + n = (s + 2) * 2 ^ p" by simp
    then have "(s * 2 ^ p + n) div 2 ^ p = s + 2" "(s * 2 ^ p + n) mod 2 ^ p = 0"
      by (simp_all only: nonzero_mult_div_cancel_right mod_mult_self2_is_0) simp_all
    with 3 show ?thesis by (simp add: fp_mag_def)
  qed
qed

text \<open>What a rounded magnitude is made of.\<close>

lemma half_even_le: "0 < b \<Longrightarrow> a \<le> m * b \<Longrightarrow> half_even a b \<le> m"
proof -
  assume b: "0 < b" and a: "a \<le> m * b"
  have "a div b \<le> m" using div_le_mono [OF a, of b] b by simp
  moreover have "a mod b = 0 \<or> a div b \<noteq> m" using a div_mult_mod_eq [of a b] by (metis add.commute add_le_same_cancel2 le_zero_eq)
  ultimately have "a div b \<le> m" "a mod b = 0 \<or> a div b < m" by linarith+
  then show ?thesis using b by (auto simp: half_even_def Let_def)
qed

lemma half_even_ge: "0 < b \<Longrightarrow> m * b \<le> a \<Longrightarrow> m \<le> half_even a b"
proof -
  assume b: "0 < b" and a: "m * b \<le> a"
  have "m \<le> a div b" using div_le_mono [OF a, of b] b by simp
  then show ?thesis by (auto simp: half_even_def Let_def)
qed

lemma fp_shift_bounds:
  assumes "0 < b"
  shows "a \<le> 2 ^ Suc p * (b * 2 ^ fp_shift p a b)"
    and "fp_shift p a b = 0 \<or> 2 ^ p * (b * 2 ^ fp_shift p a b) \<le> a"
proof -
  let ?s = "fp_shift p a b" and ?x = "a div b"
  have lt: "a < b * Suc ?x" using assms by (simp add: dividend_less_times_div)
  have le: "b * ?x \<le> a" by simp
  have "a \<le> 2 ^ Suc p * (b * 2 ^ ?s) \<and> (?s = 0 \<or> 2 ^ p * (b * 2 ^ ?s) \<le> a)"
  proof (cases "?x = 0")
    case True
    then have "a < b" using assms by (simp add: div_eq_0_iff)
    moreover have "b * 1 \<le> b * 2 ^ Suc p" by (intro mult_le_mono2) simp
    ultimately have "a \<le> 2 ^ Suc p * b" unfolding mult.commute [of "2 ^ Suc p"] by linarith
    then show ?thesis using True by (simp add: fp_shift_def msb_pos.simps)
  next
    case False
    then have m: "2 ^ msb_pos ?x \<le> ?x" "?x < 2 ^ Suc (msb_pos ?x)" using msb_pos_bounds by auto
    have "msb_pos ?x \<le> p + ?s" by (simp add: fp_shift_def)
    then have "(2 :: nat) ^ Suc (msb_pos ?x) \<le> 2 ^ (Suc p + ?s)" by simp
    with m(2) have "Suc ?x \<le> 2 ^ (Suc p + ?s)" by linarith
    then have "b * Suc ?x \<le> b * 2 ^ (Suc p + ?s)" by (rule mult_le_mono2)
    with lt have "a \<le> 2 ^ Suc p * (b * 2 ^ ?s)" by (simp add: power_add algebra_simps)
    moreover have "2 ^ p * (b * 2 ^ ?s) \<le> a" if "?s \<noteq> 0"
    proof -
      have "p + ?s = msb_pos ?x" using that by (simp add: fp_shift_def)
      then have "b * 2 ^ (p + ?s) \<le> b * ?x" using m(1) by (intro mult_le_mono2) simp
      from order_trans [OF this le] show ?thesis by (simp add: power_add algebra_simps)
    qed
    ultimately show ?thesis by blast
  qed
  then show "a \<le> 2 ^ Suc p * (b * 2 ^ ?s)" "?s = 0 \<or> 2 ^ p * (b * 2 ^ ?s) \<le> a" by simp_all
qed

lemma fp_round_mag:
  assumes "0 < b" and "fp_round p ew a b < fp_inf p ew"
  shows "fp_mag p (fp_round p ew a b) = half_even a (b * 2 ^ fp_shift p a b) * 2 ^ fp_shift p a b"
proof -
  let ?s = "fp_shift p a b"
  have b: "0 < b * 2 ^ ?s" using assms(1) by simp
  have "half_even a (b * 2 ^ ?s) \<le> 2 ^ Suc p"
    using half_even_le [OF b fp_shift_bounds(1) [OF assms(1)]] .
  moreover have "?s = 0 \<or> 2 ^ p \<le> half_even a (b * 2 ^ ?s)"
    using half_even_ge [OF b] fp_shift_bounds(2) [OF assms(1)] by blast
  ultimately have "fp_mag p (?s * 2 ^ p + half_even a (b * 2 ^ ?s)) = half_even a (b * 2 ^ ?s) * 2 ^ ?s"
    by (rule fp_mag_encode)
  moreover have "fp_round p ew a b = ?s * 2 ^ p + half_even a (b * 2 ^ ?s)"
    using assms(2) by (simp add: fp_round_def Let_def)
  ultimately show ?thesis by simp
qed

text \<open>The result is a nearest one among all magnitudes that the format has.\<close>

lemma fp_round_nearest:
  assumes "0 < b" and "fp_round p ew a b < fp_inf p ew"
  shows "\<bar>int (fp_mag p (fp_round p ew a b) * b) - int a\<bar> \<le> \<bar>int (fp_mag p y * b) - int a\<bar>"
proof -
  let ?s = "fp_shift p a b"
  have b: "0 < b * 2 ^ ?s" using assms(1) by simp
  have r: "fp_mag p (fp_round p ew a b) * b = half_even a (b * 2 ^ ?s) * (b * 2 ^ ?s)"
    by (simp add: fp_round_mag [OF assms])
  obtain m t where y: "fp_mag p y = m * 2 ^ t" "m < 2 ^ Suc p" by (rule fp_mag_cases)
  show ?thesis
  proof (cases "?s \<le> t")
    case True
    then have "fp_mag p y * b = (m * 2 ^ (t - ?s)) * (b * 2 ^ ?s)"
      by (simp add: y power_add [symmetric])
    then show ?thesis unfolding r by (simp only: half_even_nearest [OF b])
  next
    case False
    then have "?s \<noteq> 0" "Suc t \<le> ?s" by simp_all
    have "m * 2 ^ t \<le> 2 ^ Suc p * 2 ^ t" using y(2) by (intro mult_le_mono1) simp
    also have "\<dots> = 2 ^ (p + Suc t)" by (simp add: power_add)
    also have "\<dots> \<le> 2 ^ (p + ?s)" using \<open>Suc t \<le> ?s\<close> by (intro power_increasing) simp_all
    finally have "fp_mag p y * b \<le> 2 ^ (p + ?s) * b" unfolding y by (rule mult_le_mono1)
    also have "2 ^ (p + ?s) * b = 2 ^ p * (b * 2 ^ ?s)" by (simp add: power_add)
    finally have "fp_mag p y * b \<le> 2 ^ p * (b * 2 ^ ?s)" .
    moreover have "2 ^ p * (b * 2 ^ ?s) \<le> a"
      using fp_shift_bounds(2) [OF assms(1), of p a] \<open>?s \<noteq> 0\<close> by blast
    ultimately have "\<bar>int (2 ^ p * (b * 2 ^ ?s)) - int a\<bar> \<le> \<bar>int (fp_mag p y * b) - int a\<bar>"
      by linarith
    then show ?thesis unfolding r using half_even_nearest [OF b, of a "2 ^ p"] by linarith
  qed
qed

text \<open>A number that the format has is not changed.\<close>

lemma half_even_exact: "0 < b \<Longrightarrow> half_even (m * b) b = m"
  by (simp add: half_even_def)

lemma fp_round_exact:
  assumes "0 < c" and "n < fp_inf p ew"
  shows "fp_round p ew (fp_mag p n * c) c = n"
proof -
  obtain m t where n: "fp_mag p n = m * 2 ^ t" "m < 2 ^ Suc p" "t = 0 \<or> 2 ^ p \<le> m" "n = t * 2 ^ p + m"
    by (rule fp_mag_cases)
  have "fp_shift p (fp_mag p n * c) c = t"
  proof (cases "2 ^ p \<le> m")
    case True
    then have "2 ^ (p + t) \<le> m * 2 ^ t" "m * 2 ^ t < 2 ^ Suc (p + t)" "0 < m * 2 ^ t"
      using n(2) by (simp_all add: power_add less_le_trans [of 0 "2 ^ p" m])
    moreover have "msb_pos k = j" if "2 ^ j \<le> k" "k < 2 ^ Suc j" "0 < k" for j k :: nat
    proof (rule antisym)
      show "msb_pos k \<le> j" "j \<le> msb_pos k"
        using msb_pos_bounds [of k] that by (intro two_power_less, linarith)+
    qed
    ultimately have "msb_pos (m * 2 ^ t) = p + t" by blast
    then show ?thesis using assms(1) by (simp add: fp_shift_def n(1))
  next
    case False
    then have "t = 0" using n(3) by blast
    moreover have "msb_pos m \<le> p"
      using msb_pos_less [of m "Suc p"] n(2) by simp
    ultimately show ?thesis using assms(1) by (simp add: fp_shift_def n(1))
  qed
  moreover have "half_even (fp_mag p n * c) (c * 2 ^ t) = m"
    using half_even_exact [of "c * 2 ^ t" m] assms(1) by (simp add: n(1) algebra_simps)
  ultimately show ?thesis using assms(2) n(4) by (simp add: fp_round_def Let_def)
qed

section \<open>Signs\<close>

lemma fp_inf_less: "fp_inf p ew < 2 ^ (p + ew)"
proof -
  have "(2 ^ ew - 1) * 2 ^ p < 2 ^ ew * (2 ^ p :: nat)" by (rule mult_strict_right_mono) simp_all
  then show ?thesis by (simp add: fp_inf_def power_add mult.commute)
qed

lemma fp_signed_fields:
  assumes "m < 2 ^ (p + ew)"
  shows "fp_neg p ew (fp_signed p ew neg m) \<longleftrightarrow> neg" and "fp_abs p ew (fp_signed p ew neg m) = m"
proof -
  have "(D + m) div D = 1" "(D + m) mod D = m" "m div D = 0" "m mod D = m" if "m < D" for D
    using that by (simp_all add: div_add_self1)
  note d = this [OF assms]
  show "fp_neg p ew (fp_signed p ew neg m) \<longleftrightarrow> neg" "fp_abs p ew (fp_signed p ew neg m) = m"
    unfolding fp_neg_def fp_abs_def fp_signed_def
    by (cases neg; simp only: d if_True if_False add_0; simp)+
qed

lemma fp_signed_whole:
  assumes "n < 2 ^ Suc (p + ew)" shows "fp_signed p ew (fp_neg p ew n) (fp_abs p ew n) = n"
proof -
  have "n div 2 ^ (p + ew) < 2" by (rule less_mult_imp_div_less) (use assms in simp)
  then have "n div 2 ^ (p + ew) = 0 \<or> n div 2 ^ (p + ew) = 1" by linarith
  then show ?thesis
    using div_mult_mod_eq [of n "2 ^ (p + ew)"] by (auto simp: fp_signed_def fp_neg_def fp_abs_def)
qed

lemma fp_round_le: "fp_round p ew a b \<le> fp_inf p ew"
  by (simp add: fp_round_def Let_def)

text \<open>Among numbers with signs the nearest one has the sign of the exact result.\<close>

definition fp_nearest :: "nat \<Rightarrow> nat \<Rightarrow> int \<Rightarrow> int \<Rightarrow> nat \<Rightarrow> bool" where
  "fp_nearest p ew num den r \<longleftrightarrow>
     (fp_finite p ew r \<longrightarrow>
       (\<forall>y. \<bar>fp_value p ew r * den - num\<bar> \<le> \<bar>fp_value p ew y * den - num\<bar>))"

lemma fp_nearest_round:
  assumes "0 < b"
  shows "fp_nearest p ew (if neg then - int a else int a) (int b) (fp_signed p ew neg (fp_round p ew a b))"
  unfolding fp_nearest_def
proof (intro impI allI)
  fix y
  let ?r = "fp_round p ew a b" and ?v = "\<lambda>n. int (fp_mag p (fp_abs p ew n))"
  assume "fp_finite p ew (fp_signed p ew neg ?r)"
  moreover have "?r < 2 ^ (p + ew)" using fp_inf_less [of p ew] fp_round_le [of p ew a b] by linarith
  note f = fp_signed_fields [OF this]
  ultimately have "?r < fp_inf p ew" by (simp add: fp_finite_def f)
  from fp_round_nearest [OF assms(1) this, of "fp_abs p ew y"]
  have near: "\<bar>int (fp_mag p ?r) * int b - int a\<bar> \<le> \<bar>?v y * int b - int a\<bar>" by simp
  have val: "fp_value p ew (fp_signed p ew neg ?r) = (if neg then - int (fp_mag p ?r) else int (fp_mag p ?r))"
    by (simp add: fp_value_def f)
  have pos: "0 \<le> ?v y * int b" "0 \<le> int a" by simp_all
  have "fp_value p ew y * int b = ?v y * int b \<or> fp_value p ew y * int b = - (?v y * int b)"
    by (simp add: fp_value_def)
  then have "\<bar>?v y * int b - int a\<bar> \<le> \<bar>fp_value p ew y * int b - (if neg then - int a else int a)\<bar>"
    using pos by (elim disjE; cases neg; simp only: if_True if_False; linarith)
  moreover have "\<bar>fp_value p ew (fp_signed p ew neg ?r) * int b - (if neg then - int a else int a)\<bar> =
      \<bar>int (fp_mag p ?r) * int b - int a\<bar>"
    by (simp add: val abs_minus_commute)
  ultimately show "\<bar>fp_value p ew (fp_signed p ew neg ?r) * int b - (if neg then - int a else int a)\<bar> \<le>
      \<bar>fp_value p ew y * int b - (if neg then - int a else int a)\<bar>"
    using near by linarith
qed

lemma fp_finite_cases:
  "fp_finite p ew n \<Longrightarrow> \<not> is_fp_nan p ew n \<and> \<not> is_fp_inf p ew n"
  by (simp add: fp_finite_def is_fp_nan_def is_fp_inf_def)

lemma fp_value_sign: "fp_value p ew n = (if fp_neg p ew n then - int (fp_mag p (fp_abs p ew n)) else int (fp_mag p (fp_abs p ew n)))"
  by (simp add: fp_value_def)

lemma fp_add_nearest:
  assumes "fp_finite p ew a" and "fp_finite p ew b"
  shows "fp_nearest p ew (fp_value p ew a + fp_value p ew b) 1 (fp_add p ew a b)"
proof -
  let ?x = "fp_value p ew a + fp_value p ew b"
  have fin: "\<not> is_fp_nan p ew a" "\<not> is_fp_nan p ew b" "\<not> is_fp_inf p ew a" "\<not> is_fp_inf p ew b"
    using fp_finite_cases assms(1,2) by blast+
  show ?thesis
  proof (cases "?x = 0")
    case True
    have "fp_value p ew (fp_signed p ew s 0) = 0" for s
      by (simp add: fp_value_def fp_signed_fields) (simp add: fp_mag_def)
    with True fin show ?thesis by (simp add: fp_add_def fp_nearest_def)
  next
    case False
    then have "fp_add p ew a b = fp_signed p ew (?x < 0) (fp_round p ew (nat \<bar>?x\<bar>) 1)"
      using fin by (simp add: fp_add_def Let_def)
    moreover have "(if ?x < 0 then - int (nat \<bar>?x\<bar>) else int (nat \<bar>?x\<bar>)) = ?x" by simp
    ultimately show ?thesis
      using fp_nearest_round [of 1 p ew "?x < 0" "nat \<bar>?x\<bar>"] by simp
  qed
qed

lemma fp_sub_nearest:
  assumes "fp_finite p ew a" and "fp_finite p ew b"
  shows "fp_nearest p ew (fp_value p ew a - fp_value p ew b) 1 (fp_sub p ew a b)"
proof -
  have b: "fp_abs p ew b < 2 ^ (p + ew)" by (simp add: fp_abs_def)
  have "fp_value p ew (fp_negate p ew b) = - fp_value p ew b" "fp_finite p ew (fp_negate p ew b)"
    using assms(2) by (simp_all add: fp_value_def fp_negate_def fp_finite_def fp_signed_fields [OF b])
  then show ?thesis using fp_add_nearest [OF assms(1), of "fp_negate p ew b"] by (simp add: fp_sub_def)
qed

lemma fp_mul_nearest:
  assumes "fp_finite p ew a" and "fp_finite p ew b"
  shows "fp_nearest p ew (fp_value p ew a * fp_value p ew b) (2 ^ fp_unit p ew) (fp_mul p ew a b)"
proof -
  have fin: "\<not> is_fp_nan p ew a" "\<not> is_fp_nan p ew b" "\<not> is_fp_inf p ew a" "\<not> is_fp_inf p ew b"
    using fp_finite_cases assms(1,2) by blast+
  let ?neg = "fp_neg p ew a \<noteq> fp_neg p ew b" and ?n = "fp_mag p (fp_abs p ew a) * fp_mag p (fp_abs p ew b)"
  have "fp_mul p ew a b = fp_signed p ew ?neg (fp_round p ew ?n (2 ^ fp_unit p ew))"
    using fin by (simp add: fp_mul_def Let_def)
  moreover have "(if ?neg then - int ?n else int ?n) = fp_value p ew a * fp_value p ew b"
    by (simp add: fp_value_def)
  ultimately show ?thesis
    using fp_nearest_round [of "2 ^ fp_unit p ew" p ew ?neg ?n] by simp
qed

lemma fp_div_nearest:
  assumes "fp_finite p ew a" and "fp_finite p ew b" and "fp_value p ew b \<noteq> 0"
  shows "fp_nearest p ew (fp_value p ew a * 2 ^ fp_unit p ew * sgn (fp_value p ew b)) \<bar>fp_value p ew b\<bar> (fp_div p ew a b)"
proof -
  have fin: "\<not> is_fp_nan p ew a" "\<not> is_fp_nan p ew b" "\<not> is_fp_inf p ew a" "\<not> is_fp_inf p ew b"
    using fp_finite_cases assms(1,2) by blast+
  let ?neg = "fp_neg p ew a \<noteq> fp_neg p ew b" and ?y = "fp_mag p (fp_abs p ew b)"
  let ?n = "fp_mag p (fp_abs p ew a) * 2 ^ fp_unit p ew"
  have y: "0 < ?y" using assms(3) by (simp add: fp_value_def split: if_splits)
  then have "fp_div p ew a b = fp_signed p ew ?neg (fp_round p ew ?n ?y)"
    using fin by (simp add: fp_div_def Let_def)
  moreover have "(if ?neg then - int ?n else int ?n) = fp_value p ew a * 2 ^ fp_unit p ew * sgn (fp_value p ew b)"
    using y by (simp add: fp_value_def)
  moreover have "int ?y = \<bar>fp_value p ew b\<bar>" by (simp add: fp_value_def)
  ultimately show ?thesis
    using fp_nearest_round [OF y, of p ew ?neg ?n] by simp
qed

section \<open>Single and double precision\<close>

text \<open>\<open>float\<close> and \<open>double\<close>; a narrowing conversion rounds, a widening one is exact.\<close>

definition f32_add :: "u32 \<Rightarrow> u32 \<Rightarrow> u32" where "f32_add a b = word_of_nat (fp_add 23 8 (unat a) (unat b))"
definition f32_sub :: "u32 \<Rightarrow> u32 \<Rightarrow> u32" where "f32_sub a b = word_of_nat (fp_sub 23 8 (unat a) (unat b))"
definition f32_mul :: "u32 \<Rightarrow> u32 \<Rightarrow> u32" where "f32_mul a b = word_of_nat (fp_mul 23 8 (unat a) (unat b))"
definition f32_div :: "u32 \<Rightarrow> u32 \<Rightarrow> u32" where "f32_div a b = word_of_nat (fp_div 23 8 (unat a) (unat b))"
definition f64_add :: "u64 \<Rightarrow> u64 \<Rightarrow> u64" where "f64_add a b = word_of_nat (fp_add 52 11 (unat a) (unat b))"
definition f64_sub :: "u64 \<Rightarrow> u64 \<Rightarrow> u64" where "f64_sub a b = word_of_nat (fp_sub 52 11 (unat a) (unat b))"
definition f64_mul :: "u64 \<Rightarrow> u64 \<Rightarrow> u64" where "f64_mul a b = word_of_nat (fp_mul 52 11 (unat a) (unat b))"
definition f64_div :: "u64 \<Rightarrow> u64 \<Rightarrow> u64" where "f64_div a b = word_of_nat (fp_div 52 11 (unat a) (unat b))"

definition double_to_float :: "u64 \<Rightarrow> u32" where
  "double_to_float d = word_of_nat (fp_convert 52 11 23 8 (unat d))"

definition int_to_float :: "int \<Rightarrow> u32" where
  "int_to_float i = word_of_nat (fp_of_int 23 8 i)"

text \<open>Results fit their words.\<close>

lemma fp_signed_less: "m < 2 ^ (p + ew) \<Longrightarrow> fp_signed p ew neg m < 2 ^ Suc (p + ew)"
  by (simp add: fp_signed_def)

lemma fp_round_less: "fp_round p ew a b < 2 ^ (p + ew)"
  using fp_inf_less [of p ew] fp_round_le [of p ew a b] by linarith

lemma fp_nan_less: "0 < p \<Longrightarrow> fp_nan p ew < 2 ^ (p + ew)"
proof -
  assume "0 < p"
  then have "(2 :: nat) ^ (p - 1) < 2 ^ p" by simp
  then have "fp_nan p ew < (2 ^ ew - 1) * 2 ^ p + 2 ^ p" by (simp add: fp_nan_def fp_inf_def)
  also have "\<dots> = 2 ^ ew * 2 ^ p" by (simp add: diff_mult_distrib)
  finally show ?thesis by (simp add: power_add mult.commute)
qed

lemma fp_ops_less:
  assumes "0 < p" and "a < 2 ^ Suc (p + ew)" and "b < 2 ^ Suc (p + ew)"
  shows "fp_add p ew a b < 2 ^ Suc (p + ew)" and "fp_sub p ew a b < 2 ^ Suc (p + ew)"
    and "fp_mul p ew a b < 2 ^ Suc (p + ew)" and "fp_div p ew a b < 2 ^ Suc (p + ew)"
proof -
  have nan: "fp_nan p ew < 2 ^ Suc (p + ew)" using fp_nan_less [OF assms(1), of ew] by simp
  note less = fp_signed_less [OF fp_round_less] fp_signed_less [OF fp_inf_less]
    fp_signed_less [of 0] nan
  have add: "fp_add p ew a b < 2 ^ Suc (p + ew)" if "b < 2 ^ Suc (p + ew)" for b
    using assms(2) that less by (simp add: fp_add_def Let_def del: power_Suc)
  show "fp_add p ew a b < 2 ^ Suc (p + ew)" using assms(3) by (rule add)
  have "fp_abs p ew b < 2 ^ (p + ew)" by (simp add: fp_abs_def)
  then show "fp_sub p ew a b < 2 ^ Suc (p + ew)"
    unfolding fp_sub_def fp_negate_def by (intro add fp_signed_less)
  show "fp_mul p ew a b < 2 ^ Suc (p + ew)" "fp_div p ew a b < 2 ^ Suc (p + ew)"
    using less by (simp_all add: fp_mul_def fp_div_def Let_def del: power_Suc)
qed

section \<open>Exact results\<close>

text \<open>\<open>std::ldexp\<close>: times a power of two.\<close>

definition fp_ldexp :: "nat \<Rightarrow> nat \<Rightarrow> nat \<Rightarrow> int \<Rightarrow> nat" where
  "fp_ldexp p ew n k =
     (if is_fp_nan p ew n \<or> is_fp_inf p ew n then n
      else fp_signed p ew (fp_neg p ew n)
        (fp_round p ew (fp_mag p (fp_abs p ew n) * 2 ^ nat k) (2 ^ nat (- k))))"

definition f32_ldexp :: "u32 \<Rightarrow> int \<Rightarrow> u32" where
  "f32_ldexp x k = word_of_nat (fp_ldexp 23 8 (unat x) k)"

text \<open>A magnitude with few enough bits and a small enough scale is one that the format has.\<close>

lemma fp_mag_onto:
  assumes "m < 2 ^ Suc p" and "t + 2 < 2 ^ ew - 1"
  shows "\<exists>y < fp_inf p ew. fp_mag p y = m * 2 ^ t"
  using assms
proof (induction t arbitrary: m)
  case 0
  have "m < 2 * 2 ^ p" using 0 by simp
  also have "\<dots> \<le> (2 ^ ew - 1) * 2 ^ p" using 0 by (intro mult_le_mono1) simp
  finally show ?case
    using fp_mag_encode [of m p 0] 0 by (intro exI [of _ m]) (simp add: fp_inf_def)
next
  case (Suc t)
  show ?case
  proof (cases "2 ^ p \<le> m")
    case True
    let ?y = "Suc t * 2 ^ p + m"
    have "?y < (Suc t + 2) * 2 ^ p" using Suc.prems(1) by simp
    also have "\<dots> \<le> (2 ^ ew - 1) * 2 ^ p" using Suc.prems(2) by (intro mult_le_mono1) simp
    finally show ?thesis
      using fp_mag_encode [of m p "Suc t"] True Suc.prems(1) by (intro exI [of _ ?y]) (simp add: fp_inf_def)
  next
    case False
    then have "2 * m < 2 ^ Suc p" by simp
    from Suc.IH [OF this] Suc.prems(2) show ?thesis by (simp add: ac_simps)
  qed
qed

text \<open>An exact result is not rounded.\<close>

lemma fp_round_same:
  assumes "0 < b" and "m < 2 ^ Suc p" and "t + 2 < 2 ^ ew - 1" and "a = m * 2 ^ t * b"
  shows "fp_round p ew a b < fp_inf p ew" and "fp_mag p (fp_round p ew a b) = m * 2 ^ t"
proof -
  obtain y where y: "y < fp_inf p ew" "fp_mag p y = m * 2 ^ t" using fp_mag_onto [OF assms(2,3)] by blast
  then have "fp_round p ew a b = y" using fp_round_exact [OF assms(1) y(1)] assms(4) by simp
  with y show "fp_round p ew a b < fp_inf p ew" "fp_mag p (fp_round p ew a b) = m * 2 ^ t" by simp_all
qed

lemma fp_mag_inj: "y < fp_inf p ew \<Longrightarrow> z < fp_inf p ew \<Longrightarrow> fp_mag p y = fp_mag p z \<Longrightarrow> y = z"
  using fp_round_exact [of 1 y p ew] fp_round_exact [of 1 z p ew] by simp

end
