(* ===== verification/Values.thy ===== *)
theory Values
  imports Bytes Exceptions Floats "HOL-Library.Signed_Division"
begin

text \<open>
  The value types of \<open>core/include/value.hpp\<close> and \<open>core/src/value.cpp\<close>: the dynamic
  values that packets and operators carry, their casts and checked accessors, the number
  wrappers, tensors and their binary form, and the conversions to and from JSON. The JSON
  and CBOR library (nlohmann) is not part of the repository: its document type is the
  datatype \<open>json\<close>, its encoders are the fields of \<open>codec\<close>.
\<close>

unbundle bit_operations_syntax

section \<open>Values\<close>

record dl_data_type =
  dt_code :: byte
  dt_bits :: byte
  dt_lanes :: u16

record ndarray =
  nd_shape :: "u64 list"
  nd_dtype :: dl_data_type
  nd_data :: "byte list"

text \<open>
  One constructor per subclass of \<open>value_t\<close>. Floating point numbers are their IEEE bit
  patterns, with the arithmetic of \<open>Floats\<close>. The entries of a \<open>map_t\<close> are kept in key order (\<open>put\<close>).
\<close>

datatype val =
    Null_t
  | Bool_t bool
  | Uint_t u64
  | Int_t u64
  | Float_t u32
  | Double_t u64
  | String_t string
  | Bytes_t "byte list"
  | Array_t "val list"
  | Map_t "(string \<times> val) list"
  | Ndarray_t ndarray

text \<open>
  \<open>get_type\<close> is \<open>typeid(..).name()\<close>, whose text the implementation chooses; these are
  the names of the Itanium ABI (gcc and clang).
\<close>

fun get_type :: "val \<Rightarrow> string" where
  "get_type Null_t = ''N5ailoy6null_tE''"
| "get_type (Bool_t _) = ''N5ailoy6bool_tE''"
| "get_type (Uint_t _) = ''N5ailoy6uint_tE''"
| "get_type (Int_t _) = ''N5ailoy5int_tE''"
| "get_type (Float_t _) = ''N5ailoy7float_tE''"
| "get_type (Double_t _) = ''N5ailoy8double_tE''"
| "get_type (String_t _) = ''N5ailoy8string_tE''"
| "get_type (Bytes_t _) = ''N5ailoy7bytes_tE''"
| "get_type (Array_t _) = ''N5ailoy7array_tE''"
| "get_type (Map_t _) = ''N5ailoy5map_tE''"
| "get_type (Ndarray_t _) = ''N5ailoy9ndarray_tE''"

text \<open>\<open>is_type_of<T>()\<close> compares \<open>typeid(T).name()\<close> with \<open>get_type()\<close>.\<close>

definition is_type_of :: "string \<Rightarrow> val \<Rightarrow> bool" where
  "is_type_of tname v \<longleftrightarrow> tname = get_type v"

definition is_null :: "val \<Rightarrow> bool" where "is_null = is_type_of ''N5ailoy6null_tE''"
definition is_bool :: "val \<Rightarrow> bool" where "is_bool = is_type_of ''N5ailoy6bool_tE''"
definition is_uint :: "val \<Rightarrow> bool" where "is_uint = is_type_of ''N5ailoy6uint_tE''"
definition is_int :: "val \<Rightarrow> bool" where "is_int = is_type_of ''N5ailoy5int_tE''"
definition is_string :: "val \<Rightarrow> bool" where "is_string = is_type_of ''N5ailoy8string_tE''"
definition is_array :: "val \<Rightarrow> bool" where "is_array = is_type_of ''N5ailoy7array_tE''"
definition is_map :: "val \<Rightarrow> bool" where "is_map = is_type_of ''N5ailoy5map_tE''"
definition is_ndarray :: "val \<Rightarrow> bool" where "is_ndarray = is_type_of ''N5ailoy9ndarray_tE''"

lemma is_type_simps [simp]:
  "is_null v \<longleftrightarrow> v = Null_t"
  "is_bool v \<longleftrightarrow> (\<exists>b. v = Bool_t b)"
  "is_uint v \<longleftrightarrow> (\<exists>n. v = Uint_t n)"
  "is_int v \<longleftrightarrow> (\<exists>n. v = Int_t n)"
  "is_string v \<longleftrightarrow> (\<exists>s. v = String_t s)"
  "is_array v \<longleftrightarrow> (\<exists>xs. v = Array_t xs)"
  "is_map v \<longleftrightarrow> (\<exists>m. v = Map_t m)"
  "is_ndarray v \<longleftrightarrow> (\<exists>a. v = Ndarray_t a)"
  by (cases v; simp add: is_null_def is_bool_def is_uint_def is_int_def is_string_def
      is_array_def is_map_def is_ndarray_def is_type_of_def)+

text \<open>
  The static \<open>object_cast_t<value_t>::is_type_of\<close>, as written (with \<open>!=\<close>), and the
  throwing \<open>downcast\<close> beside it.
\<close>

definition cast_is_type_of :: "string \<Rightarrow> val \<Rightarrow> bool" where
  "cast_is_type_of tname v \<longleftrightarrow> tname \<noteq> get_type v"

definition value_downcast :: "string \<Rightarrow> val \<Rightarrow> val res" where
  "value_downcast tname v =
     (if tname \<noteq> get_type v
      then Inl (Throw (get_type v @ '' cannot be casted to '' @ tname @ ''.''))
      else Inr v)"

text \<open>
  \<open>as<T>()\<close> is a member of \<open>object_t\<close>, so \<open>decltype(*this)\<close> is \<open>object_t\<close> there and the
  cast it selects is the general \<open>object_cast_t<object_t>\<close>, a \<open>dynamic_pointer_cast\<close>:
  the result is a null pointer (\<open>None\<close>) when the value has another type.
\<close>

fun as_bool :: "val \<Rightarrow> bool option" where
  "as_bool (Bool_t b) = Some b" | "as_bool _ = None"
fun as_uint :: "val \<Rightarrow> u64 option" where
  "as_uint (Uint_t n) = Some n" | "as_uint _ = None"
fun as_int :: "val \<Rightarrow> u64 option" where
  "as_int (Int_t n) = Some n" | "as_int _ = None"
fun as_string :: "val \<Rightarrow> string option" where
  "as_string (String_t s) = Some s" | "as_string _ = None"
fun as_array :: "val \<Rightarrow> val list option" where
  "as_array (Array_t xs) = Some xs" | "as_array _ = None"
fun as_map :: "val \<Rightarrow> (string \<times> val) list option" where
  "as_map (Map_t m) = Some m" | "as_map _ = None"
fun as_ndarray :: "val \<Rightarrow> ndarray option" where
  "as_ndarray (Ndarray_t a) = Some a" | "as_ndarray _ = None"

lemma as_eq_Some [simp]:
  "as_bool v = Some b \<longleftrightarrow> v = Bool_t b"
  "as_uint v = Some n \<longleftrightarrow> v = Uint_t n"
  "as_int v = Some n \<longleftrightarrow> v = Int_t n"
  "as_string v = Some s \<longleftrightarrow> v = String_t s"
  "as_array v = Some xs \<longleftrightarrow> v = Array_t xs"
  "as_map v = Some m \<longleftrightarrow> v = Map_t m"
  "as_ndarray v = Some a \<longleftrightarrow> v = Ndarray_t a"
  by (cases v; auto)+

section \<open>Checked accessors\<close>

text \<open>\<open>array_t::at\<close> and \<open>map_t::at\<close>; the typed forms cast what they find.\<close>

definition array_at :: "val list \<Rightarrow> nat \<Rightarrow> val res" where
  "array_at xs idx =
     (if idx \<ge> length xs then Inl (Throw (''out of range: '' @ show_nat idx)) else Inr (xs ! idx))"

definition array_at_as :: "(val \<Rightarrow> 'a option) \<Rightarrow> val list \<Rightarrow> nat \<Rightarrow> 'a option res" where
  "array_at_as cast xs idx = mapR_res cast (array_at xs idx)"

definition map_contains :: "(string \<times> val) list \<Rightarrow> string \<Rightarrow> bool" where
  "map_contains m key \<longleftrightarrow> map_of m key \<noteq> None"

definition map_at :: "(string \<times> val) list \<Rightarrow> string \<Rightarrow> val res" where
  "map_at m key =
     (case map_of m key of None \<Rightarrow> Inl (Throw (''key not exists: '' @ key)) | Some v \<Rightarrow> Inr v)"

definition map_at_as :: "(val \<Rightarrow> 'a option) \<Rightarrow> (string \<times> val) list \<Rightarrow> string \<Rightarrow> 'a option res" where
  "map_at_as cast m key = mapR_res cast (map_at m key)"

definition map_at_default ::
  "(val \<Rightarrow> 'a option) \<Rightarrow> (string \<times> val) list \<Rightarrow> string \<Rightarrow> 'a \<Rightarrow> 'a option" where
  "map_at_default cast m key dflt =
     (case map_of m key of None \<Rightarrow> Some dflt | Some v \<Rightarrow> cast v)"

text \<open>\<open>*m->at<T>(key)\<close> and \<open>*xs->at<T>(idx)\<close>.\<close>

definition map_get :: "(val \<Rightarrow> 'a option) \<Rightarrow> (string \<times> val) list \<Rightarrow> string \<Rightarrow> 'a res" where
  "map_get cast m key = bindR (map_at_as cast m key) deref"

definition array_get :: "(val \<Rightarrow> 'a option) \<Rightarrow> val list \<Rightarrow> nat \<Rightarrow> 'a res" where
  "array_get cast xs idx = bindR (array_at_as cast xs idx) deref"

lemma map_at_simps [res_simps]:
  "map_of m k = None \<Longrightarrow> map_at m k = Inl (Throw (''key not exists: '' @ k))"
  "map_of m k = Some v \<Longrightarrow> map_at m k = Inr v"
  by (simp_all add: map_at_def)

lemma map_get_eq_Inr [res_simps]:
  "map_get cast m k = Inr a \<longleftrightarrow> (\<exists>v. map_of m k = Some v \<and> cast v = Some a)"
  by (auto simp: map_get_def map_at_as_def map_at_def bindR_eq_Inr mapR_res_def deref_eq_Inr
      split: option.splits)

lemma array_get_eq_Inr [res_simps]:
  "array_get cast xs i = Inr a \<longleftrightarrow> i < length xs \<and> cast (xs ! i) = Some a"
  by (auto simp: array_get_def array_at_as_def array_at_def bindR_eq_Inr mapR_res_def deref_eq_Inr)

lemma array_get_out_of_range:
  "length xs \<le> i \<Longrightarrow> array_get cast xs i = Inl (Throw (''out of range: '' @ show_nat i))"
  by (simp add: array_get_def array_at_as_def array_at_def)

lemma array_get_wrong_type:
  "i < length xs \<Longrightarrow> cast (xs ! i) = None \<Longrightarrow>
     array_get cast xs i = Inl (UB ''null pointer dereference'')"
  by (simp add: array_get_def array_at_as_def array_at_def)

section \<open>Number wrappers\<close>

text \<open>
  \<open>uint_t\<close> wraps \<open>unsigned long long\<close>: its operators wrap around; a division by zero is
  undefined. The increment returns the new wrapper state and the value of the expression.
\<close>

definition uint_add :: "u64 \<Rightarrow> u64 \<Rightarrow> u64" where "uint_add a b = a + b"
definition uint_sub :: "u64 \<Rightarrow> u64 \<Rightarrow> u64" where "uint_sub a b = a - b"
definition uint_mul :: "u64 \<Rightarrow> u64 \<Rightarrow> u64" where "uint_mul a b = a * b"
definition uint_div :: "u64 \<Rightarrow> u64 \<Rightarrow> u64 res" where
  "uint_div a b = (if b = 0 then Inl (UB ''division by zero'') else Inr (a div b))"
definition uint_pre_inc :: "u64 \<Rightarrow> u64 \<times> u64" where "uint_pre_inc a = (a + 1, a + 1)"
definition uint_post_inc :: "u64 \<Rightarrow> u64 \<times> u64" where "uint_post_inc a = (a + 1, a)"
definition uint_pre_dec :: "u64 \<Rightarrow> u64 \<times> u64" where "uint_pre_dec a = (a - 1, a - 1)"
definition uint_post_dec :: "u64 \<Rightarrow> u64 \<times> u64" where "uint_post_dec a = (a - 1, a)"

text \<open>
  \<open>int_t\<close> wraps \<open>long long\<close>: a result outside its range, a division by zero and the
  quotient that does not fit are undefined. Division truncates towards zero.
\<close>

definition in_i64 :: "int \<Rightarrow> bool" where
  "in_i64 i \<longleftrightarrow> - (2 ^ 63) \<le> i \<and> i < 2 ^ 63"

definition int_result :: "int \<Rightarrow> u64 res" where
  "int_result i = (if in_i64 i then Inr (word_of_int i) else Inl (UB ''signed integer overflow''))"

definition int_add :: "u64 \<Rightarrow> u64 \<Rightarrow> u64 res" where "int_add a b = int_result (sint a + sint b)"
definition int_sub :: "u64 \<Rightarrow> u64 \<Rightarrow> u64 res" where "int_sub a b = int_result (sint a - sint b)"
definition int_mul :: "u64 \<Rightarrow> u64 \<Rightarrow> u64 res" where "int_mul a b = int_result (sint a * sint b)"
definition int_div :: "u64 \<Rightarrow> u64 \<Rightarrow> u64 res" where
  "int_div a b =
     (if b = 0 then Inl (UB ''division by zero'') else int_result (sint a sdiv sint b))"
definition int_pre_inc :: "u64 \<Rightarrow> (u64 \<times> u64) res" where
  "int_pre_inc a = mapR_res (\<lambda>b. (b, b)) (int_result (sint a + 1))"
definition int_post_inc :: "u64 \<Rightarrow> (u64 \<times> u64) res" where
  "int_post_inc a = mapR_res (\<lambda>b. (b, a)) (int_result (sint a + 1))"
definition int_pre_dec :: "u64 \<Rightarrow> (u64 \<times> u64) res" where
  "int_pre_dec a = mapR_res (\<lambda>b. (b, b)) (int_result (sint a - 1))"
definition int_post_dec :: "u64 \<Rightarrow> (u64 \<times> u64) res" where
  "int_post_dec a = mapR_res (\<lambda>b. (b, a)) (int_result (sint a - 1))"

lemma in_i64_sint: "in_i64 (sint (w :: u64))"
  using sint_lt [of w] sint_ge [of w] by (simp add: in_i64_def)

lemma sint_int_result: "int_result i = Inr w \<Longrightarrow> sint w = i"
  by (auto simp: int_result_def in_i64_def sint_sbintrunc' signed_take_bit_int_eq_self
      split: if_splits)

text \<open>
  \<open>string_t::operator+\<close>. Inside it, \<open>*this + v\<close> selects the member itself: its first
  argument needs no conversion, while the library's operator would have to convert
  \<open>string_t\<close> to its base. The definition is that call; \<open>None\<close> is "does not return".
\<close>

partial_function (option) string_plus :: "string \<Rightarrow> string \<Rightarrow> string option" where
  "string_plus this v = string_plus this v"

definition string_plus_string_t :: "string \<Rightarrow> string \<Rightarrow> string option" where
  "string_plus_string_t this v = string_plus this v"

section \<open>Tensors\<close>

text \<open>
  \<open>itemsize\<close> is computed in \<open>int\<close>, where it cannot overflow. The element count is
  folded with \<open>std::multiplies<int>\<close> from an \<open>int\<close> 1: each dimension is converted to a
  32-bit \<open>int\<close> and an overflow is undefined; \<open>size()\<close> then converts it to \<open>size_t\<close>.
  \<open>std::reduce\<close> leaves the order open; the model goes from left to right.
\<close>

definition itemsize :: "ndarray \<Rightarrow> u64" where
  "itemsize a =
     word_of_nat ((unat (dt_bits (nd_dtype a)) * unat (dt_lanes (nd_dtype a)) + 7) div 8)"

fun reduce_int :: "int \<Rightarrow> u64 list \<Rightarrow> int res" where
  "reduce_int acc [] = Inr acc"
| "reduce_int acc (d # ds) =
     (let p = acc * sint (ucast d :: u32)
      in if - (2 ^ 31) \<le> p \<and> p < 2 ^ 31 then reduce_int p ds
         else Inl (UB ''signed integer overflow''))"

definition nd_size :: "ndarray \<Rightarrow> u64 res" where
  "nd_size a = bindR (reduce_int 1 (nd_shape a)) (\<lambda>n. Inr (word_of_int n * itemsize a))"

text \<open>The conversion to \<open>std::vector<float>\<close>: reads \<open>size() / 4\<close> floats from the data.\<close>

definition nd_floats :: "ndarray \<Rightarrow> u32 list res" where
  "nd_floats a =
     bindR (nd_size a) (\<lambda>n.
     bindR (get_many (unat n div 4) get_u32 (nd_data a)) (\<lambda>(fs, _). Inr fs))"

fun join_dims :: "u64 list \<Rightarrow> string" where
  "join_dims [] = []"
| "join_dims [d] = show_u64 d"
| "join_dims (d # ds) = show_u64 d @ '', '' @ join_dims ds"

definition shape_str :: "ndarray \<Rightarrow> string" where
  "shape_str a = ''['' @ join_dims (nd_shape a) @ '']''"

text \<open>The constructor with shape, type and data.\<close>

definition make_ndarray :: "u64 list \<Rightarrow> dl_data_type \<Rightarrow> byte list \<Rightarrow> ndarray" where
  "make_ndarray shape dtype data = \<lparr>nd_shape = shape, nd_dtype = dtype, nd_data = data\<rparr>"

text \<open>\<open>DLDataType\<close> is four bytes: code, bits and the 16-bit lanes.\<close>

definition put_dtype :: "dl_data_type \<Rightarrow> byte list" where
  "put_dtype t = [dt_code t, dt_bits t] @ put_u16 (dt_lanes t)"

definition get_dtype :: "dl_data_type reader" where
  "get_dtype bs =
     bindR (take_bytes 4 bs) (\<lambda>(xs, rest).
     bindR (get_u16 (drop 2 xs)) (\<lambda>(l, _).
       Inr (\<lparr>dt_code = xs ! 0, dt_bits = xs ! 1, dt_lanes = l\<rparr>, rest)))"

interpretation fmtdt: byte_format put_dtype get_dtype 4
proof unfold_locales
  show "get_dtype (put_dtype t @ rest) = Inr (t, rest)" for t rest
    using get_put_word(1) [of "dt_lanes t" "[]"]
    by (simp add: get_dtype_def put_dtype_def put_u16_def take_bytes_def)
qed (simp_all add: put_dtype_def get_dtype_def put_u16_def take_bytes_def)

text \<open>
  The bytes of \<open>ndarray_t::to_nlohmann_json\<close>: number of dimensions and dimensions as
  32-bit numbers (a larger one is cut), the type, the 64-bit data length and the data.
  \<open>read_ndarray\<close> is \<open>from_nlohmann_json\<close>.
\<close>

definition dump_ndarray :: "ndarray \<Rightarrow> byte list" where
  "dump_ndarray a =
     put_u32 (word_of_nat (length (nd_shape a))) @
     concat (map (\<lambda>d. put_u32 (ucast d)) (nd_shape a)) @
     put_dtype (nd_dtype a) @
     put_u64 (word_of_nat (length (nd_data a))) @
     nd_data a"

definition read_ndarray :: "byte list \<Rightarrow> ndarray res" where
  "read_ndarray bs =
     bindR (get_u32 bs) (\<lambda>(ndim, bs1).
     bindR (get_many (unat ndim) get_u32 bs1) (\<lambda>(dims, bs2).
     bindR (get_dtype bs2) (\<lambda>(dtype, bs3).
     bindR (get_u64 bs3) (\<lambda>(n, bs4).
     bindR (take_bytes (unat n) bs4) (\<lambda>(data, _).
       Inr \<lparr>nd_shape = map ucast dims, nd_dtype = dtype, nd_data = data\<rparr>)))))"

text \<open>A tensor survives its binary form when its dimensions fit in 32 bits.\<close>

definition nd_ok :: "ndarray \<Rightarrow> bool" where
  "nd_ok a \<longleftrightarrow> length (nd_shape a) < 2 ^ 32 \<and> (\<forall>d \<in> set (nd_shape a). unat d < 2 ^ 32) \<and>
     length (nd_data a) < 2 ^ 64"

lemma read_ndarray_ok: "read_ndarray bs = Inr a \<Longrightarrow> nd_ok a"
proof -
  assume "read_ndarray bs = Inr a"
  then obtain ndim bs1 dims bs2 dtype n bs3 data bs4 where *:
    "get_many (unat (ndim :: u32)) get_u32 bs1 = Inr (dims, bs2)" "take_bytes (unat (n :: u64)) bs3 = Inr (data, bs4)"
    "a = \<lparr>nd_shape = map ucast dims, nd_dtype = dtype, nd_data = data\<rparr>"
    by (auto simp: read_ndarray_def bindR_eq_Inr split: prod.splits)
  have "length dims = unat ndim" by (rule get_many_length [OF *(1)])
  moreover have "length data = unat n" using *(2) by (auto simp: take_bytes_def split: if_splits)
  moreover have "unat (ucast d :: u64) < 2 ^ 32" for d :: u32
    using unsigned_less [of d, where 'a = nat] by (simp add: unsigned_ucast_eq take_bit_nat_eq_self)
  ultimately show "nd_ok a"
    using unsigned_less [of ndim, where 'a = nat] unsigned_less [of n, where 'a = nat] by (auto simp: nd_ok_def *(3))
qed

lemma ucast_small: "unat (d :: u64) < 2 ^ 32 \<Longrightarrow> ucast (ucast d :: u32) = d"
  by (simp add: word_unat_eq_iff unsigned_ucast_eq unsigned_take_bit_eq take_bit_nat_eq_self)

lemma read_dump_ndarray:
  assumes "nd_ok a"
  shows "read_ndarray (dump_ndarray a) = Inr a"
proof -
  let ?dims = "map (\<lambda>d. ucast d :: u32) (nd_shape a)"
  have n: "unat (word_of_nat (length (nd_shape a)) :: u32) = length ?dims"
    and m: "unat (word_of_nat (length (nd_data a)) :: u64) = length (nd_data a)"
    using assms by (simp_all add: nd_ok_def unat_of_nat)
  have dims: "map ucast ?dims = nd_shape a"
    using assms by (simp add: nd_ok_def ucast_small map_idI)
  have many: "get_many (length ?dims) get_u32 (concat (map put_u32 ?dims) @ rest) =
      Inr (?dims, rest)" for rest
    by (rule fmt32.get_many_enc)
  show ?thesis
    using many dims
    by (simp add: read_ndarray_def dump_ndarray_def n m comp_def fmtdt.dec_enc take_bytes_def)
qed

end
