(* ===== verification/Json.thy ===== *)
theory Json
  imports Values
begin

text \<open>
  Conversions between values and JSON documents, and the byte encodings built on them
  (\<open>to_nlohmann_json\<close>, \<open>from_nlohmann_json\<close>, \<open>encode\<close> and \<open>decode\<close> of
  \<open>core/include/value.hpp\<close> and \<open>core/src/value.cpp\<close>). \<open>json\<close> is the document type of
  the JSON library; \<open>codec\<close> holds the library functions the code calls.
\<close>

datatype json =
    JNull
  | JBool bool
  | JInt u64
  | JUint u64
  | JFloat u64
  | JString string
  | JBinary "byte list" "u64 option"
  | JArray "json list"
  | JObject "(string \<times> json) list"

record codec =
  cbor_out :: "json \<Rightarrow> byte list"
  cbor_in :: "byte list \<Rightarrow> json option"
  json_dump :: "json \<Rightarrow> string option"
  json_parse :: "string \<Rightarrow> json option"

section \<open>Widening a float\<close>

text \<open>
  A JSON number is a \<open>double\<close>: storing a \<open>float\<close> converts it, which is exact. On the
  bit patterns: sign, then the exponent rebiased from 127 to 1023 and the mantissa moved
  to the top of its 52 bits; a subnormal is normalised, a NaN becomes quiet.
\<close>

definition float_to_double :: "u32 \<Rightarrow> u64" where
  "float_to_double w =
     (let n = unat w; s = n div 2 ^ 31; e = n div 2 ^ 23 mod 256; m = n mod 2 ^ 23;
          sgn = s * 2 ^ 63
      in word_of_nat
        (if e = 255 then
           if m = 0 then sgn + 2047 * 2 ^ 52
           else sgn + 2047 * 2 ^ 52 + (if m < 2 ^ 22 then 2 ^ 51 else 0) + m * 2 ^ 29
         else if e = 0 then
           if m = 0 then sgn
           else let k = msb_pos m in sgn + (k + 874) * 2 ^ 52 + (m - 2 ^ k) * 2 ^ (52 - k)
         else sgn + (e + 896) * 2 ^ 52 + m * 2 ^ 29))"

section \<open>Values to documents and back\<close>

fun to_json :: "val \<Rightarrow> json" where
  "to_json Null_t = JNull"
| "to_json (Bool_t b) = JBool b"
| "to_json (Uint_t n) = JUint n"
| "to_json (Int_t i) = JInt i"
| "to_json (Float_t f) = JFloat (float_to_double f)"
| "to_json (Double_t d) = JFloat d"
| "to_json (String_t s) = JString s"
| "to_json (Bytes_t bs) = JBinary bs None"
| "to_json (Array_t xs) = JArray (map to_json xs)"
| "to_json (Map_t m) = JObject (map (\<lambda>e. (fst e, to_json (snd e))) m)"
| "to_json (Ndarray_t a) = JBinary (dump_ndarray a) (Some 1801)"

definition put_all :: "(string \<times> 'a) list \<Rightarrow> (string \<times> 'a) list" where
  "put_all es = fold (\<lambda>e. put (fst e) (snd e)) es []"

fun from_json :: "json \<Rightarrow> val res" where
  "from_json JNull = Inr Null_t"
| "from_json (JBool b) = Inr (Bool_t b)"
| "from_json (JString s) = Inr (String_t s)"
| "from_json (JBinary bin sub) =
     (case sub of
        Some code \<Rightarrow>
          if code = 1801 then mapR_res Ndarray_t (read_ndarray bin)
          else Inl (Throw ''Cannot handle code'')
      | None \<Rightarrow> Inr (Bytes_t bin))"
| "from_json (JInt i) = Inr (Int_t i)"
| "from_json (JUint n) = Inr (Uint_t n)"
| "from_json (JFloat d) = Inr (Double_t d)"
| "from_json (JArray js) = mapR_res Array_t (mapR from_json js)"
| "from_json (JObject m) =
     mapR_res (\<lambda>es. Map_t (put_all es))
       (mapR (\<lambda>e. mapR_res (Pair (fst e)) (from_json (snd e))) m)"

text \<open>What the model asks of a value: its maps are in key order, its tensors fit.\<close>

fun val_ok :: "val \<Rightarrow> bool" where
  "val_ok (Array_t xs) = (\<forall>x \<in> set xs. val_ok x)"
| "val_ok (Map_t m) = (dict_ok m \<and> (\<forall>e \<in> set m. val_ok (snd e)))"
| "val_ok (Ndarray_t a) = nd_ok a"
| "val_ok _ = True"

fun widen :: "val \<Rightarrow> val" where
  "widen (Float_t f) = Double_t (float_to_double f)"
| "widen (Array_t xs) = Array_t (map widen xs)"
| "widen (Map_t m) = Map_t (map (\<lambda>e. (fst e, widen (snd e))) m)"
| "widen v = v"

lemma dict_ok_map_values: "dict_ok (map (\<lambda>e. (fst e, f (snd e))) m) \<longleftrightarrow> dict_ok m"
  by (simp add: dict_ok_def comp_def)

lemma map_of_rev_distinct: "distinct (map fst m) \<Longrightarrow> map_of (rev m) = map_of m"
  by (simp add: map_of_inject_set rev_map [symmetric])

lemma put_all_dict: "dict_ok m \<Longrightarrow> put_all m = m"
proof (rule dict_ok_ext)
  assume m: "dict_ok m"
  show "dict_ok (put_all m)"
    unfolding put_all_def by (rule umap.ok_assign_all) simp
  show "map_of (put_all m) j = map_of m j" for j
    using m by (simp add: put_all_def umap.look_assign_all dict_ok_distinct map_of_rev_distinct
        split: option.splits)
qed

lemma mapR_from_entries:
  assumes "\<And>e. e \<in> set m \<Longrightarrow> from_json (f (snd e)) = Inr (g (snd e))"
  shows "mapR (\<lambda>e. mapR_res (Pair (fst e)) (from_json (snd e))) (map (\<lambda>e. (fst e, f (snd e))) m) =
    Inr (map (\<lambda>e. (fst e, g (snd e))) m)"
  using assms by (induction m) auto

lemma from_to_json: "val_ok v \<Longrightarrow> from_json (to_json v) = Inr (widen v)"
proof (induction v rule: to_json.induct)
  case (9 xs)
  then have "mapR from_json (map to_json xs) = Inr (map widen xs)"
    by (induction xs) auto
  then show ?case by simp
next
  case (10 m)
  then have "from_json (to_json (snd e)) = Inr (widen (snd e))" if "e \<in> set m" for e
    using that by (cases e) fastforce
  then show ?case
    using 10 by (simp add: mapR_from_entries put_all_dict dict_ok_map_values)
qed (simp_all add: read_dump_ndarray)

text \<open>Whatever document a value is made from, it is well formed.\<close>

lemma put_all_ok: "dict_ok (put_all es)"
  unfolding put_all_def by (rule umap.ok_assign_all) simp

lemma set_put_all: "e \<in> set (put_all es) \<Longrightarrow> e \<in> set es"
proof -
  have "e \<in> set (fold (\<lambda>e. put (fst e) (snd e)) es m) \<Longrightarrow> e \<in> set m \<union> set es" for m
    by (induction es arbitrary: m) (fastforce dest: set_putD)+
  then show "e \<in> set (put_all es) \<Longrightarrow> e \<in> set es" by (fastforce simp: put_all_def)
qed

lemma from_json_ok: "from_json j = Inr v \<Longrightarrow> val_ok v"
proof (induction j arbitrary: v rule: from_json.induct)
  case (4 bin sub)
  then show ?case by (auto simp: mapR_res_def bindR_eq_Inr read_ndarray_ok split: option.splits if_splits)
next
  case (8 js)
  then obtain xs where xs: "mapR from_json js = Inr xs" "v = Array_t xs" by (auto simp: mapR_res_def bindR_eq_Inr)
  with mapR_set [OF xs(1)] "8.IH" show ?case by fastforce
next
  case (9 m)
  then obtain es where es: "mapR (\<lambda>e. mapR_res (Pair (fst e)) (from_json (snd e))) m = Inr es" "v = Map_t (put_all es)"
    by (auto simp: mapR_res_def bindR_eq_Inr)
  have "val_ok (snd e)" if "e \<in> set (put_all es)" for e
    using mapR_set [OF es(1) set_put_all [OF that]] "9.IH" by (auto simp: mapR_res_def bindR_eq_Inr)
  then show ?case by (simp add: es(2) put_all_ok)
qed simp_all

section \<open>Encodings\<close>

datatype encoding_method = Cbor | Json_text | Other_method int

definition encode :: "codec \<Rightarrow> encoding_method \<Rightarrow> val \<Rightarrow> byte list res" where
  "encode C method v =
     (case method of
        Cbor \<Rightarrow> Inr (cbor_out C (to_json v))
      | Json_text \<Rightarrow>
          (case json_dump C (to_json v) of
             None \<Rightarrow> Inl (LibThrow ''json::dump'')
           | Some s \<Rightarrow> Inr (bytes_of_string s))
      | Other_method _ \<Rightarrow> Inl (Throw ''Encode method not supported''))"

definition decode :: "codec \<Rightarrow> encoding_method \<Rightarrow> byte list \<Rightarrow> val res" where
  "decode C method bytes =
     (case method of
        Cbor \<Rightarrow>
          (case cbor_in C bytes of
             None \<Rightarrow> Inl (LibThrow ''json::from_cbor'')
           | Some j \<Rightarrow> from_json j)
      | Json_text \<Rightarrow>
          (case json_parse C (string_of_bytes bytes) of
             None \<Rightarrow> Inl (LibThrow ''json::parse'')
           | Some j \<Rightarrow> from_json j)
      | Other_method _ \<Rightarrow> Inl (Throw ''Encode method not supported''))"

definition decode_string :: "codec \<Rightarrow> encoding_method \<Rightarrow> string \<Rightarrow> val res" where
  "decode_string C method s = decode C method (bytes_of_string s)"

text \<open>
  What a document is after a trip through the library's CBOR writer and reader, as its
  documentation says: CBOR has one encoding for the non-negative integers, read back as
  unsigned, and one NaN.
\<close>

definition is_nan64 :: "u64 \<Rightarrow> bool" where
  "is_nan64 d \<longleftrightarrow> unat d div 2 ^ 52 mod 2048 = 2047 \<and> unat d mod 2 ^ 52 \<noteq> 0"

definition wire_float :: "u64 \<Rightarrow> u64" where
  "wire_float d = (if is_nan64 d then 0x7FF8000000000000 else d)"

fun cbor_norm :: "json \<Rightarrow> json" where
  "cbor_norm (JInt i) = (if 0 \<le> sint i then JUint i else JInt i)"
| "cbor_norm (JFloat d) = JFloat (wire_float d)"
| "cbor_norm (JArray js) = JArray (map cbor_norm js)"
| "cbor_norm (JObject m) = JObject (map (\<lambda>e. (fst e, cbor_norm (snd e))) m)"
| "cbor_norm j = j"

definition cbor_faithful :: "codec \<Rightarrow> json \<Rightarrow> bool" where
  "cbor_faithful C j \<longleftrightarrow> cbor_in C (cbor_out C j) = Some (cbor_norm j)"

text \<open>The value that arrives on the other side of a CBOR encoding.\<close>

fun wire :: "val \<Rightarrow> val" where
  "wire (Int_t i) = (if 0 \<le> sint i then Uint_t i else Int_t i)"
| "wire (Float_t f) = Double_t (wire_float (float_to_double f))"
| "wire (Double_t d) = Double_t (wire_float d)"
| "wire (Array_t xs) = Array_t (map wire xs)"
| "wire (Map_t m) = Map_t (map (\<lambda>e. (fst e, wire (snd e))) m)"
| "wire v = v"

lemma from_norm_to_json: "val_ok v \<Longrightarrow> from_json (cbor_norm (to_json v)) = Inr (wire v)"
proof (induction v rule: to_json.induct)
  case (9 xs)
  then have "mapR from_json (map (\<lambda>x. cbor_norm (to_json x)) xs) = Inr (map wire xs)"
    by (induction xs) auto
  then show ?case by (simp add: comp_def)
next
  case (10 m)
  then have "from_json (cbor_norm (to_json (snd e))) = Inr (wire (snd e))" if "e \<in> set m" for e
    using that by (cases e) fastforce
  then show ?case
    using 10 mapR_from_entries [of m "\<lambda>v. cbor_norm (to_json v)" wire]
    by (simp add: comp_def put_all_dict dict_ok_map_values)
qed (simp_all add: read_dump_ndarray)

lemma decode_encode_cbor:
  assumes "val_ok v" and "cbor_faithful C (to_json v)"
  shows "bindR (encode C Cbor v) (decode C Cbor) = Inr (wire v)"
  using assms by (simp add: encode_def decode_def cbor_faithful_def from_norm_to_json)

section \<open>A library for examples\<close>

text \<open>
  A CBOR library that knows a few documents and writes each as its number: enough to
  instantiate the parameter in examples.
\<close>

fun position :: "'a list \<Rightarrow> 'a \<Rightarrow> nat" where
  "position [] x = 0"
| "position (y # ys) x = (if y = x then 0 else Suc (position ys x))"

definition table_codec :: "json list \<Rightarrow> codec" where
  "table_codec js = \<lparr>cbor_out = (\<lambda>j. [word_of_nat (position js j)]),
     cbor_in = (\<lambda>bs. case bs of [b] \<Rightarrow> if unat b < length js then Some (cbor_norm (js ! unat b)) else None
                      | _ \<Rightarrow> None),
     json_dump = (\<lambda>j. None), json_parse = (\<lambda>s. None)\<rparr>"

lemma position_nth: "x \<in> set ys \<Longrightarrow> position ys x < length ys \<and> ys ! position ys x = x"
  by (induction ys) auto

lemma table_codec_faithful:
  assumes "j \<in> set js" and "length js < 256" shows "cbor_faithful (table_codec js) j"
proof -
  have "unat (word_of_nat (position js j) :: byte) = position js j"
    using position_nth [OF assms(1)] assms(2) by (simp add: unat_of_nat)
  then show ?thesis
    using position_nth [OF assms(1)] by (simp add: cbor_faithful_def table_codec_def)
qed

lemma table_codec_length [simp]: "length (cbor_out (table_codec js) j) = 1"
  by (simp add: table_codec_def)

end
