(* ===== verification/Packets.thy ===== *)
theory Packets
  imports Json
begin

text \<open>
  The packets of \<open>core/include/packet.hpp\<close> and \<open>core/src/packet.cpp\<close>: packet and
  instruction types, the packet builders, the binary format with its writer
  \<open>dump_packet\<close> and reader \<open>load_packet\<close>, and the routing keys read from a header
  (transaction id and channel).
\<close>

section \<open>Types\<close>

text \<open>
  Both enumerations have the underlying type \<open>uint8_t\<close> and are read from the wire
  without a check, so a value may be none of the enumerators.
\<close>

datatype packet_type =
  connect | disconnect | subscribe | unsubscribe | execute | respond | respond_execute
  | other_ptype byte

fun ptype_byte :: "packet_type \<Rightarrow> byte" where
  "ptype_byte connect = 0"
| "ptype_byte disconnect = 1"
| "ptype_byte subscribe = 2"
| "ptype_byte unsubscribe = 3"
| "ptype_byte execute = 4"
| "ptype_byte respond = 16"
| "ptype_byte respond_execute = 17"
| "ptype_byte (other_ptype b) = b"

definition ptype_of :: "byte \<Rightarrow> packet_type" where
  "ptype_of b =
     (if b = 0 then connect else if b = 1 then disconnect else if b = 2 then subscribe
      else if b = 3 then unsubscribe else if b = 4 then execute else if b = 16 then respond
      else if b = 17 then respond_execute else other_ptype b)"

datatype instruction_type =
  call_function | define_component | delete_component | call_method | other_itype byte

fun itype_byte :: "instruction_type \<Rightarrow> byte" where
  "itype_byte call_function = 0"
| "itype_byte define_component = 1"
| "itype_byte delete_component = 2"
| "itype_byte call_method = 3"
| "itype_byte (other_itype b) = b"

definition itype_of :: "byte \<Rightarrow> instruction_type" where
  "itype_of b =
     (if b = 0 then call_function else if b = 1 then define_component
      else if b = 2 then delete_component else if b = 3 then call_method else other_itype b)"

definition known_ptype :: "packet_type \<Rightarrow> bool" where
  "known_ptype t \<longleftrightarrow> ptype_of (ptype_byte t) = t"

definition known_itype :: "instruction_type \<Rightarrow> bool" where
  "known_itype t \<longleftrightarrow> itype_of (itype_byte t) = t"

lemma known_ptypes [simp]:
  "known_ptype connect" "known_ptype disconnect" "known_ptype subscribe"
  "known_ptype unsubscribe" "known_ptype execute" "known_ptype respond"
  "known_ptype respond_execute"
  by (simp_all add: known_ptype_def ptype_of_def)

lemma known_itypes [simp]:
  "known_itype call_function" "known_itype define_component"
  "known_itype delete_component" "known_itype call_method"
  by (simp_all add: known_itype_def itype_of_def)

text \<open>The names: \<open>operator<<\<close>, and \<open>magic_enum::enum_name\<close> on the same enumerations.\<close>

fun ptype_name :: "packet_type \<Rightarrow> string" where
  "ptype_name connect = ''connect''"
| "ptype_name disconnect = ''disconnect''"
| "ptype_name subscribe = ''subscribe''"
| "ptype_name unsubscribe = ''unsubscribe''"
| "ptype_name execute = ''execute''"
| "ptype_name respond = ''respond''"
| "ptype_name respond_execute = ''respond_execute''"
| "ptype_name (other_ptype _) = ''''"

fun itype_name :: "instruction_type \<Rightarrow> string" where
  "itype_name call_function = ''call_function''"
| "itype_name define_component = ''define_component''"
| "itype_name delete_component = ''delete_component''"
| "itype_name call_method = ''call_method''"
| "itype_name (other_itype _) = ''''"

text \<open>A packet; \<open>headers\<close> and \<open>body\<close> are pointers that may be null.\<close>

record packet_t =
  ptype :: packet_type
  itype :: "instruction_type option"
  headers :: "val list option"
  body :: "(string \<times> val) list option"

definition new_packet :: "packet_type \<Rightarrow> instruction_type option \<Rightarrow> packet_t" where
  "new_packet pt it = \<lparr>ptype = pt, itype = it, headers = Some [], body = Some []\<rparr>"

section \<open>Routing keys\<close>

definition get_tx_id :: "packet_t \<Rightarrow> string res" where
  "get_tx_id p =
     bindR (deref (headers p)) (\<lambda>h.
       if length h < 0 then Inr [] else array_get as_string h 0)"

definition get_channel :: "packet_t \<Rightarrow> string res" where
  "get_channel p =
     (case itype p of
        None \<Rightarrow> Inl (Throw ''This type of packet does not have instruction'')
      | Some it \<Rightarrow>
          (case it of
             call_method \<Rightarrow>
               bindR (deref (headers p)) (\<lambda>h.
               bindR (array_get as_string h 1) (\<lambda>a.
               bindR (array_get as_string h 2) (\<lambda>b.
                 Inr (show_nat (unat (itype_byte it)) @ ''/'' @ a @ ''/'' @ b))))
           | other_itype _ \<Rightarrow> Inl (Throw ''Cannot hanle instruction type'')
           | _ \<Rightarrow>
               bindR (deref (headers p)) (\<lambda>h.
               bindR (array_get as_string h 1) (\<lambda>a.
                 Inr (show_nat (unat (itype_byte it)) @ ''/'' @ a)))))"

text \<open>\<open>operator std::string\<close>, which the broker and the VM call for their debug output.\<close>

definition show_bool :: "bool \<Rightarrow> string" where
  "show_bool b = (if b then ''1'' else ''0'')"

definition packet_str :: "packet_t \<Rightarrow> string res" where
  "packet_str p =
     (case ptype p of
        other_ptype _ \<Rightarrow> Inr []
      | pt \<Rightarrow>
          bindR (get_tx_id p) (\<lambda>tx.
            (case pt of
               respond_execute \<Rightarrow>
                 bindR (deref (headers p)) (\<lambda>h.
                 bindR (array_get as_uint h 1) (\<lambda>i.
                 bindR (array_get as_bool h 2) (\<lambda>f.
                   Inr (tx @ '' '' @ ptype_name pt @ '' idx '' @ show_u64 i @
                        '' fin '' @ show_bool f))))
             | _ \<Rightarrow>
                 if pt = subscribe \<or> pt = unsubscribe \<or> pt = execute then
                   (case itype p of
                      None \<Rightarrow> Inl (LibThrow ''bad_optional_access'')
                    | Some it \<Rightarrow> Inr (tx @ '' '' @ ptype_name pt @ '' '' @ itype_name it))
                 else Inr (tx @ '' '' @ ptype_name pt))))"

section \<open>Builders\<close>

text \<open>
  The \<open>dump_packet<..>\<close> templates fill in a packet and write it; these are the packets
  they fill in. A template that C++ selects by its number of arguments takes an option.
\<close>

definition conn_packet :: "packet_type \<Rightarrow> string \<Rightarrow> packet_t" where
  "conn_packet pt tx =
     (new_packet pt None)
       \<lparr>headers := Some ([String_t tx] @ (if pt = connect then [String_t ''1''] else []))\<rparr>"

definition in_body :: "val option \<Rightarrow> (string \<times> val) list \<Rightarrow> (string \<times> val) list" where
  "in_body inp m = put ''in'' (case inp of None \<Rightarrow> Null_t | Some v \<Rightarrow> v) m"

definition call_function_packet ::
  "packet_type \<Rightarrow> string \<Rightarrow> string \<Rightarrow> val option \<Rightarrow> packet_t" where
  "call_function_packet pt tx opname inp =
     (new_packet pt (Some call_function))
       \<lparr>headers := Some [String_t tx, String_t opname],
        body := Some (if pt = execute then in_body inp [] else [])\<rparr>"

definition define_component_packet ::
  "packet_type \<Rightarrow> string \<Rightarrow> string \<Rightarrow> string \<Rightarrow> val option \<Rightarrow> packet_t" where
  "define_component_packet pt tx comptype compname inp =
     (new_packet pt (Some define_component))
       \<lparr>headers := Some [String_t tx, String_t comptype],
        body := Some (if pt = execute then in_body inp (put ''name'' (String_t compname) []) else [])\<rparr>"

definition delete_component_packet :: "packet_type \<Rightarrow> string \<Rightarrow> string \<Rightarrow> packet_t" where
  "delete_component_packet pt tx compname =
     (new_packet pt (Some delete_component))
       \<lparr>headers := Some [String_t tx, String_t compname]\<rparr>"

definition call_method_packet ::
  "packet_type \<Rightarrow> string \<Rightarrow> string \<Rightarrow> string \<Rightarrow> val option \<Rightarrow> packet_t" where
  "call_method_packet pt tx compname opname inp =
     (new_packet pt (Some call_method))
       \<lparr>headers := Some [String_t tx, String_t compname, String_t opname],
        body := Some (in_body (if pt = execute then inp else None) [])\<rparr>"

definition respond_ok_packet :: "string \<Rightarrow> packet_t" where
  "respond_ok_packet tx =
     (new_packet respond None)
       \<lparr>headers := Some [String_t tx], body := Some (put ''status'' (Bool_t True) [])\<rparr>"

definition respond_execute_ok_packet :: "string \<Rightarrow> u64 \<Rightarrow> bool \<Rightarrow> val \<Rightarrow> packet_t" where
  "respond_execute_ok_packet tx seqno fin out =
     (new_packet respond_execute None)
       \<lparr>headers := Some [String_t tx, Uint_t seqno, Bool_t fin],
        body := Some (put ''out'' out (put ''status'' (Bool_t True) []))\<rparr>"

definition respond_err_packet :: "string \<Rightarrow> string \<Rightarrow> packet_t" where
  "respond_err_packet tx reason =
     (new_packet respond None)
       \<lparr>headers := Some [String_t tx],
        body := Some (put ''reason'' (String_t reason) (put ''status'' (Bool_t False) []))\<rparr>"

definition respond_execute_err_packet :: "string \<Rightarrow> u64 \<Rightarrow> string \<Rightarrow> packet_t" where
  "respond_execute_err_packet tx seqno reason =
     (new_packet respond_execute None)
       \<lparr>headers := Some [String_t tx, Uint_t seqno, Bool_t True],
        body := Some (put ''reason'' (String_t reason) (put ''status'' (Bool_t False) []))\<rparr>"

lemmas builder_defs = new_packet_def conn_packet_def call_function_packet_def
  define_component_packet_def delete_component_packet_def call_method_packet_def
  respond_ok_packet_def respond_execute_ok_packet_def respond_err_packet_def
  respond_execute_err_packet_def

section \<open>Binary format\<close>

definition has_itype :: "packet_type \<Rightarrow> bool" where
  "has_itype pt \<longleftrightarrow> pt = subscribe \<or> pt = unsubscribe \<or> pt = execute"

text \<open>
  The buffer is allocated for both length fields whether or not the parts are there and is
  filled from the front, so what is not written stays zero at its end.
\<close>

definition encode_opt :: "codec \<Rightarrow> val option \<Rightarrow> byte list option res" where
  "encode_opt C v = (case v of None \<Rightarrow> Inr None | Some w \<Rightarrow> mapR_res Some (encode C Cbor w))"

definition opt_length :: "'a list option \<Rightarrow> nat" where
  "opt_length xs = (case xs of None \<Rightarrow> 0 | Some ys \<Rightarrow> length ys)"

definition dump_packet :: "codec \<Rightarrow> packet_t \<Rightarrow> byte list res" where
  "dump_packet C p =
     bindR (encode_opt C (map_option Array_t (headers p))) (\<lambda>hb.
     bindR (encode_opt C (map_option Map_t (body p))) (\<lambda>bb.
       let preamble = ptype_byte (ptype p) # (case itype p of None \<Rightarrow> [] | Some it \<Rightarrow> [itype_byte it]);
           bytes_size = length preamble + 2 + opt_length hb + 4 + opt_length bb;
           written = preamble @
             (case hb of None \<Rightarrow> [] | Some bs \<Rightarrow> put_u16 (word_of_nat (length bs)) @ bs) @
             (case bb of None \<Rightarrow> [] | Some bs \<Rightarrow> put_u32 (word_of_nat (length bs)) @ bs)
       in Inr (written @ replicate (bytes_size - length written) 0)))"

definition load_packet :: "codec \<Rightarrow> byte list \<Rightarrow> bool \<Rightarrow> packet_t res" where
  "load_packet C bs skip_body =
     bindR (get_u8 bs) (\<lambda>(pb, bs1).
     let pt = ptype_of pb in
     bindR (if has_itype pt then bindR (get_u8 bs1) (\<lambda>(ib, r). Inr (Some (itype_of ib), r))
            else Inr (None, bs1)) (\<lambda>(it, bs2).
     bindR (get_u16 bs2) (\<lambda>(hsize, bs3).
     bindR (take_bytes (unat hsize) bs3) (\<lambda>(hbytes, bs4).
     bindR (decode C Cbor hbytes) (\<lambda>hval.
     bindR (if skip_body then Inr None
            else bindR (get_u32 bs4) (\<lambda>(bsize, bs5).
              if bsize > 0 then
                bindR (take_bytes (unat bsize) bs5) (\<lambda>(bbytes, _).
                bindR (decode C Cbor bbytes) (\<lambda>bval. Inr (as_map bval)))
              else Inr None)) (\<lambda>bd.
       Inr \<lparr>ptype = pt, itype = it, headers = as_array hval, body = bd\<rparr>))))))"

section \<open>Round trip\<close>

definition packet_ok :: "packet_t \<Rightarrow> bool" where
  "packet_ok p \<longleftrightarrow>
     known_ptype (ptype p) \<and>
     (case itype p of None \<Rightarrow> \<not> has_itype (ptype p)
      | Some it \<Rightarrow> has_itype (ptype p) \<and> known_itype it) \<and>
     (case headers p of None \<Rightarrow> False | Some h \<Rightarrow> val_ok (Array_t h)) \<and>
     (case body p of None \<Rightarrow> False | Some m \<Rightarrow> val_ok (Map_t m))"

definition header_json :: "packet_t \<Rightarrow> json" where
  "header_json p = to_json (Array_t (case headers p of None \<Rightarrow> [] | Some h \<Rightarrow> h))"

definition body_json :: "packet_t \<Rightarrow> json" where
  "body_json p = to_json (Map_t (case body p of None \<Rightarrow> [] | Some m \<Rightarrow> m))"

text \<open>The lengths fit in their fields, and the library reads back what it wrote.\<close>

definition packet_fits :: "codec \<Rightarrow> packet_t \<Rightarrow> bool" where
  "packet_fits C p \<longleftrightarrow>
     length (cbor_out C (header_json p)) < 2 ^ 16 \<and>
     0 < length (cbor_out C (body_json p)) \<and> length (cbor_out C (body_json p)) < 2 ^ 32"

definition packet_faithful :: "codec \<Rightarrow> packet_t \<Rightarrow> bool" where
  "packet_faithful C p \<longleftrightarrow> cbor_faithful C (header_json p) \<and> cbor_faithful C (body_json p)"

definition wire_map :: "(string \<times> val) list \<Rightarrow> (string \<times> val) list" where
  "wire_map m = map (\<lambda>e. (fst e, wire (snd e))) m"

definition wire_packet :: "bool \<Rightarrow> packet_t \<Rightarrow> packet_t" where
  "wire_packet skip_body p =
     p\<lparr>headers := map_option (map wire) (headers p),
       body := (if skip_body then None else map_option wire_map (body p))\<rparr>"

lemma get_u8_Cons [simp]: "get_u8 (b # rest) = Inr (b, rest)"
  by (simp add: get_u8_def take_bytes_def)

lemma take_bytes_exact [simp]: "take_bytes (length xs) (xs @ rest) = Inr (xs, rest)"
  by simp

lemma decode_cbor_out:
  "val_ok v \<Longrightarrow> cbor_faithful C (to_json v) \<Longrightarrow> decode C Cbor (cbor_out C (to_json v)) = Inr (wire v)"
  by (simp add: decode_def cbor_faithful_def from_norm_to_json)

lemma packet_okE:
  assumes "packet_ok p"
  obtains h m where "headers p = Some h" "body p = Some m" "val_ok (Array_t h)" "val_ok (Map_t m)"
    "ptype_of (ptype_byte (ptype p)) = ptype p"
    "itype p = None \<longleftrightarrow> \<not> has_itype (ptype p)"
    "\<forall>it. itype p = Some it \<longrightarrow> itype_of (itype_byte it) = it"
proof -
  obtain h m where "headers p = Some h" "body p = Some m"
    using assms by (auto simp: packet_ok_def split: option.splits)
  with assms show ?thesis
    by (intro that [of h m]; cases "itype p")
      (simp_all add: packet_ok_def known_ptype_def known_itype_def)
qed

text \<open>The bytes of a whole packet, with nothing left over at the end.\<close>

lemma dump_packet_ok:
  assumes "packet_ok p"
  shows "dump_packet C p = Inr
    (ptype_byte (ptype p) # (case itype p of None \<Rightarrow> [] | Some it \<Rightarrow> [itype_byte it]) @
     put_u16 (word_of_nat (length (cbor_out C (header_json p)))) @ cbor_out C (header_json p) @
     put_u32 (word_of_nat (length (cbor_out C (body_json p)))) @ cbor_out C (body_json p))"
  using assms
  by (elim packet_okE)
    (simp add: dump_packet_def encode_opt_def encode_def opt_length_def header_json_def
      body_json_def fmt16.enc_width fmt32.enc_width split: option.splits)

lemma load_body:
  assumes "val_ok (Map_t m)" "cbor_faithful C (to_json (Map_t m))"
    and "bs = cbor_out C (to_json (Map_t m))" "0 < length bs" "length bs < 2 ^ 32"
  shows "bindR (get_u32 (put_u32 (word_of_nat (length bs)) @ bs)) (\<lambda>(bsize, bs5).
      if bsize > 0 then
        bindR (take_bytes (unat bsize) bs5) (\<lambda>(bbytes, _).
        bindR (decode C Cbor bbytes) (\<lambda>bval. Inr (as_map bval)))
      else Inr None) = Inr (Some (wire_map m))"
proof -
  have n: "unat (word_of_nat (length bs) :: u32) = length bs"
    using assms(5) by (simp add: unat_of_nat)
  then have "(word_of_nat (length bs) :: u32) > 0"
    using assms(4) by (simp add: word_less_nat_alt)
  moreover have "take_bytes (length bs) bs = Inr (bs, [])"
    by (simp add: take_bytes_def)
  moreover have "decode C Cbor bs = Inr (Map_t (wire_map m))"
    using assms(1-3) decode_cbor_out [of "Map_t m" C] by (simp add: wire_map_def)
  ultimately show ?thesis
    by (simp add: n)
qed

lemma load_dump_packet:
  assumes p: "packet_ok p" and fits: "packet_fits C p" and cbor: "packet_faithful C p"
  shows "bindR (dump_packet C p) (\<lambda>bs. load_packet C bs skip_body) =
    Inr (wire_packet skip_body p)"
proof -
  obtain h m where h: "headers p = Some h" and m: "body p = Some m"
    and ok: "val_ok (Array_t h)" "val_ok (Map_t m)"
    and pt: "ptype_of (ptype_byte (ptype p)) = ptype p"
    and it: "itype p = None \<longleftrightarrow> \<not> has_itype (ptype p)"
      "\<forall>i. itype p = Some i \<longrightarrow> itype_of (itype_byte i) = i"
    using p by (rule packet_okE)
  let ?hb = "cbor_out C (header_json p)" and ?bb = "cbor_out C (body_json p)"
  have n: "unat (word_of_nat (length ?hb) :: u16) = length ?hb"
    using fits by (simp add: packet_fits_def unat_of_nat)
  have hd: "decode C Cbor ?hb = Inr (Array_t (map wire h))"
    using decode_cbor_out [OF ok(1), of C] cbor h
    by (simp add: packet_faithful_def header_json_def)
  have bd: "bindR (get_u32 (put_u32 (word_of_nat (length ?bb)) @ ?bb)) (\<lambda>(bsize, bs5).
      if bsize > 0 then
        bindR (take_bytes (unat bsize) bs5) (\<lambda>(bbytes, _).
        bindR (decode C Cbor bbytes) (\<lambda>bval. Inr (as_map bval)))
      else Inr None) = Inr (Some (wire_map m))"
    using fits cbor m ok(2)
    by (intro load_body) (simp_all add: packet_fits_def packet_faithful_def body_json_def)
  show ?thesis
    using it bd
    by (cases "itype p")
      (simp_all add: dump_packet_ok [OF p] load_packet_def pt n hd h m wire_packet_def)
qed

text \<open>
  Without the bound on the header: the reader takes the length field, which holds the
  length modulo 2^16, so the decoder sees that many bytes of the header and no more.
\<close>

lemma load_dump_cut:
  assumes p: "packet_ok p"
  shows "bindR (dump_packet C p) (\<lambda>bs. load_packet C bs True) =
    bindR (decode C Cbor (take (length (cbor_out C (header_json p)) mod 65536)
        (cbor_out C (header_json p))))
      (\<lambda>hval. Inr \<lparr>ptype = ptype p, itype = itype p, headers = as_array hval, body = None\<rparr>)"
proof -
  obtain h m where pt: "ptype_of (ptype_byte (ptype p)) = ptype p"
    and it: "itype p = None \<longleftrightarrow> \<not> has_itype (ptype p)"
      "\<forall>i. itype p = Some i \<longrightarrow> itype_of (itype_byte i) = i"
    using p by (rule packet_okE)
  let ?hb = "cbor_out C (header_json p)"
  let ?k = "length ?hb mod 65536"
  have n: "unat (word_of_nat (length ?hb) :: u16) = ?k"
    by (simp add: unat_of_nat)
  have "take_bytes ?k (?hb @ rest) = Inr (take ?k ?hb, drop ?k ?hb @ rest)" for rest
    using mod_less_eq_dividend [of "length ?hb" 65536] by (simp add: take_bytes_def)
  then show ?thesis
    using it by (cases "itype p")
      (simp_all add: dump_packet_ok [OF p] load_packet_def pt n)
qed

section \<open>Routing keys survive the wire\<close>

lemma as_string_wire [simp]: "as_string (wire v) = as_string v"
  by (cases v) auto

lemma as_bool_wire [simp]: "as_bool (wire v) = as_bool v"
  by (cases v) auto

lemma array_get_string_wire [simp]:
  "array_get as_string (map wire h) i = array_get as_string h i"
  by (simp add: array_get_def array_at_as_def array_at_def)

lemma array_get_bool_wire [simp]:
  "array_get as_bool (map wire h) i = array_get as_bool h i"
  by (simp add: array_get_def array_at_as_def array_at_def)

lemma tx_id_wire: "get_tx_id (wire_packet skip p) = get_tx_id p"
  by (cases "headers p") (simp_all add: get_tx_id_def wire_packet_def)

lemma channel_wire: "get_channel (wire_packet skip p) = get_channel p"
  by (cases "headers p")
    (simp_all add: get_channel_def wire_packet_def split: option.splits instruction_type.splits)

lemma array_get_nth: "i < length h \<Longrightarrow> h ! i = String_t s \<Longrightarrow> array_get as_string h i = Inr s"
  by (simp add: array_get_eq_Inr)

lemma builder_tx_id [simp]:
  "get_tx_id (conn_packet pt tx) = Inr tx"
  "get_tx_id (call_function_packet pt tx a inp) = Inr tx"
  "get_tx_id (define_component_packet pt tx a c inp) = Inr tx"
  "get_tx_id (delete_component_packet pt tx a) = Inr tx"
  "get_tx_id (call_method_packet pt tx a b inp) = Inr tx"
  "get_tx_id (respond_ok_packet tx) = Inr tx"
  "get_tx_id (respond_execute_ok_packet tx i f v) = Inr tx"
  "get_tx_id (respond_err_packet tx r) = Inr tx"
  "get_tx_id (respond_execute_err_packet tx i r) = Inr tx"
  by (simp_all add: get_tx_id_def builder_defs array_get_eq_Inr)

lemma show_digits [simp]:
  "show_nat 0 = ''0''" "show_nat (Suc 0) = ''1''" "show_nat 2 = ''2''" "show_nat 3 = ''3''"
  by code_simp+

lemma builder_channel [simp]:
  "get_channel (call_function_packet pt tx a inp) = Inr (''0/'' @ a)"
  "get_channel (define_component_packet pt tx a c inp) = Inr (''1/'' @ a)"
  "get_channel (delete_component_packet pt tx a) = Inr (''2/'' @ a)"
  "get_channel (call_method_packet pt tx a b inp) = Inr (''3/'' @ a @ ''/'' @ b)"
  by (simp_all add: get_channel_def builder_defs array_get_nth)

lemma dict_ok_in_body: "dict_ok m \<Longrightarrow> dict_ok (in_body inp m)"
  by (auto simp: in_body_def)

lemma in_body_val_ok:
  "dict_ok m \<Longrightarrow> \<forall>e \<in> set m. val_ok (snd e) \<Longrightarrow> (\<And>v. inp = Some v \<Longrightarrow> val_ok v) \<Longrightarrow>
     val_ok (Map_t (in_body inp m))"
  by (cases inp) (auto simp: in_body_def dest!: set_putD)

text \<open>Two packets with the same channel name the same target, if names keep to one segment.\<close>

definition channel_args :: "packet_t \<Rightarrow> string list res" where
  "channel_args p =
     bindR (deref (headers p)) (\<lambda>h.
     bindR (array_get as_string h 1) (\<lambda>a.
       if itype p = Some call_method then
         bindR (array_get as_string h 2) (\<lambda>b. Inr [a, b])
       else Inr [a]))"

lemma get_channel_cases:
  assumes "get_channel p = Inr c"
  obtains (fn) a where "itype p = Some call_function" "channel_args p = Inr [a]" "c = ''0/'' @ a"
    | (def) a where "itype p = Some define_component" "channel_args p = Inr [a]" "c = ''1/'' @ a"
    | (del) a where "itype p = Some delete_component" "channel_args p = Inr [a]" "c = ''2/'' @ a"
    | (meth) a b where "itype p = Some call_method" "channel_args p = Inr [a, b]"
      "c = ''3/'' @ a @ ''/'' @ b"
  using assms
  by (auto simp: get_channel_def channel_args_def bindR_eq_Inr
      split: option.splits instruction_type.splits)

lemma split_at_slash:
  "a @ CHR ''/'' # b = a' @ CHR ''/'' # b' \<Longrightarrow> CHR ''/'' \<notin> set a \<Longrightarrow> CHR ''/'' \<notin> set a' \<Longrightarrow>
     a = a' \<and> b = b'"
  by (induction a arbitrary: a') (auto simp: Cons_eq_append_conv append_eq_Cons_conv)

lemma channel_inject:
  assumes p: "get_channel p = Inr c" and q: "get_channel q = Inr c"
    and "\<And>a b. channel_args p = Inr [a, b] \<Longrightarrow> CHR ''/'' \<notin> set a"
    and "\<And>a b. channel_args q = Inr [a, b] \<Longrightarrow> CHR ''/'' \<notin> set a"
  shows "itype p = itype q \<and> channel_args p = channel_args q"
  using p
proof (cases rule: get_channel_cases)
  case (meth a b)
  show ?thesis
    using q
  proof (cases rule: get_channel_cases)
    case (meth a' b')
    then show ?thesis
      using \<open>channel_args p = Inr [a, b]\<close> \<open>c = ''3/'' @ a @ ''/'' @ b\<close>
        \<open>itype p = Some call_method\<close> assms(3,4) split_at_slash [of a b a' b']
      by auto
  qed (use meth in auto)
qed (use q in \<open>cases rule: get_channel_cases [OF q]; auto\<close>)+

end
