(* ===== verification/Notify.thy ===== *)
theory Notify
  imports Prelude
begin

text \<open>
  Signals and monitors of \<open>core/include/thread.hpp\<close> and \<open>core/src/thread.cpp\<close>. Every
  operation on a monitor runs under its mutex, so it is one atomic step of the model. A
  monitor is known by its address; its queue is what the heap \<open>monitors\<close> holds there, and
  a monitor that has been destroyed is not in the heap (an expired \<open>weak_ptr\<close>).
\<close>

record signal_t =
  who :: string
  what :: string

type_synonym addr = nat
type_synonym monitors = "addr \<rightharpoonup> signal_t list"

definition monitor_new :: "addr \<Rightarrow> monitors \<Rightarrow> monitors" where
  "monitor_new m ms = ms(m \<mapsto> [])"

text \<open>
  \<open>monitor_t::monitor\<close>: waits until the queue has a signal or the deadline passes; the
  state is the one when the wait ends. An empty queue then means the deadline has passed.
\<close>

definition monitor_wait :: "monitors \<Rightarrow> addr \<Rightarrow> monitors \<times> signal_t option" where
  "monitor_wait ms m =
     (case ms m of
        Some (s # q) \<Rightarrow> (ms(m \<mapsto> q), Some s)
      | _ \<Rightarrow> (ms, None))"

text \<open>\<open>notify_t::notify\<close>: \<open>mon\<close> is the notifier's \<open>monitor_\<close>, \<open>name\<close> its \<open>myname\<close>.\<close>

definition notify :: "monitors \<Rightarrow> addr option \<Rightarrow> string \<Rightarrow> string \<Rightarrow> monitors" where
  "notify ms mon name w =
     (case mon of
        None \<Rightarrow> ms
      | Some m \<Rightarrow>
          (case ms m of
             None \<Rightarrow> ms
           | Some q \<Rightarrow> ms(m \<mapsto> q @ [\<lparr>who = name, what = w\<rparr>])))"

text \<open>\<open>new_name\<close>: the counter is a \<open>size_t\<close> and wraps around.\<close>

definition new_name :: "u64 \<Rightarrow> string \<times> u64" where
  "new_name next_id = (show_u64 next_id, next_id + 1)"

text \<open>A notifier: its immutable name and its monitor.\<close>

record notify_t =
  myname :: string
  n_monitor :: "addr option"

definition notify_new :: "u64 \<Rightarrow> notify_t \<times> u64" where
  "notify_new next_id =
     (let (n, next_id') = new_name next_id in (\<lparr>myname = n, n_monitor = None\<rparr>, next_id'))"

definition set_monitor :: "addr \<Rightarrow> notify_t \<Rightarrow> notify_t" where
  "set_monitor m n = n\<lparr>n_monitor := Some m\<rparr>"

text \<open>\<open>stop_t\<close>: a flag and the signal that announces it.\<close>

record stop_t =
  stop_notifier :: notify_t
  exit_flag :: bool

definition stop_new :: "u64 \<Rightarrow> stop_t \<times> u64" where
  "stop_new next_id =
     (let (n, next_id') = notify_new next_id in (\<lparr>stop_notifier = n, exit_flag = False\<rparr>, next_id'))"

definition stop_stop :: "stop_t \<Rightarrow> monitors \<Rightarrow> stop_t \<times> monitors" where
  "stop_stop s ms =
     (s\<lparr>exit_flag := True\<rparr>, notify ms (n_monitor (stop_notifier s)) (myname (stop_notifier s)) ''stop'')"

section \<open>Facts\<close>

definition sig_count :: "string \<Rightarrow> string \<Rightarrow> signal_t list \<Rightarrow> nat" where
  "sig_count n w q = length (filter (\<lambda>s. who s = n \<and> what s = w) q)"

lemma sig_count_simps [simp]:
  "sig_count n w [] = 0"
  "sig_count n w (s # q) = (if who s = n \<and> what s = w then 1 else 0) + sig_count n w q"
  "sig_count n w (q @ r) = sig_count n w q + sig_count n w r"
  by (simp_all add: sig_count_def)

lemma notify_other [simp]: "mon \<noteq> Some m \<Longrightarrow> notify ms mon n w m = ms m"
  by (auto simp: notify_def split: option.splits)

lemma notify_at:
  "ms m = Some q \<Longrightarrow> notify ms (Some m) n w m = Some (q @ [\<lparr>who = n, what = w\<rparr>])"
  by (simp add: notify_def)

lemma notify_dom [simp]: "notify ms mon n w m = None \<longleftrightarrow> ms m = None"
  by (auto simp: notify_def split: option.splits)

lemma notify_None [simp]: "notify ms None n w = ms"
  by (simp add: notify_def)

lemma notify_queue:
  "notify ms mon n w m = Some q' \<Longrightarrow>
     \<exists>q. ms m = Some q \<and> q' = q @ (if mon = Some m then [\<lparr>who = n, what = w\<rparr>] else [])"
  by (auto simp: notify_def split: option.splits if_splits)

lemma new_name_fresh:
  assumes "unat next_id < 2 ^ 64 - 1" and "unat k \<le> unat next_id"
  shows "fst (new_name (snd (new_name next_id))) \<noteq> show_u64 k"
proof -
  have "unat (next_id + 1) = unat next_id + 1"
    using assms(1) by (simp add: unat_word_ariths)
  with assms(2) have "next_id + 1 \<noteq> k" by (metis Suc_eq_plus1 not_less_eq_eq order_refl)
  then show ?thesis by (simp add: new_name_def)
qed

end
