(* ===== verification/InprocSocket.thy ===== *)
theory InprocSocket
  imports Notify
begin

text \<open>
  In-process sockets (\<open>core/include/inproc_socket.hpp\<close>, \<open>core/src/inproc_socket.cpp\<close>):
  bounded mailboxes, connected pairs of sockets, acceptors, and the process-wide dialer
  with its table of acceptors and its waiting list. The objects that C++ shares through
  pointers live in a store, the record \<open>world\<close>, and are named by their addresses. The
  body of a function that runs under one lock is one step.
\<close>

type_synonym msg = "byte list"

section \<open>Mailboxes\<close>

definition mailbox_limit :: nat where "mailbox_limit = 128"

definition mailbox_set :: "'m \<Rightarrow> 'm list \<Rightarrow> 'm list \<times> bool" where
  "mailbox_set mail q =
     (if length q \<ge> mailbox_limit then (q, False) else (q @ [mail], True))"

definition mailbox_get :: "'m list \<Rightarrow> 'm list \<times> 'm option" where
  "mailbox_get q = (case q of [] \<Rightarrow> ([], None) | mail # q' \<Rightarrow> (q', Some mail))"

text \<open>
  What the users of a mailbox rely on, as a contract: a queue of bounded length that
  refuses when it is full and hands out in the order it took in. \<open>box_run\<close> runs any
  interleaving of both sides and returns what was accepted and what was handed out.
\<close>

datatype 'm box_event = Put_mail 'm | Get_mail

fun box_run ::
  "('m \<Rightarrow> 'q \<Rightarrow> 'q \<times> bool) \<Rightarrow> ('q \<Rightarrow> 'q \<times> 'm option) \<Rightarrow> 'm box_event list \<Rightarrow> 'q \<Rightarrow>
     'q \<times> 'm list \<times> 'm list" where
  "box_run put_f get_f [] q = (q, [], [])"
| "box_run put_f get_f (Put_mail m # es) q =
     (let (q1, ok) = put_f m q; (q2, acc, out) = box_run put_f get_f es q1
      in (q2, (if ok then m # acc else acc), out))"
| "box_run put_f get_f (Get_mail # es) q =
     (let (q1, r) = get_f q; (q2, acc, out) = box_run put_f get_f es q1
      in (q2, acc, (case r of None \<Rightarrow> out | Some m \<Rightarrow> m # out)))"

locale bounded_fifo =
  fixes content :: "'q \<Rightarrow> 'm list"
    and capacity :: nat
    and put_f :: "'m \<Rightarrow> 'q \<Rightarrow> 'q \<times> bool"
    and get_f :: "'q \<Rightarrow> 'q \<times> 'm option"
    and good :: "'q \<Rightarrow> bool"
  assumes put_good: "good q \<Longrightarrow> good (fst (put_f m q))"
    and get_good: "good q \<Longrightarrow> good (fst (get_f q))"
    and put_ok: "good q \<Longrightarrow> snd (put_f m q) \<longleftrightarrow> length (content q) < capacity"
    and put_content: "good q \<Longrightarrow>
      content (fst (put_f m q)) = content q @ (if length (content q) < capacity then [m] else [])"
    and get_mail: "good q \<Longrightarrow>
      snd (get_f q) = (case content q of [] \<Rightarrow> None | m # _ \<Rightarrow> Some m)"
    and get_rest: "good q \<Longrightarrow> content (fst (get_f q)) = tl (content q)"
begin

lemma run_good: "good q \<Longrightarrow> good (fst (box_run put_f get_f es q))"
proof (induction es arbitrary: q)
  case Nil
  then show ?case by simp
next
  case (Cons e es)
  then show ?case
    by (cases e) (auto simp: put_good get_good split_beta Let_def)
qed

lemma run_bounded:
  "good q \<Longrightarrow> length (content q) \<le> capacity \<Longrightarrow>
     length (content (fst (box_run put_f get_f es q))) \<le> capacity"
proof (induction es arbitrary: q)
  case Nil
  then show ?case by simp
next
  case (Cons e es)
  then show ?case
    by (cases e)
      (auto simp: put_good get_good put_content get_rest split_beta Let_def intro!: Cons.IH)
qed

lemma run_in_order:
  "good q \<Longrightarrow> box_run put_f get_f es q = (q', accepted, out) \<Longrightarrow>
     out @ content q' = content q @ accepted"
proof (induction es arbitrary: q q' accepted out)
  case Nil
  then show ?case by simp
next
  case (Cons e es)
  show ?case
  proof (cases e)
    case (Put_mail m)
    obtain q2 acc out2 where r: "box_run put_f get_f es (fst (put_f m q)) = (q2, acc, out2)"
      by (rule prod_cases3)
    from Cons.IH [OF put_good [OF Cons.prems(1)] r] Cons.prems r Put_mail show ?thesis
      by (auto simp: put_content put_ok split_beta Let_def split: if_splits)
  next
    case Get_mail
    obtain q2 acc out2 where r: "box_run put_f get_f es (fst (get_f q)) = (q2, acc, out2)"
      by (rule prod_cases3)
    from Cons.IH [OF get_good [OF Cons.prems(1)] r] Cons.prems r Get_mail show ?thesis
      by (cases "content q") (auto simp: get_mail get_rest split_beta Let_def)
  qed
qed

end

interpretation mailbox: bounded_fifo "\<lambda>q. q" mailbox_limit mailbox_set mailbox_get "\<lambda>_. True"
  by unfold_locales (auto simp: mailbox_set_def mailbox_get_def split: list.splits)

section \<open>The store\<close>

record socket_t =
  s_notify :: notify_t
  my_mailbox :: "msg list"
  peer_mailbox :: "addr option"
  peer_name :: "string option"
  peer_notify :: "addr option"

record acceptor_t =
  a_notify :: notify_t
  a_url :: string
  a_mailbox :: "addr list"

text \<open>
  \<open>peer_mailbox\<close> and \<open>peer_notify\<close> name the peer socket: the mailbox is owned by its socket
  only, so its weak pointer expires when the socket does, that is, when the address is no
  longer in \<open>sockets\<close>.
\<close>

record world =
  next_id :: u64
  next_addr :: addr
  monitors :: monitors
  sockets :: "addr \<rightharpoonup> socket_t"
  acceptors :: "addr \<rightharpoonup> acceptor_t"
  dial_acceptors :: "(string \<times> addr) list"
  dial_connections :: "(string \<times> addr) list"

definition empty_world :: world where
  "empty_world = \<lparr>next_id = 0, next_addr = 0, monitors = Map.empty, sockets = Map.empty,
     acceptors = Map.empty, dial_acceptors = [], dial_connections = []\<rparr>"

definition new_monitor :: "world \<Rightarrow> world \<times> addr" where
  "new_monitor w =
     (w\<lparr>next_addr := Suc (next_addr w), monitors := monitor_new (next_addr w) (monitors w)\<rparr>,
      next_addr w)"

section \<open>Sockets\<close>

definition socket_new :: "world \<Rightarrow> world \<times> addr" where
  "socket_new w =
     (let (n, i) = notify_new (next_id w); a = next_addr w in
      (w\<lparr>next_id := i, next_addr := Suc a,
         sockets := (sockets w)(a \<mapsto> \<lparr>s_notify = n, my_mailbox = [], peer_mailbox = None,
           peer_name = None, peer_notify = None\<rparr>)\<rparr>, a))"

definition upd_socket :: "addr \<Rightarrow> (socket_t \<Rightarrow> socket_t) \<Rightarrow> world \<Rightarrow> world" where
  "upd_socket a f w =
     (case sockets w a of None \<Rightarrow> w | Some s \<Rightarrow> w\<lparr>sockets := (sockets w)(a \<mapsto> f s)\<rparr>)"

definition socket_set_monitor :: "addr \<Rightarrow> addr \<Rightarrow> world \<Rightarrow> world" where
  "socket_set_monitor a m = upd_socket a (\<lambda>s. s\<lparr>s_notify := set_monitor m (s_notify s)\<rparr>)"

definition socket_notify :: "addr \<Rightarrow> string \<Rightarrow> world \<Rightarrow> world" where
  "socket_notify a ev w =
     (case sockets w a of
        None \<Rightarrow> w
      | Some s \<Rightarrow>
          w\<lparr>monitors := notify (monitors w) (n_monitor (s_notify s)) (myname (s_notify s)) ev\<rparr>)"

text \<open>\<open>attach(peer)\<close> on the socket \<open>a\<close>.\<close>

definition attach :: "addr \<Rightarrow> addr \<Rightarrow> world \<Rightarrow> world" where
  "attach a peer w =
     (case sockets w peer of
        None \<Rightarrow> w
      | Some p \<Rightarrow>
          upd_socket a (\<lambda>s. s\<lparr>peer_mailbox := Some peer, peer_name := Some (myname (s_notify p)),
            peer_notify := Some peer\<rparr>) w)"

text \<open>\<open>mailbox_t<bytes_t>::setter_t::set\<close> through a weak pointer.\<close>

definition socket_mail :: "addr \<Rightarrow> msg \<Rightarrow> world \<Rightarrow> world \<times> bool" where
  "socket_mail p m w =
     (case sockets w p of
        None \<Rightarrow> (w, False)
      | Some s \<Rightarrow>
          (let (q, ok) = mailbox_set m (my_mailbox s)
           in (upd_socket p (\<lambda>s. s\<lparr>my_mailbox := q\<rparr>) w, ok)))"

definition send :: "addr \<Rightarrow> msg \<Rightarrow> world \<Rightarrow> world \<times> bool" where
  "send a m w =
     (case sockets w a of
        None \<Rightarrow> (w, False)
      | Some s \<Rightarrow>
          (case (peer_name s, peer_mailbox s, peer_notify s) of
             (Some _, Some box, Some p) \<Rightarrow>
               (let (w1, ok) = socket_mail box m w in
                if ok then
                  (case sockets w1 p of
                     None \<Rightarrow> (w1, False)
                   | Some _ \<Rightarrow> (socket_notify p ''recv'' w1, True))
                else (w1, False))
           | _ \<Rightarrow> (w, False)))"

definition recv :: "addr \<Rightarrow> world \<Rightarrow> world \<times> msg option" where
  "recv a w =
     (case sockets w a of
        None \<Rightarrow> (w, None)
      | Some s \<Rightarrow>
          (let (q, r) = mailbox_get (my_mailbox s)
           in (upd_socket a (\<lambda>s. s\<lparr>my_mailbox := q\<rparr>) w, r)))"

text \<open>\<open>wait_until_attached\<close>: the predicate in the state when the wait ends.\<close>

definition wait_until_attached :: "addr \<Rightarrow> world \<Rightarrow> bool" where
  "wait_until_attached a w =
     (case sockets w a of None \<Rightarrow> False | Some s \<Rightarrow> peer_name s \<noteq> None)"

text \<open>The last owner lets go of a socket.\<close>

definition socket_free :: "addr \<Rightarrow> world \<Rightarrow> world" where
  "socket_free a w = w\<lparr>sockets := (sockets w)(a := None)\<rparr>"

section \<open>Acceptors and the dialer\<close>

definition upd_acceptor :: "addr \<Rightarrow> (acceptor_t \<Rightarrow> acceptor_t) \<Rightarrow> world \<Rightarrow> world" where
  "upd_acceptor a f w =
     (case acceptors w a of None \<Rightarrow> w | Some s \<Rightarrow> w\<lparr>acceptors := (acceptors w)(a \<mapsto> f s)\<rparr>)"

definition request_accepting :: "addr \<Rightarrow> addr \<Rightarrow> world \<Rightarrow> world \<times> bool" where
  "request_accepting acc client w =
     (case acceptors w acc of
        None \<Rightarrow> (w, False)
      | Some s \<Rightarrow>
          (let (q, ok) = mailbox_set client (a_mailbox s);
               w1 = upd_acceptor acc (\<lambda>s. s\<lparr>a_mailbox := q\<rparr>) w
           in (w1\<lparr>monitors := notify (monitors w1) (n_monitor (a_notify s))
                 (myname (a_notify s)) ''accept''\<rparr>, ok)))"

text \<open>
  \<open>socket_t::connect\<close> in its two parts. \<open>connect_begin\<close> runs up to the wait: it asks the
  acceptor, or joins the waiting list. \<open>connect_end\<close> runs when the wait ends, by a wake-up
  or after one second: it succeeds if nobody waits for this url any more, and otherwise
  takes its own entry from the list.
\<close>

datatype dialing = Dialed bool | Waiting

definition connect_begin :: "addr \<Rightarrow> string \<Rightarrow> world \<Rightarrow> world \<times> dialing" where
  "connect_begin a url w =
     (case map_of (dial_acceptors w) url of
        Some acc \<Rightarrow> (let (w1, ok) = request_accepting acc a w in (w1, Dialed ok))
      | None \<Rightarrow> (w\<lparr>dial_connections := dial_connections w @ [(url, a)]\<rparr>, Waiting))"

definition connect_end :: "addr \<Rightarrow> string \<Rightarrow> world \<Rightarrow> world \<times> bool" where
  "connect_end a url w =
     (if url \<notin> fst ` set (dial_connections w) then (w, True)
      else (w\<lparr>dial_connections := remove1 (url, a) (dial_connections w)\<rparr>, False))"

definition acceptor_new :: "string \<Rightarrow> world \<Rightarrow> world \<times> addr res" where
  "acceptor_new url w =
     (let (n, i) = notify_new (next_id w); a = next_addr w in
      if map_of (dial_acceptors w) url \<noteq> None
      then (w\<lparr>next_id := i\<rparr>, Inl (Throw ''Acceptor for this url already exists''))
      else (w\<lparr>next_id := i, next_addr := Suc a,
               acceptors := (acceptors w)(a \<mapsto> \<lparr>a_notify = n, a_url = url, a_mailbox = []\<rparr>),
               dial_acceptors := put url a (dial_acceptors w)\<rparr>, Inr a))"

definition acceptor_free :: "addr \<Rightarrow> world \<Rightarrow> world" where
  "acceptor_free a w =
     (case List.find (\<lambda>e. snd e = a) (dial_acceptors w) of
        None \<Rightarrow> w\<lparr>acceptors := (acceptors w)(a := None)\<rparr>
      | Some e \<Rightarrow> w\<lparr>acceptors := (acceptors w)(a := None),
                     dial_acceptors := del (fst e) (dial_acceptors w)\<rparr>)"

text \<open>\<open>set_monitor\<close> on an acceptor, with its hook \<open>on_monitor_set\<close>.\<close>

definition on_monitor_set :: "addr \<Rightarrow> world \<Rightarrow> world" where
  "on_monitor_set acc w =
     (case acceptors w acc of
        None \<Rightarrow> w
      | Some s \<Rightarrow>
          (let waiting = filter (\<lambda>e. fst e = a_url s) (dial_connections w);
               w1 = fold (\<lambda>e w. fst (request_accepting acc (snd e) w)) waiting w
           in w1\<lparr>dial_connections := filter (\<lambda>e. fst e \<noteq> a_url s) (dial_connections w1)\<rparr>))"

definition acceptor_set_monitor :: "addr \<Rightarrow> addr \<Rightarrow> world \<Rightarrow> world" where
  "acceptor_set_monitor acc m w =
     on_monitor_set acc
       (upd_acceptor acc (\<lambda>s. s\<lparr>a_notify := set_monitor m (a_notify s)\<rparr>) w)"

definition accept :: "addr \<Rightarrow> world \<Rightarrow> world \<times> addr option" where
  "accept acc w =
     (case acceptors w acc of
        None \<Rightarrow> (w, None)
      | Some s \<Rightarrow>
          (let (q, r) = mailbox_get (a_mailbox s);
               w1 = upd_acceptor acc (\<lambda>s. s\<lparr>a_mailbox := q\<rparr>) w
           in (case r of
                 None \<Rightarrow> (w1, None)
               | Some peer \<Rightarrow>
                   (let (w2, mine) = socket_new w1
                    in (attach peer mine (attach mine peer w2), Some mine)))))"

section \<open>Facts about the store\<close>

lemma upd_socket_simps [simp]:
  "sockets (upd_socket a f w) b = (if b = a then map_option f (sockets w a) else sockets w b)"
  "next_id (upd_socket a f w) = next_id w"
  "next_addr (upd_socket a f w) = next_addr w"
  "monitors (upd_socket a f w) = monitors w"
  "acceptors (upd_socket a f w) = acceptors w"
  "dial_acceptors (upd_socket a f w) = dial_acceptors w"
  "dial_connections (upd_socket a f w) = dial_connections w"
  by (auto simp: upd_socket_def split: option.splits)

lemma upd_acceptor_simps [simp]:
  "acceptors (upd_acceptor a f w) b =
     (if b = a then map_option f (acceptors w a) else acceptors w b)"
  "next_id (upd_acceptor a f w) = next_id w"
  "next_addr (upd_acceptor a f w) = next_addr w"
  "monitors (upd_acceptor a f w) = monitors w"
  "sockets (upd_acceptor a f w) = sockets w"
  "dial_acceptors (upd_acceptor a f w) = dial_acceptors w"
  "dial_connections (upd_acceptor a f w) = dial_connections w"
  by (auto simp: upd_acceptor_def split: option.splits)

text \<open>The mailbox of the socket at an address, and a socket attached to a peer.\<close>

definition box :: "addr \<Rightarrow> world \<Rightarrow> msg list" where
  "box p w = (case sockets w p of None \<Rightarrow> [] | Some s \<Rightarrow> my_mailbox s)"

definition sock_name :: "addr \<Rightarrow> world \<Rightarrow> string option" where
  "sock_name a w = map_option (\<lambda>s. myname (s_notify s)) (sockets w a)"

definition sock_monitor :: "addr \<Rightarrow> world \<Rightarrow> addr option" where
  "sock_monitor a w = Option.bind (sockets w a) (\<lambda>s. n_monitor (s_notify s))"

definition peered :: "addr \<Rightarrow> addr \<Rightarrow> world \<Rightarrow> bool" where
  "peered a p w \<longleftrightarrow>
     (\<exists>s t. sockets w a = Some s \<and> sockets w p = Some t \<and> peer_mailbox s = Some p \<and>
        peer_notify s = Some p \<and> peer_name s = Some (myname (s_notify t)))"

lemma send_peered:
  assumes "peered a p w"
  shows "snd (send a m w) \<longleftrightarrow> length (box p w) < mailbox_limit"
    and "box b (fst (send a m w)) =
      (if b = p \<and> length (box p w) < mailbox_limit then box p w @ [m] else box b w)"
    and "peered c d (fst (send a m w)) \<longleftrightarrow> peered c d w"
    and "sock_name c (fst (send a m w)) = sock_name c w"
    and "sock_monitor c (fst (send a m w)) = sock_monitor c w"
    and "monitors (fst (send a m w)) =
      (if length (box p w) < mailbox_limit
       then notify (monitors w) (sock_monitor p w) (the (sock_name p w)) ''recv'' else monitors w)"
  using assms
  by (auto simp: send_def peered_def socket_mail_def mailbox_set_def socket_notify_def box_def
      sock_name_def sock_monitor_def split: option.splits if_splits)

lemma recv_simps:
  "snd (recv p w) = (case box p w of [] \<Rightarrow> None | m # _ \<Rightarrow> Some m)"
  "box b (fst (recv p w)) = (if b = p then tl (box p w) else box b w)"
  "peered c d (fst (recv p w)) \<longleftrightarrow> peered c d w"
  "sock_name c (fst (recv p w)) = sock_name c w"
  "sock_monitor c (fst (recv p w)) = sock_monitor c w"
  "monitors (fst (recv p w)) = monitors w"
  by (auto simp: recv_def mailbox_get_def box_def peered_def sock_name_def sock_monitor_def
      split: option.splits list.splits)

text \<open>Names, monitors and attachments are not touched by traffic, whatever the socket.\<close>

lemma send_frame [simp]:
  "sock_name c (fst (send a m w)) = sock_name c w"
  "sock_monitor c (fst (send a m w)) = sock_monitor c w"
  "sockets (fst (send a m w)) c = None \<longleftrightarrow> sockets w c = None"
  "next_addr (fst (send a m w)) = next_addr w"
  "next_id (fst (send a m w)) = next_id w"
  "acceptors (fst (send a m w)) = acceptors w"
  by (auto simp: send_def socket_mail_def socket_notify_def sock_name_def sock_monitor_def Let_def
      split: option.splits prod.splits)

lemma recv_frame [simp]:
  "sock_name c (fst (recv p w)) = sock_name c w"
  "sock_monitor c (fst (recv p w)) = sock_monitor c w"
  "sockets (fst (recv p w)) c = None \<longleftrightarrow> sockets w c = None"
  "next_addr (fst (recv p w)) = next_addr w"
  "next_id (fst (recv p w)) = next_id w"
  "acceptors (fst (recv p w)) = acceptors w"
  by (auto simp: recv_def sock_name_def sock_monitor_def split_beta split: option.splits)

text \<open>A link between two sockets keeps the contract of its mailbox.\<close>

interpretation link: bounded_fifo "box p" mailbox_limit "send a" "recv p" "peered a p" for a p
  by unfold_locales (simp_all add: send_peered recv_simps)

section \<open>Connecting\<close>

definition world_ok :: "world \<Rightarrow> bool" where
  "world_ok w \<longleftrightarrow>
     (\<forall>a. sockets w a \<noteq> None \<longrightarrow> a < next_addr w) \<and>
     (\<forall>a. acceptors w a \<noteq> None \<longrightarrow> a < next_addr w) \<and>
     (\<forall>m. monitors w m \<noteq> None \<longrightarrow> m < next_addr w) \<and>
     (\<forall>a s. sockets w a = Some s \<longrightarrow> length (my_mailbox s) \<le> mailbox_limit) \<and>
     (\<forall>a s. acceptors w a = Some s \<longrightarrow> length (a_mailbox s) \<le> mailbox_limit) \<and>
     dict_ok (dial_acceptors w)"

lemma accept_attaches:
  assumes "acceptors w acc = Some s" and "a_mailbox s = peer # q"
    and "sockets w peer = Some t" and "peer < next_addr w"
  shows "\<exists>w' mine. accept acc w = (w', Some mine) \<and> peered mine peer w' \<and> peered peer mine w' \<and>
    box mine w' = [] \<and> box peer w' = my_mailbox t \<and> sock_monitor mine w' = None"
  using assms
  by (auto simp: accept_def mailbox_get_def socket_new_def notify_new_def new_name_def attach_def
      peered_def box_def sock_monitor_def Let_def split: option.splits)

lemma connect_before_accept:
  assumes "connect_begin a url w = (w', Dialed True)" and "sockets w a = Some s"
    and "peer_name s = None"
  shows "send a m w' = (w', False)"
proof -
  have "sockets w' a = Some s"
    using assms(1,2)
    by (auto simp: connect_begin_def request_accepting_def Let_def split: option.splits prod.splits)
  with assms(3) show ?thesis
    by (simp add: send_def)
qed

lemma acceptor_new_unique:
  assumes "acceptor_new url w = (w', Inr a)"
  shows "snd (acceptor_new url w') = Inl (Throw ''Acceptor for this url already exists'')"
  using assms by (auto simp: acceptor_new_def Let_def split_beta split: if_splits)

text \<open>The waiting sockets that an acceptor takes over when its monitor is set.\<close>

lemma request_accepting_simps:
  assumes "acceptors w acc = Some s"
  shows "acceptors (fst (request_accepting acc c w)) acc =
      Some (s\<lparr>a_mailbox := fst (mailbox_set c (a_mailbox s))\<rparr>)"
    and "snd (request_accepting acc c w) = snd (mailbox_set c (a_mailbox s))"
    and "sockets (fst (request_accepting acc c w)) = sockets w"
    and "dial_connections (fst (request_accepting acc c w)) = dial_connections w"
    and "dial_acceptors (fst (request_accepting acc c w)) = dial_acceptors w"
  using assms by (simp_all add: request_accepting_def split_beta)

lemma fold_request:
  assumes "acceptors w acc = Some s"
  shows "\<exists>s'. acceptors (fold (\<lambda>e w. fst (request_accepting acc (snd e) w)) es w) acc = Some s' \<and>
      a_url s' = a_url s \<and>
      a_mailbox s' = a_mailbox s @ take (mailbox_limit - length (a_mailbox s)) (map snd es) \<and>
      dial_connections (fold (\<lambda>e w. fst (request_accepting acc (snd e) w)) es w) =
        dial_connections w"
  using assms
proof (induction es arbitrary: w s)
  case Nil
  then show ?case by simp
next
  case (Cons e es)
  let ?w = "fst (request_accepting acc (snd e) w)"
  note step = request_accepting_simps [OF Cons.prems, of "snd e"]
  show ?case
    using Cons.IH [OF step(1)] step(4)
    by (cases "mailbox_limit - length (a_mailbox s)")
      (auto simp: mailbox_set_def diff_Suc)
qed

lemma set_monitor_takes_waiting:
  assumes "acceptors w acc = Some s" and "w' = acceptor_set_monitor acc m w"
  defines "waiting \<equiv> map snd (filter (\<lambda>e. fst e = a_url s) (dial_connections w))"
  shows "\<exists>s'. acceptors w' acc = Some s' \<and>
      a_mailbox s' = a_mailbox s @ take (mailbox_limit - length (a_mailbox s)) waiting \<and>
      (\<forall>a. snd (connect_end a (a_url s) w') = True)"
proof -
  let ?w1 = "upd_acceptor acc (\<lambda>s. s\<lparr>a_notify := set_monitor m (a_notify s)\<rparr>) w"
  let ?s1 = "s\<lparr>a_notify := set_monitor m (a_notify s)\<rparr>"
  have "acceptors ?w1 acc = Some ?s1"
    using assms(1) by simp
  from fold_request [OF this, of "filter (\<lambda>e. fst e = a_url s) (dial_connections w)"]
  show ?thesis
    using assms(1) unfolding assms(2) waiting_def
    by (auto simp: acceptor_set_monitor_def on_monitor_set_def connect_end_def Let_def)
qed

section \<open>Pending signals\<close>

text \<open>
  An event loop receives one message for each \<open>recv\<close> signal it takes from its monitor, so
  a message is only ever looked at if there are at least as many such signals pending as
  there are messages in the mailbox.
\<close>

definition wake_ok :: "addr \<Rightarrow> world \<Rightarrow> bool" where
  "wake_ok p w \<longleftrightarrow>
     (case (sock_name p w, Option.bind (sock_monitor p w) (monitors w)) of
        (Some n, Some q) \<Rightarrow> length (box p w) \<le> sig_count n ''recv'' q
      | _ \<Rightarrow> True)"

lemma wake_ok_iff:
  "wake_ok p w \<longleftrightarrow> (\<forall>n k q. sock_name p w = Some n \<longrightarrow> sock_monitor p w = Some k \<longrightarrow>
     monitors w k = Some q \<longrightarrow> length (box p w) \<le> sig_count n ''recv'' q)"
  by (cases "sock_name p w"; cases "sock_monitor p w") (auto simp: wake_ok_def split: option.splits)

lemma wake_ok_send:
  assumes "peered a d w" and "wake_ok p w"
  shows "wake_ok p (fst (send a m w))"
  unfolding wake_ok_iff send_peered(4,5) [OF assms(1)]
proof (intro allI impI)
  fix n k q'
  assume n: "sock_name p w = Some n" and k: "sock_monitor p w = Some k"
    and q': "monitors (fst (send a m w)) k = Some q'"
  show "length (box p (fst (send a m w))) \<le> sig_count n ''recv'' q'"
  proof (cases "length (box d w) < mailbox_limit")
    case False
    with n k q' assms(2) show ?thesis
      by (simp add: wake_ok_iff send_peered [OF assms(1)])
  next
    case True
    with q' obtain q where q: "monitors w k = Some q"
      "q' = q @ (if sock_monitor d w = Some k then [\<lparr>who = the (sock_name d w), what = ''recv''\<rparr>] else [])"
      by (auto simp: send_peered [OF assms(1)] dest!: notify_queue)
    moreover have "length (box p w) \<le> sig_count n ''recv'' q"
      using n k q(1) assms(2) by (simp add: wake_ok_iff)
    ultimately show ?thesis
      using n k by (auto simp: send_peered [OF assms(1)])
  qed
qed

text \<open>A message that arrives before the monitor is set leaves no signal.\<close>

lemma early_message_no_signal:
  assumes "peered a p w" and "sock_monitor p w = None" and "length (box p w) < mailbox_limit"
  shows "monitors (fst (send a m w)) = monitors w \<and> box p (fst (send a m w)) = box p w @ [m]"
  using assms by (simp add: send_peered [OF assms(1)])

end
