(* ===== verification/Broker.thy ===== *)
theory Broker
  imports Packets InprocSocket
begin

text \<open>
  The broker (\<open>broker/src/broker.cpp\<close>): the event loop that accepts connections, keeps the
  tables of connected sockets, channel subscriptions and running transactions, and routes
  packets between them by their headers. \<open>broker_t\<close> holds the locals of
  \<open>broker_start\<close>; \<open>broker_handle\<close> is the switch over the packet type, and one turn of the
  loop is \<open>broker_turn\<close>.
\<close>

section \<open>State\<close>

record broker_t =
  b_monitor :: addr
  b_acceptor :: addr
  b_sockets :: "(string \<times> addr) list"
  b_subs :: "(string \<times> addr) list"
  b_txs :: "(string \<times> addr) list"

text \<open>
  The three maps own the sockets that the broker's side of a connection consists of. When
  a step drops the last of these references, the socket is destroyed at its end.
\<close>

definition b_refs :: "broker_t \<Rightarrow> addr list" where
  "b_refs b = map snd (b_sockets b) @ map snd (b_subs b) @ map snd (b_txs b)"

definition release :: "broker_t \<Rightarrow> broker_t \<Rightarrow> world \<Rightarrow> world" where
  "release b b' w =
     w\<lparr>sockets := (\<lambda>a. if a \<in> set (b_refs b) \<and> a \<notin> set (b_refs b') then None else sockets w a)\<rparr>"

section \<open>Handling a packet\<close>

text \<open>\<open>socket->send(dump_packet<..>(..))\<close>: the result of the send is not looked at.\<close>

definition reply :: "codec \<Rightarrow> addr \<Rightarrow> packet_t \<Rightarrow> world \<Rightarrow> world res" where
  "reply C a p w = bindR (dump_packet C p) (\<lambda>bs. Inr (fst (send a bs w)))"

definition handle_disconnect :: "codec \<Rightarrow> broker_t \<Rightarrow> addr \<Rightarrow> string \<Rightarrow> world \<Rightarrow> (broker_t \<times> world) res" where
  "handle_disconnect C b a tx w =
     (let chs = map fst (filter (\<lambda>e. sock_name (snd e) w = sock_name a w) (b_subs b));
          b' = b\<lparr>b_subs := fold del chs (b_subs b),
                  b_sockets := (case sock_name a w of None \<Rightarrow> b_sockets b
                                | Some n \<Rightarrow> del n (b_sockets b))\<rparr>
      in bindR (reply C a (respond_ok_packet tx) w) (\<lambda>w'. Inr (b', w')))"

definition handle_subscribe ::
  "codec \<Rightarrow> broker_t \<Rightarrow> addr \<Rightarrow> packet_t \<Rightarrow> string \<Rightarrow> world \<Rightarrow> (broker_t \<times> world) res" where
  "handle_subscribe C b a pkt tx w =
     bindR (get_channel pkt) (\<lambda>ch.
       if map_of (b_subs b) ch \<noteq> None then
         bindR (reply C a (respond_err_packet tx ''Subscription already occupied by {}'') w)
           (\<lambda>w'. Inr (b, w'))
       else
         bindR (reply C a (respond_ok_packet tx) w)
           (\<lambda>w'. Inr (b\<lparr>b_subs := put ch a (b_subs b)\<rparr>, w')))"

definition handle_unsubscribe ::
  "codec \<Rightarrow> broker_t \<Rightarrow> addr \<Rightarrow> packet_t \<Rightarrow> string \<Rightarrow> world \<Rightarrow> (broker_t \<times> world) res" where
  "handle_unsubscribe C b a pkt tx w =
     bindR (get_channel pkt) (\<lambda>ch.
       case map_of (b_subs b) ch of
         None \<Rightarrow>
           bindR (reply C a (respond_err_packet tx ''Subscription not exists {}'') w)
             (\<lambda>w'. Inr (b, w'))
       | Some s \<Rightarrow>
           if sock_name s w \<noteq> sock_name a w then
             bindR (reply C a
                 (respond_err_packet tx ''Trying to remove subscription made by other node'') w)
               (\<lambda>w'. Inr (b, w'))
           else
             bindR (reply C a (respond_ok_packet tx) w)
               (\<lambda>w'. Inr (b\<lparr>b_subs := del ch (b_subs b)\<rparr>, w')))"

definition handle_execute ::
  "codec \<Rightarrow> broker_t \<Rightarrow> addr \<Rightarrow> msg \<Rightarrow> packet_t \<Rightarrow> string \<Rightarrow> world \<Rightarrow> (broker_t \<times> world) res" where
  "handle_execute C b a m pkt tx w =
     bindR (get_channel pkt) (\<lambda>ch.
       case map_of (b_subs b) ch of
         None \<Rightarrow>
           bindR (reply C a (respond_execute_err_packet tx 0
               ''There is no channel can handle this request'') w)
             (\<lambda>w'. Inr (b, w'))
       | Some target \<Rightarrow>
           Inr (b\<lparr>b_txs := put tx a (b_txs b)\<rparr>, fst (send target m w)))"

definition handle_respond_execute ::
  "broker_t \<Rightarrow> msg \<Rightarrow> packet_t \<Rightarrow> string \<Rightarrow> world \<Rightarrow> (broker_t \<times> world) res" where
  "handle_respond_execute b m pkt tx w =
     (case map_of (b_txs b) tx of
        None \<Rightarrow> Inr (b, w)
      | Some target \<Rightarrow>
          (let w' = fst (send target m w) in
           bindR (deref (headers pkt)) (\<lambda>h.
           bindR (array_get as_bool h 2) (\<lambda>fin.
             Inr (if fin then b\<lparr>b_txs := del tx (b_txs b)\<rparr> else b, w')))))"

definition broker_handle ::
  "codec \<Rightarrow> broker_t \<Rightarrow> addr \<Rightarrow> msg \<Rightarrow> packet_t \<Rightarrow> string \<Rightarrow> world \<Rightarrow> (broker_t \<times> world) res" where
  "broker_handle C b a m pkt tx w =
     (case ptype pkt of
        connect \<Rightarrow> bindR (reply C a (respond_ok_packet tx) w) (\<lambda>w'. Inr (b, w'))
      | disconnect \<Rightarrow> handle_disconnect C b a tx w
      | subscribe \<Rightarrow> handle_subscribe C b a pkt tx w
      | unsubscribe \<Rightarrow> handle_unsubscribe C b a pkt tx w
      | execute \<Rightarrow> handle_execute C b a m pkt tx w
      | respond_execute \<Rightarrow> handle_respond_execute b m pkt tx w
      | _ \<Rightarrow> Inr (b, w))"

text \<open>
  The \<open>recv\<close> branch of the loop, for the socket the signal names: receive, read the
  header, print the packet for the debug log (which can throw), handle it.
\<close>

definition broker_recv :: "codec \<Rightarrow> broker_t \<Rightarrow> addr \<Rightarrow> world \<Rightarrow> (broker_t \<times> world) res" where
  "broker_recv C b a w =
     (let (w1, r) = recv a w in
      case r of
        None \<Rightarrow> Inr (b, w1)
      | Some m \<Rightarrow>
          bindR (load_packet C m True) (\<lambda>pkt.
          bindR (get_tx_id pkt) (\<lambda>tx.
          bindR (packet_str pkt) (\<lambda>_.
          bindR (broker_handle C b a m pkt tx w1) (\<lambda>(b', w2).
            Inr (b', release b b' w2))))))"

definition broker_accept :: "broker_t \<Rightarrow> world \<Rightarrow> broker_t \<times> world" where
  "broker_accept b w =
     (let (w1, r) = accept (b_acceptor b) w in
      case r of
        None \<Rightarrow> (b, w1)
      | Some a \<Rightarrow>
          (let w2 = socket_set_monitor a (b_monitor b) w1;
               b' = (case sock_name a w2 of None \<Rightarrow> b
                     | Some n \<Rightarrow> b\<lparr>b_sockets := put n a (b_sockets b)\<rparr>)
           in (b', release b b' w2)))"

section \<open>The loop\<close>

text \<open>
  One turn: take a signal, waiting at most 100 ms, and act on it. \<open>Stopped n\<close> is the end of
  the loop with the number of connections that remain.
\<close>

datatype turn = Running broker_t world | Stopped nat world

definition broker_shutdown :: "broker_t \<Rightarrow> world \<Rightarrow> world" where
  "broker_shutdown b w =
     acceptor_free (b_acceptor b)
       (release b (b\<lparr>b_sockets := [], b_subs := [], b_txs := []\<rparr>) w)"

definition broker_turn :: "codec \<Rightarrow> broker_t \<Rightarrow> world \<Rightarrow> turn res" where
  "broker_turn C b w =
     (let (ms, sig) = monitor_wait (monitors w) (b_monitor b); w1 = w\<lparr>monitors := ms\<rparr> in
      case sig of
        None \<Rightarrow> Inr (Running b w1)
      | Some s \<Rightarrow>
          if what s = ''stop'' then
            Inr (Stopped (length (b_sockets b)) (broker_shutdown b w1))
          else if what s = ''accept'' then
            (let (b', w2) = broker_accept b w1 in Inr (Running b' w2))
          else if what s = ''recv'' then
            (case map_of (b_sockets b) (who s) of
               None \<Rightarrow> Inr (Running b w1)
             | Some a \<Rightarrow> bindR (broker_recv C b a w1) (\<lambda>(b', w2). Inr (Running b' w2)))
          else Inr (Running b w1))"

text \<open>
  What \<open>broker_start\<close> does before the loop; \<open>stops\<close> is the static table of stop signals.
\<close>

definition broker_start ::
  "string \<Rightarrow> world \<Rightarrow> (string \<times> stop_t) list \<Rightarrow> (broker_t \<times> world \<times> (string \<times> stop_t) list) res" where
  "broker_start url w stops =
     (let (w1, m) = new_monitor w; (w2, r) = acceptor_new url w1 in
      bindR r (\<lambda>acc.
        let w3 = acceptor_set_monitor acc m w2;
            (st, i) = stop_new (next_id w3);
            st' = st\<lparr>stop_notifier := set_monitor m (stop_notifier st)\<rparr>;
            w4 = w3\<lparr>next_id := i\<rparr>
        in Inr (\<lparr>b_monitor = m, b_acceptor = acc, b_sockets = [], b_subs = [], b_txs = []\<rparr>,
                w4, put url st' stops)))"

definition broker_stop ::
  "string \<Rightarrow> world \<Rightarrow> (string \<times> stop_t) list \<Rightarrow> world \<times> (string \<times> stop_t) list" where
  "broker_stop url w stops =
     (case map_of stops url of
        None \<Rightarrow> (w, stops)
      | Some st \<Rightarrow>
          (let (st', ms) = stop_stop st (monitors w)
           in (w\<lparr>monitors := ms\<rparr>, put url st' stops)))"

section \<open>The tables stay consistent\<close>

text \<open>
  A registered socket is alive, is registered under its own name and reports to the
  broker's monitor; a subscriber is a registered socket; the socket of a running
  transaction is alive.
\<close>

definition broker_inv :: "broker_t \<Rightarrow> world \<Rightarrow> bool" where
  "broker_inv b w \<longleftrightarrow>
     dict_ok (b_sockets b) \<and> dict_ok (b_subs b) \<and> dict_ok (b_txs b) \<and>
     (\<forall>n a. map_of (b_sockets b) n = Some a \<longrightarrow>
        sock_name a w = Some n \<and> sock_monitor a w = Some (b_monitor b)) \<and>
     (\<forall>ch a. map_of (b_subs b) ch = Some a \<longrightarrow> (\<exists>n. map_of (b_sockets b) n = Some a)) \<and>
     (\<forall>tx a. map_of (b_txs b) tx = Some a \<longrightarrow> sockets w a \<noteq> None) \<and>
     (\<forall>a. sockets w a \<noteq> None \<longrightarrow> a < next_addr w)"

lemma map_of_fold_del: "map_of (fold del ks m) k = (if k \<in> set ks then None else map_of m k)"
  by (induction ks arbitrary: m) auto

lemma dict_ok_fold_del: "dict_ok m \<Longrightarrow> dict_ok (fold del ks m)"
  by (induction ks arbitrary: m) auto

lemma keys_of_filter:
  "dict_ok m \<Longrightarrow> k \<in> set (map fst (filter P m)) \<longleftrightarrow> (\<exists>v. map_of m k = Some v \<and> P (k, v))"
  by (auto simp: map_of_eq_Some_iff dict_ok_distinct image_iff)

lemma reply_frame:
  assumes "reply C a p w = Inr w'"
  obtains bs where "dump_packet C p = Inr bs" "w' = fst (send a bs w)"
  using assms by (auto simp: reply_def bindR_eq_Inr)

lemma broker_inv_frame:
  assumes "broker_inv b w"
    and "\<And>c. sock_name c w' = sock_name c w" "\<And>c. sock_monitor c w' = sock_monitor c w"
    and "\<And>c. sockets w' c = None \<longleftrightarrow> sockets w c = None" "next_addr w' = next_addr w"
  shows "broker_inv b w'"
  using assms unfolding broker_inv_def by auto

lemma broker_inv_send [simp]: "broker_inv b w \<Longrightarrow> broker_inv b (fst (send a m w))"
  by (rule broker_inv_frame) simp_all

lemma broker_inv_recv [simp]: "broker_inv b w \<Longrightarrow> broker_inv b (fst (recv a w))"
  by (rule broker_inv_frame) simp_all

lemma registered_alive: "broker_inv b w \<Longrightarrow> map_of (b_sockets b) n = Some a \<Longrightarrow> sockets w a \<noteq> None"
proof -
  assume "broker_inv b w" and "map_of (b_sockets b) n = Some a"
  then have "sock_name a w = Some n" unfolding broker_inv_def by blast
  then show ?thesis by (auto simp: sock_name_def)
qed

text \<open>Handling a packet sends at most one message.\<close>

definition one_send :: "world \<Rightarrow> world \<Rightarrow> bool" where
  "one_send w w' \<longleftrightarrow> w' = w \<or> (\<exists>c m. w' = fst (send c m w))"

lemma one_send_simps [simp]: "one_send w w" "one_send w (fst (send c m w))"
  by (auto simp: one_send_def)

lemma broker_inv_one_send: "one_send w w' \<Longrightarrow> broker_inv b w \<Longrightarrow> broker_inv b w'"
  by (auto simp: one_send_def)

lemma reply_one_send: "reply C a p w = Inr w' \<Longrightarrow> one_send w w'"
  by (auto elim!: reply_frame)

lemma broker_handle_one_send:
  assumes "broker_handle C b a m pkt tx w = Inr (b', w')"
  shows "one_send w w'"
  using assms
  by (cases "ptype pkt")
    (auto simp: broker_handle_def handle_disconnect_def handle_subscribe_def
      handle_unsubscribe_def handle_execute_def handle_respond_execute_def bindR_eq_Inr Let_def
      dest!: reply_one_send split: if_splits option.splits)

text \<open>What each packet type does to the tables.\<close>

lemma disconnect_form:
  assumes "handle_disconnect C b a tx w = Inr (b', w')" and "sock_name a w = Some n"
  shows "b' = b\<lparr>b_subs := fold del (map fst (filter (\<lambda>e. sock_name (snd e) w = Some n) (b_subs b)))
      (b_subs b), b_sockets := del n (b_sockets b)\<rparr>"
  using assms by (auto simp: handle_disconnect_def bindR_eq_Inr)

lemma disconnect_tables:
  assumes inv: "broker_inv b w" and reg: "map_of (b_sockets b) n = Some a"
    and run: "handle_disconnect C b a tx w = Inr (b', w')"
  shows "map_of (b_subs b') ch =
      (case map_of (b_subs b) ch of None \<Rightarrow> None | Some s \<Rightarrow> if s = a then None else Some s)"
    and "b_sockets b' = del n (b_sockets b)" and "b_txs b' = b_txs b"
    and "b_monitor b' = b_monitor b" and "dict_ok (b_subs b')"
proof -
  have name: "sock_name a w = Some n" and ok: "dict_ok (b_subs b)"
    using inv reg unfolding broker_inv_def by blast+
  note b' = disconnect_form [OF run name]
  have same: "sock_name s w = Some n \<longleftrightarrow> s = a" if "map_of (b_subs b) ch = Some s" for ch s
    using inv reg that unfolding broker_inv_def by (metis option.inject)
  show "map_of (b_subs b') ch =
      (case map_of (b_subs b) ch of None \<Rightarrow> None | Some s \<Rightarrow> if s = a then None else Some s)"
    using same ok
    by (auto simp: b' map_of_fold_del keys_of_filter simp del: set_map split: option.splits)
  show "b_sockets b' = del n (b_sockets b)" "b_txs b' = b_txs b" "b_monitor b' = b_monitor b"
    "dict_ok (b_subs b')"
    using ok by (simp_all add: b' dict_ok_fold_del)
qed

lemma inv_subscribe:
  "broker_inv b w \<Longrightarrow> map_of (b_sockets b) n = Some a \<Longrightarrow>
     broker_inv (b\<lparr>b_subs := put ch a (b_subs b)\<rparr>) w"
  unfolding broker_inv_def by auto

lemma inv_unsubscribe: "broker_inv b w \<Longrightarrow> broker_inv (b\<lparr>b_subs := del ch (b_subs b)\<rparr>) w"
  unfolding broker_inv_def by auto

lemma inv_remember:
  "broker_inv b w \<Longrightarrow> sockets w a \<noteq> None \<Longrightarrow> broker_inv (b\<lparr>b_txs := put tx a (b_txs b)\<rparr>) w"
  unfolding broker_inv_def by auto

lemma inv_forget: "broker_inv b w \<Longrightarrow> broker_inv (b\<lparr>b_txs := del tx (b_txs b)\<rparr>) w"
  unfolding broker_inv_def by auto

lemma inv_disconnect:
  assumes inv: "broker_inv b w" and reg: "map_of (b_sockets b) n = Some a"
    and run: "handle_disconnect C b a tx w = Inr (b', w')"
  shows "broker_inv b' w"
proof -
  note tables = disconnect_tables [OF inv reg run]
  have one: "map_of (b_sockets b) k = Some a \<Longrightarrow> k = n" for k
    using inv reg unfolding broker_inv_def by (metis option.inject)
  have "\<exists>k. map_of (b_sockets b') k = Some s" if "map_of (b_subs b') ch = Some s" for ch s
  proof -
    have "map_of (b_subs b) ch = Some s" and "s \<noteq> a"
      using that by (auto simp: tables split: option.splits if_splits)
    then obtain k where "map_of (b_sockets b) k = Some s"
      using inv unfolding broker_inv_def by blast
    with \<open>s \<noteq> a\<close> reg show ?thesis by (intro exI [of _ k]) (auto simp: tables)
  qed
  then show ?thesis
    using inv unfolding broker_inv_def tables(2-4)
    by (simp add: tables(5))
qed

lemma broker_handle_inv:
  assumes inv: "broker_inv b w" and reg: "map_of (b_sockets b) n = Some a"
    and run: "broker_handle C b a m pkt tx w = Inr (b', w')"
  shows "broker_inv b' w'"
proof -
  have "broker_inv b' w"
    using run inv inv_disconnect [OF inv reg] inv_subscribe [OF inv reg] inv_unsubscribe [OF inv]
      inv_remember [OF inv registered_alive [OF inv reg]] inv_forget [OF inv]
    by (cases "ptype pkt")
      (auto simp: broker_handle_def handle_subscribe_def handle_unsubscribe_def handle_execute_def
        handle_respond_execute_def bindR_eq_Inr Let_def split: if_splits option.splits)
  with broker_handle_one_send [OF run] show ?thesis by (rule broker_inv_one_send)
qed

text \<open>Dropping the sockets that nobody holds any more keeps the others.\<close>

lemma release_frame:
  assumes "a \<in> set (b_refs b') \<or> a \<notin> set (b_refs b)"
  shows "sockets (release b b' w) a = sockets w a"
    and "sock_name a (release b b' w) = sock_name a w"
    and "sock_monitor a (release b b' w) = sock_monitor a w"
  using assms by (auto simp: release_def sock_name_def sock_monitor_def)

lemma release_other [simp]:
  "next_addr (release b b' w) = next_addr w" "next_id (release b b' w) = next_id w"
  "monitors (release b b' w) = monitors w" "acceptors (release b b' w) = acceptors w"
  by (simp_all add: release_def)

lemma in_refs:
  "map_of (b_sockets b) n = Some a \<Longrightarrow> a \<in> set (b_refs b)"
  "map_of (b_subs b) n = Some a \<Longrightarrow> a \<in> set (b_refs b)"
  "map_of (b_txs b) n = Some a \<Longrightarrow> a \<in> set (b_refs b)"
  by (force simp: b_refs_def dest: map_of_SomeD)+

lemma broker_inv_release:
  assumes "broker_inv b' w" shows "broker_inv b' (release b b' w)"
proof -
  have "sockets (release b b' w) a \<noteq> None \<Longrightarrow> sockets w a \<noteq> None" for a
    by (auto simp: release_def split: if_splits)
  with assms show ?thesis
    unfolding broker_inv_def by (auto simp: release_frame in_refs)
qed

lemma broker_recv_inv:
  assumes inv: "broker_inv b w" and reg: "map_of (b_sockets b) n = Some a"
    and run: "broker_recv C b a w = Inr (b', w')"
  shows "broker_inv b' w'"
proof -
  obtain w1 r where r: "recv a w = (w1, r)" by fastforce
  have inv1: "broker_inv b w1"
    using broker_inv_recv [OF inv, of a] r by simp
  show ?thesis
  proof (cases r)
    case None
    with run r inv1 show ?thesis by (simp add: broker_recv_def)
  next
    case (Some m)
    then obtain pkt tx w2 where "broker_handle C b a m pkt tx w1 = Inr (b', w2)"
      and "w' = release b b' w2"
      using run r by (auto simp: broker_recv_def bindR_eq_Inr)
    with broker_handle_inv [OF inv1 reg] broker_inv_release show ?thesis by blast
  qed
qed

lemma attach_frame [simp]:
  "sock_name c (attach a p w) = sock_name c w" "sock_monitor c (attach a p w) = sock_monitor c w"
  "sockets (attach a p w) c = None \<longleftrightarrow> sockets w c = None" "next_addr (attach a p w) = next_addr w"
  "next_id (attach a p w) = next_id w"
  by (cases "sockets w a"; auto simp: attach_def sock_name_def sock_monitor_def split: option.splits)+

lemma set_monitor_frame [simp]:
  "sock_name c (socket_set_monitor a m w) = sock_name c w"
  "sock_monitor c (socket_set_monitor a m w) =
     (if c = a then map_option (\<lambda>_. m) (sockets w a) else sock_monitor c w)"
  "sockets (socket_set_monitor a m w) c = None \<longleftrightarrow> sockets w c = None"
  "next_addr (socket_set_monitor a m w) = next_addr w"
  "next_id (socket_set_monitor a m w) = next_id w"
  by (cases "sockets w a"; simp add: socket_set_monitor_def sock_name_def sock_monitor_def
      set_monitor_def)+

lemma accept_frame:
  assumes "accept acc w = (w', Some a)"
  shows "a = next_addr w" and "sock_name c w' = (if c = a then Some (show_u64 (next_id w)) else sock_name c w)"
    and "sock_monitor c w' = (if c = a then None else sock_monitor c w)"
    and "sockets w' c = None \<longleftrightarrow> c \<noteq> a \<and> sockets w c = None"
    and "next_addr w' = Suc (next_addr w)" and "next_id w' = next_id w + 1"
  using assms
  by (auto simp: accept_def socket_new_def notify_new_def new_name_def Let_def sock_name_def
      sock_monitor_def attach_def split: option.splits prod.splits if_splits)

lemma accept_none_frame:
  assumes "accept acc w = (w', None)"
  shows "sock_name c w' = sock_name c w" "sock_monitor c w' = sock_monitor c w"
    "sockets w' = sockets w" "next_addr w' = next_addr w" "next_id w' = next_id w"
  using assms
  by (auto simp: accept_def Let_def sock_name_def sock_monitor_def
      split: option.splits prod.splits)

lemma broker_accept_some:
  assumes "accept (b_acceptor b) w = (w1, Some a)" and "broker_accept b w = (b', w')"
  shows "b' = b\<lparr>b_sockets := put (show_u64 (next_id w)) a (b_sockets b)\<rparr>"
    and "w' = release b b' (socket_set_monitor a (b_monitor b) w1)"
  using assms accept_frame(2) [OF assms(1), of a]
  by (auto simp: broker_accept_def Let_def)

lemma broker_accept_inv:
  assumes inv: "broker_inv b w" and new: "map_of (b_sockets b) (show_u64 (next_id w)) = None"
    and run: "broker_accept b w = (b', w')"
  shows "broker_inv b' w'"
proof -
  obtain w1 r where r: "accept (b_acceptor b) w = (w1, r)" by fastforce
  show ?thesis
  proof (cases r)
    case None
    with run r have "b' = b" "w' = w1" by (simp_all add: broker_accept_def)
    with inv accept_none_frame [of "b_acceptor b" w w1] r None show ?thesis
      by (auto intro: broker_inv_frame)
  next
    case (Some a)
    note acc = accept_frame [OF r [unfolded Some]]
    note b' = broker_accept_some [OF r [unfolded Some] run]
    have fresh: "sockets w a = None"
      using inv acc(1) unfolding broker_inv_def by blast
    let ?w2 = "socket_set_monitor a (b_monitor b) w1"
    have reg: "map_of (b_sockets b') n = Some c \<Longrightarrow>
        sock_name c ?w2 = Some n \<and> sock_monitor c ?w2 = Some (b_monitor b')" for n c
      using inv fresh registered_alive [OF inv, of n c] acc(4) [of a] unfolding broker_inv_def b'(1)
      by (auto simp: acc(2,3) split: if_splits)
    have sub: "map_of (b_subs b') ch = Some c \<Longrightarrow> \<exists>n. map_of (b_sockets b') n = Some c" for ch c
      using inv new unfolding broker_inv_def b'(1)
      by simp (metis option.distinct(1))
    have tx: "map_of (b_txs b') tx = Some c \<Longrightarrow> sockets ?w2 c \<noteq> None" for tx c
      using inv fresh unfolding broker_inv_def b'(1) by (auto simp: acc(4))
    have addr: "sockets ?w2 c \<noteq> None \<Longrightarrow> c < next_addr ?w2" for c
      using inv unfolding broker_inv_def by (auto simp: acc(1,4,5) less_Suc_eq)
    have "dict_ok (b_sockets b') \<and> dict_ok (b_subs b') \<and> dict_ok (b_txs b')"
      using inv unfolding broker_inv_def b'(1) by simp
    with reg sub tx addr have "broker_inv b' ?w2"
      unfolding broker_inv_def by blast
    then show ?thesis unfolding b'(2) by (rule broker_inv_release)
  qed
qed

lemma broker_turn_inv:
  assumes inv: "broker_inv b w" and new: "map_of (b_sockets b) (show_u64 (next_id w)) = None"
    and run: "broker_turn C b w = Inr (Running b' w')"
  shows "broker_inv b' w'"
proof -
  obtain ms sig where s: "monitor_wait (monitors w) (b_monitor b) = (ms, sig)" by fastforce
  have inv1: "broker_inv b (w\<lparr>monitors := ms\<rparr>)"
    using inv by (auto intro: broker_inv_frame simp: sock_name_def sock_monitor_def)
  have acc: "broker_accept b (w\<lparr>monitors := ms\<rparr>) = (b', w') \<Longrightarrow> broker_inv b' w'"
    using broker_accept_inv [OF inv1] new by simp
  show ?thesis
    using run s inv1 acc broker_recv_inv [OF inv1]
    by (auto simp: broker_turn_def Let_def bindR_eq_Inr split: option.splits if_splits prod.splits)
qed

end
