(* ===== verification/BrokerSpec.thy ===== *)
theory BrokerSpec
  imports Broker
begin

text \<open>
  What the broker promises: an abstract hub that knows its members by name, who owns a
  channel and who waits for the result of a transaction. The requests and the channels are
  structured here, where the code has packets and strings; the lemmas of the last section
  show that the broker's handler is a refinement of the hub.
\<close>

section \<open>Channels\<close>

text \<open>
  A channel names a function, a component type, a component or a method of a component.
  Channels are ordered (by kind, then by names), so that the hub's table of owners is a
  map of the kind the prelude has.
\<close>

datatype chan = Fn string | Def string | Del string | Meth string string

fun chan_str :: "chan \<Rightarrow> string" where
  "chan_str (Fn a) = ''0/'' @ a"
| "chan_str (Def a) = ''1/'' @ a"
| "chan_str (Del a) = ''2/'' @ a"
| "chan_str (Meth a b) = ''3/'' @ a @ ''/'' @ b"

text \<open>The names that can be told apart in a channel's text.\<close>

fun chan_ok :: "chan \<Rightarrow> bool" where
  "chan_ok (Meth a b) \<longleftrightarrow> CHR ''/'' \<notin> set a"
| "chan_ok _ \<longleftrightarrow> True"

fun chan_key :: "chan \<Rightarrow> string list" where
  "chan_key (Fn a) = [''0'', a]"
| "chan_key (Def a) = [''1'', a]"
| "chan_key (Del a) = [''2'', a]"
| "chan_key (Meth a b) = [''3'', a, b]"

lemma chan_key_inject [simp]: "chan_key c = chan_key d \<longleftrightarrow> c = d"
  by (cases c; cases d) auto

instantiation chan :: linorder
begin

definition less_eq_chan :: "chan \<Rightarrow> chan \<Rightarrow> bool" where
  "less_eq_chan c d \<longleftrightarrow> chan_key c \<le> chan_key d"

definition less_chan :: "chan \<Rightarrow> chan \<Rightarrow> bool" where
  "less_chan c d \<longleftrightarrow> chan_key c < chan_key d"

instance
proof
  fix c d e :: chan
  show "c < d \<longleftrightarrow> c \<le> d \<and> \<not> d \<le> c"
    by (simp add: less_eq_chan_def less_chan_def less_le_not_le)
  show "c \<le> c"
    by (simp add: less_eq_chan_def)
  show "c \<le> d \<Longrightarrow> d \<le> e \<Longrightarrow> c \<le> e"
    unfolding less_eq_chan_def by (rule order_trans)
  show "c \<le> d \<Longrightarrow> d \<le> c \<Longrightarrow> c = d"
    by (simp add: less_eq_chan_def flip: chan_key_inject)
  show "c \<le> d \<or> d \<le> c"
    unfolding less_eq_chan_def by (rule linear)
qed

end

lemma chan_str_inject:
  "chan_ok c \<Longrightarrow> chan_ok d \<Longrightarrow> chan_str c = chan_str d \<longleftrightarrow> c = d"
  by (cases c; cases d) (auto dest!: split_at_slash)

section \<open>The hub\<close>

record hub =
  owners :: "(chan \<times> string) list"
  pending :: "(string \<times> string) list"

datatype request = Hello | Bye | Sub chan | Unsub chan | Call chan | Result bool | Unknown

datatype action = Reply packet_t | Relay string | Silent

fun hub_step :: "string \<Rightarrow> string \<Rightarrow> request \<Rightarrow> hub \<Rightarrow> hub \<times> action" where
  "hub_step me tx Hello h = (h, Reply (respond_ok_packet tx))"
| "hub_step me tx Bye h =
     (h\<lparr>owners := filter (\<lambda>e. snd e \<noteq> me) (owners h)\<rparr>, Reply (respond_ok_packet tx))"
| "hub_step me tx (Sub c) h =
     (if map_of (owners h) c = None
      then (h\<lparr>owners := put c me (owners h)\<rparr>, Reply (respond_ok_packet tx))
      else (h, Reply (respond_err_packet tx ''Subscription already occupied by {}'')))"
| "hub_step me tx (Unsub c) h =
     (case map_of (owners h) c of
        None \<Rightarrow> (h, Reply (respond_err_packet tx ''Subscription not exists {}''))
      | Some n \<Rightarrow>
          if n = me then (h\<lparr>owners := del c (owners h)\<rparr>, Reply (respond_ok_packet tx))
          else (h, Reply (respond_err_packet tx
                  ''Trying to remove subscription made by other node'')))"
| "hub_step me tx (Call c) h =
     (case map_of (owners h) c of
        None \<Rightarrow> (h, Reply (respond_execute_err_packet tx 0
                  ''There is no channel can handle this request''))
      | Some n \<Rightarrow> (h\<lparr>pending := put tx me (pending h)\<rparr>, Relay n))"
| "hub_step me tx (Result fin) h =
     (case map_of (pending h) tx of
        None \<Rightarrow> (h, Silent)
      | Some n \<Rightarrow> (if fin then h\<lparr>pending := del tx (pending h)\<rparr> else h, Relay n))"
| "hub_step me tx Unknown h = (h, Silent)"

section \<open>Reading a request from a packet\<close>

definition chan_of :: "packet_t \<Rightarrow> chan option" where
  "chan_of p =
     (case channel_args p of
        Inr [a] \<Rightarrow>
          if itype p = Some call_function then Some (Fn a)
          else if itype p = Some define_component then Some (Def a)
          else if itype p = Some delete_component then Some (Del a) else None
      | Inr [a, b] \<Rightarrow> if itype p = Some call_method then Some (Meth a b) else None
      | _ \<Rightarrow> None)"

lemma chan_of_channel: "get_channel p = Inr ch \<Longrightarrow> \<exists>c. chan_of p = Some c \<and> ch = chan_str c"
  by (erule get_channel_cases) (simp_all add: chan_of_def)

lemma bind_channel:
  "bindR (get_channel p) f = Inr r \<Longrightarrow> chan_of p = Some c \<Longrightarrow> get_channel p = Inr (chan_str c)"
  unfolding bindR_eq_Inr using chan_of_channel by fastforce

definition fin_of :: "packet_t \<Rightarrow> bool option" where
  "fin_of p =
     (case headers p of None \<Rightarrow> None
      | Some h \<Rightarrow> (case array_get as_bool h 2 of Inr b \<Rightarrow> Some b | Inl _ \<Rightarrow> None))"

definition request_of :: "packet_t \<Rightarrow> request option" where
  "request_of p =
     (case ptype p of
        connect \<Rightarrow> Some Hello
      | disconnect \<Rightarrow> Some Bye
      | subscribe \<Rightarrow> map_option Sub (chan_of p)
      | unsubscribe \<Rightarrow> map_option Unsub (chan_of p)
      | execute \<Rightarrow> map_option Call (chan_of p)
      | respond_execute \<Rightarrow> map_option Result (fin_of p)
      | _ \<Rightarrow> Some Unknown)"

fun request_ok :: "request \<Rightarrow> bool" where
  "request_ok (Sub c) \<longleftrightarrow> chan_ok c"
| "request_ok (Unsub c) \<longleftrightarrow> chan_ok c"
| "request_ok (Call c) \<longleftrightarrow> chan_ok c"
| "request_ok _ \<longleftrightarrow> True"

section \<open>Refinement\<close>

text \<open>
  The hub and the broker agree when their tables do: the owner of a channel and the node a
  result is for are the names of the sockets that the broker's tables hold.
\<close>

definition agree :: "hub \<Rightarrow> broker_t \<Rightarrow> world \<Rightarrow> bool" where
  "agree h b w \<longleftrightarrow>
     dict_ok (owners h) \<and> dict_ok (pending h) \<and>
     (\<forall>c. chan_ok c \<longrightarrow>
        map_of (owners h) c = Option.bind (map_of (b_subs b) (chan_str c)) (\<lambda>a. sock_name a w)) \<and>
     (\<forall>c. \<not> chan_ok c \<longrightarrow> map_of (owners h) c = None) \<and>
     (\<forall>tx. map_of (pending h) tx = Option.bind (map_of (b_txs b) tx) (\<lambda>a. sock_name a w))"

text \<open>How an action of the hub is carried out for the packet \<open>m\<close> that came in on \<open>a\<close>.\<close>

fun performs :: "codec \<Rightarrow> addr \<Rightarrow> msg \<Rightarrow> action \<Rightarrow> world \<Rightarrow> world \<Rightarrow> bool" where
  "performs C a m (Reply p) w w' \<longleftrightarrow> reply C a p w = Inr w'"
| "performs C a m (Relay n) w w' \<longleftrightarrow> (\<exists>t. sock_name t w = Some n \<and> w' = fst (send t m w))"
| "performs C a m Silent w w' \<longleftrightarrow> w' = w"

lemma agree_frame:
  "agree h b w \<Longrightarrow> (\<And>c. sock_name c w' = sock_name c w) \<Longrightarrow> agree h b w'"
  unfolding agree_def by auto

lemma agree_one_send: "one_send w w' \<Longrightarrow> agree h b w \<Longrightarrow> agree h b w'"
  by (auto simp: one_send_def intro: agree_frame)

lemma map_of_filter_value:
  "dict_ok m \<Longrightarrow> map_of (filter (\<lambda>e. P (snd e)) m) k =
     (case map_of m k of None \<Rightarrow> None | Some v \<Rightarrow> if P v then Some v else None)"
proof (induction m)
  case Nil
  then show ?case by simp
next
  case (Cons e m)
  have "map_of m (fst e) = None"
    using Cons.prems by (auto simp: dict_ok_Cons map_of_eq_None_iff)
  with Cons show ?case by (auto simp: dict_ok_Cons)
qed

lemma registered_name: "broker_inv b w \<Longrightarrow> map_of (b_sockets b) n = Some a \<Longrightarrow> sock_name a w = Some n"
  unfolding broker_inv_def by blast

lemma subscriber_name:
  assumes "broker_inv b w" and "map_of (b_subs b) ch = Some a"
  obtains n where "map_of (b_sockets b) n = Some a" "sock_name a w = Some n"
  using assms registered_name unfolding broker_inv_def by blast

lemma same_name_same_socket:
  assumes "broker_inv b w" and "map_of (b_sockets b) n = Some a" and "map_of (b_subs b) ch = Some s"
  shows "sock_name s w = Some n \<longleftrightarrow> s = a"
  using assms registered_name by (metis option.inject subscriber_name)

lemma agreeD:
  assumes "agree h b w"
  shows "dict_ok (owners h)" "dict_ok (pending h)"
    and "chan_ok c \<Longrightarrow> map_of (owners h) c =
      Option.bind (map_of (b_subs b) (chan_str c)) (\<lambda>a. sock_name a w)"
    and "\<not> chan_ok c \<Longrightarrow> map_of (owners h) c = None"
    and "map_of (pending h) tx = Option.bind (map_of (b_txs b) tx) (\<lambda>a. sock_name a w)"
  using assms unfolding agree_def by blast+

lemma agree_put_owner:
  assumes "agree h b w" and "chan_ok c" and "sock_name a w = Some n"
  shows "agree (h\<lparr>owners := put c n (owners h)\<rparr>) (b\<lparr>b_subs := put (chan_str c) a (b_subs b)\<rparr>) w"
  using assms agreeD [OF assms(1)] by (auto simp: agree_def chan_str_inject)

lemma agree_del_owner:
  assumes "agree h b w" and "chan_ok c"
  shows "agree (h\<lparr>owners := del c (owners h)\<rparr>) (b\<lparr>b_subs := del (chan_str c) (b_subs b)\<rparr>) w"
  using assms agreeD [OF assms(1)] by (auto simp: agree_def chan_str_inject)

lemma agree_put_pending:
  assumes "agree h b w" and "sock_name a w = Some n"
  shows "agree (h\<lparr>pending := put tx n (pending h)\<rparr>) (b\<lparr>b_txs := put tx a (b_txs b)\<rparr>) w"
  using assms agreeD [OF assms(1)] by (auto simp: agree_def)

lemma agree_del_pending:
  assumes "agree h b w"
  shows "agree (h\<lparr>pending := del tx (pending h)\<rparr>) (b\<lparr>b_txs := del tx (b_txs b)\<rparr>) w"
  using agreeD [OF assms] by (auto simp: agree_def)

lemma refine_disconnect:
  assumes inv: "broker_inv b w" and reg: "map_of (b_sockets b) n = Some a" and ag: "agree h b w"
    and run: "handle_disconnect C b a tx w = Inr (b', w')"
  shows "agree (fst (hub_step n tx Bye h)) b' w'"
    and "performs C a m (snd (hub_step n tx Bye h)) w w'"
proof -
  note tables = disconnect_tables [OF inv reg run]
  have one: "one_send w w'"
    using run by (auto simp: handle_disconnect_def bindR_eq_Inr dest: reply_one_send)
  have own: "map_of (owners (fst (hub_step n tx Bye h))) c =
      (case map_of (owners h) c of None \<Rightarrow> None | Some k \<Rightarrow> if k \<noteq> n then Some k else None)" for c
    using map_of_filter_value [OF agreeD(1) [OF ag], of "\<lambda>v. v \<noteq> n" c] by simp
  have "map_of (owners (fst (hub_step n tx Bye h))) c =
      Option.bind (map_of (b_subs b') (chan_str c)) (\<lambda>a. sock_name a w)" if "chan_ok c" for c
  proof (cases "map_of (b_subs b) (chan_str c)")
    case None
    then show ?thesis unfolding own by (simp add: agreeD(3) [OF ag that] tables(1))
  next
    case (Some s)
    then obtain k where k: "map_of (b_sockets b) k = Some s" "sock_name s w = Some k"
      using subscriber_name [OF inv] by metis
    then have "s = a \<longleftrightarrow> k = n"
      using same_name_same_socket [OF inv reg Some] reg by auto
    with Some k(2) show ?thesis
      unfolding own by (simp add: agreeD(3) [OF ag that] tables(1))
  qed
  then have "agree (fst (hub_step n tx Bye h)) b' w"
    using agreeD [OF ag] own
    by (auto simp: agree_def tables(2-4) dict_ok_filter)
  with one show "agree (fst (hub_step n tx Bye h)) b' w'" by (rule agree_one_send)
  show "performs C a m (snd (hub_step n tx Bye h)) w w'"
    using run by (auto simp: handle_disconnect_def bindR_eq_Inr)
qed

lemma refine_subscribe:
  assumes inv: "broker_inv b w" and reg: "map_of (b_sockets b) n = Some a" and ag: "agree h b w"
    and c: "chan_of p = Some c" "chan_ok c"
    and run: "handle_subscribe C b a p tx w = Inr (b', w')"
  shows "agree (fst (hub_step n tx (Sub c) h)) b' w'"
    and "performs C a m (snd (hub_step n tx (Sub c) h)) w w'"
proof -
  have ch: "get_channel p = Inr (chan_str c)"
    using run c(1) unfolding handle_subscribe_def by (rule bind_channel)
  have name: "sock_name a w = Some n" by (rule registered_name [OF inv reg])
  have free: "map_of (owners h) c = None \<longleftrightarrow> map_of (b_subs b) (chan_str c) = None"
  proof (cases "map_of (b_subs b) (chan_str c)")
    case (Some s)
    then show ?thesis
      by (rule subscriber_name [OF inv]) (simp add: agreeD(3) [OF ag c(2)] Some)
  qed (simp add: agreeD(3) [OF ag c(2)])
  have one: "one_send w w'"
    using run by (auto simp: handle_subscribe_def ch bindR_eq_Inr dest: reply_one_send split: if_splits)
  have "agree (fst (hub_step n tx (Sub c) h)) b' w"
    using run ag agree_put_owner [OF ag c(2) name] free
    by (auto simp: handle_subscribe_def ch bindR_eq_Inr split: if_splits)
  with one show "agree (fst (hub_step n tx (Sub c) h)) b' w'" by (rule agree_one_send)
  show "performs C a m (snd (hub_step n tx (Sub c) h)) w w'"
    using run free by (auto simp: handle_subscribe_def ch bindR_eq_Inr split: if_splits)
qed

lemma refine_unsubscribe:
  assumes inv: "broker_inv b w" and reg: "map_of (b_sockets b) n = Some a" and ag: "agree h b w"
    and c: "chan_of p = Some c" "chan_ok c"
    and run: "handle_unsubscribe C b a p tx w = Inr (b', w')"
  shows "agree (fst (hub_step n tx (Unsub c) h)) b' w'"
    and "performs C a m (snd (hub_step n tx (Unsub c) h)) w w'"
proof -
  have ch: "get_channel p = Inr (chan_str c)"
    using run c(1) unfolding handle_unsubscribe_def by (rule bind_channel)
  have name: "sock_name a w = Some n" by (rule registered_name [OF inv reg])
  have one: "one_send w w'"
    using run by (auto simp: handle_unsubscribe_def ch bindR_eq_Inr dest: reply_one_send
        split: if_splits option.splits)
  have "agree (fst (hub_step n tx (Unsub c) h)) b' w \<and>
      performs C a m (snd (hub_step n tx (Unsub c) h)) w w'"
  proof (cases "map_of (b_subs b) (chan_str c)")
    case None
    with run ag show ?thesis
      by (auto simp: handle_unsubscribe_def ch bindR_eq_Inr agreeD(3) [OF ag c(2)])
  next
    case (Some s)
    then obtain k where "sock_name s w = Some k"
      using subscriber_name [OF inv] by metis
    with Some run ag name agree_del_owner [OF ag c(2)] show ?thesis
      by (auto simp: handle_unsubscribe_def ch bindR_eq_Inr agreeD(3) [OF ag c(2)] split: if_splits)
  qed
  with one show "agree (fst (hub_step n tx (Unsub c) h)) b' w'"
    "performs C a m (snd (hub_step n tx (Unsub c) h)) w w'"
    using agree_one_send by blast+
qed

lemma refine_execute:
  assumes inv: "broker_inv b w" and reg: "map_of (b_sockets b) n = Some a" and ag: "agree h b w"
    and c: "chan_of p = Some c" "chan_ok c"
    and run: "handle_execute C b a m p tx w = Inr (b', w')"
  shows "agree (fst (hub_step n tx (Call c) h)) b' w'"
    and "performs C a m (snd (hub_step n tx (Call c) h)) w w'"
proof -
  have ch: "get_channel p = Inr (chan_str c)"
    using run c(1) unfolding handle_execute_def by (rule bind_channel)
  have name: "sock_name a w = Some n" by (rule registered_name [OF inv reg])
  have one: "one_send w w'"
    using run by (auto simp: handle_execute_def ch bindR_eq_Inr dest: reply_one_send
        split: option.splits)
  have "agree (fst (hub_step n tx (Call c) h)) b' w \<and>
      performs C a m (snd (hub_step n tx (Call c) h)) w w'"
  proof (cases "map_of (b_subs b) (chan_str c)")
    case None
    with run ag show ?thesis
      by (auto simp: handle_execute_def ch bindR_eq_Inr agreeD(3) [OF ag c(2)])
  next
    case (Some s)
    then obtain k where "sock_name s w = Some k"
      using subscriber_name [OF inv] by metis
    with Some run ag agree_put_pending [OF ag name] show ?thesis
      by (auto simp: handle_execute_def ch agreeD(3) [OF ag c(2)])
  qed
  with one show "agree (fst (hub_step n tx (Call c) h)) b' w'"
    "performs C a m (snd (hub_step n tx (Call c) h)) w w'"
    using agree_one_send by blast+
qed

lemma refine_respond_execute:
  assumes inv: "broker_inv b w" and ag: "agree h b w" and fin: "fin_of p = Some fin"
    and run: "handle_respond_execute b m p tx w = Inr (b', w')"
  shows "agree (fst (hub_step n tx (Result fin) h)) b' w'"
    and "performs C a m (snd (hub_step n tx (Result fin) h)) w w'"
proof -
  have one: "one_send w w'"
    using run by (auto simp: handle_respond_execute_def bindR_eq_Inr Let_def split: option.splits)
  have "agree (fst (hub_step n tx (Result fin) h)) b' w \<and>
      performs C a m (snd (hub_step n tx (Result fin) h)) w w'"
  proof (cases "map_of (b_txs b) tx")
    case None
    with run ag show ?thesis
      by (simp add: handle_respond_execute_def agreeD(5) [OF ag])
  next
    case (Some s)
    with inv obtain k where k: "sock_name s w = Some k"
      unfolding broker_inv_def sock_name_def by fastforce
    have "b' = (if fin then b\<lparr>b_txs := del tx (b_txs b)\<rparr> else b)" "w' = fst (send s m w)"
      using run fin Some
      by (auto simp: handle_respond_execute_def fin_of_def bindR_eq_Inr Let_def
          split: option.splits sum.splits)
    with Some k ag agree_del_pending [OF ag] show ?thesis
      by (auto simp: agreeD(5) [OF ag])
  qed
  with one show "agree (fst (hub_step n tx (Result fin) h)) b' w'"
    "performs C a m (snd (hub_step n tx (Result fin) h)) w w'"
    using agree_one_send by blast+
qed

lemma broker_refines_hub_step:
  assumes inv: "broker_inv b w" and reg: "map_of (b_sockets b) n = Some a" and ag: "agree h b w"
    and req: "request_of p = Some req" "request_ok req"
    and run: "broker_handle C b a m p tx w = Inr (b', w')"
  shows "agree (fst (hub_step n tx req h)) b' w' \<and> performs C a m (snd (hub_step n tx req h)) w w'"
proof (cases "ptype p")
  case connect
  with run req have "b' = b" and w': "reply C a (respond_ok_packet tx) w = Inr w'" and "req = Hello"
    by (auto simp: broker_handle_def request_of_def bindR_eq_Inr)
  with agree_one_send [OF reply_one_send [OF w'] ag] show ?thesis by simp
next
  case disconnect
  with run have "handle_disconnect C b a tx w = Inr (b', w')" by (simp add: broker_handle_def)
  from refine_disconnect [OF inv reg ag this] disconnect req show ?thesis
    by (simp add: request_of_def)
next
  case subscribe
  with run have "handle_subscribe C b a p tx w = Inr (b', w')" by (simp add: broker_handle_def)
  with refine_subscribe [OF inv reg ag] subscribe req show ?thesis
    by (auto simp: request_of_def)
next
  case unsubscribe
  with run have "handle_unsubscribe C b a p tx w = Inr (b', w')" by (simp add: broker_handle_def)
  with refine_unsubscribe [OF inv reg ag] unsubscribe req show ?thesis
    by (auto simp: request_of_def)
next
  case execute
  with run have "handle_execute C b a m p tx w = Inr (b', w')" by (simp add: broker_handle_def)
  with refine_execute [OF inv reg ag] execute req show ?thesis
    by (auto simp: request_of_def)
next
  case respond_execute
  with run have "handle_respond_execute b m p tx w = Inr (b', w')" by (simp add: broker_handle_def)
  with refine_respond_execute [OF inv ag] respond_execute req show ?thesis
    by (auto simp: request_of_def)
qed (use run req ag in \<open>auto simp: broker_handle_def request_of_def\<close>)

end
