(* ===== verification/BrokerSystem.thy ===== *)
theory BrokerSystem
  imports BrokerSpec
begin

text \<open>
  The broker among its clients: a step relation in which the turns of the broker's loop
  interleave with what other threads do to their own sockets and monitors. One call is one
  step. The invariants of the reachable states: the tables of the broker are consistent,
  and every message in a mailbox of the broker has its signal pending.
\<close>

section \<open>Steps\<close>

text \<open>
  Names come from a 64-bit counter; the runs considered here use fewer than 2^64 of them.
\<close>

definition ids_left :: "world \<Rightarrow> bool" where
  "ids_left w \<longleftrightarrow> unat (next_id w) + 1 < 2 ^ 64"

inductive sys_step :: "codec \<Rightarrow> broker_t \<times> world \<Rightarrow> broker_t \<times> world \<Rightarrow> bool" for C where
  turn: "broker_turn C b w = Inr (Running b' w') \<Longrightarrow> ids_left w \<Longrightarrow> sys_step C (b, w) (b', w')"
| dial: "socket_new w = (w1, a) \<Longrightarrow> connect_begin a url w1 = (w2, d) \<Longrightarrow> ids_left w \<Longrightarrow>
    sys_step C (b, w) (b, w2)"
| dial_end: "connect_end a url w = (w1, ok) \<Longrightarrow> sys_step C (b, w) (b, w1)"
| client_monitor: "new_monitor w = (w1, m) \<Longrightarrow> sys_step C (b, w) (b, w1)"
| client_ready: "a \<notin> set (b_refs b) \<Longrightarrow> sys_step C (b, w) (b, socket_set_monitor a m w)"
| client_send: "a \<notin> set (b_refs b) \<Longrightarrow> send a msg w = (w1, ok) \<Longrightarrow> sys_step C (b, w) (b, w1)"
| client_recv: "a \<notin> set (b_refs b) \<Longrightarrow> recv a w = (w1, r) \<Longrightarrow> sys_step C (b, w) (b, w1)"
| client_wait: "m \<noteq> b_monitor b \<Longrightarrow> monitor_wait (monitors w) m = (ms, s) \<Longrightarrow>
    sys_step C (b, w) (b, w\<lparr>monitors := ms\<rparr>)"
| client_close: "a \<notin> set (b_refs b) \<Longrightarrow> sys_step C (b, w) (b, socket_free a w)"
| stop: "broker_stop url w stops = (w1, stops') \<Longrightarrow> sys_step C (b, w) (b, w1)"

inductive_cases sys_stepE: "sys_step C (b, w) (b', w')"

text \<open>
  The states that a broker reaches from where it starts its loop, in a process whose heap is
  in order: objects are at addresses that have been handed out, and a socket sends to the
  mailbox of the peer that it notifies.
\<close>

definition paired :: "world \<Rightarrow> bool" where
  "paired w \<longleftrightarrow> (\<forall>a s. sockets w a = Some s \<longrightarrow> peer_mailbox s = peer_notify s)"

definition heap_ok :: "world \<Rightarrow> bool" where
  "heap_ok w \<longleftrightarrow>
     paired w \<and> (\<forall>a. sockets w a \<noteq> None \<longrightarrow> a < next_addr w) \<and>
     (\<forall>m. monitors w m \<noteq> None \<longrightarrow> m < next_addr w)"

inductive reachable :: "codec \<Rightarrow> broker_t \<times> world \<Rightarrow> bool" for C where
  start: "broker_start url w stops = Inr (b, w', stops') \<Longrightarrow> heap_ok w \<Longrightarrow> reachable C (b, w')"
| step: "reachable C s \<Longrightarrow> sys_step C s s' \<Longrightarrow> reachable C s'"

section \<open>Signals keep up with messages\<close>

lemma send_paired_cases:
  assumes "paired w"
  obtains (none) "fst (send a m w) = w"
    | (mail) p t where "sockets w p = Some t" "length (my_mailbox t) < mailbox_limit"
      "fst (send a m w) = socket_notify p ''recv''
         (upd_socket p (\<lambda>s. s\<lparr>my_mailbox := my_mailbox t @ [m]\<rparr>) w)"
proof (cases "\<exists>s p t n. sockets w a = Some s \<and> peer_name s = Some n \<and> peer_mailbox s = Some p \<and>
    sockets w p = Some t \<and> length (my_mailbox t) < mailbox_limit")
  case True
  then obtain s p t n where s: "sockets w a = Some s" "peer_name s = Some n"
    "peer_mailbox s = Some p" "sockets w p = Some t" "length (my_mailbox t) < mailbox_limit"
    by blast
  with assms have "peer_notify s = Some p" by (auto simp: paired_def)
  with s show ?thesis
    by (intro mail [of p t]) (simp_all add: send_def socket_mail_def mailbox_set_def)
next
  case False
  then have "fst (send a m w) = w"
    using assms
    by (auto simp: send_def socket_mail_def mailbox_set_def paired_def upd_socket_def fun_upd_idem
        split: option.splits if_splits)
  then show ?thesis by (rule none)
qed

lemma wake_ok_notified:
  assumes t: "sockets w d = Some t" and ok: "wake_ok p w"
  shows "wake_ok p (socket_notify d ''recv''
    (upd_socket d (\<lambda>s. s\<lparr>my_mailbox := my_mailbox t @ [m]\<rparr>) w))" (is "wake_ok p ?w'")
proof -
  have n': "sock_name c ?w' = sock_name c w" and m': "sock_monitor c ?w' = sock_monitor c w" for c
    using t by (auto simp: socket_notify_def sock_name_def sock_monitor_def)
  have b': "box p ?w' = box p w @ (if p = d then [m] else [])"
    using t by (auto simp: socket_notify_def box_def)
  have mon: "monitors ?w' = notify (monitors w) (sock_monitor d w) (the (sock_name d w)) ''recv''"
    using t by (simp add: socket_notify_def sock_name_def sock_monitor_def)
  show ?thesis
    unfolding wake_ok_iff n' m' b' mon
  proof (intro allI impI)
    fix n k q'
    assume n: "sock_name p w = Some n" and k: "sock_monitor p w = Some k"
      and q': "notify (monitors w) (sock_monitor d w) (the (sock_name d w)) ''recv'' k = Some q'"
    from notify_queue [OF q'] obtain q where q: "monitors w k = Some q"
      and "q' = q @ (if sock_monitor d w = Some k
        then [\<lparr>who = the (sock_name d w), what = ''recv''\<rparr>] else [])"
      by blast
    moreover have "length (box p w) \<le> sig_count n ''recv'' q"
      using ok n k q by (simp add: wake_ok_iff)
    ultimately show "length (box p w @ (if p = d then [m] else [])) \<le> sig_count n ''recv'' q'"
      using n k by auto
  qed
qed

lemma wake_ok_any_send: "paired w \<Longrightarrow> wake_ok p w \<Longrightarrow> wake_ok p (fst (send a m w))"
  by (erule send_paired_cases [of w a m]) (simp_all add: wake_ok_notified)

lemma paired_send:
  assumes "paired w" shows "paired (fst (send a m w))"
  using assms
  by (cases rule: send_paired_cases [OF assms, of a m])
    (auto simp: paired_def socket_notify_def split: if_splits)

lemma paired_one_send: "one_send w w' \<Longrightarrow> paired w \<Longrightarrow> paired w'"
  by (auto simp: one_send_def paired_send)

lemma wake_ok_one_send: "one_send w w' \<Longrightarrow> paired w \<Longrightarrow> wake_ok p w \<Longrightarrow> wake_ok p w'"
  by (auto simp: one_send_def wake_ok_any_send)

lemma wake_ok_frame:
  assumes "wake_ok p w" and "sock_name p w' = sock_name p w" and "box p w' = box p w"
    and "sock_monitor p w' = sock_monitor p w"
    and "\<And>n k q'. sock_name p w = Some n \<Longrightarrow> sock_monitor p w = Some k \<Longrightarrow> monitors w' k = Some q' \<Longrightarrow>
      \<exists>q. monitors w k = Some q \<and> sig_count n ''recv'' q \<le> sig_count n ''recv'' q'"
  shows "wake_ok p w'"
  unfolding wake_ok_iff assms(2-4)
proof (intro allI impI)
  fix n k q'
  assume n: "sock_name p w = Some n" and k: "sock_monitor p w = Some k" and q': "monitors w' k = Some q'"
  with assms(5) obtain q where "monitors w k = Some q" "sig_count n ''recv'' q \<le> sig_count n ''recv'' q'"
    by blast
  moreover from assms(1) n k this(1) have "length (box p w) \<le> sig_count n ''recv'' q"
    by (simp add: wake_ok_iff)
  ultimately show "length (box p w) \<le> sig_count n ''recv'' q'" by simp
qed

text \<open>More signals never hurt, nor does the loss of one that is not a \<open>recv\<close> of this socket.\<close>

lemma wake_ok_notify: "wake_ok p w \<Longrightarrow> wake_ok p (w\<lparr>monitors := notify (monitors w) mon n ev\<rparr>)"
  by (erule wake_ok_frame)
    (auto simp: sock_name_def sock_monitor_def box_def dest!: notify_queue)

lemma wait_frame:
  assumes "monitor_wait ms m = (ms', r)"
  shows "ms' k = (if k = m \<and> r \<noteq> None then map_option tl (ms k) else ms k)"
    and "r = Some s \<Longrightarrow> \<exists>q. ms m = Some (s # q)"
    and "ms' k = None \<longleftrightarrow> ms k = None"
  using assms by (auto simp: monitor_wait_def split: option.splits list.splits if_splits)

lemma wake_ok_wait_other:
  assumes "wake_ok p w" and "monitor_wait (monitors w) m = (ms, r)"
    and "\<And>s. r = Some s \<Longrightarrow> sock_monitor p w = Some m \<Longrightarrow> sock_name p w \<noteq> Some (who s) \<or> what s \<noteq> ''recv''"
  shows "wake_ok p (w\<lparr>monitors := ms\<rparr>)"
proof (rule wake_ok_frame [OF assms(1)])
  fix n k q'
  assume n: "sock_name p w = Some n" and k: "sock_monitor p w = Some k"
    and q': "monitors (w\<lparr>monitors := ms\<rparr>) k = Some q'"
  show "\<exists>q. monitors w k = Some q \<and> sig_count n ''recv'' q \<le> sig_count n ''recv'' q'"
    using wait_frame(1) [OF assms(2), of k] wait_frame(2) [OF assms(2)] q' n k assms(3)
    by (cases r) (fastforce split: if_splits)+
qed (simp_all add: sock_name_def sock_monitor_def box_def)

text \<open>Taking the signal and then the message it announces.\<close>

lemma box_recv: "box b (fst (recv p w)) = (if b = p then tl (box p w) else box b w)"
  "monitors (fst (recv p w)) = monitors w"
  by (simp_all add: recv_simps)

lemma wake_ok_take:
  assumes "wake_ok p w" and "monitor_wait (monitors w) m = (ms, Some s)" and "sock_name p w = Some (who s)"
  shows "wake_ok p (fst (recv p (w\<lparr>monitors := ms\<rparr>)))"
  unfolding wake_ok_iff
proof (intro allI impI)
  let ?w1 = "w\<lparr>monitors := ms\<rparr>"
  have [simp]: "sock_name p ?w1 = sock_name p w" "sock_monitor p ?w1 = sock_monitor p w"
    "box p ?w1 = box p w"
    by (simp_all add: sock_name_def sock_monitor_def box_def)
  fix n k q'
  assume n: "sock_name p (fst (recv p ?w1)) = Some n" and k: "sock_monitor p (fst (recv p ?w1)) = Some k"
    and q': "monitors (fst (recv p ?w1)) k = Some q'"
  from q' have "ms k = Some q'" by (simp add: box_recv)
  then obtain q where q: "monitors w k = Some q" "q' = (if k = m then tl q else q)"
    using wait_frame(1) [OF assms(2), of k] by (auto split: if_splits)
  have "length (box p w) \<le> sig_count n ''recv'' q"
    using assms(1) n k q(1) by (simp add: wake_ok_iff)
  then have "length (box p w) - 1 \<le> sig_count n ''recv'' q'"
    using q(2) by (cases q) (auto split: if_splits)
  then show "length (box p (fst (recv p ?w1))) \<le> sig_count n ''recv'' q'"
    by (simp add: box_recv)
qed

section \<open>The invariant\<close>

definition sys_inv :: "broker_t \<Rightarrow> world \<Rightarrow> bool" where
  "sys_inv b w \<longleftrightarrow>
     broker_inv b w \<and> paired w \<and> monitors w (b_monitor b) \<noteq> None \<and>
     (\<forall>m. monitors w m \<noteq> None \<longrightarrow> m < next_addr w) \<and>
     (\<forall>n a. map_of (b_sockets b) n = Some a \<longrightarrow>
        wake_ok a w \<and> (\<exists>k. n = show_u64 k \<and> unat k < unat (next_id w)))"

lemma sys_invD:
  assumes "sys_inv b w"
  shows "broker_inv b w" "paired w" "monitors w (b_monitor b) \<noteq> None"
    and "monitors w m \<noteq> None \<Longrightarrow> m < next_addr w"
    and "map_of (b_sockets b) n = Some a \<Longrightarrow> wake_ok a w"
    and "map_of (b_sockets b) n = Some a \<Longrightarrow> \<exists>k. n = show_u64 k \<and> unat k < unat (next_id w)"
  using assms unfolding sys_inv_def by blast+

lemma fresh_name: "sys_inv b w \<Longrightarrow> map_of (b_sockets b) (show_u64 (next_id w)) = None"
  using sys_invD(6) [of b w "show_u64 (next_id w)"] by fastforce

lemma send_monitors_dom [simp]: "monitors (fst (send a m w)) k = None \<longleftrightarrow> monitors w k = None"
  by (auto simp: send_def socket_mail_def socket_notify_def Let_def split: option.splits prod.splits)

lemma one_send_frame:
  assumes "one_send w w'"
  shows "next_id w' = next_id w" "next_addr w' = next_addr w"
    and "monitors w' k = None \<longleftrightarrow> monitors w k = None"
    and "sock_name c w' = sock_name c w" "sock_monitor c w' = sock_monitor c w"
  using assms by (auto simp: one_send_def)

lemma paired_recv: "paired w \<Longrightarrow> paired (fst (recv a w))"
  by (auto simp: paired_def recv_def split_beta split: option.splits if_splits)

lemma paired_release: "paired w \<Longrightarrow> paired (release b b' w)"
  by (auto simp: paired_def release_def split: if_splits)

lemma wake_ok_release: "wake_ok p w \<Longrightarrow> wake_ok p (release b b' w)"
  by (cases "p \<in> set (b_refs b) \<and> p \<notin> set (b_refs b')")
    (auto simp: wake_ok_iff release_def sock_name_def sock_monitor_def box_def)

lemma wake_ok_recv_other: "p \<noteq> a \<Longrightarrow> wake_ok p w \<Longrightarrow> wake_ok p (fst (recv a w))"
  by (auto simp: wake_ok_iff box_recv)

lemma broker_handle_frame:
  assumes "broker_handle C b a m pkt tx w = Inr (b', w')"
  shows "b_monitor b' = b_monitor b" "b_acceptor b' = b_acceptor b"
    and "map_of (b_sockets b') n = Some s \<Longrightarrow> map_of (b_sockets b) n = Some s"
  using assms
  by (cases "ptype pkt";
      auto simp: broker_handle_def handle_disconnect_def handle_subscribe_def
        handle_unsubscribe_def handle_execute_def handle_respond_execute_def bindR_eq_Inr Let_def
      split: if_splits option.splits)+

lemma broker_recv_frame:
  assumes "broker_recv C b a w = Inr (b', w')"
  obtains w2 where "one_send (fst (recv a w)) w2" "w' = w2 \<or> w' = release b b' w2"
    "b_monitor b' = b_monitor b"
    "\<forall>n s. map_of (b_sockets b') n = Some s \<longrightarrow> map_of (b_sockets b) n = Some s"
proof -
  obtain w1 r where r: "recv a w = (w1, r)" by fastforce
  show ?thesis
  proof (cases r)
    case None
    with assms r show ?thesis by (intro that [of w1]) (auto simp: broker_recv_def)
  next
    case (Some m)
    then obtain pkt tx w2 where h: "broker_handle C b a m pkt tx w1 = Inr (b', w2)"
      and "w' = release b b' w2"
      using assms r by (auto simp: broker_recv_def bindR_eq_Inr)
    then show ?thesis
      using broker_handle_one_send [OF h] broker_handle_frame [OF h] r
      by (intro that [of w2]) auto
  qed
qed

lemma wait_keeps:
  assumes "monitor_wait (monitors w) m = (ms, r)"
  shows "sock_name p (w\<lparr>monitors := ms\<rparr>) = sock_name p w"
    and "paired (w\<lparr>monitors := ms\<rparr>) = paired w"
    and "ms k = None \<longleftrightarrow> monitors w k = None"
  using wait_frame(3) [OF assms] by (simp_all add: sock_name_def paired_def)

lemma sys_inv_recv:
  assumes inv: "sys_inv b w" and wait: "monitor_wait (monitors w) (b_monitor b) = (ms, Some s)"
    and reg: "map_of (b_sockets b) (who s) = Some a"
    and run: "broker_recv C b a (w\<lparr>monitors := ms\<rparr>) = Inr (b', w')"
    and binv: "broker_inv b' w'"
  shows "sys_inv b' w'"
proof -
  let ?w1 = "w\<lparr>monitors := ms\<rparr>"
  obtain w2 where one: "one_send (fst (recv a ?w1)) w2" and w': "w' = w2 \<or> w' = release b b' w2"
    and mon: "b_monitor b' = b_monitor b"
    and sub: "\<forall>n s. map_of (b_sockets b') n = Some s \<longrightarrow> map_of (b_sockets b) n = Some s"
    by (rule broker_recv_frame [OF run])
  have name: "sock_name a w = Some (who s)"
    by (rule registered_name [OF sys_invD(1) [OF inv] reg])
  have p1: "paired (fst (recv a ?w1))"
    using sys_invD(2) [OF inv] by (simp add: paired_recv wait_keeps(2) [OF wait])
  have wake: "wake_ok p (fst (recv a ?w1))" if "map_of (b_sockets b) n = Some p" for n p
  proof (cases "p = a")
    case True
    then show ?thesis using wake_ok_take [OF sys_invD(5) [OF inv reg] wait name] by simp
  next
    case False
    have "sock_name p w = Some n" by (rule registered_name [OF sys_invD(1) [OF inv] that])
    with False that reg have "sock_name p w \<noteq> Some (who s)" by auto
    with wake_ok_wait_other [OF sys_invD(5) [OF inv that] wait] False show ?thesis
      by (intro wake_ok_recv_other) auto
  qed
  have "paired w'"
    using w' paired_one_send [OF one p1] paired_release by auto
  moreover have "wake_ok p w'" if "map_of (b_sockets b') n = Some p" for n p
    using w' wake_ok_one_send [OF one p1 wake] that sub wake_ok_release by blast
  moreover have "next_id w' = next_id w" "next_addr w' = next_addr w"
    using w' one_send_frame(1,2) [OF one] by auto
  moreover have "monitors w' k = None \<longleftrightarrow> monitors w k = None" for k
    using w' one_send_frame(3) [OF one, of k] wait_keeps(3) [OF wait, of k] by (auto simp: box_recv)
  ultimately show ?thesis
    using sys_invD [OF inv] sub binv mon unfolding sys_inv_def by metis
qed

lemma attach_more [simp]:
  "box c (attach a p w) = box c w" "monitors (attach a p w) = monitors w"
  by (cases "sockets w a"; auto simp: attach_def box_def split: option.splits)+

lemma paired_attach: "paired w \<Longrightarrow> paired (attach a p w)"
  by (auto simp: paired_def attach_def split: option.splits if_splits)

lemma set_monitor_more [simp]:
  "box c (socket_set_monitor a m w) = box c w"
  "monitors (socket_set_monitor a m w) = monitors w"
  by (cases "sockets w a"; simp add: socket_set_monitor_def box_def)+

lemma paired_set_monitor: "paired w \<Longrightarrow> paired (socket_set_monitor a m w)"
  by (auto simp: paired_def socket_set_monitor_def split: if_splits)

lemma upd_acceptor_more [simp]:
  "sock_name c (upd_acceptor a f w) = sock_name c w"
  "sock_monitor c (upd_acceptor a f w) = sock_monitor c w"
  "box c (upd_acceptor a f w) = box c w" "paired (upd_acceptor a f w) = paired w"
  by (simp_all add: sock_name_def sock_monitor_def box_def paired_def)

lemma socket_new_more:
  assumes "socket_new w = (w', a)"
  shows "a = next_addr w" "monitors w' = monitors w" "next_addr w' = Suc (next_addr w)"
    and "next_id w' = next_id w + 1" "paired w \<Longrightarrow> paired w'"
    and "c \<noteq> a \<Longrightarrow> sockets w' c = sockets w c" and "box a w' = []"
    and "sock_monitor a w' = None" "sockets w' a \<noteq> None"
  using assms
  by (auto simp: socket_new_def notify_new_def new_name_def Let_def paired_def box_def
      sock_monitor_def split: if_splits)

lemma accept_form:
  assumes "accept acc w = (w', Some a)"
  obtains f peer w2 where "socket_new (upd_acceptor acc f w) = (w2, a)"
    "w' = attach peer a (attach a peer w2)"
  using assms by (auto simp: accept_def Let_def split: option.splits prod.splits)

lemma accept_none_form:
  assumes "accept acc w = (w', None)"
  obtains f where "w' = w \<or> w' = upd_acceptor acc f w"
  using assms by (auto simp: accept_def Let_def split: option.splits prod.splits)

lemma accept_more:
  assumes "accept acc w = (w', r)"
  shows "monitors w' = monitors w" and "paired w \<Longrightarrow> paired w'"
    and "c \<noteq> next_addr w \<Longrightarrow> box c w' = box c w"
    and "r \<noteq> None \<Longrightarrow> box (next_addr w) w' = []"
proof -
  have "monitors w' = monitors w \<and> (paired w \<longrightarrow> paired w') \<and>
      (c \<noteq> next_addr w \<longrightarrow> box c w' = box c w) \<and> (r \<noteq> None \<longrightarrow> box (next_addr w) w' = [])"
  proof (cases r)
    case None
    with assms have "accept acc w = (w', None)" by simp
    then obtain f where "w' = w \<or> w' = upd_acceptor acc f w" by (rule accept_none_form)
    then show ?thesis by (elim disjE) (simp_all add: None)
  next
    case (Some a)
    with assms obtain f peer w2 where new: "socket_new (upd_acceptor acc f w) = (w2, a)"
      and w': "w' = attach peer a (attach a peer w2)"
      by (auto elim: accept_form)
    note more = socket_new_more [OF new]
    have "box c w2 = box c w" if "c \<noteq> a"
      using more(6) [OF that] by (simp add: box_def)
    with more show ?thesis by (auto simp: w' paired_attach)
  qed
  then show "monitors w' = monitors w" "paired w \<Longrightarrow> paired w'"
    "c \<noteq> next_addr w \<Longrightarrow> box c w' = box c w" "r \<noteq> None \<Longrightarrow> box (next_addr w) w' = []"
    by blast+
qed

lemma wake_ok_same:
  assumes "wake_ok p w" and "sock_name p w' = sock_name p w" and "box p w' = box p w"
    and "sock_monitor p w' = sock_monitor p w" and "monitors w' = monitors w"
  shows "wake_ok p w'"
  by (rule wake_ok_frame [OF assms(1-4)]) (simp add: assms(5))

lemma sys_inv_accept:
  assumes inv: "sys_inv b w" and ids: "ids_left w"
    and wait: "monitor_wait (monitors w) (b_monitor b) = (ms, Some s)" and s: "what s = ''accept''"
    and run: "broker_accept b (w\<lparr>monitors := ms\<rparr>) = (b', w')"
    and binv: "broker_inv b' w'"
  shows "sys_inv b' w'"
proof -
  let ?w1 = "w\<lparr>monitors := ms\<rparr>"
  obtain w2 r where r: "accept (b_acceptor b) ?w1 = (w2, r)" by fastforce
  note more = accept_more [OF r]
  have wake1: "wake_ok p ?w1" if "map_of (b_sockets b) n = Some p" for n p
    using wake_ok_wait_other [OF sys_invD(5) [OF inv that] wait] s by simp
  have p2: "paired w2"
    using more(2) sys_invD(2) [OF inv] by (simp add: wait_keeps(2) [OF wait])
  have alive: "p < next_addr w" if "map_of (b_sockets b) n = Some p" for n p
    using registered_alive [OF sys_invD(1) [OF inv] that] sys_invD(1) [OF inv]
    unfolding broker_inv_def by blast
  show ?thesis
  proof (cases r)
    case None
    note fr = accept_none_frame [OF r [unfolded None]]
    have "b' = b" "w' = w2" using run r None by (simp_all add: broker_accept_def)
    moreover have "wake_ok p w2" if "map_of (b_sockets b) n = Some p" for n p
      using wake_ok_same [OF wake1 [OF that]] fr(1,2) more(1,3) alive [OF that] by simp
    ultimately show ?thesis
      using sys_invD [OF inv] binv p2 fr(4,5) wait_keeps(3) [OF wait] more(1)
      unfolding sys_inv_def by (auto; metis)
  next
    case (Some a)
    note fr = accept_frame [OF r [unfolded Some]]
    note b' = broker_accept_some [OF r [unfolded Some] run]
    let ?w3 = "socket_set_monitor a (b_monitor b) w2"
    have wake: "wake_ok p ?w3" if "map_of (b_sockets b') n = Some p" for n p
    proof (cases "p = a")
      case True
      then show ?thesis using more(4) Some fr(1) by (simp add: wake_ok_iff)
    next
      case False
      with that have "map_of (b_sockets b) n = Some p" by (auto simp: b'(1) split: if_splits)
      with wake_ok_same [OF wake1, of n p ?w3] False fr(1-3) more(1,3) show ?thesis by simp
    qed
    have names: "\<exists>k. n = show_u64 k \<and> unat k < unat (next_id w')"
      if "map_of (b_sockets b') n = Some p" for n p
    proof -
      have "unat (next_id w') = unat (next_id w) + 1"
        using ids fr(6) by (simp add: b'(2) ids_left_def unat_word_ariths)
      then show ?thesis
        using that sys_invD(6) [OF inv, of n p] by (auto simp: b'(1) split: if_splits intro: less_SucI)
    qed
    have "paired w'" "\<And>n p. map_of (b_sockets b') n = Some p \<Longrightarrow> wake_ok p w'"
      using p2 wake by (simp_all add: b'(2) paired_release paired_set_monitor wake_ok_release)
    moreover have "monitors w' k = None \<longleftrightarrow> monitors w k = None" "next_addr w' = Suc (next_addr w)"
      "b_monitor b' = b_monitor b" for k
      using more(1) fr(5) wait_keeps(3) [OF wait] by (simp_all add: b')
    ultimately show ?thesis
      using sys_invD(3,4) [OF inv] binv names unfolding sys_inv_def
      by (metis less_SucI)
  qed
qed

lemma sys_inv_turn:
  assumes inv: "sys_inv b w" and ids: "ids_left w" and run: "broker_turn C b w = Inr (Running b' w')"
  shows "sys_inv b' w'"
proof -
  have binv: "broker_inv b' w'"
    by (rule broker_turn_inv [OF sys_invD(1) [OF inv] fresh_name [OF inv] run])
  obtain ms sig where wait: "monitor_wait (monitors w) (b_monitor b) = (ms, sig)" by fastforce
  have other: "sys_inv b (w\<lparr>monitors := ms\<rparr>)"
    if b': "b' = b" "w' = w\<lparr>monitors := ms\<rparr>"
      and idle: "\<And>s. sig = Some s \<Longrightarrow> what s = ''recv'' \<Longrightarrow> map_of (b_sockets b) (who s) = None"
  proof -
    have "wake_ok p (w\<lparr>monitors := ms\<rparr>)" if r: "map_of (b_sockets b) n = Some p" for n p
    proof (rule wake_ok_wait_other [OF sys_invD(5) [OF inv r] wait])
      fix s assume "sig = Some s"
      with idle r registered_name [OF sys_invD(1) [OF inv] r]
      show "sock_name p w \<noteq> Some (who s) \<or> what s \<noteq> ''recv''"
        by fastforce
    qed
    with b' sys_invD [OF inv] binv wait_keeps [OF wait] show ?thesis
      unfolding sys_inv_def by simp
  qed
  show ?thesis
    using run wait other sys_inv_accept [OF inv ids _ _ _ binv] sys_inv_recv [OF inv _ _ _ binv]
    by (auto simp: broker_turn_def Let_def bindR_eq_Inr split: option.splits if_splits prod.splits)
qed

section \<open>What the clients do\<close>

lemma sys_inv_keep:
  assumes inv: "sys_inv b w"
    and refs: "\<And>a. a \<in> set (b_refs b) \<Longrightarrow> sock_name a w' = sock_name a w \<and> sock_monitor a w' = sock_monitor a w"
    and wake: "\<And>n a. map_of (b_sockets b) n = Some a \<Longrightarrow> wake_ok a w \<Longrightarrow> wake_ok a w'"
    and grow: "unat (next_id w) \<le> unat (next_id w')" "next_addr w \<le> next_addr w'"
    and socks: "\<And>a. sockets w' a \<noteq> None \<Longrightarrow> sockets w a \<noteq> None \<or> a < next_addr w'"
    and mons: "\<And>m. monitors w m \<noteq> None \<Longrightarrow> monitors w' m \<noteq> None"
      "\<And>m. monitors w' m \<noteq> None \<Longrightarrow> monitors w m \<noteq> None \<or> m < next_addr w'"
    and p: "paired w'"
  shows "sys_inv b w'"
proof -
  note d = sys_invD [OF inv]
  have alive: "sockets w' a \<noteq> None" if "a \<in> set (b_refs b)" "sockets w a \<noteq> None" for a
    using refs [OF that(1)] that(2) by (auto simp: sock_name_def)
  have addr: "a < next_addr w'" if "sockets w' a \<noteq> None" for a
    using socks [OF that] d(1) grow(2) unfolding broker_inv_def by (meson less_le_trans)
  have "broker_inv b w'"
    using d(1) refs in_refs alive addr unfolding broker_inv_def by auto
  moreover have "m < next_addr w'" if "monitors w' m \<noteq> None" for m
    using mons(2) [OF that] d(4) grow(2) by (meson less_le_trans)
  moreover have "\<exists>k. n = show_u64 k \<and> unat k < unat (next_id w')"
    if r: "map_of (b_sockets b) n = Some a" for n a
  proof -
    obtain k where "n = show_u64 k" "unat k < unat (next_id w)"
      using d(6) [OF r] by blast
    with grow(1) show ?thesis by (intro exI [of _ k]) simp
  qed
  moreover have "wake_ok a w'" if "map_of (b_sockets b) n = Some a" for n a
    using wake [OF that] d(5) [OF that] by blast
  ultimately show ?thesis
    using d(3) mons(1) p unfolding sys_inv_def by blast
qed

lemma refs_alive: 
  assumes inv: "sys_inv b w" and a: "a \<in> set (b_refs b)"
  shows "sockets w a \<noteq> None"
proof -
  note i = sys_invD(1) [OF inv]
  have sub: "sockets w a \<noteq> None" if "map_of (b_subs b) ch = Some a" for ch
    using subscriber_name [OF i that] registered_alive [OF i] by metis
  have "(\<exists>n. map_of (b_sockets b) n = Some a) \<or> (\<exists>ch. map_of (b_subs b) ch = Some a) \<or>
      (\<exists>tx. map_of (b_txs b) tx = Some a)"
    using a i unfolding b_refs_def broker_inv_def
    by (auto simp: dict_ok_distinct image_iff)
  then show ?thesis
    using registered_alive [OF i] sub i unfolding broker_inv_def by blast
qed

lemma refs_old: "sys_inv b w \<Longrightarrow> a \<in> set (b_refs b) \<Longrightarrow> a < next_addr w"
  using refs_alive sys_invD(1) unfolding broker_inv_def by blast

lemma request_accepting_more:
  "sockets (fst (request_accepting acc a w)) = sockets w"
  "next_id (fst (request_accepting acc a w)) = next_id w"
  "next_addr (fst (request_accepting acc a w)) = next_addr w"
  "\<exists>mon n. monitors (fst (request_accepting acc a w)) = notify (monitors w) mon n ''accept''"
  by (auto simp: request_accepting_def Let_def split: option.splits prod.splits intro: exI [of _ None])

lemma connect_begin_more:
  assumes "connect_begin a url w = (w', d)"
  shows "sockets w' = sockets w" "next_id w' = next_id w" "next_addr w' = next_addr w"
    and "\<exists>mon n. monitors w' = notify (monitors w) mon n ''accept''"
  using assms request_accepting_more [of "the (map_of (dial_acceptors w) url)" a w]
  by (auto simp: connect_begin_def split: option.splits prod.splits intro: exI [of _ None])

lemma wake_ok_world:
  assumes "wake_ok p w" and "sockets w' p = sockets w p" and "monitors w' = notify (monitors w) mon n ev"
  shows "wake_ok p w'"
proof -
  have "wake_ok p (w\<lparr>monitors := notify (monitors w) mon n ev\<rparr>)"
    using assms(1) by (rule wake_ok_notify)
  with assms(2,3) show ?thesis
    by (simp add: wake_ok_iff sock_name_def sock_monitor_def box_def)
qed

lemma same_socket:
  "sockets w' a = sockets w a \<Longrightarrow> sock_name a w' = sock_name a w \<and> sock_monitor a w' = sock_monitor a w"
  by (simp add: sock_name_def sock_monitor_def)

text \<open>Steps that leave the sockets as they are and may signal something.\<close>

lemma sys_inv_signal:
  assumes inv: "sys_inv b w" and "sockets w' = sockets w" "next_id w' = next_id w" "next_addr w' = next_addr w"
    and mon: "\<exists>mon n. monitors w' = notify (monitors w) mon n ev"
  shows "sys_inv b w'"
proof -
  obtain mon n where m: "monitors w' = notify (monitors w) mon n ev" using mon by blast
  show ?thesis
  proof (rule sys_inv_keep [OF inv])
    show "wake_ok a w \<Longrightarrow> wake_ok a w'" for a
      using wake_ok_world m assms(2) by metis
    show "paired w'" using sys_invD(2) [OF inv] assms(2) by (simp add: paired_def)
  qed (use assms(2-4) same_socket [of w' _ w] in \<open>simp_all add: m\<close>)
qed

lemma sys_inv_dial:
  assumes inv: "sys_inv b w" and new: "socket_new w = (w1, a)"
    and con: "connect_begin a url w1 = (w2, d)" and ids: "ids_left w"
  shows "sys_inv b w2"
proof -
  note n = socket_new_more [OF new] and c = connect_begin_more [OF con]
  have same: "sockets w1 p = sockets w p" if "p \<in> set (b_refs b)" for p
    using n(6) refs_old [OF inv that] n(1) by simp
  have "sys_inv b w1"
  proof (rule sys_inv_keep [OF inv])
    show "p \<in> set (b_refs b) \<Longrightarrow>
        sock_name p w1 = sock_name p w \<and> sock_monitor p w1 = sock_monitor p w" for p
      using same same_socket by blast
    show "map_of (b_sockets b) k = Some p \<Longrightarrow> wake_ok p w \<Longrightarrow> wake_ok p w1" for k p
      using same [OF in_refs(1)] wake_ok_world [of p w w1 None] n(2) by simp
    show "unat (next_id w) \<le> unat (next_id w1)"
      using ids n(4) by (simp add: ids_left_def unat_word_ariths)
    show "next_addr w \<le> next_addr w1" using n(3) by simp
    show "sockets w1 p \<noteq> None \<Longrightarrow> sockets w p \<noteq> None \<or> p < next_addr w1" for p
      using n(1,3,6) by (cases "p = a") auto
    show "paired w1" using n(5) sys_invD(2) [OF inv] by simp
  qed (simp_all add: n(2))
  then show ?thesis by (rule sys_inv_signal) (use c in auto)
qed

lemma sys_inv_new_monitor:
  assumes inv: "sys_inv b w" and new: "new_monitor w = (w', m)"
  shows "sys_inv b w'"
proof -
  have w': "w' = w\<lparr>next_addr := Suc (next_addr w), monitors := (monitors w)(next_addr w \<mapsto> [])\<rparr>"
    using new by (auto simp: new_monitor_def monitor_new_def)
  have other: "sock_monitor p w \<noteq> Some (next_addr w)" if "map_of (b_sockets b) n = Some p" for n p
    using sys_invD(1,3,4) [OF inv] that unfolding broker_inv_def by (metis nat_neq_iff option.inject)
  show ?thesis
  proof (rule sys_inv_keep [OF inv])
    fix n p assume r: "map_of (b_sockets b) n = Some p" and ok: "wake_ok p w"
    from ok show "wake_ok p w'"
      by (rule wake_ok_frame)
        (use other [OF r] in \<open>auto simp: w' sock_name_def sock_monitor_def box_def split: if_splits\<close>)
  qed (use sys_invD(2) [OF inv] in
      \<open>auto simp: w' sock_name_def sock_monitor_def paired_def split: if_splits\<close>)
qed

lemma broker_stop_more:
  assumes "broker_stop url w stops = (w', stops')"
  shows "sockets w' = sockets w" "next_id w' = next_id w" "next_addr w' = next_addr w"
    and "\<exists>mon n. monitors w' = notify (monitors w) mon n ''stop''"
proof -
  show "sockets w' = sockets w" "next_id w' = next_id w" "next_addr w' = next_addr w"
    using assms by (auto simp: broker_stop_def stop_stop_def Let_def split: option.splits)
  show "\<exists>mon n. monitors w' = notify (monitors w) mon n ''stop''"
  proof (cases "map_of stops url")
    case None
    with assms show ?thesis by (intro exI [of _ None]) (simp add: broker_stop_def)
  next
    case (Some st)
    with assms show ?thesis
      by (intro exI [of _ "n_monitor (stop_notifier st)"] exI [of _ "myname (stop_notifier st)"])
        (auto simp: broker_stop_def stop_stop_def Let_def)
  qed
qed

text \<open>Steps of a client on a socket of its own.\<close>

lemma sys_inv_own:
  assumes inv: "sys_inv b w"
    and frame: "\<And>p. p \<noteq> a \<Longrightarrow>
      sock_name p w' = sock_name p w \<and> sock_monitor p w' = sock_monitor p w"
    and wake: "\<And>p. p \<noteq> a \<Longrightarrow> wake_ok p w \<Longrightarrow> wake_ok p w'"
    and "next_id w' = next_id w" "next_addr w' = next_addr w"
    and "\<And>p. sockets w p = None \<Longrightarrow> sockets w' p = None"
    and "\<And>k. monitors w' k = None \<longleftrightarrow> monitors w k = None"
    and own: "a \<notin> set (b_refs b)" and "paired w'"
  shows "sys_inv b w'"
proof (rule sys_inv_keep [OF inv])
  show "p \<in> set (b_refs b) \<Longrightarrow>
      sock_name p w' = sock_name p w \<and> sock_monitor p w' = sock_monitor p w" for p
    using frame [of p] own by metis
  show "map_of (b_sockets b) n = Some p \<Longrightarrow> wake_ok p w \<Longrightarrow> wake_ok p w'" for n p
    using wake [of p] own in_refs(1) by metis
  show "sockets w' p \<noteq> None \<Longrightarrow> sockets w p \<noteq> None \<or> p < next_addr w'" for p
    using assms(6) [of p] by (cases "sockets w p") simp_all
  show "monitors w m \<noteq> None \<Longrightarrow> monitors w' m \<noteq> None" for m
    using assms(7) [of m] by simp
  show "monitors w' m \<noteq> None \<Longrightarrow> monitors w m \<noteq> None \<or> m < next_addr w'" for m
    using assms(7) [of m] by simp
  show "paired w'" by (rule assms(9))
qed (simp_all only: assms(4,5))

lemma sys_inv_step:
  assumes "sys_step C (b, w) (b', w')" and "sys_inv b w"
  shows "sys_inv b' w'"
  using assms
proof (induction "(b, w)" "(b', w')" arbitrary: b w b' w' rule: sys_step.induct)
  case (turn b w b' w')
  then show ?case using sys_inv_turn by blast
next
  case (dial w w1 a url w2 d b)
  then show ?case using sys_inv_dial by blast
next
  case (dial_end a url w w1 ok b)
  then have "sockets w1 = sockets w" "next_id w1 = next_id w" "next_addr w1 = next_addr w"
    "monitors w1 = notify (monitors w) None [] []"
    by (auto simp: connect_end_def split: if_splits)
  with dial_end(2) sys_inv_signal show ?case by blast
next
  case (client_monitor w w1 m b)
  then show ?case using sys_inv_new_monitor by blast
next
  case (client_ready a b w m)
  show ?case
  proof (rule sys_inv_own [OF client_ready(2)])
    show "p \<noteq> a \<Longrightarrow> wake_ok p w \<Longrightarrow> wake_ok p (socket_set_monitor a m w)" for p
      by (rule wake_ok_same) simp_all
  qed (use client_ready(1) sys_invD(2) [OF client_ready(2)] in \<open>simp_all add: paired_set_monitor\<close>)
next
  case (client_send a b msg w w1 ok)
  then have "w1 = fst (send a msg w)" by simp
  with client_send(1) sys_invD(2) [OF client_send(3)] show ?case
    by (intro sys_inv_own [OF client_send(3), of a]) (simp_all add: paired_send wake_ok_any_send)
next
  case (client_recv a b w w1 r)
  then have "w1 = fst (recv a w)" by simp
  with client_recv(1) sys_invD(2) [OF client_recv(3)] show ?case
    by (intro sys_inv_own [OF client_recv(3), of a])
      (simp_all add: paired_recv wake_ok_recv_other recv_simps(6))
next
  case (client_wait m b w ms s)
  note inv = client_wait(3)
  show ?case
  proof (rule sys_inv_keep [OF inv])
    fix n p assume r: "map_of (b_sockets b) n = Some p" and ok: "wake_ok p w"
    have "sock_monitor p w = Some (b_monitor b)"
      using sys_invD(1) [OF inv] r unfolding broker_inv_def by blast
    with client_wait(1) show "wake_ok p (w\<lparr>monitors := ms\<rparr>)"
      by (intro wake_ok_wait_other [OF ok client_wait(2)]) simp
  qed (use sys_invD(2) [OF inv] wait_keeps [OF client_wait(2)] in \<open>auto simp: sock_monitor_def\<close>)
next
  case (client_close a b w)
  show ?case
  proof (rule sys_inv_own [OF client_close(2)])
    show "p \<noteq> a \<Longrightarrow> wake_ok p w \<Longrightarrow> wake_ok p (socket_free a w)" for p
      by (rule wake_ok_same) (simp_all add: socket_free_def sock_name_def sock_monitor_def box_def)
  qed (use client_close(1) sys_invD(2) [OF client_close(2)] in
      \<open>auto simp: socket_free_def sock_name_def sock_monitor_def paired_def split: if_splits\<close>)
next
  case (stop url w stops w1 stops' b)
  then show ?case using sys_inv_signal broker_stop_more [OF stop(1)] by blast
qed

section \<open>Reachable states\<close>

lemma fold_request_more:
  "sockets (fold (\<lambda>e w. fst (request_accepting acc (snd e) w)) es w) = sockets w"
  "next_addr (fold (\<lambda>e w. fst (request_accepting acc (snd e) w)) es w) = next_addr w"
  "monitors (fold (\<lambda>e w. fst (request_accepting acc (snd e) w)) es w) k = None \<longleftrightarrow> monitors w k = None"
proof (induction es arbitrary: w)
  case (Cons e es)
  {
    case 1
    then show ?case by (simp add: Cons request_accepting_more)
  next
    case 2
    then show ?case by (simp add: Cons request_accepting_more)
  next
    case 3
    obtain mon n where "monitors (fst (request_accepting acc (snd e) w)) = notify (monitors w) mon n ''accept''"
      using request_accepting_more(4) by blast
    then show ?case by (simp add: Cons)
  }
qed simp_all

lemma acceptor_set_monitor_more:
  "sockets (acceptor_set_monitor acc m w) = sockets w"
  "next_addr (acceptor_set_monitor acc m w) = next_addr w"
  "monitors (acceptor_set_monitor acc m w) k = None \<longleftrightarrow> monitors w k = None"
  by (simp_all add: acceptor_set_monitor_def on_monitor_set_def Let_def fold_request_more
      split: option.splits)

lemma acceptor_new_more:
  assumes "acceptor_new url w = (w', Inr a)"
  shows "sockets w' = sockets w" "next_addr w' = Suc (next_addr w)" "monitors w' = monitors w"
  using assms by (auto simp: acceptor_new_def notify_new_def new_name_def Let_def split: if_splits)

lemma start_inv:
  assumes "broker_start url w stops = Inr (b, w', stops')" and "heap_ok w"
  shows "sys_inv b w'"
proof -
  obtain w1 m where m: "new_monitor w = (w1, m)" by fastforce
  obtain w2 r where r: "acceptor_new url w1 = (w2, r)" by fastforce
  then obtain acc where acc: "acceptor_new url w1 = (w2, Inr acc)"
    using assms(1) m by (cases r) (auto simp: broker_start_def)
  obtain st i where st: "stop_new (next_id (acceptor_set_monitor acc m w2)) = (st, i)" by fastforce
  have b: "b = \<lparr>b_monitor = m, b_acceptor = acc, b_sockets = [], b_subs = [], b_txs = []\<rparr>"
    and w': "w' = (acceptor_set_monitor acc m w2)\<lparr>next_id := i\<rparr>"
    using assms(1) m acc st by (auto simp: broker_start_def Let_def)
  note more = acceptor_new_more [OF acc] acceptor_set_monitor_more [of acc m w2]
  have m: "m = next_addr w" "w1 = w\<lparr>next_addr := Suc m, monitors := (monitors w)(m \<mapsto> [])\<rparr>"
    using m by (auto simp: new_monitor_def monitor_new_def)
  have socks: "sockets w' = sockets w" and addr: "next_addr w' = Suc (Suc (next_addr w))"
    and mons: "monitors w' k = None \<longleftrightarrow> k \<noteq> m \<and> monitors w k = None" for k
    using more m by (simp_all add: w')
  have "broker_inv b w'"
    using assms(2) socks addr unfolding broker_inv_def heap_ok_def
    by (auto simp: b intro: less_SucI)
  moreover have "k < next_addr w'" if "monitors w' k \<noteq> None" for k
    using assms(2) that addr m(1) mons [of k] unfolding heap_ok_def by (cases "k = m") (auto intro: less_SucI)
  moreover have "paired w'"
    using assms(2) socks by (simp add: heap_ok_def paired_def)
  ultimately show ?thesis
    using mons by (auto simp: sys_inv_def b)
qed

lemma reachable_inv: "reachable C s \<Longrightarrow> sys_inv (fst s) (snd s)"
proof (induction rule: reachable.induct)
  case (start url w stops b w' stops')
  then show ?case using start_inv by simp
next
  case (step s s')
  then show ?case using sys_inv_step [of C "fst s" "snd s" "fst s'" "snd s'"] by simp
qed

end
