(* ===== verification/BrokerClient.thy ===== *)
theory BrokerClient
  imports Packets InprocSocket
begin

text \<open>
  The client side of a broker connection (\<open>broker/include/broker_client.hpp\<close>,
  \<open>broker/src/broker_client.cpp\<close>): a socket with a monitor, sending and receiving packets.
\<close>

record client_t =
  c_socket :: addr
  c_monitor :: addr
  external_monitor :: bool

text \<open>
  The constructors, up to the wait in \<open>connect\<close> and from there. Without an external
  monitor the client makes its own.
\<close>

definition client_dial :: "string \<Rightarrow> addr option \<Rightarrow> world \<Rightarrow> world \<times> client_t \<times> dialing" where
  "client_dial url mon w =
     (let (w1, a) = socket_new w;
          (w2, m) = (case mon of None \<Rightarrow> new_monitor w1 | Some m \<Rightarrow> (w1, m));
          (w3, d) = connect_begin a url w2
      in (w3, \<lparr>c_socket = a, c_monitor = m, external_monitor = (mon \<noteq> None)\<rparr>, d))"

definition client_dialed :: "client_t \<Rightarrow> bool \<Rightarrow> world \<Rightarrow> (client_t \<times> world) res" where
  "client_dialed c ok w =
     (if \<not> ok then Inl (Throw ''Connection failed'')
      else Inr (c, socket_set_monitor (c_socket c) (c_monitor c) w))"

text \<open>\<open>send_bytes\<close>; a null pointer is \<open>None\<close>.\<close>

definition send_bytes :: "client_t \<Rightarrow> msg option \<Rightarrow> world \<Rightarrow> world \<times> bool" where
  "send_bytes c packet w =
     (case packet of None \<Rightarrow> (w, False) | Some m \<Rightarrow> send (c_socket c) m w)"

definition recv_bytes :: "client_t \<Rightarrow> world \<Rightarrow> world \<times> msg option" where
  "recv_bytes c w = recv (c_socket c) w"

text \<open>The typed \<open>send\<close>s build the packet, write it and send the bytes.\<close>

definition client_send :: "codec \<Rightarrow> client_t \<Rightarrow> packet_t \<Rightarrow> world \<Rightarrow> (world \<times> bool) res" where
  "client_send C c p w = bindR (dump_packet C p) (\<lambda>bs. Inr (send_bytes c (Some bs) w))"

definition client_recv :: "codec \<Rightarrow> client_t \<Rightarrow> bool \<Rightarrow> world \<Rightarrow> (world \<times> packet_t option) res" where
  "client_recv C c skip_body w =
     (let (w', payload) = recv (c_socket c) w in
      case payload of
        None \<Rightarrow> Inr (w', None)
      | Some m \<Rightarrow> bindR (load_packet C m skip_body) (\<lambda>p. Inr (w', Some p)))"

text \<open>\<open>listen\<close>, in the state when the wait for a signal ends.\<close>

definition client_listen :: "codec \<Rightarrow> client_t \<Rightarrow> bool \<Rightarrow> world \<Rightarrow> (world \<times> packet_t option) res" where
  "client_listen C c skip_body w =
     (if external_monitor c then Inl (Throw ''You cannot call listen in this client'')
      else (let (ms, sig) = monitor_wait (monitors w) (c_monitor c); w1 = w\<lparr>monitors := ms\<rparr> in
            case sig of
              None \<Rightarrow> Inr (w1, None)
            | Some _ \<Rightarrow> client_recv C c skip_body w1))"

section \<open>Facts\<close>

lemma client_dialed_ok [simp]:
  "client_dialed c ok w = Inr r \<longleftrightarrow> ok \<and> r = (c, socket_set_monitor (c_socket c) (c_monitor c) w)"
  by (auto simp: client_dialed_def)

text \<open>A packet sent by one end of a link is what the other end receives next.\<close>

lemma send_then_recv:
  assumes "peered (c_socket c) (c_socket d) w" and "box (c_socket d) w = []"
    and p: "packet_ok p" "packet_fits C p" "packet_faithful C p"
    and sent: "client_send C c p w = Inr (w1, ok)"
  shows "ok \<and> (\<exists>w2. client_recv C d skip w1 = Inr (w2, Some (wire_packet skip p)))"
proof -
  obtain bs where bs: "dump_packet C p = Inr bs" and w1: "send (c_socket c) bs w = (w1, ok)"
    using sent by (auto simp: client_send_def send_bytes_def bindR_eq_Inr)
  have ok: "ok" and box: "box (c_socket d) w1 = [bs]"
    using send_peered(1,2) [OF assms(1), where m = bs] assms(2) w1 by (auto simp: mailbox_limit_def)
  have "load_packet C bs skip = Inr (wire_packet skip p)"
    using load_dump_packet [OF p, of skip] bs by simp
  moreover obtain w2 where "recv (c_socket d) w1 = (w2, Some bs)"
    using recv_simps(1) [of "c_socket d" w1] box by (metis list.simps(5) prod.collapse)
  ultimately show ?thesis
    using ok by (simp add: client_recv_def)
qed

text \<open>Right after \<open>connect\<close> returned, the client cannot send yet.\<close>

lemma dialed_cannot_send:
  assumes dial: "client_dial url mon w = (w1, c, Dialed True)"
    and ready: "client_dialed c True w1 = Inr (c', w2)"
  shows "send_bytes c' (Some m) w2 = (w2, False)"
proof -
  obtain wa a where a: "socket_new w = (wa, a)" by fastforce
  obtain wb m' where b: "(case mon of None \<Rightarrow> new_monitor wa | Some m \<Rightarrow> (wa, m)) = (wb, m')"
    by fastforce
  have con: "connect_begin a url wb = (w1, Dialed True)" and c: "c_socket c = a"
    using dial a b by (auto simp: client_dial_def split: prod.splits)
  have s: "sockets wb = sockets wa"
    using b by (auto simp: new_monitor_def split: option.splits)
  obtain t where t: "sockets wa a = Some t" "peer_name t = None"
    using a by (auto simp: socket_new_def Let_def split: prod.splits)
  have "sockets w1 = sockets wb"
    using con by (auto simp: connect_begin_def request_accepting_def Let_def
        split: option.splits prod.splits)
  then show ?thesis
    using ready c s t by (auto simp: send_bytes_def send_def socket_set_monitor_def)
qed

end
