(* ===== verification/Modules.thy ===== *)
theory Modules
  imports Values
begin

text \<open>
  The VM's operators, components and modules (\<open>vm/include/module.hpp\<close>). An operator is a
  small state machine: it is initialised with an input and then stepped, once if it is
  instant and until it says that it has finished if it is iterative. A method operator in
  addition works on the objects of the component that it is bound to. The functions an
  operator is made of are part of its value; the objects of a component have the type
  parameter \<open>'o\<close>, since they are values or things of other libraries.
\<close>

section \<open>Outputs\<close>

datatype output_t = Ok_output "val option" bool | Error_output string

datatype 'a or_error = Got 'a | Failed string

type_synonym value_or_error = "val option or_error"

text \<open>An output after which nothing follows.\<close>

fun is_last :: "output_t \<Rightarrow> bool" where
  "is_last (Ok_output v fin) = fin"
| "is_last (Error_output r) = True"

fun or_error_output :: "value_or_error \<Rightarrow> output_t" where
  "or_error_output (Got v) = Ok_output v True"
| "or_error_output (Failed r) = Error_output r"

section \<open>Operators\<close>

text \<open>
  The two kinds of operator. The step function of an iterative operator may change the
  state that its pointer leads to, so it returns the state too.
\<close>

datatype op_code =
    Instant "val option \<Rightarrow> value_or_error res"
  | Iterative "val option \<Rightarrow> value_or_error res" "val option \<Rightarrow> (val option \<times> output_t) res"

record operator_t =
  op_in :: "val option"
  op_state :: "val option"
  op_code :: op_code

definition make_operator :: "op_code \<Rightarrow> operator_t" where
  "make_operator c = \<lparr>op_in = None, op_state = None, op_code = c\<rparr>"

definition operator_initialize :: "operator_t \<Rightarrow> val option \<Rightarrow> operator_t \<times> string option" where
  "operator_initialize s v = (s\<lparr>op_in := v\<rparr>, None)"

definition operator_reset_input :: "operator_t \<Rightarrow> operator_t" where
  "operator_reset_input s = (if op_in s \<noteq> None then s\<lparr>op_in := None\<rparr> else s)"

definition instant_step ::
  "(val option \<Rightarrow> value_or_error res) \<Rightarrow> operator_t \<Rightarrow> (operator_t \<times> output_t) res" where
  "instant_step f s =
     bindR (f (op_in s)) (\<lambda>out. Inr (operator_reset_input s, or_error_output out))"

definition iterative_initialize ::
  "(val option \<Rightarrow> value_or_error res) \<Rightarrow> operator_t \<Rightarrow> val option \<Rightarrow>
     (operator_t \<times> string option) res" where
  "iterative_initialize finit s v =
     (let (s1, r) = operator_initialize s v in
      case r of Some e \<Rightarrow> Inr (s1, Some e)
      | None \<Rightarrow> bindR (finit v) (\<lambda>st.
          (case st of Got x \<Rightarrow> Inr (s1\<lparr>op_state := x\<rparr>, None) | Failed e \<Rightarrow> Inr (s1, Some e))))"

definition iterative_reset_input :: "operator_t \<Rightarrow> operator_t" where
  "iterative_reset_input s = (operator_reset_input s)\<lparr>op_state := None\<rparr>"

definition iterative_step ::
  "(val option \<Rightarrow> (val option \<times> output_t) res) \<Rightarrow> operator_t \<Rightarrow> (operator_t \<times> output_t) res" where
  "iterative_step fstep s =
     bindR (fstep (op_state s)) (\<lambda>(st, out).
       let s1 = s\<lparr>op_state := st\<rparr> in
       Inr (case out of Ok_output _ True \<Rightarrow> (iterative_reset_input s1, out) | _ \<Rightarrow> (s1, out)))"

text \<open>The virtual functions \<open>initialize\<close> and \<open>step\<close>.\<close>

definition op_initialize :: "operator_t \<Rightarrow> val option \<Rightarrow> (operator_t \<times> string option) res" where
  "op_initialize s v =
     (case op_code s of
        Instant f \<Rightarrow> Inr (operator_initialize s v)
      | Iterative finit fstep \<Rightarrow> iterative_initialize finit s v)"

definition op_step :: "operator_t \<Rightarrow> (operator_t \<times> output_t) res" where
  "op_step s =
     (case op_code s of
        Instant f \<Rightarrow> instant_step f s
      | Iterative finit fstep \<Rightarrow> iterative_step fstep s)"

section \<open>Method operators and components\<close>

type_synonym 'o objs = "(string \<times> 'o) list"

datatype 'o method_code =
    Instant_method "'o objs \<Rightarrow> val option \<Rightarrow> ('o objs \<times> value_or_error) res"
  | Iterative_method "'o objs \<Rightarrow> val option \<Rightarrow> ('o objs \<times> value_or_error) res"
      "'o objs \<Rightarrow> val option \<Rightarrow> ('o objs \<times> val option \<times> output_t) res"

record 'o method_t =
  m_in :: "val option"
  m_state :: "val option"
  m_code :: "'o method_code"

definition make_method :: "'o method_code \<Rightarrow> 'o method_t" where
  "make_method c = \<lparr>m_in = None, m_state = None, m_code = c\<rparr>"

text \<open>
  A method runs bound to its component, whose objects it reads and changes: its state is the
  method together with the objects.
\<close>

definition method_initialize ::
  "'o method_t \<times> 'o objs \<Rightarrow> val option \<Rightarrow> (('o method_t \<times> 'o objs) \<times> string option) res" where
  "method_initialize = (\<lambda>(s, os) v.
     let s1 = s\<lparr>m_in := v\<rparr> in
     case m_code s of
       Instant_method f \<Rightarrow> Inr ((s1, os), None)
     | Iterative_method finit fstep \<Rightarrow>
         bindR (finit os v) (\<lambda>(os', st).
           (case st of Got x \<Rightarrow> Inr ((s1\<lparr>m_state := x\<rparr>, os'), None)
            | Failed e \<Rightarrow> Inr ((s1, os'), Some e))))"

definition instant_method_step ::
  "('o objs \<Rightarrow> val option \<Rightarrow> ('o objs \<times> value_or_error) res) \<Rightarrow>
     'o method_t \<times> 'o objs \<Rightarrow> (('o method_t \<times> 'o objs) \<times> output_t) res" where
  "instant_method_step f = (\<lambda>(s, os).
     bindR (f os (m_in s)) (\<lambda>(os', out). Inr ((s\<lparr>m_in := None\<rparr>, os'), or_error_output out)))"

definition iterative_method_step ::
  "('o objs \<Rightarrow> val option \<Rightarrow> ('o objs \<times> val option \<times> output_t) res) \<Rightarrow>
     'o method_t \<times> 'o objs \<Rightarrow> (('o method_t \<times> 'o objs) \<times> output_t) res" where
  "iterative_method_step fstep = (\<lambda>(s, os).
     bindR (fstep os (m_state s)) (\<lambda>(os', st, out).
       let s1 = s\<lparr>m_state := st\<rparr> in
       Inr (case out of
              Ok_output _ True \<Rightarrow> ((s1\<lparr>m_in := None, m_state := None\<rparr>, os'), out)
            | _ \<Rightarrow> ((s1, os'), out))))"

definition method_step :: "'o method_t \<times> 'o objs \<Rightarrow> (('o method_t \<times> 'o objs) \<times> output_t) res" where
  "method_step = (\<lambda>(s, os).
     case m_code s of
       Instant_method f \<Rightarrow> instant_method_step f (s, os)
     | Iterative_method finit fstep \<Rightarrow> iterative_method_step fstep (s, os))"

record 'o component_t =
  ops :: "(string \<times> 'o method_t) list"
  objs :: "'o objs"

definition make_component :: "(string \<times> 'o method_t) list \<Rightarrow> 'o component_t" where
  "make_component m = \<lparr>ops = m, objs = []\<rparr>"

text \<open>\<open>get_operator\<close>; binding it to the component is what \<open>method_step\<close> takes for granted.\<close>

definition get_operator :: "'o component_t \<Rightarrow> string \<Rightarrow> 'o method_t option" where
  "get_operator c name = map_of (ops c) name"

definition get_obj :: "('o \<Rightarrow> 'a option) \<Rightarrow> 'o objs \<Rightarrow> string \<Rightarrow> 'a option" where
  "get_obj cast os name = Option.bind (map_of os name) cast"

definition set_obj :: "string \<Rightarrow> 'o \<Rightarrow> 'o objs \<Rightarrow> 'o objs" where
  "set_obj name x os = put name x os"

text \<open>A component after one of its methods has run.\<close>

definition put_back :: "string \<Rightarrow> 'o method_t \<times> 'o objs \<Rightarrow> 'o component_t \<Rightarrow> 'o component_t" where
  "put_back name s c = c\<lparr>ops := put name (fst s) (ops c), objs := snd s\<rparr>"

section \<open>Modules\<close>

type_synonym 'o component_factory = "val option \<Rightarrow> 'o component_t or_error res"

record 'o module_t =
  mod_ops :: "(string \<times> operator_t) list"
  mod_factories :: "(string \<times> 'o component_factory) list"

section \<open>The contract of an operator\<close>

text \<open>
  Who runs an operator relies on this: an operator that is initialised has the input it was
  given, and one that finished has let go of it. \<open>runs\<close> is a complete run, with its outputs.
\<close>

inductive runs :: "('s \<Rightarrow> ('s \<times> output_t) res) \<Rightarrow> 's \<Rightarrow> output_t list \<Rightarrow> 's \<Rightarrow> bool"
  for step :: "'s \<Rightarrow> ('s \<times> output_t) res" where
  last: "step s = Inr (s', out) \<Longrightarrow> is_last out \<Longrightarrow> runs step s [out] s'"
| more: "step s = Inr (s1, out) \<Longrightarrow> \<not> is_last out \<Longrightarrow> runs step s1 outs s' \<Longrightarrow>
    runs step s (out # outs) s'"

inductive_cases runs_NilE: "runs step s [] s'"
inductive_cases runs_ConsE: "runs step s (out # outs) s'"

locale operator =
  fixes initialize :: "'s \<Rightarrow> val option \<Rightarrow> ('s \<times> string option) res"
    and step :: "'s \<Rightarrow> ('s \<times> output_t) res"
    and input :: "'s \<Rightarrow> val option"
  assumes input_set: "initialize s v = Inr (s', r) \<Longrightarrow> input s' = v"
    and input_gone: "step s = Inr (s', Ok_output v True) \<Longrightarrow> input s' = None"
begin

lemma runs_one_last: "runs step s outs s' \<Longrightarrow>
    outs \<noteq> [] \<and> is_last (List.last outs) \<and> (\<forall>out \<in> set (butlast outs). \<not> is_last out)"
  by (induction rule: runs.induct) auto

lemma runs_released:
  "runs step s outs s' \<Longrightarrow> List.last outs = Ok_output v True \<Longrightarrow> input s' = None"
proof (induction rule: runs.induct)
  case (last s s' out)
  then show ?case using input_gone by auto
next
  case (more s s1 out outs s')
  then have "outs \<noteq> []" using runs_one_last by blast
  with more show ?case by simp
qed

lemma runs_determ: "runs step s outs s' \<Longrightarrow> runs step s outs' s'' \<Longrightarrow> outs' = outs \<and> s'' = s'"
proof (induction arbitrary: outs' s'' rule: runs.induct)
  case (last s s' out)
  from last.prems show ?case
  proof (cases rule: runs.cases)
    case (last out')
    with \<open>step s = Inr (s', out)\<close> show ?thesis by simp
  next
    case (more s1 out' outs1)
    with \<open>step s = Inr (s', out)\<close> \<open>is_last out\<close> show ?thesis by simp
  qed
next
  case (more s s1 out outs s')
  note ih = more.IH
  from more.prems show ?case
  proof (cases rule: runs.cases)
    case (last out')
    with \<open>step s = Inr (s1, out)\<close> \<open>\<not> is_last out\<close> show ?thesis by simp
  next
    case (more t1 out' outs1)
    with \<open>step s = Inr (s1, out)\<close> have "t1 = s1" "out' = out" by simp_all
    with ih more(1,4) show ?thesis by blast
  qed
qed

end

lemma op_step_finished:
  assumes "op_step s = Inr (s', Ok_output v True)" shows "op_in s' = None"
proof (cases "op_code s")
  case (Instant f)
  with assms show ?thesis
    by (auto simp: op_step_def instant_step_def operator_reset_input_def bindR_eq_Inr)
next
  case (Iterative finit fstep)
  with assms obtain st out where "fstep (op_state s) = Inr (st, out)"
    by (auto simp: op_step_def iterative_step_def bindR_eq_Inr)
  with assms Iterative show ?thesis
    by (cases out) (auto simp: op_step_def iterative_step_def iterative_reset_input_def
        operator_reset_input_def Let_def split: bool.splits)
qed

lemma op_initialize_input:
  assumes "op_initialize s v = Inr (s', r)" shows "op_in s' = v"
proof (cases "op_code s")
  case (Instant f)
  with assms show ?thesis by (auto simp: op_initialize_def operator_initialize_def)
next
  case (Iterative finit fstep)
  with assms obtain st where "finit v = Inr st"
    by (auto simp: op_initialize_def iterative_initialize_def operator_initialize_def bindR_eq_Inr)
  with assms Iterative show ?thesis
    by (cases st) (auto simp: op_initialize_def iterative_initialize_def operator_initialize_def)
qed

lemma method_step_finished:
  assumes "method_step s = Inr (s', Ok_output v True)" shows "m_in (fst s') = None"
proof (cases "m_code (fst s)")
  case (Instant_method f)
  with assms show ?thesis
    by (cases s) (auto simp: method_step_def instant_method_step_def bindR_eq_Inr)
next
  case (Iterative_method finit fstep)
  with assms obtain os st out where "fstep (snd s) (m_state (fst s)) = Inr (os, st, out)"
    by (cases s) (auto simp: method_step_def iterative_method_step_def bindR_eq_Inr)
  with assms Iterative_method show ?thesis
    by (cases s; cases out) (auto simp: method_step_def iterative_method_step_def Let_def
        split: bool.splits)
qed

lemma method_initialize_input:
  assumes "method_initialize s v = Inr (s', r)" shows "m_in (fst s') = v"
proof (cases "m_code (fst s)")
  case (Instant_method f)
  with assms show ?thesis by (cases s) (auto simp: method_initialize_def)
next
  case (Iterative_method finit fstep)
  with assms obtain os st where "finit (snd s) v = Inr (os, st)"
    by (cases s) (auto simp: method_initialize_def Let_def bindR_eq_Inr)
  with assms Iterative_method show ?thesis
    by (cases s; cases st) (auto simp: method_initialize_def Let_def)
qed

interpretation op: operator op_initialize op_step op_in
  by unfold_locales (rule op_initialize_input op_step_finished, assumption)+

interpretation meth: operator method_initialize method_step "\<lambda>s. m_in (fst s)"
  by unfold_locales (rule method_initialize_input method_step_finished, assumption)+

end
