(* ===== verification/Vm.thy ===== *)
theory Vm
  imports BrokerClient Modules
begin

text \<open>
  The virtual machine (\<open>vm/src/vm.cpp\<close>): it connects to a broker, imports modules and
  subscribes to their channels, and then executes what arrives on them: it calls functions,
  creates and deletes components and calls their methods. \<open>vm_t\<close> holds \<open>vm_state_t\<close> and
  the locals of \<open>vm_start\<close>; the function is cut where it waits for a signal. UUIDs come
  from outside: \<open>uuid i\<close> is the \<open>i\<close>-th one that the process draws.
\<close>

section \<open>State\<close>

record 'o vm_t =
  vm_client :: client_t
  vm_factories :: "(string \<times> 'o component_factory) list"
  vm_components :: "(string \<times> 'o component_t) list"
  vm_operators :: "(string \<times> operator_t) list"
  vm_expected :: "string set"
  vm_uuids :: nat

text \<open>
  The statics of the file: the table of running VMs, of which only the stop signal is used,
  and the counter \<open>retry\<close> of the closing loop.
\<close>

record vm_statics =
  vm_states :: "(string \<times> stop_t) list"
  vm_retry :: u64

text \<open>A packet for each name of a list, with a new transaction id for each.\<close>

fun named_packets ::
  "(nat \<Rightarrow> string) \<Rightarrow> (string \<Rightarrow> string \<Rightarrow> packet_t) \<Rightarrow> string list \<Rightarrow> nat \<Rightarrow> (string \<times> packet_t) list" where
  "named_packets uuid mk [] i = []"
| "named_packets uuid mk (n # ns) i = (uuid i, mk (uuid i) n) # named_packets uuid mk ns (Suc i)"

definition dump_all :: "codec \<Rightarrow> (string \<times> packet_t) list \<Rightarrow> (string \<times> msg) list res" where
  "dump_all C ps = mapR (\<lambda>(tx, p). bindR (dump_packet C p) (\<lambda>bs. Inr (tx, bs))) ps"

definition import_packets ::
  "(nat \<Rightarrow> string) \<Rightarrow> 'o module_t \<Rightarrow> nat \<Rightarrow> (string \<times> packet_t) list" where
  "import_packets uuid md i =
     (let fs = map fst (mod_ops md); ds = map fst (mod_factories md) in
      named_packets uuid (\<lambda>tx n. call_function_packet subscribe tx n None) fs i @
      named_packets uuid (\<lambda>tx n. define_component_packet subscribe tx n [] None) ds (i + length fs))"

definition on_import_module ::
  "codec \<Rightarrow> (nat \<Rightarrow> string) \<Rightarrow> 'o module_t \<Rightarrow> 'o vm_t \<Rightarrow> ('o vm_t \<times> (string \<times> msg) list) res" where
  "on_import_module C uuid md vm =
     (let ps = import_packets uuid md (vm_uuids vm);
          vm' = vm\<lparr>vm_operators := fold (\<lambda>e. put_new (fst e) (snd e)) (mod_ops md) (vm_operators vm),
                   vm_factories := fold (\<lambda>e. put_new (fst e) (snd e)) (mod_factories md) (vm_factories vm),
                   vm_uuids := vm_uuids vm + length ps\<rparr>
      in bindR (dump_all C ps) (\<lambda>msgs. Inr (vm', msgs)))"

text \<open>The packets that unsubscribe a component: the component itself, then its methods.\<close>

fun component_packets ::
  "(nat \<Rightarrow> string) \<Rightarrow> (string \<times> 'o component_t) list \<Rightarrow> nat \<Rightarrow> (string \<times> packet_t) list" where
  "component_packets uuid [] i = []"
| "component_packets uuid ((cname, co) # cs) i =
     (uuid i, delete_component_packet unsubscribe (uuid i) cname) #
     named_packets uuid (\<lambda>tx n. call_method_packet unsubscribe tx cname n None)
       (map fst (ops co)) (Suc i) @
     component_packets uuid cs (Suc i + length (ops co))"

definition stop_packets :: "(nat \<Rightarrow> string) \<Rightarrow> 'o vm_t \<Rightarrow> (string \<times> packet_t) list" where
  "stop_packets uuid vm =
     (let i = vm_uuids vm; fs = map fst (vm_operators vm); ds = map fst (vm_factories vm) in
      named_packets uuid (\<lambda>tx n. call_function_packet unsubscribe tx n None) fs i @
      named_packets uuid (\<lambda>tx n. define_component_packet unsubscribe tx n [] None) ds (i + length fs) @
      component_packets uuid (vm_components vm) (i + length fs + length ds))"

definition on_stop ::
  "codec \<Rightarrow> (nat \<Rightarrow> string) \<Rightarrow> 'o vm_t \<Rightarrow> ('o vm_t \<times> (string \<times> msg) list) res" where
  "on_stop C uuid vm =
     (let ps = stop_packets uuid vm in
      bindR (dump_all C ps) (\<lambda>msgs. Inr (vm\<lparr>vm_uuids := vm_uuids vm + length ps\<rparr>, msgs)))"

section \<open>Running an operator\<close>

text \<open>\<open>client->send<..>(..)\<close> where the result is not looked at.\<close>

definition tell :: "codec \<Rightarrow> client_t \<Rightarrow> packet_t \<Rightarrow> world \<Rightarrow> world res" where
  "tell C c p w = bindR (client_send C c p w) (\<lambda>r. Inr (fst r))"

definition tell_output :: "codec \<Rightarrow> client_t \<Rightarrow> string \<Rightarrow> u64 \<Rightarrow> output_t \<Rightarrow> world \<Rightarrow> world res" where
  "tell_output C c tx i out w =
     (case out of
        Ok_output v fin \<Rightarrow>
          bindR (deref v) (\<lambda>x. tell C c (respond_execute_ok_packet tx i fin x) w)
      | Error_output r \<Rightarrow> tell C c (respond_execute_err_packet tx i r) w)"

text \<open>
  The loop that steps an operator and sends every output, with its sequence number, until
  the last. It does not return if the operator never finishes; then the value is \<open>None\<close>.
\<close>

partial_function (option) run_op ::
  "codec \<Rightarrow> client_t \<Rightarrow> string \<Rightarrow> ('s \<Rightarrow> ('s \<times> output_t) res) \<Rightarrow> u64 \<Rightarrow> 's \<Rightarrow> world \<Rightarrow>
     ('s \<times> world) res option" where
  "run_op C c tx step i s w =
     (case step s of
        Inl e \<Rightarrow> Some (Inl e)
      | Inr r \<Rightarrow>
          (case tell_output C c tx i (snd r) w of
             Inl e \<Rightarrow> Some (Inl e)
           | Inr w' \<Rightarrow>
               if is_last (snd r) then Some (Inr (fst r, w'))
               else run_op C c tx step (i + 1) (fst r) w'))"

section \<open>Handlers\<close>

text \<open>Answering a request with an error, and going on.\<close>

definition refuse :: "codec \<Rightarrow> 'o vm_t \<Rightarrow> string \<Rightarrow> string \<Rightarrow> world \<Rightarrow> ('o vm_t \<times> world) res" where
  "refuse C vm tx reason w =
     bindR (tell C (vm_client vm) (respond_execute_err_packet tx 0 reason) w) (\<lambda>w'. Inr (vm, w'))"

text \<open>A loop that may not return, followed by what is done when it has.\<close>

definition after :: "'a res option \<Rightarrow> ('a \<Rightarrow> 'b) \<Rightarrow> 'b res option" where
  "after r f = map_option (mapR_res f) r"

definition handle_call_function ::
  "codec \<Rightarrow> packet_t \<Rightarrow> 'o vm_t \<Rightarrow> world \<Rightarrow> ('o vm_t \<times> world) res option" where
  "handle_call_function C pkt vm w =
     (case headers pkt of
        None \<Rightarrow> Some (Inl (UB ''null pointer dereference''))
      | Some h \<Rightarrow>
     if length h \<noteq> 2 then Some (Inr (vm, w))
     else (case bindR (array_get as_string h 0) (\<lambda>tx. mapR_res (Pair tx) (array_get as_string h 1)) of
        Inl e \<Rightarrow> Some (Inl e)
      | Inr (tx, opname) \<Rightarrow>
     (case body pkt of
        None \<Rightarrow> Some (refuse C vm tx ''Invalid body'' w)
      | Some b \<Rightarrow>
     (case map_of (vm_operators vm) opname of
        None \<Rightarrow> Some (refuse C vm tx (''Unknown operator: '' @ opname) w)
      | Some op \<Rightarrow>
     (case bindR (map_at b ''in'') (\<lambda>v. op_initialize op (Some v)) of
        Inl e \<Rightarrow> Some (Inl e)
      | Inr (op1, Some reason) \<Rightarrow>
          Some (refuse C (vm\<lparr>vm_operators := put opname op1 (vm_operators vm)\<rparr>) tx reason w)
      | Inr (op1, None) \<Rightarrow>
          after (run_op C (vm_client vm) tx op_step 0 op1 w)
            (\<lambda>(op2, w'). (vm\<lparr>vm_operators := put opname op2 (vm_operators vm)\<rparr>, w')))))))"

definition handle_call_method ::
  "codec \<Rightarrow> packet_t \<Rightarrow> 'o vm_t \<Rightarrow> world \<Rightarrow> ('o vm_t \<times> world) res option" where
  "handle_call_method C pkt vm w =
     (case headers pkt of
        None \<Rightarrow> Some (Inl (UB ''null pointer dereference''))
      | Some h \<Rightarrow>
     if length h \<noteq> 3 then Some (Inr (vm, w))
     else (case bindR (array_get as_string h 0) (\<lambda>tx. bindR (array_get as_string h 1)
             (\<lambda>cn. mapR_res (\<lambda>on. (tx, cn, on)) (array_get as_string h 2))) of
        Inl e \<Rightarrow> Some (Inl e)
      | Inr (tx, compname, opname) \<Rightarrow>
     (case body pkt of
        None \<Rightarrow> Some (refuse C vm tx ''Invalid body'' w)
      | Some b \<Rightarrow>
     (case map_of (vm_components vm) compname of
        None \<Rightarrow> Some (refuse C vm tx (''Component not exists: '' @ compname) w)
      | Some co \<Rightarrow>
     (case get_operator co opname of
        None \<Rightarrow> Some (refuse C vm tx (''Method not exists: '' @ compname @ ''.'' @ opname) w)
      | Some op \<Rightarrow>
     (let upd = (\<lambda>s. vm\<lparr>vm_components :=
            put compname (put_back opname s co) (vm_components vm)\<rparr>) in
      case bindR (map_at b ''in'') (\<lambda>v. method_initialize (op, objs co) (Some v)) of
        Inl e \<Rightarrow> Some (Inl e)
      | Inr (s1, Some reason) \<Rightarrow> Some (refuse C (upd s1) tx reason w)
      | Inr (s1, None) \<Rightarrow>
          after (run_op C (vm_client vm) tx method_step 0 s1 w) (\<lambda>(s2, w'). (upd s2, w'))))))))"

text \<open>Sending packets whose responses are then expected.\<close>

fun tell_expecting ::
  "codec \<Rightarrow> (string \<times> packet_t) list \<Rightarrow> 'o vm_t \<Rightarrow> world \<Rightarrow> ('o vm_t \<times> world) res" where
  "tell_expecting C [] vm w = Inr (vm, w)"
| "tell_expecting C ((tx, p) # ps) vm w =
     bindR (tell C (vm_client vm) p w) (\<lambda>w'.
       tell_expecting C ps
         (vm\<lparr>vm_expected := insert tx (vm_expected vm), vm_uuids := Suc (vm_uuids vm)\<rparr>) w')"

definition define_packets ::
  "(nat \<Rightarrow> string) \<Rightarrow> string \<Rightarrow> 'o component_t \<Rightarrow> nat \<Rightarrow> (string \<times> packet_t) list" where
  "define_packets uuid compname co i =
     (uuid i, delete_component_packet subscribe (uuid i) compname) #
     named_packets uuid (\<lambda>tx n. call_method_packet subscribe tx compname n None)
       (map fst (ops co)) (Suc i)"

definition handle_define_component ::
  "codec \<Rightarrow> (nat \<Rightarrow> string) \<Rightarrow> packet_t \<Rightarrow> 'o vm_t \<Rightarrow> world \<Rightarrow> ('o vm_t \<times> world) res" where
  "handle_define_component C uuid pkt vm w =
     bindR (deref (headers pkt)) (\<lambda>h.
     if length h \<noteq> 2 then Inr (vm, w) else
     bindR (array_get as_string h 0) (\<lambda>tx.
     bindR (array_get as_string h 1) (\<lambda>comptype.
     case map_of (vm_factories vm) comptype of
       None \<Rightarrow> refuse C vm tx (''Unknown operator: '' @ comptype) w
     | Some factory \<Rightarrow>
     (case body pkt of
       None \<Rightarrow> refuse C vm tx ''Invalid body'' w
     | Some b \<Rightarrow>
     bindR (map_get as_string b ''name'') (\<lambda>compname.
     if map_of (vm_factories vm) compname \<noteq> None
     then refuse C vm tx (''Component already exists: '' @ compname) w
     else
     bindR (map_at b ''in'') (\<lambda>v.
     bindR (factory (Some v)) (\<lambda>r.
     case r of
       Failed reason \<Rightarrow> refuse C vm tx reason w
     | Got co \<Rightarrow>
         bindR (tell_expecting C (define_packets uuid compname co (vm_uuids vm)) vm w)
           (\<lambda>(vm1, w1).
         bindR (tell C (vm_client vm1) (respond_execute_ok_packet tx 0 True (Map_t [])) w1)
           (\<lambda>w2. Inr (vm1\<lparr>vm_components := put compname co (vm_components vm1)\<rparr>, w2))))))))))"

definition delete_packets ::
  "(nat \<Rightarrow> string) \<Rightarrow> string \<Rightarrow> 'o component_t \<Rightarrow> nat \<Rightarrow> (string \<times> packet_t) list" where
  "delete_packets uuid compname co i =
     (let ms = map fst (ops co); j = i + length ms in
      named_packets uuid (\<lambda>tx n. call_method_packet unsubscribe tx compname n None) ms i @
      [(uuid j, delete_component_packet unsubscribe (uuid j) compname)])"

definition handle_delete_component ::
  "codec \<Rightarrow> (nat \<Rightarrow> string) \<Rightarrow> packet_t \<Rightarrow> 'o vm_t \<Rightarrow> world \<Rightarrow> ('o vm_t \<times> world) res" where
  "handle_delete_component C uuid pkt vm w =
     bindR (deref (headers pkt)) (\<lambda>h.
     if length h \<noteq> 2 then Inr (vm, w) else
     bindR (array_get as_string h 0) (\<lambda>tx.
     bindR (array_get as_string h 1) (\<lambda>compname.
     case map_of (vm_components vm) compname of
       None \<Rightarrow> refuse C vm tx (''Component not exists: '' @ compname) w
     | Some co \<Rightarrow>
         bindR (tell_expecting C (delete_packets uuid compname co (vm_uuids vm))
             (vm\<lparr>vm_components := del compname (vm_components vm)\<rparr>) w) (\<lambda>(vm1, w1).
         bindR (tell C (vm_client vm1) (respond_execute_ok_packet tx 0 True (Map_t [])) w1)
           (\<lambda>w2. Inr (vm1, w2))))))"

section \<open>Starting\<close>

definition vm_id_of :: "string \<Rightarrow> string \<Rightarrow> string" where
  "vm_id_of url name = url @ '':'' @ name"

definition quoted :: "string \<Rightarrow> string" where
  "quoted s = CHR 0x27 # s @ [CHR 0x27]"

definition raise_exception :: "string \<Rightarrow> string \<Rightarrow> vm_statics \<Rightarrow> vm_statics \<times> 'a res" where
  "raise_exception vm_id reason g = (g\<lparr>vm_states := del vm_id (vm_states g)\<rparr>, Inl (Throw reason))"

text \<open>Up to the wait in \<open>connect\<close>: the check of the name, the monitor and the client.\<close>

definition vm_begin ::
  "string \<Rightarrow> string \<Rightarrow> vm_statics \<Rightarrow> world \<Rightarrow> (world \<times> client_t \<times> dialing) res" where
  "vm_begin url name g w =
     (if map_of (vm_states g) (vm_id_of url name) \<noteq> None
      then Inl (Throw (''The VM name '' @ quoted name @ '' is already occupied for the url '' @
                 quoted url @ ''.''))
      else (let (w1, m) = new_monitor w in Inr (client_dial url (Some m) w1)))"

text \<open>
  Connected: the state of the VM, with its entry in the table, and the \<open>connect\<close> packet,
  whose transaction id is the next UUID.
\<close>

definition vm_hello ::
  "codec \<Rightarrow> (nat \<Rightarrow> string) \<Rightarrow> string \<Rightarrow> client_t \<Rightarrow> bool \<Rightarrow> nat \<Rightarrow> vm_statics \<Rightarrow> world \<Rightarrow>
     vm_statics \<times> ('o vm_t \<times> world) res" where
  "vm_hello C uuid vm_id c ok i g w =
     (case client_dialed c ok w of
        Inl e \<Rightarrow> (g, Inl e)
      | Inr (c1, w1) \<Rightarrow>
          (let (_, j) = notify_new (next_id w1); (st, k) = stop_new j;
               st' = st\<lparr>stop_notifier := set_monitor (c_monitor c1) (stop_notifier st)\<rparr>;
               w2 = w1\<lparr>next_id := k\<rparr>;
               g1 = g\<lparr>vm_states := put vm_id st' (vm_states g)\<rparr>;
               vm = \<lparr>vm_client = c1, vm_factories = [], vm_components = [], vm_operators = [],
                      vm_expected = {}, vm_uuids = Suc i\<rparr>
           in case client_send C c1 (conn_packet connect (uuid i)) w2 of
                Inl e \<Rightarrow> (g1, Inl e)
              | Inr (w3, sent) \<Rightarrow>
                  if sent then (g1, Inr (vm, w3))
                  else raise_exception vm_id ''Connection packet send failed'' g1))"

text \<open>
  The answer of the broker; the state is the one when the wait of one second ends.
\<close>

definition vm_check_answer ::
  "string \<Rightarrow> string \<Rightarrow> packet_t \<Rightarrow> vm_statics \<Rightarrow> vm_statics \<times> unit res" where
  "vm_check_answer vm_id tx p g =
     (let invalid = raise_exception vm_id ''Invalid connection response packet'' g in
      if ptype p \<noteq> respond then invalid
      else (case get_tx_id p of
         Inl e \<Rightarrow> (g, Inl e)
       | Inr t \<Rightarrow>
           if t \<noteq> tx then invalid
           else (case body p of
              None \<Rightarrow> (g, Inl (UB ''null pointer dereference''))
            | Some b \<Rightarrow>
                (case map_at_as as_bool b ''status'' of
                   Inl e \<Rightarrow> (g, Inl e)
                 | Inr (Some status) \<Rightarrow> (g, Inr ())
                 | Inr None \<Rightarrow>
                     (if \<not> map_contains b ''reason'' then invalid
                      else (case map_get as_string b ''reason'' of
                              Inl e \<Rightarrow> (g, Inl e)
                            | Inr r \<Rightarrow> raise_exception vm_id r g))))))"

definition vm_answer ::
  "codec \<Rightarrow> string \<Rightarrow> string \<Rightarrow> 'o vm_t \<Rightarrow> vm_statics \<Rightarrow> world \<Rightarrow> vm_statics \<times> ('o vm_t \<times> world) res" where
  "vm_answer C vm_id tx vm g w =
     (let (ms, sig) = monitor_wait (monitors w) (c_monitor (vm_client vm));
          missing = raise_exception vm_id ''Connection response packet not arrived'' g in
      if sig = None then missing
      else (case client_recv C (vm_client vm) False (w\<lparr>monitors := ms\<rparr>) of
              Inl e \<Rightarrow> (g, Inl e)
            | Inr (w1, None) \<Rightarrow> missing
            | Inr (w1, Some p) \<Rightarrow>
                (let (g1, r) = vm_check_answer vm_id tx p g
                 in (g1, bindR r (\<lambda>_. Inr (vm, w1))))))"

text \<open>Importing the modules. The first function is the loop over the packets of one.\<close>

fun send_all ::
  "(string \<times> msg) list \<Rightarrow> 'o vm_t \<Rightarrow> world \<Rightarrow> 'o vm_t \<times> world \<times> bool" where
  "send_all [] vm w = (vm, w, True)"
| "send_all ((tx, m) # ps) vm w =
     (let vm1 = vm\<lparr>vm_expected := insert tx (vm_expected vm)\<rparr>;
          (w1, ok) = send_bytes (vm_client vm1) (Some m) w
      in if ok then send_all ps vm1 w1 else (vm1, w1, False))"

fun vm_import ::
  "codec \<Rightarrow> (nat \<Rightarrow> string) \<Rightarrow> string \<Rightarrow> 'o module_t list \<Rightarrow> 'o vm_t \<Rightarrow> vm_statics \<Rightarrow> world \<Rightarrow>
     vm_statics \<times> ('o vm_t \<times> world) res" where
  "vm_import C uuid vm_id [] vm g w = (g, Inr (vm, w))"
| "vm_import C uuid vm_id (md # mods) vm g w =
     (case on_import_module C uuid md vm of
        Inl e \<Rightarrow> (g, Inl e)
      | Inr (vm1, msgs) \<Rightarrow>
          (let (vm2, w1, ok) = send_all msgs vm1 w in
           if ok then vm_import C uuid vm_id mods vm2 g w1
           else raise_exception vm_id ''Initialization packet send failed'' g))"

section \<open>The main loop\<close>

definition vm_respond :: "packet_t \<Rightarrow> 'o vm_t \<Rightarrow> 'o vm_t res" where
  "vm_respond p vm =
     bindR (get_tx_id p) (\<lambda>tx.
     bindR (deref (body p)) (\<lambda>b.
     bindR (map_get as_bool b ''status'') (\<lambda>status.
     bindR (if status then Inr [] else map_get as_string b ''reason'') (\<lambda>reason.
       Inr (vm\<lparr>vm_expected := vm_expected vm - {tx}\<rparr>)))))"

definition vm_handle ::
  "codec \<Rightarrow> (nat \<Rightarrow> string) \<Rightarrow> packet_t \<Rightarrow> 'o vm_t \<Rightarrow> world \<Rightarrow> ('o vm_t \<times> world) res option" where
  "vm_handle C uuid p vm w =
     (if ptype p = respond then Some (mapR_res (\<lambda>vm'. (vm', w)) (vm_respond p vm))
      else if ptype p = execute then
        (case itype p of
           None \<Rightarrow> Some (Inl (LibThrow ''bad optional access''))
         | Some it \<Rightarrow>
             (case it of
                call_function \<Rightarrow> handle_call_function C p vm w
              | define_component \<Rightarrow> Some (handle_define_component C uuid p vm w)
              | delete_component \<Rightarrow> Some (handle_delete_component C uuid p vm w)
              | call_method \<Rightarrow> handle_call_method C p vm w
              | _ \<Rightarrow> Some (Inr (vm, w))))
      else Some (Inr (vm, w)))"

text \<open>
  One turn of the loop. \<open>Vm_on\<close>: the loop goes on; \<open>Vm_off\<close>: it has been left after a
  \<open>stop\<close> signal, with the unsubscriptions sent.
\<close>

datatype 'o vm_step = Vm_on "'o vm_t" world | Vm_off "'o vm_t" world

fun send_ignoring :: "(string \<times> msg) list \<Rightarrow> 'o vm_t \<Rightarrow> world \<Rightarrow> 'o vm_t \<times> world" where
  "send_ignoring [] vm w = (vm, w)"
| "send_ignoring ((tx, m) # ps) vm w =
     send_ignoring ps (vm\<lparr>vm_expected := insert tx (vm_expected vm)\<rparr>)
       (fst (send_bytes (vm_client vm) (Some m) w))"

definition vm_turn ::
  "codec \<Rightarrow> (nat \<Rightarrow> string) \<Rightarrow> 'o vm_t \<Rightarrow> world \<Rightarrow> 'o vm_step res option" where
  "vm_turn C uuid vm w =
     (let (ms, sig) = monitor_wait (monitors w) (c_monitor (vm_client vm)); w1 = w\<lparr>monitors := ms\<rparr> in
      case sig of
        None \<Rightarrow> Some (Inr (Vm_on vm w1))
      | Some s \<Rightarrow>
          if what s = ''stop'' then
            Some (bindR (on_stop C uuid vm) (\<lambda>(vm1, msgs).
              let (vm2, w2) = send_ignoring msgs vm1 w1 in Inr (Vm_off vm2 w2)))
          else if what s = ''recv'' then
            (case client_recv C (vm_client vm) False w1 of
               Inl e \<Rightarrow> Some (Inl e)
             | Inr (w2, None) \<Rightarrow> Some (Inr (Vm_on vm w2))
             | Inr (w2, Some p) \<Rightarrow>
                 (case packet_str p of
                    Inl e \<Rightarrow> Some (Inl e)
                  | Inr _ \<Rightarrow> after (vm_handle C uuid p vm w2) (\<lambda>(vm1, w3). Vm_on vm1 w3)))
          else Some (Inr (Vm_on vm w1)))"

section \<open>Stopping\<close>

text \<open>
  The closing loop: wait for the responses that are still expected, but not through more
  than three timeouts in a row, counted by the static \<open>retry\<close>.
\<close>

datatype 'o squeeze = Squeeze "'o vm_t" vm_statics world | Squeezed "'o vm_t" vm_statics world

definition vm_squeeze ::
  "codec \<Rightarrow> 'o vm_t \<Rightarrow> vm_statics \<Rightarrow> world \<Rightarrow> 'o squeeze res" where
  "vm_squeeze C vm g w =
     (if vm_expected vm = {} then Inr (Squeezed vm g w)
      else if vm_retry g \<ge> 3 then Inr (Squeezed vm g w)
      else (let (ms, sig) = monitor_wait (monitors w) (c_monitor (vm_client vm)); w1 = w\<lparr>monitors := ms\<rparr> in
        case sig of
          None \<Rightarrow> Inr (Squeeze vm (g\<lparr>vm_retry := vm_retry g + 1\<rparr>) w1)
        | Some s \<Rightarrow>
            (let g1 = g\<lparr>vm_retry := 0\<rparr> in
             if what s = ''recv'' then
               bindR (client_recv C (vm_client vm) False w1) (\<lambda>(w2, r).
               bindR (deref r) (\<lambda>p.
               bindR (packet_str p) (\<lambda>_.
               bindR (get_tx_id p) (\<lambda>tx.
                 if ptype p \<noteq> respond then Inr (Squeeze vm g1 w2)
                 else Inr (Squeeze (vm\<lparr>vm_expected := vm_expected vm - {tx}\<rparr>) g1 w2)))))
             else Inr (Squeeze vm g1 w1))))"

definition vm_bye ::
  "codec \<Rightarrow> (nat \<Rightarrow> string) \<Rightarrow> string \<Rightarrow> 'o vm_t \<Rightarrow> vm_statics \<Rightarrow> world \<Rightarrow>
     vm_statics \<times> ('o vm_t \<times> world) res" where
  "vm_bye C uuid vm_id vm g w =
     (case client_send C (vm_client vm) (conn_packet disconnect (uuid (vm_uuids vm))) w of
        Inl e \<Rightarrow> (g, Inl e)
      | Inr (w1, sent) \<Rightarrow>
          if sent then (g, Inr (vm\<lparr>vm_uuids := Suc (vm_uuids vm)\<rparr>, w1))
          else raise_exception vm_id ''Disconnection packet send failed'' g)"

text \<open>The end: at most one more message, and the client is destroyed.\<close>

definition vm_end ::
  "codec \<Rightarrow> string \<Rightarrow> 'o vm_t \<Rightarrow> vm_statics \<Rightarrow> world \<Rightarrow> vm_statics \<times> world res" where
  "vm_end C vm_id vm g w =
     (let c = vm_client vm; (ms, sig) = monitor_wait (monitors w) (c_monitor c) in
      if sig = None then raise_exception vm_id ''Disconnection response packet not arrived'' g
      else (g, bindR (client_recv C c False (w\<lparr>monitors := ms\<rparr>)) (\<lambda>(w1, _).
        Inr ((socket_free (c_socket c) w1)\<lparr>monitors := (monitors w1)(c_monitor c := None)\<rparr>))))"

definition vm_stop :: "string \<Rightarrow> string \<Rightarrow> vm_statics \<Rightarrow> world \<Rightarrow> vm_statics \<times> world" where
  "vm_stop url name g w =
     (case map_of (vm_states g) (vm_id_of url name) of
        None \<Rightarrow> (g, w)
      | Some st \<Rightarrow>
          (let (st', ms) = stop_stop st (monitors w)
           in (g\<lparr>vm_states := put (vm_id_of url name) st' (vm_states g)\<rparr>, w\<lparr>monitors := ms\<rparr>)))"

end
