(* ===== verification/VmFacts.thy ===== *)
theory VmFacts
  imports Vm BrokerSpec
begin

text \<open>
  What the VM guarantees: its loop over an operator sends exactly the outputs of a complete
  run, numbered from 0; its tables and its subscriptions stay in step; its entry in the
  table of running VMs and its closing loop behave as described at the lemmas.
\<close>

section \<open>Running an operator\<close>

text \<open>The messages of a run, numbered from \<open>i\<close>.\<close>

fun tell_outputs ::
  "codec \<Rightarrow> client_t \<Rightarrow> string \<Rightarrow> u64 \<Rightarrow> output_t list \<Rightarrow> world \<Rightarrow> world res" where
  "tell_outputs C c tx i [] w = Inr w"
| "tell_outputs C c tx i (out # outs) w =
     bindR (tell_output C c tx i out w) (\<lambda>w'. tell_outputs C c tx (i + 1) outs w')"

lemma runs_not_Nil: "runs step s outs s' \<Longrightarrow> outs \<noteq> []"
  by (erule runs.cases) simp_all

lemma run_op_runs:
  "runs step s outs s' \<Longrightarrow> tell_outputs C c tx i outs w = Inr w' \<Longrightarrow>
     run_op C c tx step i s w = Some (Inr (s', w'))"
proof (induction arbitrary: i w rule: runs.induct)
  case (last s s' out)
  then show ?case by (subst run_op.simps) (simp add: bindR_eq_Inr)
next
  case (more s s1 out outs s')
  then show ?case by (subst run_op.simps) (auto simp: bindR_eq_Inr)
qed

lemma run_op_complete:
  assumes "run_op C c tx step i s w = Some r" and "r = Inr (s', w')"
  shows "\<exists>outs. runs step s outs s' \<and> tell_outputs C c tx i outs w = Inr w'"
  using assms
proof (induction arbitrary: s' w' rule: run_op.raw_induct [rotated, consumes 1, case_names 1])
  case (1 run C c tx step i s w r)
  obtain s1 out where st: "step s = Inr (s1, out)"
    using "1.prems" "1.hyps" by (cases "step s") auto
  obtain w1 where w1: "tell_output C c tx i out w = Inr w1"
    using "1.prems" "1.hyps" st by (cases "tell_output C c tx i out w") auto
  show ?case
  proof (cases "is_last out")
    case True
    then have "s' = s1" "w' = w1" using "1.hyps" "1.prems" st w1 by auto
    with True st w1 show ?thesis by (auto intro!: exI [of _ "[out]"] runs.last)
  next
    case False
    then have "run C c tx step (i + 1) s1 w1 = Some r" using "1.hyps" st w1 by simp
    from "1.IH" [OF this "1.prems"] obtain outs where
      "runs step s1 outs s'" "tell_outputs C c tx (i + 1) outs w1 = Inr w'" by blast
    with False st w1 show ?thesis by (auto intro!: exI [of _ "out # outs"] runs.more)
  qed
qed

text \<open>An operator that never finishes: the loop does not return.\<close>

lemma run_op_diverges:
  assumes inv: "s \<in> S" and go: "\<And>s. s \<in> S \<Longrightarrow> \<exists>s1 out. step s = Inr (s1, out) \<and> \<not> is_last out \<and> s1 \<in> S"
    and ok: "\<And>s s1 out i w. s \<in> S \<Longrightarrow> step s = Inr (s1, out) \<Longrightarrow> \<exists>w'. tell_output C c tx i out w = Inr w'"
  shows "run_op C c tx step i s w = None"
proof (rule ccontr)
  assume "run_op C c tx step i s w \<noteq> None"
  then obtain r where "run_op C c tx step i s w = Some r" by blast
  then have "s \<notin> S \<or> \<not> (\<forall>s \<in> S. (\<exists>s1 out. step s = Inr (s1, out) \<and> \<not> is_last out \<and> s1 \<in> S) \<and>
      (\<forall>s1 out i w. step s = Inr (s1, out) \<longrightarrow> (\<exists>w'. tell_output C c tx i out w = Inr w')))"
  proof (induction rule: run_op.raw_induct [rotated, consumes 1, case_names 1])
    case (1 run C c tx step i s w r)
    show ?case
    proof (rule ccontr)
      assume neg: "\<not> ?case"
      then obtain s1 out w1 where st: "step s = Inr (s1, out)" "\<not> is_last out" "s1 \<in> S"
        and w1: "tell_output C c tx i out w = Inr w1"
        by blast
      then have "run C c tx step (i + 1) s1 w1 = Some r" using "1.hyps" by simp
      from "1.IH" [OF this] neg st(3) show False by blast
    qed
  qed
  with inv go ok show False by blast
qed

text \<open>Calling a function that is there.\<close>

lemma handle_call_function_run:
  assumes "headers p = Some [String_t tx, String_t opname]" and "body p = Some b"
    and "map_of b ''in'' = Some v" and "map_of (vm_operators vm) opname = Some op"
    and "op_initialize op (Some v) = Inr (op1, None)"
    and "runs op_step op1 outs op2" and "tell_outputs C (vm_client vm) tx 0 outs w = Inr w'"
  shows "handle_call_function C p vm w =
    Some (Inr (vm\<lparr>vm_operators := put opname op2 (vm_operators vm)\<rparr>, w'))"
  using assms run_op_runs [OF assms(6,7)]
  by (simp add: handle_call_function_def array_get_nth map_at_def after_def)

section \<open>Subscriptions and tables\<close>

definition comp_chans :: "string \<Rightarrow> 'o component_t \<Rightarrow> chan set" where
  "comp_chans cname co = insert (Del cname) (Meth cname ` fst ` set (ops co))"

definition vm_chans :: "'o vm_t \<Rightarrow> chan set" where
  "vm_chans vm =
     Fn ` fst ` set (vm_operators vm) \<union> Def ` fst ` set (vm_factories vm) \<union>
     (\<Union>(cname, co) \<in> set (vm_components vm). comp_chans cname co)"

text \<open>What a list of packets does to the channels that their sender owns.\<close>

definition apply_packet :: "string \<times> packet_t \<Rightarrow> chan set \<Rightarrow> chan set" where
  "apply_packet e X =
     (case chan_of (snd e) of
        None \<Rightarrow> X
      | Some c \<Rightarrow> if ptype (snd e) = subscribe then insert c X
                  else if ptype (snd e) = unsubscribe then X - {c} else X)"

definition apply_packets :: "(string \<times> packet_t) list \<Rightarrow> chan set \<Rightarrow> chan set" where
  "apply_packets ps X = fold apply_packet ps X"

lemma apply_packets_simps [simp]:
  "apply_packets [] X = X"
  "apply_packets (e # ps) X = apply_packets ps (apply_packet e X)"
  "apply_packets (ps @ qs) X = apply_packets qs (apply_packets ps X)"
  by (simp_all add: apply_packets_def)

lemma builder_chan_of [simp]:
  "chan_of (call_function_packet pt tx a inp) = Some (Fn a)"
  "chan_of (define_component_packet pt tx a c inp) = Some (Def a)"
  "chan_of (delete_component_packet pt tx a) = Some (Del a)"
  "chan_of (call_method_packet pt tx a b inp) = Some (Meth a b)"
  by (simp_all add: chan_of_def channel_args_def builder_defs array_get_nth)

lemma builder_ptype [simp]:
  "ptype (call_function_packet pt tx a inp) = pt"
  "ptype (define_component_packet pt tx a c inp) = pt"
  "ptype (delete_component_packet pt tx a) = pt"
  "ptype (call_method_packet pt tx a b inp) = pt"
  by (simp_all add: builder_defs)

lemma apply_subscribes:
  assumes "\<And>tx n. chan_of (mk tx n) = Some (f n)" and "\<And>tx n. ptype (mk tx n) = subscribe"
  shows "apply_packets (named_packets uuid mk ns i) X = X \<union> f ` set ns"
  by (induction ns arbitrary: i X) (auto simp: apply_packet_def assms)

lemma apply_unsubscribes:
  assumes "\<And>tx n. chan_of (mk tx n) = Some (f n)" and "\<And>tx n. ptype (mk tx n) = unsubscribe"
  shows "apply_packets (named_packets uuid mk ns i) X = X - f ` set ns"
  by (induction ns arbitrary: i X) (auto simp: apply_packet_def assms)

lemma apply_import:
  "apply_packets (import_packets uuid md i) X =
     X \<union> Fn ` fst ` set (mod_ops md) \<union> Def ` fst ` set (mod_factories md)"
  by (simp add: import_packets_def apply_subscribes [where f = Fn] apply_subscribes [where f = Def])

lemma apply_component_packets:
  "apply_packets (component_packets uuid cs i) X =
     X - (\<Union>(cname, co) \<in> set cs. comp_chans cname co)"
proof (induction cs arbitrary: i X)
  case Nil
  then show ?case by simp
next
  case (Cons e cs)
  obtain cname co where e: "e = (cname, co)" by fastforce
  show ?case
    by (simp add: e Cons apply_unsubscribes [where f = "Meth cname"] apply_packet_def comp_chans_def)
      blast
qed

lemma apply_stop: "apply_packets (stop_packets uuid vm) (vm_chans vm) = {}"
  by (simp add: stop_packets_def apply_unsubscribes [where f = Fn] apply_unsubscribes [where f = Def]
      apply_component_packets vm_chans_def Let_def) blast

lemma apply_define:
  "apply_packets (define_packets uuid cname co i) X = X \<union> comp_chans cname co"
  by (simp add: define_packets_def apply_subscribes [where f = "Meth cname"] apply_packet_def
      comp_chans_def)

lemma apply_delete:
  "apply_packets (delete_packets uuid cname co i) X = X - comp_chans cname co"
  by (simp add: delete_packets_def apply_unsubscribes [where f = "Meth cname"] apply_packet_def
      comp_chans_def Let_def) blast

lemma keys_put_new_all:
  "fst ` set (fold (\<lambda>e. put_new (fst e) (snd e)) es m) = fst ` set m \<union> fst ` set es"
proof (induction es arbitrary: m)
  case (Cons e es)
  have "fst ` set (put_new (fst e) (snd e) m) = insert (fst e) (fst ` set m)"
    by (auto simp: put_new_def map_of_eq_None_iff)
  with Cons show ?case by auto
qed simp

lemma import_chans:
  assumes "on_import_module C uuid md vm = Inr (vm', msgs)"
  shows "vm_chans vm' = apply_packets (import_packets uuid md (vm_uuids vm)) (vm_chans vm)"
proof -
  have "fst ` set (vm_operators vm') = fst ` set (vm_operators vm) \<union> fst ` set (mod_ops md)"
    and "fst ` set (vm_factories vm') = fst ` set (vm_factories vm) \<union> fst ` set (mod_factories md)"
    and "vm_components vm' = vm_components vm"
    using assms unfolding on_import_module_def Let_def bindR_eq_Inr
    by (clarsimp simp: keys_put_new_all)+
  then show ?thesis
    unfolding vm_chans_def apply_import by (simp add: image_Un Un_ac)
qed

lemma tell_expecting_tables:
  "tell_expecting C ps vm w = Inr (vm', w') \<Longrightarrow>
     vm_operators vm' = vm_operators vm \<and> vm_factories vm' = vm_factories vm \<and>
     vm_components vm' = vm_components vm \<and> vm_client vm' = vm_client vm \<and>
     vm_expected vm' = vm_expected vm \<union> fst ` set ps"
proof (induction ps arbitrary: vm w)
  case (Cons e ps)
  obtain tx p where "e = (tx, p)" by fastforce
  with Cons.prems obtain w1 where
    "tell_expecting C ps (vm\<lparr>vm_expected := insert tx (vm_expected vm), vm_uuids := Suc (vm_uuids vm)\<rparr>) w1
      = Inr (vm', w')"
    by (auto simp: bindR_eq_Inr)
  from Cons.IH [OF this] \<open>e = (tx, p)\<close> show ?case by simp
qed simp

lemma components_put:
  assumes "map_of m cname = None"
  shows "(\<Union>(n, co) \<in> set (put cname c m). comp_chans n co) =
    (\<Union>(n, co) \<in> set m. comp_chans n co) \<union> comp_chans cname c"
  using assms by (induction m) (auto split: if_splits)

lemma components_del:
  assumes "dict_ok m" and "map_of m cname = Some c"
  shows "(\<Union>(n, co) \<in> set (del cname m). comp_chans n co) =
    (\<Union>(n, co) \<in> set m. comp_chans n co) - comp_chans cname c"
proof -
  have mem: "(cname, co) \<in> set m \<longleftrightarrow> co = c" for co
    using assms by (metis dict_ok_distinct map_of_eq_Some_iff option.inject)
  have "comp_chans n co \<inter> comp_chans cname c = {}" if "n \<noteq> cname" for n co
    using that by (auto simp: comp_chans_def)
  then show ?thesis
    using mem by (fastforce simp: set_del)
qed

text \<open>The two handlers that change the components, when they go through.\<close>

lemma define_success:
  assumes "headers p = Some [String_t tx, String_t ty]" and "body p = Some b"
    and "map_of b ''name'' = Some (String_t cname)" and "map_of b ''in'' = Some v"
    and "map_of (vm_factories vm) ty = Some f" and "map_of (vm_factories vm) cname = None"
    and "f (Some v) = Inr (Got c)"
  shows "handle_define_component C uuid p vm w =
    bindR (tell_expecting C (define_packets uuid cname c (vm_uuids vm)) vm w) (\<lambda>(vm1, w1).
    bindR (tell C (vm_client vm1) (respond_execute_ok_packet tx 0 True (Map_t [])) w1)
      (\<lambda>w2. Inr (vm1\<lparr>vm_components := put cname c (vm_components vm1)\<rparr>, w2)))"
proof -
  have "map_get as_string b ''name'' = Inr cname"
    using assms(3) by (simp add: map_get_eq_Inr)
  then show ?thesis
    using assms by (simp add: handle_define_component_def array_get_nth map_at_def)
qed

lemma delete_success:
  assumes "headers p = Some [String_t tx, String_t cname]"
    and "map_of (vm_components vm) cname = Some c"
  shows "handle_delete_component C uuid p vm w =
    bindR (tell_expecting C (delete_packets uuid cname c (vm_uuids vm))
      (vm\<lparr>vm_components := del cname (vm_components vm)\<rparr>) w) (\<lambda>(vm1, w1).
    bindR (tell C (vm_client vm1) (respond_execute_ok_packet tx 0 True (Map_t [])) w1)
      (\<lambda>w2. Inr (vm1, w2)))"
  using assms by (simp add: handle_delete_component_def array_get_nth)

lemma define_chans:
  assumes "tell_expecting C (define_packets uuid cname c (vm_uuids vm)) vm w = Inr (vm1, w1)"
    and "map_of (vm_components vm) cname = None"
  shows "vm_chans (vm1\<lparr>vm_components := put cname c (vm_components vm1)\<rparr>) =
    apply_packets (define_packets uuid cname c (vm_uuids vm)) (vm_chans vm)"
proof -
  have t: "vm_operators vm1 = vm_operators vm" "vm_factories vm1 = vm_factories vm"
    "vm_components vm1 = vm_components vm"
    using tell_expecting_tables [OF assms(1)] by simp_all
  show ?thesis
    unfolding apply_define vm_chans_def by (simp add: t components_put [OF assms(2)] Un_ac)
qed

lemma delete_chans:
  assumes "tell_expecting C (delete_packets uuid cname c (vm_uuids vm))
      (vm\<lparr>vm_components := del cname (vm_components vm)\<rparr>) w = Inr (vm1, w1)"
    and "dict_ok (vm_components vm)" and "map_of (vm_components vm) cname = Some c"
  shows "vm_chans vm1 = apply_packets (delete_packets uuid cname c (vm_uuids vm)) (vm_chans vm)"
proof -
  have t: "vm_operators vm1 = vm_operators vm" "vm_factories vm1 = vm_factories vm"
    "vm_components vm1 = del cname (vm_components vm)"
    using tell_expecting_tables [OF assms(1)] by simp_all
  have "Fn n \<notin> comp_chans cname c" "Def n \<notin> comp_chans cname c" for n
    by (auto simp: comp_chans_def)
  then show ?thesis
    unfolding apply_delete vm_chans_def t components_del [OF assms(2,3)] by blast
qed

section \<open>The packets that are sent\<close>

text \<open>
  What \<open>tell_expecting\<close> puts on the wire: the packets of the list, in order, at the end of
  the peer's mailbox, if there is room for them.
\<close>

lemma tell_peered:
  assumes "peered (c_socket c) p w" "tell C c pkt w = Inr w'" "length (box p w) < mailbox_limit"
  obtains bs where "dump_packet C pkt = Inr bs" "box p w' = box p w @ [bs]" "peered (c_socket c) p w'"
proof -
  obtain bs where bs: "dump_packet C pkt = Inr bs" and w': "w' = fst (send (c_socket c) bs w)"
    using assms(2) by (auto simp: tell_def client_send_def send_bytes_def bindR_eq_Inr)
  show ?thesis
    by (rule that [OF bs]) (simp_all add: w' send_peered [OF assms(1)] assms(1,3))
qed

lemma dump_all_simps [simp]:
  "dump_all C [] = Inr []"
  "dump_all C ((tx, p) # ps) =
     bindR (dump_packet C p) (\<lambda>bs. bindR (dump_all C ps) (\<lambda>ms. Inr ((tx, bs) # ms)))"
  by (cases "dump_packet C p", simp_all add: dump_all_def)+

lemma tell_expecting_peered:
  assumes "peered (c_socket (vm_client vm)) p w" "tell_expecting C ps vm w = Inr (vm', w')"
    and "length (box p w) + length ps \<le> mailbox_limit"
  shows "\<exists>msgs. dump_all C ps = Inr msgs \<and> box p w' = box p w @ map snd msgs \<and>
    peered (c_socket (vm_client vm)) p w'"
  using assms
proof (induction ps arbitrary: vm w)
  case Nil
  then show ?case by simp
next
  case (Cons e ps)
  obtain tx pkt where e: "e = (tx, pkt)" by fastforce
  let ?vm = "vm\<lparr>vm_expected := insert tx (vm_expected vm), vm_uuids := Suc (vm_uuids vm)\<rparr>"
  obtain w1 where w1: "tell C (vm_client vm) pkt w = Inr w1" "tell_expecting C ps ?vm w1 = Inr (vm', w')"
    using Cons.prems(2) e by (auto simp: bindR_eq_Inr)
  obtain bs where bs: "dump_packet C pkt = Inr bs" "box p w1 = box p w @ [bs]"
    "peered (c_socket (vm_client vm)) p w1"
    using tell_peered [OF Cons.prems(1) w1(1)] Cons.prems(3) by auto
  have "\<exists>msgs. dump_all C ps = Inr msgs \<and> box p w' = box p w1 @ map snd msgs \<and>
      peered (c_socket (vm_client ?vm)) p w'"
    by (rule Cons.IH) (use bs w1(2) Cons.prems(3) in auto)
  then show ?case using e bs by auto
qed

lemma tell_ok: "packet_ok p \<Longrightarrow> \<exists>w'. tell C c p w = Inr w'"
  using dump_packet_ok [of p C] by (simp add: tell_def client_send_def)

lemma tell_expecting_ok:
  "\<forall>e \<in> set ps. packet_ok (snd e) \<Longrightarrow> \<exists>vm' w'. tell_expecting C ps vm w = Inr (vm', w')"
proof (induction ps arbitrary: vm w)
  case (Cons e ps)
  obtain tx p where e: "e = (tx, p)" by fastforce
  with Cons.prems tell_ok [of p C "vm_client vm" w] obtain w1 where
    "tell C (vm_client vm) p w = Inr w1" by auto
  with Cons e show ?case by simp
qed simp

lemma builder_ok [simp]:
  "known_ptype pt \<Longrightarrow> has_itype pt \<Longrightarrow> packet_ok (call_function_packet pt tx a None)"
  "known_ptype pt \<Longrightarrow> has_itype pt \<Longrightarrow> packet_ok (delete_component_packet pt tx a)"
  "known_ptype pt \<Longrightarrow> has_itype pt \<Longrightarrow> packet_ok (call_method_packet pt tx a b None)"
  "val_ok v \<Longrightarrow> packet_ok (respond_execute_ok_packet tx i fin v)"
  "packet_ok (respond_execute_err_packet tx i r)"
  by (simp_all add: packet_ok_def builder_defs in_body_def has_itype_def dict_ok_def)

lemma length_named_packets [simp]: "length (named_packets uuid mk ns i) = length ns"
  by (induction ns arbitrary: i) auto

lemma length_define_delete [simp]:
  "length (define_packets uuid cname co i) = Suc (length (ops co))"
  "length (delete_packets uuid cname co i) = Suc (length (ops co))"
  by (simp_all add: define_packets_def delete_packets_def Let_def)

text \<open>A handler's two steps together: the packets of the list, then the answer.\<close>

lemma tell_all_then_answer:
  assumes run: "bindR (tell_expecting C ps vm w) (\<lambda>(vm1, w1).
      bindR (tell C (vm_client vm1) ans w1) (\<lambda>w2. Inr (f vm1, w2))) = Inr (vm', w')"
    and link: "peered (c_socket (vm_client vm)) s w" "length (box s w) + length ps < mailbox_limit"
  obtains vm1 w1 msgs bs where "tell_expecting C ps vm w = Inr (vm1, w1)" "vm' = f vm1"
    "dump_all C ps = Inr msgs" "dump_packet C ans = Inr bs"
    "box s w' = box s w @ map snd msgs @ [bs]"
proof -
  obtain vm1 w1 where te: "tell_expecting C ps vm w = Inr (vm1, w1)"
    and an: "tell C (vm_client vm1) ans w1 = Inr w'" "vm' = f vm1"
    using run by (auto simp: bindR_eq_Inr)
  obtain msgs where m: "dump_all C ps = Inr msgs" "box s w1 = box s w @ map snd msgs"
    "peered (c_socket (vm_client vm)) s w1"
    using tell_expecting_peered [OF link(1) te] link(2) by auto
  have "length msgs = length ps"
    using m(1) by (induction ps arbitrary: msgs) (auto simp: bindR_eq_Inr)
  then have room: "length (box s w1) < mailbox_limit" using m(2) link(2) by simp
  have "tell C (vm_client vm) ans w1 = Inr w'" using an(1) tell_expecting_tables [OF te] by simp
  from tell_peered [OF m(3) this room] obtain bs where
    "dump_packet C ans = Inr bs" "box s w' = box s w1 @ [bs]" by metis
  with that [OF te an(2) m(1)] m(2) show ?thesis by auto
qed

section \<open>The closing loop\<close>

text \<open>Turns of the loop in which nothing arrives.\<close>

fun squeeze_turns :: "nat \<Rightarrow> codec \<Rightarrow> 'o vm_t \<Rightarrow> vm_statics \<Rightarrow> world \<Rightarrow> 'o squeeze res" where
  "squeeze_turns 0 C vm g w = Inr (Squeeze vm g w)"
| "squeeze_turns (Suc n) C vm g w =
     bindR (vm_squeeze C vm g w) (\<lambda>r. case r of
       Squeezed vm1 g1 w1 \<Rightarrow> Inr (Squeezed vm1 g1 w1)
     | Squeeze vm1 g1 w1 \<Rightarrow> squeeze_turns n C vm1 g1 w1)"

lemma squeeze_quiet:
  assumes "snd (monitor_wait (monitors w) (c_monitor (vm_client vm))) = None"
    and "vm_expected vm \<noteq> {}" and "vm_retry g < 3"
  shows "vm_squeeze C vm g w = Inr (Squeeze vm (g\<lparr>vm_retry := vm_retry g + 1\<rparr>) w)"
proof -
  have "monitor_wait (monitors w) (c_monitor (vm_client vm)) = (monitors w, None)"
    using assms(1) by (auto simp: monitor_wait_def split: option.splits list.splits)
  with assms(2,3) show ?thesis by (simp add: vm_squeeze_def not_le)
qed

lemma squeeze_out:
  "vm_expected vm = {} \<or> vm_retry g \<ge> 3 \<Longrightarrow> vm_squeeze C vm g w = Inr (Squeezed vm g w)"
  by (auto simp: vm_squeeze_def)

lemma quiet_squeeze_ends:
  assumes q: "snd (monitor_wait (monitors w) (c_monitor (vm_client vm))) = None"
  shows "\<exists>g'. squeeze_turns 4 C vm g w = Inr (Squeezed vm g' w) \<and> (vm_expected vm = {} \<or> vm_retry g' \<ge> 3)"
proof -
  have small: "vm_retry g = 0 \<or> vm_retry g = 1 \<or> vm_retry g = 2 \<or> vm_retry g \<ge> 3" for g
    unfolding word_unat_eq_iff word_le_nat_alt by (simp; linarith)
  have more: "squeeze_turns (Suc n) C vm g w = squeeze_turns n C vm (g\<lparr>vm_retry := vm_retry g + 1\<rparr>) w"
    if "vm_expected vm \<noteq> {}" "vm_retry g < 3" for n g
    by (simp add: squeeze_quiet [OF q that])
  have out: "squeeze_turns (Suc n) C vm g w = Inr (Squeezed vm g w)"
    if "vm_expected vm = {} \<or> vm_retry g \<ge> 3" for n g
    by (simp add: squeeze_out [OF that])
  have four: "(4::nat) = Suc (Suc (Suc (Suc 0)))" by simp
  show ?thesis
  proof (cases "vm_expected vm = {} \<or> vm_retry g \<ge> 3")
    case True
    then show ?thesis unfolding four out [OF True] by blast
  next
    case False
    then have "vm_expected vm \<noteq> {}" by blast
    with False small [of g] show ?thesis
      unfolding four by (elim disjE) (simp_all add: more out del: squeeze_turns.simps)
  qed
qed

section \<open>The table of running VMs\<close>

lemma raise_frees: "map_of (vm_states (fst (raise_exception vm_id r g))) vm_id = None"
  by (simp add: raise_exception_def)

lemma hello_registers:
  assumes "vm_hello C uuid vm_id c ok i g w = (g', Inr (vm, w'))"
  shows "map_of (vm_states g') vm_id \<noteq> None"
  using assms
  by (auto simp: vm_hello_def Let_def raise_exception_def split: sum.splits prod.splits if_splits)

lemma hello_sent:
  assumes "client_dialed c ok w = Inr (c1, w1)"
    and "\<And>k. \<exists>w3. client_send C c1 (conn_packet connect (uuid i)) (w1\<lparr>next_id := k\<rparr>) = Inr (w3, True)"
  shows "\<exists>g' w'. vm_hello C uuid vm_id c ok i g w =
    (g', Inr (\<lparr>vm_client = c1, vm_factories = [], vm_components = [], vm_operators = [],
               vm_expected = {}, vm_uuids = Suc i\<rparr>, w'))"
proof -
  obtain x j where n: "notify_new (next_id w1) = (x, j)" by fastforce
  obtain st k where s: "stop_new j = (st, k)" by fastforce
  obtain w3 where "client_send C c1 (conn_packet connect (uuid i)) (w1\<lparr>next_id := k\<rparr>) = Inr (w3, True)"
    using assms(2) by blast
  then show ?thesis
    unfolding vm_hello_def assms(1) sum.case prod.case Let_def n s by (simp add: prod.case_eq_if)
qed

lemma bye_keeps: "vm_bye C uuid vm_id vm g w = (g', Inr r) \<Longrightarrow> g' = g"
  by (auto simp: vm_bye_def raise_exception_def split: sum.splits if_splits)

lemma end_keeps: "vm_end C vm_id vm g w = (g', Inr r) \<Longrightarrow> g' = g"
  by (auto simp: vm_end_def raise_exception_def Let_def split: prod.splits if_splits)

end
