(* ===== verification/Routing.thy ===== *)
theory Routing
  imports BrokerSystem VmFacts
begin

text \<open>
  A call on its way: from a client through the broker to the VM that has the function, and
  the result back again. The four sockets are the ends of two links, one from the client to
  the broker and one from the broker to the VM.
\<close>

section \<open>The broker's part\<close>

text \<open>What stays in place when the broker drops references.\<close>

definition held :: "broker_t \<Rightarrow> broker_t \<Rightarrow> addr \<Rightarrow> bool" where
  "held b b' a \<longleftrightarrow> a \<in> set (b_refs b') \<or> a \<notin> set (b_refs b)"

lemma held_release:
  assumes "held b b' a"
  shows "sockets (release b b' w) a = sockets w a" and "box a (release b b' w) = box a w"
  using release_frame(1) [OF assms [unfolded held_def], of w] by (simp_all add: box_def)

lemma peered_release:
  "held b b' a \<Longrightarrow> held b b' p \<Longrightarrow> peered a p (release b b' w) \<longleftrightarrow> peered a p w"
  by (simp add: peered_def held_release)

lemma registered_held: "map_of (b_sockets b') n = Some a \<Longrightarrow> held b b' a"
  by (simp add: held_def in_refs)

lemma broker_recv_packet:
  assumes "box a w = m # q" and "load_packet C m True = Inr p" and "get_tx_id p = Inr tx"
    and "packet_str p = Inr str" and "broker_handle C b a m p tx (fst (recv a w)) = Inr (b', w')"
  shows "broker_recv C b a w = Inr (b', release b b' w')"
proof -
  obtain w1 where "recv a w = (w1, Some m)"
    using recv_simps(1) [of a w] assms(1) by (metis list.simps(5) prod.collapse)
  with assms show ?thesis by (simp add: broker_recv_def)
qed

lemma broker_relays_call:
  assumes m: "box a w = m # q" "load_packet C m True = Inr p" "get_tx_id p = Inr tx"
      "packet_str p = Inr str"
    and call: "ptype p = execute" "get_channel p = Inr ch"
    and sub: "map_of (b_subs b) ch = Some s" and link: "peered s v w" "v \<noteq> a"
    and room: "length (box v w) < mailbox_limit"
    and b': "b' = b\<lparr>b_txs := put tx a (b_txs b)\<rparr>" and hv: "held b b' v"
  obtains w' where "broker_recv C b a w = Inr (b', w')" "box v w' = box v w @ [m]"
    "\<And>c d. held b b' c \<Longrightarrow> held b b' d \<Longrightarrow> peered c d w' = peered c d w"
    "\<And>c. held b b' c \<Longrightarrow> c \<noteq> v \<Longrightarrow> c \<noteq> a \<Longrightarrow> box c w' = box c w"
    "held b b' a \<Longrightarrow> box a w' = q"
proof -
  let ?w1 = "fst (recv a w)"
  let ?w2 = "fst (send s m ?w1)"
  have link1: "peered s v ?w1" using link(1) by (simp add: recv_simps)
  have room1: "length (box v ?w1) < mailbox_limit" using room link(2) by (simp add: recv_simps)
  have h: "broker_handle C b a m p tx ?w1 = Inr (b', ?w2)"
    using call sub by (simp add: broker_handle_def handle_execute_def b')
  show ?thesis
  proof (rule that [OF broker_recv_packet [OF m h]])
    show "box v (release b b' ?w2) = box v w @ [m]"
      using send_peered(2) [OF link1, of v m] room1 link(2) by (simp add: held_release [OF hv] recv_simps)
    show "peered c d (release b b' ?w2) = peered c d w" if "held b b' c" "held b b' d" for c d
      using send_peered(3) [OF link1] by (simp add: peered_release [OF that] recv_simps)
    show "box c (release b b' ?w2) = box c w" if "held b b' c" "c \<noteq> v" "c \<noteq> a" for c
      using send_peered(2) [OF link1, of c m] that by (simp add: held_release recv_simps)
    show "box a (release b b' ?w2) = q" if "held b b' a"
      using send_peered(2) [OF link1, of a m] that link(2) m(1) by (simp add: held_release recv_simps)
  qed
qed

lemma broker_relays_result:
  assumes m: "box s w = m # q" "load_packet C m True = Inr p" "get_tx_id p = Inr tx"
      "packet_str p = Inr str"
    and res: "ptype p = respond_execute" "headers p = Some h" "array_get as_bool h 2 = Inr fin"
    and tx: "map_of (b_txs b) tx = Some a" and link: "peered a k w" "k \<noteq> s"
    and room: "length (box k w) < mailbox_limit"
    and b': "b' = (if fin then b\<lparr>b_txs := del tx (b_txs b)\<rparr> else b)" and hk: "held b b' k"
  obtains w' where "broker_recv C b s w = Inr (b', w')" "box k w' = box k w @ [m]"
    "\<And>c d. held b b' c \<Longrightarrow> held b b' d \<Longrightarrow> peered c d w' = peered c d w"
proof -
  let ?w1 = "fst (recv s w)"
  let ?w2 = "fst (send a m ?w1)"
  have link1: "peered a k ?w1" using link(1) by (simp add: recv_simps)
  have room1: "length (box k ?w1) < mailbox_limit" using room link(2) by (simp add: recv_simps)
  have h: "broker_handle C b s m p tx ?w1 = Inr (b', ?w2)"
    using res tx by (simp add: broker_handle_def handle_respond_execute_def b' Let_def)
  show ?thesis
  proof (rule that [OF broker_recv_packet [OF m h]])
    show "box k (release b b' ?w2) = box k w @ [m]"
      using send_peered(2) [OF link1, of k m] room1 link(2) by (simp add: held_release [OF hk] recv_simps)
    show "peered c d (release b b' ?w2) = peered c d w" if "held b b' c" "held b b' d" for c d
      using send_peered(3) [OF link1] by (simp add: peered_release [OF that] recv_simps)
  qed
qed

section \<open>There and back\<close>

lemma dumped:
  assumes "packet_ok p" "packet_fits C p" "packet_faithful C p"
  obtains bs where "dump_packet C p = Inr bs" "\<And>skip. load_packet C bs skip = Inr (wire_packet skip p)"
proof -
  obtain bs where bs: "dump_packet C p = Inr bs" using dump_packet_ok [OF assms(1)] by blast
  moreover have "load_packet C bs skip = Inr (wire_packet skip p)" for skip
    using load_dump_packet [OF assms, of skip] bs by simp
  ultimately show ?thesis using that by blast
qed

lemma client_send_empty:
  assumes "peered (c_socket c) p w" "box p w = []" "dump_packet C pkt = Inr bs"
  obtains w' where "client_send C c pkt w = Inr (w', True)" "w' = fst (send (c_socket c) bs w)"
    "box p w' = [bs]" "\<And>d. d \<noteq> p \<Longrightarrow> box d w' = box d w" "\<And>d e. peered d e w' = peered d e w"
  using send_peered(1-3) [OF assms(1), where m = bs] assms(2,3)
  by (intro that [of "fst (send (c_socket c) bs w)"])
    (auto simp: client_send_def send_bytes_def mailbox_limit_def prod_eq_iff)

lemma client_recv_one:
  assumes "box (c_socket c) w = bs # q" "load_packet C bs skip = Inr p"
  obtains w' where "client_recv C c skip w = Inr (w', Some p)" "w' = fst (recv (c_socket c) w)"
proof -
  obtain w' where "recv (c_socket c) w = (w', Some bs)"
    using recv_simps(1) [of "c_socket c" w] assms(1) by (metis list.simps(5) prod.collapse)
  with assms(2) show ?thesis
    by (intro that [of w']) (simp_all add: client_recv_def)
qed

lemma call_strings [simp]:
  "packet_str (wire_packet skip (call_function_packet execute tx f inp)) =
     Inr (tx @ '' execute call_function'')"
  by (simp add: packet_str_def wire_packet_def builder_defs get_tx_id_def array_get_eq_Inr
      array_get_nth)

lemma result_strings [simp]:
  "packet_str (wire_packet skip (respond_execute_ok_packet tx i fin y)) =
     Inr (tx @ '' respond_execute idx '' @ show_u64 i @ '' fin '' @ show_bool fin)"
proof -
  have "array_get as_uint [String_t tx, Uint_t i, Bool_t fin] 1 = Inr i"
    "array_get as_bool [String_t tx, Uint_t i, Bool_t fin] 2 = Inr fin"
    "array_get as_string [String_t tx, Uint_t i, Bool_t fin] 0 = Inr tx"
    by (simp_all add: array_get_eq_Inr)
  then show ?thesis
    by (simp add: packet_str_def wire_packet_def builder_defs get_tx_id_def)
qed

lemma call_goes_to_vm:
  assumes inv: "broker_inv b w" and reg: "map_of (b_sockets b) na = Some a" "map_of (b_sockets b) ns = Some s"
    and sub: "map_of (b_subs b) (''0/'' @ f) = Some s"
    and links: "peered (c_socket kc) a w" "peered s v w" "v \<noteq> a" "v \<notin> set (b_refs b)"
    and boxes: "box a w = []" "box v w = []"
    and pkt: "packet_ok (call_function_packet execute tx f (Some x))"
      "packet_fits C (call_function_packet execute tx f (Some x))"
      "packet_faithful C (call_function_packet execute tx f (Some x))"
  obtains w1 w2 bs where
    "client_send C kc (call_function_packet execute tx f (Some x)) w = Inr (w1, True)"
    "broker_recv C b a w1 = Inr (b\<lparr>b_txs := put tx a (b_txs b)\<rparr>, w2)"
    "box v w2 = [bs]" "load_packet C bs False = Inr (wire_packet False (call_function_packet execute tx f (Some x)))"
    "\<forall>c d. held b (b\<lparr>b_txs := put tx a (b_txs b)\<rparr>) c \<longrightarrow>
      held b (b\<lparr>b_txs := put tx a (b_txs b)\<rparr>) d \<longrightarrow> peered c d w2 = peered c d w"
    "\<forall>c. held b (b\<lparr>b_txs := put tx a (b_txs b)\<rparr>) c \<longrightarrow> c \<noteq> v \<longrightarrow> c \<noteq> a \<longrightarrow> box c w2 = box c w"
proof -
  let ?p = "call_function_packet execute tx f (Some x)" and ?b = "b\<lparr>b_txs := put tx a (b_txs b)\<rparr>"
  obtain bs where bs: "dump_packet C ?p = Inr bs" "\<And>skip. load_packet C bs skip = Inr (wire_packet skip ?p)"
    using dumped [OF pkt] by metis
  obtain w1 where w1: "client_send C kc ?p w = Inr (w1, True)" "box a w1 = [bs]"
    "\<And>d. d \<noteq> a \<Longrightarrow> box d w1 = box d w" "\<And>d e. peered d e w1 = peered d e w"
    using client_send_empty [OF links(1) boxes(1) bs(1)] by metis
  have tx: "get_tx_id (wire_packet True ?p) = Inr tx"
    and ch: "get_channel (wire_packet True ?p) = Inr (''0/'' @ f)"
    by (simp_all add: tx_id_wire channel_wire)
  have pt: "ptype (wire_packet True ?p) = execute" by (simp add: wire_packet_def)
  have hv: "held b ?b v" using links(4) by (simp add: held_def)
  have room: "length (box v w1) < mailbox_limit"
    using w1(3) [OF links(3)] boxes(2) by (simp add: mailbox_limit_def)
  obtain w2 where w2: "broker_recv C b a w1 = Inr (?b, w2)" "box v w2 = box v w1 @ [bs]"
    "\<And>c d. held b ?b c \<Longrightarrow> held b ?b d \<Longrightarrow> peered c d w2 = peered c d w1"
    "\<And>c. held b ?b c \<Longrightarrow> c \<noteq> v \<Longrightarrow> c \<noteq> a \<Longrightarrow> box c w2 = box c w1"
    using broker_relays_call [OF w1(2) bs(2) tx call_strings pt ch sub _ links(3) room refl hv]
      links(2) w1(4) by metis
  show ?thesis
    using w1(3) [OF links(3)] boxes(2)
    by (intro that [OF w1(1) w2(1) _ bs(2)]) (simp_all add: w1 w2)
qed

text \<open>
  The VM's part for an instant operator: it takes the call from its mailbox, runs the
  operator and sends the one output, as the last, with number 0.
\<close>

lemma vm_answers:
  assumes call: "box (c_socket (vm_client vm)) w = [bs]" "load_packet C bs False =
      Inr (wire_packet False (call_function_packet execute tx f (Some x)))"
    and link: "peered (c_socket (vm_client vm)) s w" "box s w = []" "s \<noteq> c_socket (vm_client vm)"
    and op: "map_of (vm_operators vm) f = Some op" "op_initialize op (Some (wire x)) = Inr (op1, None)"
      "op_step op1 = Inr (op2, Ok_output (Some y) True)"
    and res: "dump_packet C (respond_execute_ok_packet tx 0 True y) = Inr rs"
  obtains w1 w2 where
    "client_recv C (vm_client vm) False w =
       Inr (w1, Some (wire_packet False (call_function_packet execute tx f (Some x))))"
    "vm_handle C uuid (wire_packet False (call_function_packet execute tx f (Some x))) vm w1 =
       Some (Inr (vm\<lparr>vm_operators := put f op2 (vm_operators vm)\<rparr>, w2))"
    "box s w2 = [rs]" "\<forall>d. d \<noteq> s \<longrightarrow> d \<noteq> c_socket (vm_client vm) \<longrightarrow> box d w2 = box d w"
    "\<forall>d e. peered d e w2 = peered d e w"
proof -
  let ?c = "vm_client vm" and ?p = "wire_packet False (call_function_packet execute tx f (Some x))"
  obtain w1 where w1: "client_recv C ?c False w = Inr (w1, Some ?p)" "w1 = fst (recv (c_socket ?c) w)"
    using client_recv_one [OF call] by metis
  have link1: "peered (c_socket ?c) s w1" "box s w1 = []"
    using link by (simp_all add: w1(2) recv_simps)
  obtain w2 where w2: "client_send C ?c (respond_execute_ok_packet tx 0 True y) w1 = Inr (w2, True)"
    "box s w2 = [rs]" "\<And>d. d \<noteq> s \<Longrightarrow> box d w2 = box d w1" "\<And>d e. peered d e w2 = peered d e w1"
    using client_send_empty [OF link1 res] by metis
  have told: "tell_outputs C ?c tx 0 [Ok_output (Some y) True] w1 = Inr w2"
    using w2(1) by (simp add: tell_output_def tell_def)
  have "runs op_step op1 [Ok_output (Some y) True] op2"
    by (rule runs.last, rule op(3), simp)
  from handle_call_function_run [where p = ?p and tx = tx and opname = f, OF _ _ _ op(1,2) this told]
  have "handle_call_function C ?p vm w1 =
      Some (Inr (vm\<lparr>vm_operators := put f op2 (vm_operators vm)\<rparr>, w2))"
    by (simp add: wire_packet_def wire_map_def builder_defs in_body_def)
  then have "vm_handle C uuid ?p vm w1 =
      Some (Inr (vm\<lparr>vm_operators := put f op2 (vm_operators vm)\<rparr>, w2))"
    by (simp add: vm_handle_def wire_packet_def builder_defs)
  then show ?thesis
    using w1(2) by (intro that [OF w1(1) _ w2(2)]) (auto simp: w2(3,4) recv_simps)
qed

lemma result_comes_back:
  assumes reg: "map_of (b_sockets b) na = Some a" "map_of (b_txs b) tx = Some a"
    and links: "peered a (c_socket kc) w" "c_socket kc \<noteq> s" "c_socket kc \<notin> set (b_refs b)"
    and boxes: "box s w = [rs]" "box (c_socket kc) w = []"
    and res: "\<And>skip. load_packet C rs skip = Inr (wire_packet skip (respond_execute_ok_packet tx i fin y))"
  obtains w1 w2 where
    "broker_recv C b s w = Inr (if fin then b\<lparr>b_txs := del tx (b_txs b)\<rparr> else b, w1)"
    "client_recv C kc False w1 = Inr (w2, Some (wire_packet False (respond_execute_ok_packet tx i fin y)))"
proof -
  let ?p = "respond_execute_ok_packet tx i fin y" and ?b = "if fin then b\<lparr>b_txs := del tx (b_txs b)\<rparr> else b"
  have h: "headers (wire_packet True ?p) = Some [String_t tx, Uint_t i, Bool_t fin]"
    and pt: "ptype (wire_packet True ?p) = respond_execute"
    and tx: "get_tx_id (wire_packet True ?p) = Inr tx"
    by (simp_all add: wire_packet_def builder_defs get_tx_id_def array_get_nth)
  have fin: "array_get as_bool [String_t tx, Uint_t i, Bool_t fin] 2 = Inr fin"
    by (simp add: array_get_eq_Inr)
  have hk: "held b ?b (c_socket kc)" using links(3) by (simp add: held_def)
  have room: "length (box (c_socket kc) w) < mailbox_limit" using boxes(2) by (simp add: mailbox_limit_def)
  obtain w1 where w1: "broker_recv C b s w = Inr (?b, w1)" "box (c_socket kc) w1 = [rs]"
    using broker_relays_result [OF boxes(1) res tx result_strings pt h fin reg(2) links(1,2) room refl hk]
      boxes(2) by (metis append_Nil)
  obtain w2 where "client_recv C kc False w1 = Inr (w2, Some (wire_packet False ?p))"
    using client_recv_one [OF w1(2) res] by metis
  with w1(1) show ?thesis using that by blast
qed

section \<open>The whole way\<close>

lemma call_and_result:
  assumes inv: "broker_inv b w" and reg: "map_of (b_sockets b) na = Some a" "map_of (b_sockets b) ns = Some s"
    and sub: "map_of (b_subs b) (''0/'' @ f) = Some s"
    and links: "peered k a w" "peered a k w" "peered s v w" "peered v s w"
    and ends: "distinct [k, a, s, v]" "k \<notin> set (b_refs b)" "v \<notin> set (b_refs b)"
    and boxes: "box k w = []" "box a w = []" "box s w = []" "box v w = []"
    and socks: "c_socket kc = k" "c_socket (vm_client vm) = v"
    and call: "call = call_function_packet execute tx f (Some x)" "packet_ok call"
      "packet_fits C call" "packet_faithful C call"
    and res: "res = respond_execute_ok_packet tx 0 True y" "packet_ok res"
      "packet_fits C res" "packet_faithful C res"
    and op: "map_of (vm_operators vm) f = Some op" "op_initialize op (Some (wire x)) = Inr (op1, None)"
      "op_step op1 = Inr (op2, Ok_output (Some y) True)"
  shows "\<exists>w1 b1 w2 w3 p w4 vm' b2 w5 w6.
    client_send C kc call w = Inr (w1, True) \<and>
    broker_recv C b a w1 = Inr (b1, w2) \<and>
    client_recv C (vm_client vm) False w2 = Inr (w3, Some p) \<and>
    vm_handle C uuid p vm w3 = Some (Inr (vm', w4)) \<and>
    broker_recv C b1 s w4 = Inr (b2, w5) \<and> map_of (b_txs b2) tx = None \<and>
    client_recv C kc False w5 = Inr (w6, Some (wire_packet False res))"
proof -
  let ?b = "b\<lparr>b_txs := put tx a (b_txs b)\<rparr>"
  have held: "held b ?b k" "held b ?b v" "held b ?b a" "held b ?b s"
    using ends(2,3) registered_held [of ?b] reg by (simp_all add: held_def)
  have ends': "peered (c_socket kc) a w" "v \<noteq> a" using links(1) socks(1) ends(1) by auto
  obtain w1 w2 bs where there: "client_send C kc call w = Inr (w1, True)" "broker_recv C b a w1 = Inr (?b, w2)"
    and bs: "box v w2 = [bs]" "load_packet C bs False = Inr (wire_packet False call)"
    and peers2: "\<forall>c d. held b ?b c \<longrightarrow> held b ?b d \<longrightarrow> peered c d w2 = peered c d w"
    and boxes2: "\<forall>c. held b ?b c \<longrightarrow> c \<noteq> v \<longrightarrow> c \<noteq> a \<longrightarrow> box c w2 = box c w"
    unfolding call(1)
    by (rule call_goes_to_vm [OF inv reg sub ends'(1) links(3) ends'(2) ends(3) boxes(2,4)
          call(2-4) [unfolded call(1)]])
  obtain rs where rs: "dump_packet C res = Inr rs" "\<And>skip. load_packet C rs skip = Inr (wire_packet skip res)"
    using dumped [OF res(2-4)] by metis
  have link2: "peered v s w2" "box s w2 = []" "s \<noteq> v"
    using peers2 held(2,4) links(4) boxes2 boxes(3) ends(1) by auto
  obtain w3 w4 where vm: "client_recv C (vm_client vm) False w2 = Inr (w3, Some (wire_packet False call))"
    "vm_handle C uuid (wire_packet False call) vm w3 =
       Some (Inr (vm\<lparr>vm_operators := put f op2 (vm_operators vm)\<rparr>, w4))"
    and w4: "box s w4 = [rs]" "\<forall>d. d \<noteq> s \<longrightarrow> d \<noteq> v \<longrightarrow> box d w4 = box d w2"
    "\<forall>d e. peered d e w4 = peered d e w2"
    unfolding socks(2) [symmetric] call(1)
    by (rule vm_answers [where vm = vm and uuid = uuid and C = C and bs = bs, OF _ _ _ _ _ op
          rs(1) [unfolded res(1)]])
      (use bs link2 socks(2) call(1) in auto)
  have home: "peered a k w4" "box k w4 = []" "k \<noteq> s" "k \<notin> set (b_refs ?b)"
  proof -
    show "peered a k w4" using peers2 held links(2) w4(3) by blast
    show "box k w4 = []" using boxes2 held(1) w4(2) boxes(1) ends(1) by simp
    show "k \<noteq> s" using ends(1) by simp
    show "k \<notin> set (b_refs ?b)"
      using ends(2) in_refs(1) [OF reg(1)] ends(1) by (auto simp: b_refs_def dest!: set_putD)
  qed
  obtain w5 w6 where "broker_recv C ?b s w4 = Inr (?b\<lparr>b_txs := del tx (b_txs ?b)\<rparr>, w5)"
    "client_recv C kc False w5 = Inr (w6, Some (wire_packet False res))"
    using result_comes_back [where b = ?b and fin = True and rs = rs and tx = tx and C = C and kc = kc and
        s = s and w = w4 and i = 0 and y = y and a = a and na = na] reg home w4(1) rs(2) res(1) socks(1)
    by auto
  with there vm show ?thesis by fastforce
qed

end
