(* ===== verification/Samples.thy ===== *)
theory Samples
  imports Routing
begin

text \<open>
  A small running system, used as the concrete input of examples: a client (socket 0)
  and a VM (socket 1) are connected to a broker (sockets 2 and 3, monitor 5), and the VM
  has subscribed to the function \<open>f\<close>.
\<close>

definition sample_socket :: "string \<Rightarrow> addr option \<Rightarrow> addr \<Rightarrow> string \<Rightarrow> socket_t" where
  "sample_socket n mon peer pname =
     \<lparr>s_notify = \<lparr>myname = n, n_monitor = mon\<rparr>, my_mailbox = [], peer_mailbox = Some peer,
      peer_name = Some pname, peer_notify = Some peer\<rparr>"

definition sample_world :: world where
  "sample_world = \<lparr>next_id = 4, next_addr = 10, monitors = [5 \<mapsto> []],
     sockets = [0 \<mapsto> sample_socket ''0'' None 2 ''2'', Suc 0 \<mapsto> sample_socket ''1'' None 3 ''3'',
                2 \<mapsto> sample_socket ''2'' (Some 5) 0 ''0'', 3 \<mapsto> sample_socket ''3'' (Some 5) (Suc 0) ''1''],
     acceptors = Map.empty, dial_acceptors = [], dial_connections = []\<rparr>"

definition sample_broker :: broker_t where
  "sample_broker = \<lparr>b_monitor = 5, b_acceptor = 6, b_sockets = [(''2'', 2), (''3'', 3)],
     b_subs = [(''0/f'', 3)], b_txs = []\<rparr>"

definition sample_op :: operator_t where
  "sample_op = make_operator (Instant (\<lambda>v. Inr (Got v)))"

definition sample_vm :: "val vm_t" where
  "sample_vm = \<lparr>vm_client = \<lparr>c_socket = Suc 0, c_monitor = 7, external_monitor = True\<rparr>,
     vm_factories = [], vm_components = [], vm_operators = [(''f'', sample_op)], vm_expected = {},
     vm_uuids = 0\<rparr>"

definition sample_call :: packet_t where
  "sample_call = call_function_packet execute ''t'' ''f'' (Some (Uint_t 7))"

definition sample_result :: packet_t where
  "sample_result = respond_execute_ok_packet ''t'' 0 True (Uint_t 7)"

definition sample_codec :: codec where
  "sample_codec = table_codec
     [header_json sample_call, body_json sample_call, header_json sample_result, body_json sample_result]"

lemma sample_names:
  "sock_name a sample_world =
     (if a = 0 then Some ''0'' else if a = 1 then Some ''1'' else if a = 2 then Some ''2''
      else if a = 3 then Some ''3'' else None)"
  "sock_monitor a sample_world = (if a = 2 \<or> a = 3 then Some 5 else None)"
  "box a sample_world = []"
  "sockets sample_world a = None \<longleftrightarrow> a \<notin> {0, 1, 2, 3}"
  "next_addr sample_world = 10"
  by (simp_all add: sample_world_def sock_name_def sock_monitor_def box_def sample_socket_def)

lemma sample_peers:
  "peered 0 2 sample_world" "peered 2 0 sample_world"
  "peered (Suc 0) 3 sample_world" "peered 3 (Suc 0) sample_world"
  by (simp_all add: sample_world_def peered_def sample_socket_def)

lemma sample_inv: "broker_inv sample_broker sample_world"
  unfolding broker_inv_def sample_names
  by (auto simp: sample_broker_def dict_ok_def split: if_splits)

lemma sample_fits [simp]: "packet_fits sample_codec p"
  by (simp add: packet_fits_def sample_codec_def)

lemma sample_faithful [simp]:
  "packet_faithful sample_codec sample_call" "packet_faithful sample_codec sample_result"
  by (auto simp: packet_faithful_def sample_codec_def intro!: table_codec_faithful)

lemma sample_ok [simp]: "packet_ok sample_call" "packet_ok sample_result"
  by (simp_all add: packet_ok_def sample_call_def sample_result_def builder_defs in_body_def
      has_itype_def dict_ok_def)

section \<open>A broker that starts and accepts a connection\<close>

definition first_broker :: broker_t where
  "first_broker = \<lparr>b_monitor = 0, b_acceptor = 1, b_sockets = [], b_subs = [], b_txs = []\<rparr>"

definition first_world :: world where
  "first_world = \<lparr>next_id = 2, next_addr = 2, monitors = [0 \<mapsto> []], sockets = Map.empty,
     acceptors = [1 \<mapsto> \<lparr>a_notify = \<lparr>myname = ''0'', n_monitor = Some 0\<rparr>, a_url = ''u'', a_mailbox = []\<rparr>],
     dial_acceptors = [(''u'', 1)], dial_connections = []\<rparr>"

lemma show_small [simp]: "show_u64 0 = ''0''" "show_u64 1 = ''1''" "show_u64 2 = ''2''" "show_u64 3 = ''3''"
  by code_simp+

lemma first_start:
  "\<exists>stops. broker_start ''u'' empty_world [] = Inr (first_broker, first_world, stops)"
  by (simp add: broker_start_def empty_world_def new_monitor_def monitor_new_def acceptor_new_def
      notify_new_def new_name_def acceptor_set_monitor_def on_monitor_set_def set_monitor_def
      upd_acceptor_def stop_new_def first_broker_def first_world_def Let_def)

definition dialed_world :: world where
  "dialed_world = fst (connect_begin 2 ''u'' (fst (socket_new first_world)))"

definition accepted :: "broker_t \<times> world" where
  "accepted = broker_accept first_broker (dialed_world\<lparr>monitors := [0 \<mapsto> []]\<rparr>)"

lemma first_ids: "ids_left first_world" "ids_left dialed_world"
  by (simp_all add: ids_left_def first_world_def dialed_world_def connect_begin_def
      request_accepting_def mailbox_set_def mailbox_limit_def socket_new_def notify_new_def
      new_name_def upd_acceptor_def Let_def)

lemma dialed_turn: "broker_turn C first_broker dialed_world = Inr (Running (fst accepted) (snd accepted))"
proof -
  have "monitors dialed_world = [0 \<mapsto> [\<lparr>who = ''0'', what = ''accept''\<rparr>]]"
    by (simp add: first_world_def dialed_world_def connect_begin_def request_accepting_def
        mailbox_set_def mailbox_limit_def socket_new_def notify_new_def new_name_def upd_acceptor_def
        notify_def Let_def)
  then have "monitor_wait (monitors dialed_world) (b_monitor first_broker) =
      ([0 \<mapsto> []], Some \<lparr>who = ''0'', what = ''accept''\<rparr>)"
    by (simp add: monitor_wait_def first_broker_def)
  then show ?thesis
    by (simp add: broker_turn_def accepted_def split_beta Let_def)
qed

lemma accepted_reachable: "reachable C accepted"
proof -
  obtain stops where "broker_start ''u'' empty_world [] = Inr (first_broker, first_world, stops)"
    using first_start by blast
  moreover have "heap_ok empty_world" by (simp add: heap_ok_def empty_world_def paired_def)
  ultimately have "reachable C (first_broker, first_world)" by (rule reachable.start)
  moreover have "sys_step C (first_broker, first_world) (first_broker, dialed_world)"
  proof (rule sys_step.dial)
    show "socket_new first_world = (fst (socket_new first_world), 2)"
      by (simp add: socket_new_def first_world_def split_beta Let_def)
    show "connect_begin 2 ''u'' (fst (socket_new first_world)) =
        (dialed_world, snd (connect_begin 2 ''u'' (fst (socket_new first_world))))"
      by (simp add: dialed_world_def)
  qed (rule first_ids)
  ultimately have "reachable C (first_broker, dialed_world)" by (rule reachable.step)
  moreover have "sys_step C (first_broker, dialed_world) (fst accepted, snd accepted)"
    by (rule sys_step.turn [OF dialed_turn first_ids(2)])
  ultimately show ?thesis using reachable.step by fastforce
qed

lemma accepted_sockets: "b_sockets (fst accepted) = [(''3'', 3)]"
  by (simp add: accepted_def broker_accept_def accept_def mailbox_get_def dialed_world_def
      connect_begin_def request_accepting_def mailbox_set_def mailbox_limit_def socket_new_def
      notify_new_def new_name_def upd_acceptor_def attach_def upd_socket_def socket_set_monitor_def
      sock_name_def first_world_def first_broker_def set_monitor_def notify_def Let_def)

end
