(* ===== verification/BrokerProperties.thy ===== *)
theory BrokerProperties
  imports Samples
begin

text \<open>
  The properties of the broker: that its handler refines the hub, what holds in every state
  it reaches, and what each packet does to its tables.
\<close>

text \<open>
  C2. Handling one packet refines one step of the abstract hub. If the hub's tables agree
  with the broker's, the packet came in on a registered socket and its names can be told
  apart in channels, then after \<open>broker_start\<close>'s switch has handled the packet the tables
  agree again, and what has been sent is what the hub's action says: a reply to the
  requester, the packet relayed to the owner or to the node that waits, or nothing.
\<close>

theorem broker_refines_hub:
  assumes "broker_inv b w" and "map_of (b_sockets b) n = Some a" and "agree h b w"
    and "request_of p = Some req" and "request_ok req"
    and "broker_handle C b a m p tx w = Inr (b', w')"
  shows "agree (fst (hub_step n tx req h)) b' w' \<and> performs C a m (snd (hub_step n tx req h)) w w'"
  by (rule broker_refines_hub_step [OF assms])

lemma broker_refines_hub_witness:
  "let h = \<lparr>owners = [(Fn ''f'', ''3'')], pending = []\<rparr>;
       b' = sample_broker\<lparr>b_txs := [(''t'', 2)]\<rparr>; w' = fst (send 3 [1] sample_world)
   in agree (h\<lparr>pending := [(''t'', ''2'')]\<rparr>) b' w' \<and> performs sample_codec 2 [1] (Relay ''3'') sample_world w'"
proof -
  let ?h = "\<lparr>owners = [(Fn ''f'', ''3'')], pending = []\<rparr>"
  have run: "broker_handle sample_codec sample_broker 2 [1] sample_call ''t'' sample_world =
      Inr (sample_broker\<lparr>b_txs := [(''t'', 2)]\<rparr>, fst (send 3 [1] sample_world))"
    by (simp add: broker_handle_def handle_execute_def sample_call_def sample_broker_def builder_defs
        get_channel_def array_get_nth)
  have reg: "map_of (b_sockets sample_broker) ''2'' = Some 2" by (simp add: sample_broker_def)
  have agr: "agree ?h sample_broker sample_world"
    unfolding agree_def sample_names
    by (auto simp: dict_ok_def sample_broker_def chan_str_inject [of _ "Fn ''f''", simplified])
  have req: "request_of sample_call = Some (Call (Fn ''f''))" "request_ok (Call (Fn ''f''))"
    by (simp_all add: request_of_def sample_call_def builder_defs chan_of_def channel_args_def array_get_nth)
  from broker_refines_hub [OF sample_inv reg agr req run] show ?thesis
    by (simp add: Let_def)
qed

text \<open>
  C3. In every state that the broker reaches, whatever its clients do in between, a socket in
  the table of connections is alive, is registered under its own name and reports to the
  broker's monitor; a channel's subscriber is a connected socket; and the socket that a
  running transaction's result goes to has not been destroyed.
\<close>

theorem tables_consistent:
  assumes "reachable C (b, w)"
  shows "(\<forall>n a. map_of (b_sockets b) n = Some a \<longrightarrow>
      sock_name a w = Some n \<and> sock_monitor a w = Some (b_monitor b)) \<and>
    (\<forall>ch a. map_of (b_subs b) ch = Some a \<longrightarrow> (\<exists>n. map_of (b_sockets b) n = Some a)) \<and>
    (\<forall>tx a. map_of (b_txs b) tx = Some a \<longrightarrow> sockets w a \<noteq> None)"
  using sys_invD(1) [OF reachable_inv [OF assms]] unfolding broker_inv_def by simp

lemma tables_consistent_witness:
  "map_of (b_sockets (fst accepted)) ''3'' = Some 3 \<and> sock_name 3 (snd accepted) = Some ''3'' \<and>
   sock_monitor 3 (snd accepted) = Some (b_monitor (fst accepted))"
  using tables_consistent [of sample_codec "fst accepted" "snd accepted"] accepted_reachable [of sample_codec]
  by (simp add: accepted_sockets)



text \<open>
  A \<open>disconnect\<close> packet removes the connection and exactly the subscriptions of its
  socket, keeps those of the others, and leaves the transactions as they are.
\<close>

lemma disconnect_clears:
  assumes "broker_inv b w" and "map_of (b_sockets b) n = Some a" and "ptype p = disconnect"
    and "broker_handle C b a m p tx w = Inr (b', w')"
  shows "map_of (b_sockets b') = (map_of (b_sockets b))(n := None) \<and>
    (\<forall>ch. map_of (b_subs b') ch =
      (if map_of (b_subs b) ch = Some a then None else map_of (b_subs b) ch)) \<and>
    b_txs b' = b_txs b"
proof -
  have run: "handle_disconnect C b a tx w = Inr (b', w')"
    using assms(3,4) by (simp add: broker_handle_def)
  note t = disconnect_tables [OF assms(1,2) run]
  have "map_of (b_subs b') ch =
      (if map_of (b_subs b) ch = Some a then None else map_of (b_subs b) ch)" for ch
    unfolding t(1) by (auto split: option.splits)
  then show ?thesis by (auto simp: t(2,3))
qed

lemma disconnect_clears_witness:
  "\<exists>b' w'. handle_disconnect sample_codec sample_broker 3 ''t'' sample_world = Inr (b', w') \<and>
     map_of (b_sockets b') ''3'' = None \<and> map_of (b_subs b') ''0/f'' = None \<and>
     map_of (b_sockets b') ''2'' = Some 2"
proof -
  obtain bs where "dump_packet sample_codec (respond_ok_packet ''t'') = Inr bs"
    using dump_packet_ok [of "respond_ok_packet ''t''" sample_codec]
    by (auto simp: packet_ok_def builder_defs has_itype_def dict_ok_def)
  then obtain b' w' where run: "handle_disconnect sample_codec sample_broker 3 ''t'' sample_world = Inr (b', w')"
    by (auto simp: handle_disconnect_def reply_def Let_def)
  have "broker_handle sample_codec sample_broker 3 [] (conn_packet disconnect ''t'') ''t'' sample_world = Inr (b', w')"
    using run by (simp add: broker_handle_def builder_defs)
  from disconnect_clears [OF sample_inv _ _ this, of "''3''"] run show ?thesis
    by (simp add: sample_broker_def builder_defs)
qed

text \<open>
  Nobody can take a subscription from its owner: after any packet of another connection,
  the subscriber of a channel is still the same.
\<close>

lemma only_owner_unsubscribes:
  assumes "broker_inv b w" and "map_of (b_sockets b) n = Some a"
    and "map_of (b_subs b) ch = Some s" and "s \<noteq> a"
    and "broker_handle C b a m p tx w = Inr (b', w')"
  shows "map_of (b_subs b') ch = Some s"
proof (cases "ptype p")
  case disconnect
  with assms(5) have "handle_disconnect C b a tx w = Inr (b', w')" by (simp add: broker_handle_def)
  from disconnect_tables(1) [OF assms(1,2) this, of ch] assms(3,4) show ?thesis by simp
next
  case unsubscribe
  have "sock_name s w \<noteq> sock_name a w"
    using same_name_same_socket [OF assms(1,2,3)] registered_name [OF assms(1,2)] assms(4) by simp
  then have keep: "sock_name y w = sock_name a w \<Longrightarrow> map_of (b_subs b) c = Some y \<Longrightarrow> c \<noteq> ch" for c y
    using assms(3) by auto
  from unsubscribe assms(5) obtain c where c: "get_channel p = Inr c"
    by (auto simp: broker_handle_def handle_unsubscribe_def bindR_eq_Inr)
  from unsubscribe assms(5) have h: "handle_unsubscribe C b a p tx w = Inr (b', w')"
    by (simp add: broker_handle_def)
  consider "b' = b" | y where "map_of (b_subs b) c = Some y" "sock_name y w = sock_name a w"
      "b' = b\<lparr>b_subs := del c (b_subs b)\<rparr>"
    using h by (cases "map_of (b_subs b) c")
      (auto simp: handle_unsubscribe_def c bindR_eq_Inr split: if_splits)
  then show ?thesis
  proof cases
    case (2 y)
    with keep [OF 2(2,1)] assms(3) show ?thesis by simp
  qed (use assms(3) in simp)
qed (use assms(3,5) in \<open>auto simp: broker_handle_def handle_subscribe_def handle_execute_def
    handle_respond_execute_def bindR_eq_Inr Let_def split: option.splits if_splits\<close>)

lemma only_owner_unsubscribes_witness:
  "\<exists>b' w'. handle_disconnect sample_codec sample_broker 2 ''t'' sample_world = Inr (b', w') \<and>
     map_of (b_subs b') ''0/f'' = Some 3"
proof -
  obtain bs where "dump_packet sample_codec (respond_ok_packet ''t'') = Inr bs"
    using dump_packet_ok [of "respond_ok_packet ''t''" sample_codec]
    by (auto simp: packet_ok_def builder_defs has_itype_def dict_ok_def)
  then obtain b' w' where run: "handle_disconnect sample_codec sample_broker 2 ''t'' sample_world = Inr (b', w')"
    by (auto simp: handle_disconnect_def reply_def Let_def)
  have "broker_handle sample_codec sample_broker 2 [] (conn_packet disconnect ''t'') ''t'' sample_world = Inr (b', w')"
    using run by (simp add: broker_handle_def builder_defs)
  from only_owner_unsubscribes [OF sample_inv _ _ _ this, of "''2''" "''0/f''" 3] run show ?thesis
    by (simp add: sample_broker_def)
qed

text \<open>
  A call is lost when its target cannot take it: if the mailbox of the owner of the
  channel is full, the broker notes the transaction and sends nothing, neither the call nor
  an error to the requester.
\<close>

lemma undeliverable_call_lost:
  assumes "get_channel p = Inr ch" and "ptype p = execute" and "map_of (b_subs b) ch = Some s"
    and "peered s v w" and "mailbox_limit \<le> length (box v w)"
  shows "\<exists>w'. broker_handle C b a m p tx w = Inr (b\<lparr>b_txs := put tx a (b_txs b)\<rparr>, w') \<and>
    (\<forall>c. box c w' = box c w) \<and> monitors w' = monitors w"
  using assms send_peered(2,6) [OF assms(4), where m = m]
  by (intro exI [of _ "fst (send s m w)"]) (simp add: broker_handle_def handle_execute_def not_less)

lemma undeliverable_call_lost_witness:
  "let w = upd_socket 1 (\<lambda>s. s\<lparr>my_mailbox := replicate 128 [0]\<rparr>) sample_world
   in \<exists>w'. broker_handle sample_codec sample_broker 2 [1] sample_call ''t'' w =
        Inr (sample_broker\<lparr>b_txs := [(''t'', 2)]\<rparr>, w') \<and> (\<forall>c. box c w' = box c w)"
proof -
  let ?w = "upd_socket 1 (\<lambda>s. s\<lparr>my_mailbox := replicate 128 [0]\<rparr>) sample_world"
  have "peered 3 1 ?w" by (simp add: peered_def sample_world_def sample_socket_def)
  moreover have "mailbox_limit \<le> length (box 1 ?w)"
    by (simp add: box_def sample_world_def sample_socket_def mailbox_limit_def)
  ultimately show ?thesis
    using undeliverable_call_lost [of sample_call "''0/f''" sample_broker 3 1 ?w sample_codec 2 "[1]" "''t''"]
    by (auto simp: Let_def sample_broker_def sample_call_def builder_defs get_channel_def array_get_nth)
qed

end
