(* ===== verification/JsonAccess.thy ===== *)
theory JsonAccess
  imports Json
begin

text \<open>
  How the program reads and changes documents of the JSON library: members, elements and the
  conversions to strings and lists, which throw when the document has another type.
\<close>

section \<open>Reading JSON documents\<close>

text \<open>\<open>at\<close>, \<open>get<std::string>\<close>, \<open>contains\<close> of the JSON library, which throw on a wrong type.\<close>

definition json_at :: "json \<Rightarrow> string \<Rightarrow> json res" where
  "json_at j key =
     (case j of
        JObject m \<Rightarrow> (case map_of m key of None \<Rightarrow> Inl (LibThrow ''json::out_of_range'') | Some x \<Rightarrow> Inr x)
      | _ \<Rightarrow> Inl (LibThrow ''json::type_error''))"

definition json_string :: "json \<Rightarrow> string res" where
  "json_string j = (case j of JString s \<Rightarrow> Inr s | _ \<Rightarrow> Inl (LibThrow ''json::type_error''))"

definition json_list :: "json \<Rightarrow> json list res" where
  "json_list j = (case j of JArray js \<Rightarrow> Inr js | _ \<Rightarrow> Inl (LibThrow ''json::type_error''))"

definition json_has :: "json \<Rightarrow> string \<Rightarrow> bool" where
  "json_has j key = (case j of JObject m \<Rightarrow> map_of m key \<noteq> None | _ \<Rightarrow> False)"

text \<open>\<open>value(key, default)\<close>.\<close>

definition json_value :: "(json \<Rightarrow> 'a res) \<Rightarrow> json \<Rightarrow> string \<Rightarrow> 'a \<Rightarrow> 'a res" where
  "json_value get j key dflt =
     (case j of
        JObject m \<Rightarrow> (case map_of m key of None \<Rightarrow> Inr dflt | Some x \<Rightarrow> get x)
      | _ \<Rightarrow> Inl (LibThrow ''json::type_error''))"

definition json_bool :: "json \<Rightarrow> bool res" where
  "json_bool j = (case j of JBool b \<Rightarrow> Inr b | _ \<Rightarrow> Inl (LibThrow ''json::type_error''))"

section \<open>Changing JSON documents\<close>

text \<open>\<open>j[key] = v\<close> and \<open>push_back\<close> on a document.\<close>

definition json_set :: "string \<Rightarrow> json \<Rightarrow> json \<Rightarrow> json res" where
  "json_set key v j =
     (case j of JNull \<Rightarrow> Inr (JObject [(key, v)]) | JObject m \<Rightarrow> Inr (JObject (put key v m))
      | _ \<Rightarrow> Inl (LibThrow ''json::type_error''))"

definition json_push :: "json \<Rightarrow> json \<Rightarrow> json res" where
  "json_push v j =
     (case j of JNull \<Rightarrow> Inr (JArray [v]) | JArray xs \<Rightarrow> Inr (JArray (xs @ [v]))
      | _ \<Rightarrow> Inl (LibThrow ''json::type_error''))"

definition json_member :: "string \<Rightarrow> json \<Rightarrow> json" where
  "json_member key j =
     (case j of JObject m \<Rightarrow> (case map_of m key of None \<Rightarrow> JNull | Some x \<Rightarrow> x) | _ \<Rightarrow> JNull)"

text \<open>\<open>j[key]\<close> and \<open>j[0]\<close> on a document that may be changed: what is missing becomes \<open>null\<close>.\<close>

definition member_or_null :: "json \<Rightarrow> string \<Rightarrow> json res" where
  "member_or_null j key =
     (case j of
        JObject m \<Rightarrow> Inr (case map_of m key of None \<Rightarrow> JNull | Some x \<Rightarrow> x)
      | JNull \<Rightarrow> Inr JNull
      | _ \<Rightarrow> Inl (LibThrow ''json::type_error''))"

definition first_or_null :: "json \<Rightarrow> json res" where
  "first_or_null j =
     (case j of
        JArray [] \<Rightarrow> Inr JNull
      | JArray (x # xs) \<Rightarrow> Inr x
      | JNull \<Rightarrow> Inr JNull
      | _ \<Rightarrow> Inl (LibThrow ''json::type_error''))"

definition nth_or_null :: "json \<Rightarrow> nat \<Rightarrow> json res" where
  "nth_or_null j i =
     (case j of
        JArray xs \<Rightarrow> Inr (if i < length xs then xs ! i else JNull)
      | JNull \<Rightarrow> Inr JNull
      | _ \<Rightarrow> Inl (LibThrow ''json::type_error''))"

lemma json_at_put [simp]:
  "json_at (JObject m) k = (case map_of m k of None \<Rightarrow> Inl (LibThrow ''json::out_of_range'') | Some x \<Rightarrow> Inr x)"
  "json_has (JObject m) k \<longleftrightarrow> map_of m k \<noteq> None"
  "json_string (JString s) = Inr s" "json_list (JArray js) = Inr js"
  by (simp_all add: json_at_def json_has_def json_string_def json_list_def)

end
