(* ===== verification/JsonNumbers.thy ===== *)
theory JsonNumbers
  imports JsonAccess
begin

text \<open>
  Numbers of JSON documents as \<open>float\<close>s and back. A document keeps a \<open>float\<close> as a \<open>double\<close>,
  which is exact; reading it as a \<open>float\<close> rounds.
\<close>

section \<open>Reading floats\<close>

text \<open>\<open>get<float>\<close>: any number and also a truth value.\<close>

definition json_float :: "json \<Rightarrow> u32 res" where
  "json_float j =
     (case j of
        JFloat d \<Rightarrow> Inr (double_to_float d)
      | JInt i \<Rightarrow> Inr (int_to_float (sint i))
      | JUint n \<Rightarrow> Inr (int_to_float (uint n))
      | JBool b \<Rightarrow> Inr (int_to_float (if b then 1 else 0))
      | _ \<Rightarrow> Inl (LibThrow ''json::type_error''))"

definition json_floats :: "json \<Rightarrow> u32 list res" where
  "json_floats j = bindR (json_list j) (mapR json_float)"

definition floats_json :: "u32 list \<Rightarrow> json" where
  "floats_json fs = JArray (map (\<lambda>f. JFloat (float_to_double f)) fs)"

section \<open>Widening is exact\<close>

lemma fields_eq: "m < D \<Longrightarrow> e * D + m = q * D \<longleftrightarrow> e = q \<and> m = 0" for e q m D :: nat
proof
  assume m: "m < D" and eq: "e * D + m = q * D"
  from eq have "(e * D + m) div D = q * D div D" "(e * D + m) mod D = q * D mod D" by simp_all
  with m show "e = q \<and> m = 0" by simp
qed simp

text \<open>The magnitudes of the two cases, a subnormal number and a normal one.\<close>

lemma widened_subnormal:
  assumes "2 ^ k \<le> m" and "m < 2 ^ Suc k" and "k \<le> 22"
  shows "(m - 2 ^ k) * 2 ^ (52 - k) < (2 :: nat) ^ 52"
    and "fp_mag 52 ((k + 874) * 2 ^ 52 + (m - 2 ^ k) * 2 ^ (52 - k)) = m * 2 ^ 925"
proof -
  define f where "f = (m - 2 ^ k) * 2 ^ (52 - k)"
  have "f < 2 ^ k * 2 ^ (52 - k)" unfolding f_def using assms by (intro mult_strict_right_mono) simp_all
  also have "\<dots> = 2 ^ 52" using assms(3) by (simp flip: power_add)
  finally have f: "f < 2 ^ 52" .
  have "2 ^ 52 + f = m * 2 ^ (52 - k)"
  proof -
    have "(2 :: nat) ^ 52 = 2 ^ k * 2 ^ (52 - k)" using assms(3) by (simp flip: power_add)
    moreover have "2 ^ k * 2 ^ (52 - k) \<le> m * 2 ^ (52 - k)" using assms(1) by (rule mult_le_mono1)
    ultimately show ?thesis by (simp add: f_def diff_mult_distrib)
  qed
  moreover have "52 - k + (k + 873) = 925" using assms(3) by simp
  then have "m * 2 ^ (52 - k) * 2 ^ (k + 873) = m * 2 ^ 925" by (simp only: mult.assoc flip: power_add)
  moreover have "k + 874 \<noteq> 0" "k + 874 - 1 = k + 873" by simp_all
  ultimately have "fp_mag 52 ((k + 874) * 2 ^ 52 + f) = m * 2 ^ 925"
    by (simp only: fp_mag_fields [OF f] if_False)
  with f show "(m - 2 ^ k) * 2 ^ (52 - k) < (2 :: nat) ^ 52"
    and "fp_mag 52 ((k + 874) * 2 ^ 52 + (m - 2 ^ k) * 2 ^ (52 - k)) = m * 2 ^ 925"
    unfolding f_def .
qed

lemma widened_normal:
  assumes "e \<noteq> 0" and "m < 2 ^ 23"
  shows "fp_mag 52 ((e + 896) * 2 ^ 52 + m * 2 ^ 29) = fp_mag 23 (e * 2 ^ 23 + m) * 2 ^ 925"
proof -
  have f: "m * 2 ^ 29 < 2 ^ 52" using assms(2) by simp
  have "fp_mag 52 ((e + 896) * 2 ^ 52 + m * 2 ^ 29) = (2 ^ 52 + m * 2 ^ 29) * 2 ^ (e + 895)"
    by (subst fp_mag_fields [OF f]) simp
  also have "\<dots> = (2 ^ 23 + m) * 2 ^ (e - 1) * 2 ^ 925"
  proof -
    have "e + 895 = (e - 1) + 896" using assms(1) by simp
    then show ?thesis by (simp only: power_add) (simp add: algebra_simps)
  qed
  also have "\<dots> = fp_mag 23 (e * 2 ^ 23 + m) * 2 ^ 925" by (subst fp_mag_fields [OF assms(2)]) (use assms(1) in simp)
  finally show ?thesis .
qed

definition widened :: "nat \<Rightarrow> nat \<Rightarrow> nat" where
  "widened e m =
     (if e = 255 then 2047 * 2 ^ 52
      else if e = 0 then
        if m = 0 then 0 else (msb_pos m + 874) * 2 ^ 52 + (m - 2 ^ msb_pos m) * 2 ^ (52 - msb_pos m)
      else (e + 896) * 2 ^ 52 + m * 2 ^ 29)"

lemma widened_exact:
  assumes "e < 256" and "m < 2 ^ 23"
  shows "widened e m < 2 ^ 63 \<and> (if e = 255 then widened e m = fp_inf 52 11
    else widened e m < fp_inf 52 11 \<and> fp_mag 52 (widened e m) = fp_mag 23 (e * 2 ^ 23 + m) * 2 ^ 925)"
proof -
  consider "e = 255" | "e = 0" "m = 0" | "e = 0" "m \<noteq> 0" | "e \<noteq> 0" "e \<noteq> 255" by blast
  then show ?thesis
  proof cases
    case 3
    define k where "k = msb_pos m"
    have b: "2 ^ k \<le> m" "m < 2 ^ Suc k" using msb_pos_bounds [of m] 3(2) by (simp_all add: k_def)
    have k: "k \<le> 22" using msb_pos_less [of m 23] assms(2) by (simp add: k_def)
    define f where "f = (m - 2 ^ k) * 2 ^ (52 - k)"
    have f: "f < 2 ^ 52" "fp_mag 52 ((k + 874) * 2 ^ 52 + f) = m * 2 ^ 925"
      using widened_subnormal [OF b k] by (simp_all only: f_def)
    moreover have "fp_mag 23 m = m" using fp_mag_fields [of m 23 0] assms(2) by simp
    ultimately show ?thesis using 3 k by (simp add: widened_def k_def [symmetric] f_def [symmetric] fp_inf_def)
  next
    case 4
    then show ?thesis using widened_normal [OF 4(1) assms(2)] assms by (simp add: widened_def fp_inf_def)
  qed (simp_all add: widened_def fp_inf_def fp_mag_def)
qed

lemma widened_bits:
  fixes w :: u32
  defines "n \<equiv> unat w"
  assumes "\<not> is_fp_nan 23 8 n"
  shows "\<exists>r. unat (float_to_double w) = fp_signed 52 11 (fp_neg 23 8 n) r \<and> r < 2 ^ 63 \<and>
    (if is_fp_inf 23 8 n then r = fp_inf 52 11
     else r < fp_inf 52 11 \<and> fp_mag 52 r = fp_mag 23 (fp_abs 23 8 n) * 2 ^ 925)"
proof -
  define s e m where "s = n div 2 ^ 31" and "e = n div 2 ^ 23 mod 256" and "m = n mod 2 ^ 23"
  have n: "n < 2 ^ 32" using unsigned_less [of w] by (simp add: n_def)
  have s: "s < 2" using n by (simp add: s_def)
  have e: "e < 256" and m: "m < 2 ^ 23" by (simp_all add: e_def m_def)
  have abs: "fp_abs 23 8 n = e * 2 ^ 23 + m"
    unfolding fp_abs_def e_def m_def by (simp add: mod_mult2_eq [of n "2 ^ 23" 256, simplified])
  have neg: "fp_neg 23 8 n \<longleftrightarrow> s = 1" using s by (auto simp: fp_neg_def s_def less_2_cases_iff)
  have inf: "is_fp_inf 23 8 n \<longleftrightarrow> e = 255 \<and> m = 0" and nan: "e = 255 \<longrightarrow> m = 0"
  proof -
    have "e * 8388608 + m = 255 * 8388608 \<longleftrightarrow> e = 255 \<and> m = 0"
      using fields_eq [of m 8388608 e 255] m by simp
    then show "is_fp_inf 23 8 n \<longleftrightarrow> e = 255 \<and> m = 0" by (simp add: is_fp_inf_def abs fp_inf_def)
    show "e = 255 \<longrightarrow> m = 0" using assms(2) by (auto simp: is_fp_nan_def abs fp_inf_def)
  qed
  define k where "k = msb_pos m"
  define r where "r = widened e m"
  have r: "r < 2 ^ 63 \<and> (if e = 255 then r = fp_inf 52 11
      else r < fp_inf 52 11 \<and> fp_mag 52 r = fp_mag 23 (e * 2 ^ 23 + m) * 2 ^ 925)"
    unfolding r_def by (rule widened_exact [OF e m])
  have "float_to_double w = word_of_nat
      (if e = 255 then
         if m = 0 then s * 2 ^ 63 + 2047 * 2 ^ 52
         else s * 2 ^ 63 + 2047 * 2 ^ 52 + (if m < 2 ^ 22 then 2 ^ 51 else 0) + m * 2 ^ 29
       else if e = 0 then
         if m = 0 then s * 2 ^ 63 else s * 2 ^ 63 + (k + 874) * 2 ^ 52 + (m - 2 ^ k) * 2 ^ (52 - k)
       else s * 2 ^ 63 + (e + 896) * 2 ^ 52 + m * 2 ^ 29)" (is "_ = word_of_nat ?x")
    unfolding float_to_double_def n_def s_def e_def m_def k_def Let_def by (rule refl)
  moreover have "?x = s * 2 ^ 63 + r" using nan by (simp add: r_def widened_def k_def)
  ultimately have "float_to_double w = word_of_nat (s * 2 ^ 63 + r)" by simp
  moreover have "s * 2 ^ 63 + r < 2 ^ 64" using s r by (auto simp: less_2_cases_iff)
  moreover have "unat (word_of_nat x :: u64) = x" if "x < 2 ^ 64" for x using that by (simp add: unat_of_nat)
  ultimately have "unat (float_to_double w) = s * 2 ^ 63 + r" by metis
  moreover have "\<dots> = fp_signed 52 11 (fp_neg 23 8 n) r" using s by (auto simp: fp_signed_def neg less_2_cases_iff)
  ultimately have u: "unat (float_to_double w) = fp_signed 52 11 (fp_neg 23 8 n) r" by simp
  have i: "is_fp_inf 23 8 n \<longleftrightarrow> e = 255" using inf nan by blast
  show ?thesis unfolding u i abs by (intro exI [of _ r] conjI refl; use r in blast)
qed

text \<open>A \<open>float\<close> that is not a NaN survives its way through a document.\<close>

lemma narrow_widen:
  assumes "\<not> is_fp_nan 23 8 (unat w)"
  shows "double_to_float (float_to_double w) = w"
proof -
  let ?n = "unat w"
  have n: "?n < 2 ^ Suc (23 + 8)" using unsigned_less [of w] by simp
  obtain r where r: "unat (float_to_double w) = fp_signed 52 11 (fp_neg 23 8 ?n) r" "r < 2 ^ 63"
    "if is_fp_inf 23 8 ?n then r = fp_inf 52 11
     else r < fp_inf 52 11 \<and> fp_mag 52 r = fp_mag 23 (fp_abs 23 8 ?n) * 2 ^ 925"
    using widened_bits [OF assms] by blast
  have "r < 2 ^ (52 + 11)" using r(2) by simp
  note f = fp_signed_fields [OF this, of "fp_neg 23 8 ?n"]
  have "fp_convert 52 11 23 8 (unat (float_to_double w)) = fp_signed 23 8 (fp_neg 23 8 ?n) (fp_abs 23 8 ?n)"
  proof (cases "is_fp_inf 23 8 ?n")
    case True
    with r(3) have "r = fp_inf 52 11" by simp
    with True show ?thesis
      unfolding fp_convert_def Let_def r(1) f is_fp_nan_def is_fp_inf_def by simp
  next
    case False
    with r(3) have fin: "r < fp_inf 52 11" and mag: "fp_mag 52 r = fp_mag 23 (fp_abs 23 8 ?n) * 2 ^ 925" by simp_all
    have "fp_abs 23 8 ?n < fp_inf 23 8" using False assms by (simp add: is_fp_inf_def is_fp_nan_def)
    note exact = fp_round_exact [OF _ this]
    have u: "fp_unit 23 8 = 149" "fp_unit 52 11 = 1074" "(925 :: nat) + 149 = 1074" by (simp_all add: fp_unit_def)
    have "fp_mag 52 r * 2 ^ fp_unit 23 8 = fp_mag 23 (fp_abs 23 8 ?n) * 2 ^ fp_unit 52 11"
      unfolding mag mult.assoc power_add [symmetric] u ..
    then have "fp_round 23 8 (fp_mag 52 r * 2 ^ fp_unit 23 8) (2 ^ fp_unit 52 11) = fp_abs 23 8 ?n"
      using exact by simp
    with fin show ?thesis
      unfolding fp_convert_def Let_def r(1) f is_fp_nan_def [of 52] is_fp_inf_def [of 52] by simp
  qed
  also have "\<dots> = ?n" by (rule fp_signed_whole [OF n])
  finally show ?thesis by (simp add: double_to_float_def)
qed

lemma json_floats_back:
  assumes "\<forall>f \<in> set fs. \<not> is_fp_nan 23 8 (unat f)"
  shows "json_floats (floats_json fs) = Inr fs"
proof -
  have "mapR json_float (map (\<lambda>f. JFloat (float_to_double f)) fs) = Inr fs"
    using assms by (induction fs) (simp_all add: json_float_def narrow_widen)
  then show ?thesis by (simp add: json_floats_def floats_json_def)
qed

end
