(* ===== verification/CoreProperties.thy ===== *)
theory CoreProperties
  imports Samples JsonNumbers
begin

text \<open>
  The properties of the values, the packets and the in-process sockets.
\<close>

section \<open>Values and packets\<close>

text \<open>
  C9. A packet survives its binary format: what \<open>load_packet\<close> reads from what \<open>dump_packet\<close>
  wrote is the packet, with its values as CBOR delivers them and without its body if that is
  skipped. This needs a well-formed packet, a header of less than 2^16 and a body of less
  than 2^32 bytes, and a CBOR library that reads back what it wrote.
\<close>

theorem packet_roundtrip:
  assumes "packet_ok p" and "packet_fits C p" and "packet_faithful C p"
  shows "bindR (dump_packet C p) (\<lambda>bs. load_packet C bs skip_body) = Inr (wire_packet skip_body p)"
  by (rule load_dump_packet [OF assms])

lemma packet_roundtrip_witness:
  "bindR (dump_packet sample_codec sample_call) (\<lambda>bs. load_packet sample_codec bs False) =
   Inr sample_call"
  using packet_roundtrip [OF sample_ok(1) sample_fits sample_faithful(1), of False]
  by (simp add: wire_packet_def sample_call_def builder_defs in_body_def wire_map_def)

text \<open>
  C10. A value survives its CBOR encoding up to what JSON and CBOR cannot tell apart: a
  non-negative \<open>int_t\<close> comes back as \<open>uint_t\<close>, a \<open>float_t\<close> as the \<open>double_t\<close> of the same
  number, and a NaN as the one NaN that CBOR has.
\<close>

theorem value_roundtrip:
  assumes "val_ok v" and "cbor_faithful C (to_json v)"
  shows "bindR (encode C Cbor v) (decode C Cbor) = Inr (wire v)"
  by (rule decode_encode_cbor [OF assms])

lemma value_roundtrip_witness:
  "bindR (encode (table_codec [to_json (Map_t [(''a'', Array_t [Int_t 5, Bool_t True])])]) Cbor
       (Map_t [(''a'', Array_t [Int_t 5, Bool_t True])]))
     (decode (table_codec [to_json (Map_t [(''a'', Array_t [Int_t 5, Bool_t True])])]) Cbor) =
   Inr (Map_t [(''a'', Array_t [Uint_t 5, Bool_t True])])"
  using value_roundtrip [of "Map_t [(''a'', Array_t [Int_t 5, Bool_t True])]"
      "table_codec [to_json (Map_t [(''a'', Array_t [Int_t 5, Bool_t True])])]"]
  by (simp add: table_codec_faithful dict_ok_def)



text \<open>
  A tensor survives the binary form that its JSON value has, when each dimension fits in
  32 bits; the writer cuts a larger one.
\<close>

lemma ndarray_roundtrip:
  assumes "length (nd_shape a) < 2 ^ 32" and "\<forall>d \<in> set (nd_shape a). unat d < 2 ^ 32"
    and "length (nd_data a) < 2 ^ 64"
  shows "read_ndarray (dump_ndarray a) = Inr a"
  using assms by (intro read_dump_ndarray) (simp add: nd_ok_def)

lemma ndarray_roundtrip_witness:
  "let a = \<lparr>nd_shape = [2, 3], nd_dtype = \<lparr>dt_code = 2, dt_bits = 8, dt_lanes = 1\<rparr>,
            nd_data = [1, 2, 3, 4, 5, 6]\<rparr>
   in read_ndarray (dump_ndarray a) = Inr a"
  unfolding Let_def by (rule ndarray_roundtrip) simp_all

text \<open>
  A channel tells its target: two packets with the same channel have the same instruction
  and the same names, if component names do not contain the separator.
\<close>

lemma channel_identifies_target:
  assumes "get_channel p = Inr c" and "get_channel q = Inr c"
    and "\<And>x y. channel_args p = Inr [x, y] \<Longrightarrow> CHR ''/'' \<notin> set x"
    and "\<And>x y. channel_args q = Inr [x, y] \<Longrightarrow> CHR ''/'' \<notin> set x"
  shows "itype p = itype q \<and> channel_args p = channel_args q"
  by (rule channel_inject [OF assms])

lemma channel_identifies_target_witness:
  "channel_args (call_method_packet execute ''t'' ''c'' ''m'' None) =
   channel_args (call_method_packet subscribe ''u'' ''c'' ''m'' None)"
proof -
  have args: "channel_args (call_method_packet pt tx ''c'' ''m'' inp) = Inr [''c'', ''m'']" for pt tx inp
    by (simp add: channel_args_def builder_defs array_get_nth)
  show ?thesis
    by (rule conjunct2 [OF channel_identifies_target [of _ "''3/c/m''"]]) (simp_all add: args)
qed

text \<open>
  What a packet is routed by does not change on the wire: after a trip through the binary
  format, with or without its body, a packet has the transaction id and the channel that it
  had.
\<close>

lemma routing_keys_on_wire:
  assumes "packet_ok p" and "packet_fits C p" and "packet_faithful C p"
    and "bindR (dump_packet C p) (\<lambda>bs. load_packet C bs skip_body) = Inr q"
  shows "get_tx_id q = get_tx_id p \<and> get_channel q = get_channel p \<and> ptype q = ptype p"
proof -
  have "q = wire_packet skip_body p"
    using load_dump_packet [OF assms(1-3), of skip_body] assms(4) by simp
  then show ?thesis by (simp add: tx_id_wire channel_wire) (simp add: wire_packet_def)
qed

lemma routing_keys_on_wire_witness:
  "\<exists>q. bindR (dump_packet sample_codec sample_call) (\<lambda>bs. load_packet sample_codec bs True) = Inr q \<and>
     get_tx_id q = Inr ''t'' \<and> get_channel q = Inr ''0/f''"
proof -
  have q: "bindR (dump_packet sample_codec sample_call) (\<lambda>bs. load_packet sample_codec bs True) =
      Inr (wire_packet True sample_call)"
    by (rule load_dump_packet) simp_all
  have "get_tx_id sample_call = Inr ''t''" "get_channel sample_call = Inr ''0/f''"
    by (simp_all add: sample_call_def)
  with routing_keys_on_wire [OF sample_ok(1) sample_fits sample_faithful(1) q] q show ?thesis by auto
qed

text \<open>
  Without the bound on the header the reader is misled: \<open>dump_packet\<close> stores the length of
  the header modulo 2^16 and reports nothing, and the header that is read back is decoded from
  that many of its bytes only.
\<close>

lemma oversized_header_cut:
  assumes "packet_ok p"
  shows "bindR (dump_packet C p) (\<lambda>bs. load_packet C bs True) =
    bindR (decode C Cbor (take (length (cbor_out C (header_json p)) mod 65536)
        (cbor_out C (header_json p))))
      (\<lambda>hval. Inr \<lparr>ptype = ptype p, itype = itype p, headers = as_array hval, body = None\<rparr>)"
  by (rule load_dump_cut [OF assms])

lemma oversized_header_cut_witness:
  "let C = \<lparr>cbor_out = (\<lambda>j. replicate 65536 0), cbor_in = (\<lambda>bs. if bs = [] then None else Some JNull),
            json_dump = (\<lambda>j. None), json_parse = (\<lambda>s. None)\<rparr>
   in bindR (dump_packet C sample_call) (\<lambda>bs. load_packet C bs True) = Inl (LibThrow ''json::from_cbor'')"
proof -
  let ?C = "\<lparr>cbor_out = (\<lambda>j. replicate 65536 0), cbor_in = (\<lambda>bs. if bs = [] then None else Some JNull),
            json_dump = (\<lambda>j. None), json_parse = (\<lambda>s. None)\<rparr> :: codec"
  show ?thesis
    using oversized_header_cut [OF sample_ok(1), of ?C] by (simp add: Let_def decode_def)
qed

section \<open>In-process sockets\<close>

text \<open>
  C22. Between two attached sockets messages arrive in order and exactly once: whatever the
  interleaving of sends and receives, what has been received, followed by what is still in the
  mailbox, is what was there before followed by the messages whose send succeeded.
\<close>

theorem link_in_order:
  assumes "peered a p w" and "box_run (send a) (recv p) es w = (w', accepted_msgs, received)"
  shows "received @ box p w' = box p w @ accepted_msgs"
  by (rule link.run_in_order [OF assms])

lemma link_in_order_witness:
  "\<exists>w'. box_run (send 0) (recv 2) [Put_mail [1], Put_mail [2], Get_mail] sample_world =
     (w', [[1], [2]], [[1]]) \<and> [[1]] @ box 2 w' = [[1], [2]]"
proof -
  let ?es = "[Put_mail [1], Put_mail [2], Get_mail] :: msg box_event list"
  obtain w' acc out where r: "box_run (send 0) (recv 2) ?es sample_world = (w', acc, out)"
    by (rule prod_cases3)
  have p1: "peered 0 2 sample_world" by (rule sample_peers)
  have p2: "peered 0 2 (fst (send 0 [1] sample_world))" using send_peered(3) [OF p1] p1 by simp
  have "acc = [[1], [2]] \<and> out = [[1]]"
    using r send_peered(1,2) [OF p1, where m = "[1]"] send_peered(1,2) [OF p2, where m = "[2]"]
    by (auto simp: Let_def split_beta sample_names recv_simps mailbox_limit_def)
  with link_in_order [OF p1 r] r show ?thesis by (simp add: sample_names)
qed

text \<open>
  A mailbox never holds more than its limit: if it does not before, it does not after any
  sequence of sends and receives on the link.
\<close>

lemma link_bounded:
  assumes "peered a p w" and "length (box p w) \<le> mailbox_limit"
  shows "length (box p (fst (box_run (send a) (recv p) es w))) \<le> mailbox_limit"
  by (rule link.run_bounded [OF assms])

lemma link_bounded_witness:
  "length (box 2 (fst (box_run (send 0) (recv 2) (replicate 200 (Put_mail [7])) sample_world))) \<le> 128"
  using link_bounded [OF sample_peers(1), of "replicate 200 (Put_mail [7])"]
  by (simp add: sample_names mailbox_limit_def)

text \<open>
  Setting the monitor of an acceptor takes over the sockets that wait for its url: as many
  as its mailbox has room for, in the order they came, but every one of them is told that it
  is connected.
\<close>

lemma set_monitor_takes_over:
  assumes "acceptors w acc = Some s"
  shows "\<exists>s'. acceptors (acceptor_set_monitor acc m w) acc = Some s' \<and>
    a_mailbox s' = a_mailbox s @ take (mailbox_limit - length (a_mailbox s))
      (map snd (filter (\<lambda>e. fst e = a_url s) (dial_connections w))) \<and>
    (\<forall>a. snd (connect_end a (a_url s) (acceptor_set_monitor acc m w)) = True)"
  by (rule set_monitor_takes_waiting [OF assms refl])

lemma set_monitor_takes_over_witness:
  "let w = first_world\<lparr>dial_connections := [(''u'', 8), (''v'', 9), (''u'', 7)]\<rparr>
   in \<exists>s'. acceptors (acceptor_set_monitor 1 0 w) 1 = Some s' \<and> a_mailbox s' = [8, 7] \<and>
        snd (connect_end 7 ''u'' (acceptor_set_monitor 1 0 w))"
proof -
  let ?w = "first_world\<lparr>dial_connections := [(''u'', 8), (''v'', 9), (''u'', 7)]\<rparr>"
  let ?s = "\<lparr>a_notify = \<lparr>myname = ''0'', n_monitor = Some 0\<rparr>, a_url = ''u'', a_mailbox = []\<rparr>"
  have "acceptors ?w 1 = Some ?s" by (simp add: first_world_def)
  from set_monitor_takes_over [OF this, of 0] obtain s' where
    "acceptors (acceptor_set_monitor 1 0 ?w) 1 = Some s'" "a_mailbox s' = [8, 7]"
    "\<forall>a. snd (connect_end a ''u'' (acceptor_set_monitor 1 0 ?w))"
    by (auto simp: mailbox_limit_def)
  then show ?thesis unfolding Let_def by blast
qed

text \<open>
  When the constructor of a client returns, the client is told that it is connected, but
  the broker has only noted the request: until it accepts, every send fails.
\<close>

lemma send_after_connect_fails:
  assumes "client_dial url mon w = (w1, c, Dialed True)" and "client_dialed c True w1 = Inr (c', w2)"
  shows "send_bytes c' (Some m) w2 = (w2, False)"
  by (rule dialed_cannot_send [OF assms])

lemma send_after_connect_fails_witness:
  "\<exists>w1 c c' w2. client_dial ''u'' None first_world = (w1, c, Dialed True) \<and>
     client_dialed c True w1 = Inr (c', w2) \<and> send_bytes c' (Some [1]) w2 = (w2, False)"
proof -
  obtain w1 c where d: "client_dial ''u'' None first_world = (w1, c, Dialed True)"
    by (auto simp: client_dial_def socket_new_def notify_new_def new_name_def new_monitor_def
        connect_begin_def request_accepting_def mailbox_set_def mailbox_limit_def first_world_def Let_def)
  obtain c' w2 where e: "client_dialed c True w1 = Inr (c', w2)" by (simp add: client_dialed_def)
  from send_after_connect_fails [OF d e] d e show ?thesis by blast
qed

text \<open>
  A message that arrives before the receiver has set its monitor, which the broker does
  only after \<open>accept\<close> has attached the sockets, is in the mailbox but leaves no signal.
\<close>

lemma message_before_monitor_unsignalled:
  assumes "peered a p w" and "sock_monitor p w = None" and "length (box p w) < mailbox_limit"
  shows "monitors (fst (send a m w)) = monitors w \<and> box p (fst (send a m w)) = box p w @ [m]"
  by (rule early_message_no_signal [OF assms])

lemma message_before_monitor_unsignalled_witness:
  "monitors (fst (send 2 [1] sample_world)) = monitors sample_world \<and>
   box 0 (fst (send 2 [1] sample_world)) = [[1]]"
  using message_before_monitor_unsignalled [OF sample_peers(2), of "[1]"]
  by (simp add: sample_names mailbox_limit_def)

section \<open>Numbers\<close>

lemma f32_bits:
  "unat (f32_add a b) = fp_add 23 8 (unat a) (unat b)" "unat (f32_sub a b) = fp_sub 23 8 (unat a) (unat b)"
  "unat (f32_mul a b) = fp_mul 23 8 (unat a) (unat b)" "unat (f32_div a b) = fp_div 23 8 (unat a) (unat b)"
proof -
  have "unat w < 2 ^ Suc (23 + 8)" for w :: u32 using unsigned_less [of w] by simp
  note less = fp_ops_less [OF _ this [of a] this [of b], simplified]
  have "unat (word_of_nat n :: u32) = n" if "n < 2 ^ 32" for n using that by (simp add: unat_of_nat)
  with less show "unat (f32_add a b) = fp_add 23 8 (unat a) (unat b)" "unat (f32_sub a b) = fp_sub 23 8 (unat a) (unat b)"
    "unat (f32_mul a b) = fp_mul 23 8 (unat a) (unat b)" "unat (f32_div a b) = fp_div 23 8 (unat a) (unat b)"
    by (simp_all add: f32_add_def f32_sub_def f32_mul_def f32_div_def)
qed

lemma f64_bits:
  "unat (f64_add a b) = fp_add 52 11 (unat a) (unat b)" "unat (f64_sub a b) = fp_sub 52 11 (unat a) (unat b)"
  "unat (f64_mul a b) = fp_mul 52 11 (unat a) (unat b)" "unat (f64_div a b) = fp_div 52 11 (unat a) (unat b)"
proof -
  have "unat w < 2 ^ Suc (52 + 11)" for w :: u64 using unsigned_less [of w] by simp
  note less = fp_ops_less [OF _ this [of a] this [of b], simplified]
  have "unat (word_of_nat n :: u64) = n" if "n < 2 ^ 64" for n using that by (simp add: unat_of_nat)
  with less show "unat (f64_add a b) = fp_add 52 11 (unat a) (unat b)" "unat (f64_sub a b) = fp_sub 52 11 (unat a) (unat b)"
    "unat (f64_mul a b) = fp_mul 52 11 (unat a) (unat b)" "unat (f64_div a b) = fp_div 52 11 (unat a) (unat b)"
    by (simp_all add: f64_add_def f64_sub_def f64_mul_def f64_div_def)
qed

text \<open>
  C35. The arithmetic of \<open>float_t\<close> and \<open>double_t\<close> is rounded to the nearest: on finite numbers,
  whenever the result of \<open>+\<close>, \<open>-\<close>, \<open>*\<close> or \<open>/\<close> (by a number other than zero) is finite, no
  other number of the type is nearer to the exact result. The numbers are counted in the smallest
  steps of the type, so products and quotients are scaled by \<open>2 ^ fp_unit\<close>.
\<close>

theorem number_ops_nearest:
  assumes "fp_finite 23 8 (unat a)" and "fp_finite 23 8 (unat b)"
    and "fp_finite 52 11 (unat c)" and "fp_finite 52 11 (unat d)"
  shows "let x = fp_value 23 8 (unat a); y = fp_value 23 8 (unat b);
             z = fp_value 52 11 (unat c); u = fp_value 52 11 (unat d) in
    fp_nearest 23 8 (x + y) 1 (unat (f32_add a b)) \<and> fp_nearest 23 8 (x - y) 1 (unat (f32_sub a b)) \<and>
    fp_nearest 23 8 (x * y) (2 ^ fp_unit 23 8) (unat (f32_mul a b)) \<and>
    (y \<noteq> 0 \<longrightarrow> fp_nearest 23 8 (x * 2 ^ fp_unit 23 8 * sgn y) \<bar>y\<bar> (unat (f32_div a b))) \<and>
    fp_nearest 52 11 (z + u) 1 (unat (f64_add c d)) \<and> fp_nearest 52 11 (z - u) 1 (unat (f64_sub c d)) \<and>
    fp_nearest 52 11 (z * u) (2 ^ fp_unit 52 11) (unat (f64_mul c d)) \<and>
    (u \<noteq> 0 \<longrightarrow> fp_nearest 52 11 (z * 2 ^ fp_unit 52 11 * sgn u) \<bar>u\<bar> (unat (f64_div c d)))"
  unfolding Let_def f32_bits f64_bits
  by (intro conjI impI fp_add_nearest fp_sub_nearest fp_mul_nearest fp_div_nearest assms)

lemma number_ops_nearest_witness:
  "fp_nearest 23 8 (fp_value 23 8 0x3DCCCCCD + fp_value 23 8 0x3E4CCCCD) 1 (unat (f32_add 0x3DCCCCCD 0x3E4CCCCD))"
proof -
  have "fp_finite 23 8 (unat (0x3DCCCCCD :: u32))" "fp_finite 23 8 (unat (0x3E4CCCCD :: u32))"
    "fp_finite 52 11 (unat (0 :: u64))"
    by (simp_all add: fp_finite_def fp_abs_def fp_inf_def)
  from number_ops_nearest [OF this(1,2) this(3) this(3)] show ?thesis by (simp add: Let_def)
qed

text \<open>
  A \<open>float\<close> survives its way through a JSON document: widened to the \<open>double\<close> of the
  document and narrowed again, it is the same number, subnormal numbers, zeros and infinities
  included.
\<close>

lemma float_through_json:
  assumes "\<not> is_fp_nan 23 8 (unat w)"
  shows "json_float (to_json (Float_t w)) = Inr w"
  by (simp add: json_float_def narrow_widen [OF assms])

lemma float_through_json_witness: "json_float (to_json (Float_t 0x80000001)) = Inr 0x80000001"
  by (rule float_through_json) (simp add: is_fp_nan_def fp_abs_def fp_inf_def)

end
