(* ===== verification/VmLife.thy ===== *)
theory VmLife
  imports VmFacts
begin

text \<open>
  The whole of \<open>vm_start\<close> as a state machine: its phases in the order of the code, one step
  for each wait, and in between whatever other threads do to the world, among it \<open>vm_stop\<close>.
\<close>

datatype 'o vm_phase =
    Greeting string "'o vm_t"
  | Loading "'o vm_t"
  | Serving "'o vm_t"
  | Closing "'o vm_t"
  | Leaving "'o vm_t"
  | Ending "'o vm_t"
  | Ended
  | Aborted fault

type_synonym 'o vm_life = "vm_statics \<times> world \<times> 'o vm_phase"

inductive vm_own_step ::
  "codec \<Rightarrow> (nat \<Rightarrow> string) \<Rightarrow> string \<Rightarrow> 'o module_t list \<Rightarrow> 'o vm_life \<Rightarrow> 'o vm_life \<Rightarrow> bool"
  for C :: codec and uuid :: "nat \<Rightarrow> string" and vm_id :: string and mods :: "'o module_t list" where
  answer: "vm_answer C vm_id tx vm g w = (g', Inr (vm', w')) \<Longrightarrow>
    vm_own_step C uuid vm_id mods (g, w, Greeting tx vm) (g', w', Loading vm')"
| answer_fails: "vm_answer C vm_id tx vm g w = (g', Inl e) \<Longrightarrow>
    vm_own_step C uuid vm_id mods (g, w, Greeting tx vm) (g', w, Aborted e)"
| load: "vm_import C uuid vm_id mods vm g w = (g', Inr (vm', w')) \<Longrightarrow>
    vm_own_step C uuid vm_id mods (g, w, Loading vm) (g', w', Serving vm')"
| load_fails: "vm_import C uuid vm_id mods vm g w = (g', Inl e) \<Longrightarrow>
    vm_own_step C uuid vm_id mods (g, w, Loading vm) (g', w, Aborted e)"
| serve: "vm_turn C uuid vm w = Some (Inr (Vm_on vm' w')) \<Longrightarrow>
    vm_own_step C uuid vm_id mods (g, w, Serving vm) (g, w', Serving vm')"
| stopped: "vm_turn C uuid vm w = Some (Inr (Vm_off vm' w')) \<Longrightarrow>
    vm_own_step C uuid vm_id mods (g, w, Serving vm) (g, w', Closing vm')"
| serve_fails: "vm_turn C uuid vm w = Some (Inl e) \<Longrightarrow>
    vm_own_step C uuid vm_id mods (g, w, Serving vm) (g, w, Aborted e)"
| squeeze: "vm_squeeze C vm g w = Inr (Squeeze vm' g' w') \<Longrightarrow>
    vm_own_step C uuid vm_id mods (g, w, Closing vm) (g', w', Closing vm')"
| squeezed: "vm_squeeze C vm g w = Inr (Squeezed vm' g' w') \<Longrightarrow>
    vm_own_step C uuid vm_id mods (g, w, Closing vm) (g', w', Leaving vm')"
| squeeze_fails: "vm_squeeze C vm g w = Inl e \<Longrightarrow>
    vm_own_step C uuid vm_id mods (g, w, Closing vm) (g, w, Aborted e)"
| bye: "vm_bye C uuid vm_id vm g w = (g', Inr (vm', w')) \<Longrightarrow>
    vm_own_step C uuid vm_id mods (g, w, Leaving vm) (g', w', Ending vm')"
| bye_fails: "vm_bye C uuid vm_id vm g w = (g', Inl e) \<Longrightarrow>
    vm_own_step C uuid vm_id mods (g, w, Leaving vm) (g', w, Aborted e)"
| finish: "vm_end C vm_id vm g w = (g', Inr w') \<Longrightarrow>
    vm_own_step C uuid vm_id mods (g, w, Ending vm) (g', w', Ended)"
| finish_fails: "vm_end C vm_id vm g w = (g', Inl e) \<Longrightarrow>
    vm_own_step C uuid vm_id mods (g, w, Ending vm) (g', w, Aborted e)"

inductive_cases vm_own_stepE: "vm_own_step C uuid vm_id mods s t"

inductive vm_start_step ::
  "codec \<Rightarrow> (nat \<Rightarrow> string) \<Rightarrow> string \<Rightarrow> 'o module_t list \<Rightarrow> 'o vm_life \<Rightarrow> 'o vm_life \<Rightarrow> bool"
  for C :: codec and uuid :: "nat \<Rightarrow> string" and vm_id :: string and mods :: "'o module_t list" where
  own: "vm_own_step C uuid vm_id mods s t \<Longrightarrow> vm_start_step C uuid vm_id mods s t"
| others: "vm_start_step C uuid vm_id mods (g, w, ph) (g, w', ph)"
| stop: "vm_stop url name g w = (g', w') \<Longrightarrow>
    vm_start_step C uuid vm_id mods (g, w, ph) (g', w', ph)"

inductive_cases vm_start_stepE: "vm_start_step C uuid vm_id mods s t"

text \<open>A run of \<open>vm_start\<close> from the point where it has registered its name.\<close>

inductive vm_lives ::
  "codec \<Rightarrow> (nat \<Rightarrow> string) \<Rightarrow> string \<Rightarrow> 'o module_t list \<Rightarrow> 'o vm_life \<Rightarrow> bool"
  for C :: codec and uuid :: "nat \<Rightarrow> string" and vm_id :: string and mods :: "'o module_t list" where
  hello: "map_of (vm_states g) vm_id = None \<Longrightarrow>
    vm_hello C uuid vm_id c ok i g w = (g', Inr (vm, w')) \<Longrightarrow>
    vm_lives C uuid vm_id mods (g', w', Greeting (uuid i) vm)"
| step: "vm_lives C uuid vm_id mods s \<Longrightarrow> vm_start_step C uuid vm_id mods s t \<Longrightarrow>
    vm_lives C uuid vm_id mods t"

section \<open>The name of a VM\<close>

fun aborted :: "'o vm_phase \<Rightarrow> bool" where
  "aborted (Aborted e) = True"
| "aborted ph = False"

lemma raise_not_Inr [simp]: "raise_exception vm_id r g \<noteq> (g', Inr x)"
  by (simp add: raise_exception_def)

lemma check_keeps: "vm_check_answer vm_id tx p g = (g', Inr u) \<Longrightarrow> g' = g"
  unfolding vm_check_answer_def Let_def
  by (simp split: if_splits sum.splits option.splits)

lemma answer_keeps:
  assumes "vm_answer C vm_id tx vm g w = (g', Inr r)" shows "g' = g"
proof -
  obtain ms sig where ms: "monitor_wait (monitors w) (c_monitor (vm_client vm)) = (ms, sig)"
    by fastforce
  with assms have sig: "sig \<noteq> None" by (simp add: vm_answer_def Let_def split: if_splits)
  let ?r = "client_recv C (vm_client vm) False (w\<lparr>monitors := ms\<rparr>)"
  consider (fault) e where "?r = Inl e" | (nothing) w1 where "?r = Inr (w1, None)"
    | (packet) w1 p where "?r = Inr (w1, Some p)"
    by (metis old.sum.exhaust option.exhaust prod.exhaust)
  then show ?thesis
  proof cases
    case (packet w1 p)
    obtain g1 c where c: "vm_check_answer vm_id tx p g = (g1, c)" by fastforce
    with assms ms sig packet have "g1 = g'" "bindR c (\<lambda>_. Inr (vm, w1)) = Inr r"
      by (simp_all add: vm_answer_def Let_def)
    then obtain u where "c = Inr u" by (auto simp: bindR_eq_Inr)
    with c check_keeps \<open>g1 = g'\<close> show ?thesis by blast
  qed (use assms ms sig in \<open>simp_all add: vm_answer_def Let_def\<close>)
qed

lemma import_keeps: "vm_import C uuid vm_id mods vm g w = (g', Inr r) \<Longrightarrow> g' = g"
proof (induction mods arbitrary: vm w)
  case (Cons md mods)
  from Cons.prems obtain vm1 msgs where on: "on_import_module C uuid md vm = Inr (vm1, msgs)"
    by (cases "on_import_module C uuid md vm") auto
  obtain vm2 w1 ok where "send_all msgs vm1 w = (vm2, w1, ok)" by (rule prod_cases3)
  with Cons on show ?case by (cases ok) (auto simp: raise_exception_def)
qed simp

fun squeeze_statics :: "'o squeeze \<Rightarrow> vm_statics" where
  "squeeze_statics (Squeeze vm g w) = g"
| "squeeze_statics (Squeezed vm g w) = g"

lemma squeeze_keeps_states:
  assumes "vm_squeeze C vm g w = Inr r" shows "vm_states (squeeze_statics r) = vm_states g"
proof -
  obtain ms sig where ms: "monitor_wait (monitors w) (c_monitor (vm_client vm)) = (ms, sig)"
    by fastforce
  show ?thesis
  proof (cases "vm_expected vm = {} \<or> vm_retry g \<ge> 3")
    case True
    with assms have "r = Squeezed vm g w" by (auto simp: squeeze_out)
    then show ?thesis by simp
  next
    case False
    with assms ms show ?thesis
      by (cases sig; simp add: vm_squeeze_def Let_def bindR_eq_Inr split: if_splits prod.splits)
        (auto simp: bindR_eq_Inr)
  qed
qed

lemma stop_keeps_names:
  "map_of (vm_states (fst (vm_stop url name g w))) n = None \<longleftrightarrow> map_of (vm_states g) n = None"
  by (auto simp: vm_stop_def Let_def split: option.splits prod.splits)

lemma own_step_keeps_name:
  assumes "vm_own_step C uuid vm_id mods (g, w, ph) (g', w', ph')" and "\<not> aborted ph'"
  shows "map_of (vm_states g') n = None \<longleftrightarrow> map_of (vm_states g) n = None"
  using assms(1)
proof (cases rule: vm_own_step.cases)
  case (squeeze vm vm')
  then show ?thesis using squeeze_keeps_states [of C vm g w] by fastforce
next
  case (squeezed vm vm')
  then show ?thesis using squeeze_keeps_states [of C vm g w] by fastforce
qed (use assms(2) in \<open>auto dest: answer_keeps import_keeps bye_keeps end_keeps\<close>)

lemma step_keeps_name:
  assumes "vm_start_step C uuid vm_id mods (g, w, ph) (g', w', ph')" and "\<not> aborted ph'"
  shows "map_of (vm_states g') n = None \<longleftrightarrow> map_of (vm_states g) n = None"
  using assms(1)
proof (cases rule: vm_start_step.cases)
  case own
  then show ?thesis by (rule own_step_keeps_name [OF _ assms(2)])
next
  case (stop url name)
  then show ?thesis using stop_keeps_names [of url name g w n] by simp
qed simp

lemma own_step_not_aborted: "vm_own_step C uuid vm_id mods (g, w, ph) (g', w', ph') \<Longrightarrow> \<not> aborted ph"
  by (erule vm_own_stepE) auto

lemma step_from_aborted:
  "vm_start_step C uuid vm_id mods (g, w, ph) (g', w', ph') \<Longrightarrow> aborted ph \<Longrightarrow> aborted ph'"
  by (erule vm_start_stepE) (auto dest: own_step_not_aborted)

lemma lives_name:
  assumes "vm_lives C uuid vm_id mods s" and "\<not> aborted (snd (snd s))"
  shows "map_of (vm_states (fst s)) vm_id \<noteq> None"
  using assms
proof (induction rule: vm_lives.induct)
  case (hello g c ok i w g' vm w')
  then show ?case using hello_registers by auto
next
  case (step s t)
  obtain g w ph g' w' ph' where st: "s = (g, w, ph)" "t = (g', w', ph')" by (metis prod_cases3)
  have "\<not> aborted ph"
    using step_from_aborted [OF step.hyps(2) [unfolded st]] step.prems st by auto
  with step.IH step_keeps_name [OF step.hyps(2) [unfolded st]] step.prems show ?case
    unfolding st by simp
qed

end
