(* ===== verification/VmProperties.thy ===== *)
theory VmProperties
  imports VmLife Samples
begin

text \<open>
  The properties of the virtual machine: its loop over an operator, its subscriptions, the
  table of running VMs and the end of a VM.
\<close>

section \<open>Running operators\<close>

text \<open>
  C5. The loop over an operator returns exactly when the operator has a complete run whose
  outputs can all be sent, and then it has sent the outputs of that run, in order, numbered
  upwards from the first index, and left the operator as the run leaves it.
\<close>

theorem run_loop_exact:
  "run_op C c tx step i s w = Some (Inr (s', w')) \<longleftrightarrow>
   (\<exists>outs. runs step s outs s' \<and> tell_outputs C c tx i outs w = Inr w')"
  using run_op_complete [OF _ refl] run_op_runs by metis

text \<open>
  An operator that never finishes keeps the VM for ever: if, from where it is initialised,
  every step gives an output that is not the last and that can be sent, then the handler of the
  call does not return, so the VM does not take another message, not even \<open>stop\<close>.
\<close>

lemma call_never_returning:
  assumes "headers p = Some [String_t tx, String_t f]" and "body p = Some b"
    and "map_of b ''in'' = Some v" and "map_of (vm_operators vm) f = Some op"
    and "op_initialize op (Some v) = Inr (op1, None)" and "op1 \<in> S"
    and "\<forall>s \<in> S. \<exists>s1 y. op_step s = Inr (s1, Ok_output (Some y) False) \<and> s1 \<in> S \<and> val_ok y"
  shows "handle_call_function C p vm w = None"
proof -
  have sent: "\<exists>w'. tell_output C (vm_client vm) tx i out w = Inr w'"
    if "s \<in> S" "op_step s = Inr (s1, out)" for s s1 out i w
  proof -
    from assms(7) that obtain y where "out = Ok_output (Some y) False" "val_ok y" by fastforce
    then show ?thesis by (simp add: tell_output_def tell_ok)
  qed
  have "run_op C (vm_client vm) tx op_step 0 op1 w = None"
    by (rule run_op_diverges [OF assms(6) _ sent]) (use assms(7) in fastforce)+
  with assms(1-5) show ?thesis
    by (simp add: handle_call_function_def array_get_nth map_at_def after_def)
qed

lemma call_never_returning_witness:
  "let op = make_operator (Iterative (\<lambda>v. Inr (Got None)) (\<lambda>s. Inr (s, Ok_output (Some Null_t) False)))
   in handle_call_function sample_codec sample_call (sample_vm\<lparr>vm_operators := [(''f'', op)]\<rparr>) sample_world = None"
proof -
  let ?op = "make_operator (Iterative (\<lambda>v. Inr (Got None)) (\<lambda>s. Inr (s, Ok_output (Some Null_t) False)))"
  let ?op1 = "?op\<lparr>op_in := Some (Uint_t 7)\<rparr>"
  have "op_initialize ?op (Some (Uint_t 7)) = Inr (?op1, None)"
    by (simp add: op_initialize_def iterative_initialize_def operator_initialize_def make_operator_def)
  moreover have "\<forall>s \<in> {?op1}. \<exists>s1 y. op_step s = Inr (s1, Ok_output (Some y) False) \<and> s1 \<in> {?op1} \<and> val_ok y"
    by (simp add: op_step_def iterative_step_def make_operator_def)
  ultimately show ?thesis
    unfolding Let_def
    by (intro call_never_returning [where S = "{?op1}" and tx = "''t''" and f = "''f''" and
          b = "[(''in'', Uint_t 7)]" and v = "Uint_t 7"])
      (simp_all add: sample_call_def builder_defs in_body_def)
qed

section \<open>Subscriptions\<close>

text \<open>
  C6. Defining a component subscribes to what the VM then answers for: when the handler has
  created a component with a new name, the component is in the table, the subscriptions sent
  are those of the component and of its methods, in this order, followed by the answer, and
  they turn the channels that the VM had before into the channels that it has now.
\<close>

theorem define_subscribes:
  assumes "headers p = Some [String_t tx, String_t ty]" and "body p = Some b"
    and "map_of b ''name'' = Some (String_t cname)" and "map_of b ''in'' = Some v"
    and "map_of (vm_factories vm) ty = Some mk" and "map_of (vm_factories vm) cname = None"
    and "mk (Some v) = Inr (Got c)" and "map_of (vm_components vm) cname = None"
    and "handle_define_component C uuid p vm w = Inr (vm', w')"
    and "peered (c_socket (vm_client vm)) s w"
    and "length (box s w) + length (ops c) + 1 < mailbox_limit"
  shows "map_of (vm_components vm') cname = Some c \<and>
    vm_chans vm' = apply_packets (define_packets uuid cname c (vm_uuids vm)) (vm_chans vm) \<and>
    vm_chans vm' = vm_chans vm \<union> comp_chans cname c \<and>
    (\<exists>msgs bs. dump_all C (define_packets uuid cname c (vm_uuids vm)) = Inr msgs \<and>
       dump_packet C (respond_execute_ok_packet tx 0 True (Map_t [])) = Inr bs \<and>
       box s w' = box s w @ map snd msgs @ [bs])"
proof -
  let ?ps = "define_packets uuid cname c (vm_uuids vm)"
  obtain vm1 w1 msgs bs where te: "tell_expecting C ?ps vm w = Inr (vm1, w1)"
    and vm': "vm' = vm1\<lparr>vm_components := put cname c (vm_components vm1)\<rparr>"
    and sent: "dump_all C ?ps = Inr msgs"
      "dump_packet C (respond_execute_ok_packet tx 0 True (Map_t [])) = Inr bs"
      "box s w' = box s w @ map snd msgs @ [bs]"
    by (rule tell_all_then_answer [OF assms(9) [unfolded define_success [OF assms(1-7)]] assms(10)])
      (use assms(11) in simp_all)
  have "vm_chans vm' = apply_packets ?ps (vm_chans vm)"
    unfolding vm' by (rule define_chans [OF te assms(8)])
  with sent show ?thesis by (simp add: vm' apply_define)
qed

definition sample_component :: "val component_t" where
  "sample_component = make_component [(''m'', make_method (Instant_method (\<lambda>os v. Inr (os, Got v))))]"

definition sample_factory_vm :: "val vm_t" where
  "sample_factory_vm = sample_vm\<lparr>vm_factories := [(''T'', \<lambda>v. Inr (Got sample_component))]\<rparr>"

definition sample_define :: packet_t where
  "sample_define = define_component_packet execute ''t'' ''T'' ''c'' (Some Null_t)"

lemma sample_define_fields:
  "headers sample_define = Some [String_t ''t'', String_t ''T'']"
  "body sample_define = Some [(''in'', Null_t), (''name'', String_t ''c'')]"
  by (simp_all add: sample_define_def builder_defs in_body_def)

lemma sample_component_ops [simp]: "length (ops sample_component) = 1"
  by (simp add: sample_component_def make_component_def)

lemma sample_define_runs:
  "\<exists>vm' w'. handle_define_component C uuid sample_define (sample_factory_vm\<lparr>vm_components := cs\<rparr>) sample_world =
     Inr (vm', w')"
proof -
  let ?vm = "sample_factory_vm\<lparr>vm_components := cs\<rparr>"
  let ?ps = "define_packets uuid ''c'' sample_component (vm_uuids ?vm)"
  have "\<forall>e \<in> set ?ps. packet_ok (snd e)"
    by (simp add: define_packets_def sample_component_def make_component_def has_itype_def)
  then obtain vm1 w1 where "tell_expecting C ?ps ?vm sample_world = Inr (vm1, w1)"
    using tell_expecting_ok by blast
  moreover obtain w2 where "tell C (vm_client vm1) (respond_execute_ok_packet ''t'' 0 True (Map_t [])) w1 = Inr w2"
    using tell_ok [of "respond_execute_ok_packet ''t'' 0 True (Map_t [])" C "vm_client vm1" w1]
    by (auto simp: dict_ok_def)
  ultimately show ?thesis
    using define_success [OF sample_define_fields, of "''c''" Null_t ?vm "\<lambda>v. Inr (Got sample_component)" sample_component C uuid sample_world]
    by (simp add: sample_factory_vm_def)
qed

lemma define_subscribes_witness:
  "\<exists>vm' w' msgs bs. handle_define_component sample_codec (\<lambda>i. ''u'') sample_define sample_factory_vm sample_world = Inr (vm', w') \<and>
     vm_chans vm' = {Fn ''f'', Def ''T'', Del ''c'', Meth ''c'' ''m''} \<and>
     box 3 w' = map snd msgs @ [bs] \<and>
     dump_all sample_codec (define_packets (\<lambda>i. ''u'') ''c'' sample_component 0) = Inr msgs"
proof -
  obtain vm' w' where run: "handle_define_component sample_codec (\<lambda>i. ''u'') sample_define sample_factory_vm sample_world = Inr (vm', w')"
    using sample_define_runs [of sample_codec "\<lambda>i. ''u''" "[]"] by (auto simp: sample_factory_vm_def sample_vm_def)
  have vm: "vm_chans sample_factory_vm = {Fn ''f'', Def ''T''}" "comp_chans ''c'' sample_component = {Del ''c'', Meth ''c'' ''m''}"
    by (auto simp: vm_chans_def sample_factory_vm_def sample_vm_def comp_chans_def sample_component_def
        make_component_def)
  have "vm_chans vm' = {Fn ''f'', Def ''T''} \<union> {Del ''c'', Meth ''c'' ''m''} \<and>
    (\<exists>msgs bs. dump_all sample_codec (define_packets (\<lambda>i. ''u'') ''c'' sample_component 0) = Inr msgs \<and>
       box 3 w' = map snd msgs @ [bs])"
    using define_subscribes [OF sample_define_fields _ _ _ _ _ _ run, of "''c''" Null_t
        "\<lambda>v. Inr (Got sample_component)" sample_component 3] sample_peers(3)
    unfolding apply_define vm
    by (simp add: sample_factory_vm_def sample_vm_def sample_names mailbox_limit_def) blast
  with run show ?thesis by auto
qed

text \<open>
  C7. Deleting a component is the opposite: the component is gone from the table, the packets
  sent unsubscribe its methods and itself, and they turn the channels that the VM had into
  those that it has now, in which the component does not occur.
\<close>

theorem delete_unsubscribes:
  assumes "headers p = Some [String_t tx, String_t cname]"
    and "map_of (vm_components vm) cname = Some c" and "dict_ok (vm_components vm)"
    and "handle_delete_component C uuid p vm w = Inr (vm', w')"
    and "peered (c_socket (vm_client vm)) s w"
    and "length (box s w) + length (ops c) + 1 < mailbox_limit"
  shows "map_of (vm_components vm') cname = None \<and>
    vm_chans vm' = apply_packets (delete_packets uuid cname c (vm_uuids vm)) (vm_chans vm) \<and>
    vm_chans vm' = vm_chans vm - comp_chans cname c \<and>
    (\<exists>msgs bs. dump_all C (delete_packets uuid cname c (vm_uuids vm)) = Inr msgs \<and>
       dump_packet C (respond_execute_ok_packet tx 0 True (Map_t [])) = Inr bs \<and>
       box s w' = box s w @ map snd msgs @ [bs])"
proof -
  let ?ps = "delete_packets uuid cname c (vm_uuids vm)"
  let ?vm = "vm\<lparr>vm_components := del cname (vm_components vm)\<rparr>"
  have link: "peered (c_socket (vm_client ?vm)) s w" using assms(5) by simp
  obtain vm1 w1 msgs bs where te: "tell_expecting C ?ps ?vm w = Inr (vm1, w1)" and vm': "vm' = vm1"
    and sent: "dump_all C ?ps = Inr msgs"
      "dump_packet C (respond_execute_ok_packet tx 0 True (Map_t [])) = Inr bs"
      "box s w' = box s w @ map snd msgs @ [bs]"
    by (rule tell_all_then_answer [OF assms(4) [unfolded delete_success [OF assms(1,2)]] link])
      (use assms(6) in simp_all)
  have "vm_chans vm' = apply_packets ?ps (vm_chans vm)"
    unfolding vm' by (rule delete_chans [OF te assms(3,2)])
  moreover have "vm_components vm' = del cname (vm_components vm)"
    using tell_expecting_tables [OF te] vm' by simp
  ultimately show ?thesis using sent by (simp add: apply_delete)
qed

definition sample_component_vm :: "val vm_t" where
  "sample_component_vm = sample_factory_vm\<lparr>vm_components := [(''c'', sample_component)]\<rparr>"

lemma delete_unsubscribes_witness:
  "\<exists>vm' w'. handle_delete_component sample_codec (\<lambda>i. ''u'')
     (delete_component_packet execute ''t'' ''c'') sample_component_vm sample_world = Inr (vm', w') \<and>
     vm_chans vm' = {Fn ''f'', Def ''T''}"
proof -
  let ?p = "delete_component_packet execute ''t'' ''c''"
  let ?vm = "sample_component_vm\<lparr>vm_components := del ''c'' (vm_components sample_component_vm)\<rparr>"
  let ?ps = "delete_packets (\<lambda>i. ''u'') ''c'' sample_component 0"
  have "\<forall>e \<in> set ?ps. packet_ok (snd e)"
    by (simp add: delete_packets_def sample_component_def make_component_def has_itype_def Let_def)
  then obtain vm1 w1 where te: "tell_expecting sample_codec ?ps ?vm sample_world = Inr (vm1, w1)"
    using tell_expecting_ok by blast
  obtain w2 where "tell sample_codec (vm_client vm1) (respond_execute_ok_packet ''t'' 0 True (Map_t [])) w1 = Inr w2"
    using tell_ok [of "respond_execute_ok_packet ''t'' 0 True (Map_t [])" sample_codec "vm_client vm1" w1]
    by (auto simp: dict_ok_def)
  moreover have "vm_uuids sample_component_vm = 0"
    by (simp add: sample_component_vm_def sample_factory_vm_def sample_vm_def)
  ultimately have run: "handle_delete_component sample_codec (\<lambda>i. ''u'') ?p sample_component_vm sample_world = Inr (vm1, w2)"
    using te delete_success [of ?p "''t''" "''c''" sample_component_vm sample_component sample_codec "\<lambda>i. ''u''" sample_world]
    by (simp add: builder_defs sample_component_vm_def)
  have "vm_chans vm1 = vm_chans sample_component_vm - comp_chans ''c'' sample_component"
    using delete_unsubscribes [OF _ _ _ run, of "''t''" "''c''" sample_component 3] sample_peers(3)
    unfolding apply_delete
    by (simp add: builder_defs sample_component_vm_def sample_factory_vm_def sample_vm_def dict_ok_def
        sample_names mailbox_limit_def)
  moreover have "vm_chans sample_component_vm - comp_chans ''c'' sample_component = {Fn ''f'', Def ''T''}"
    by (auto simp: vm_chans_def sample_component_vm_def sample_factory_vm_def sample_vm_def comp_chans_def)
  ultimately show ?thesis using run by auto
qed

text \<open>
  C8. Stopping unsubscribes from everything: the packets that \<open>on_stop\<close> produces remove, from
  the channels that a VM with these tables answers for, each one, and nothing is left.
\<close>

theorem stop_unsubscribes_all:
  assumes "on_stop C uuid vm = Inr (vm', msgs)"
  shows "dump_all C (stop_packets uuid vm) = Inr msgs \<and>
    apply_packets (stop_packets uuid vm) (vm_chans vm) = {}"
  using assms by (auto simp: on_stop_def Let_def bindR_eq_Inr apply_stop)

lemma stop_unsubscribes_all_witness:
  "\<exists>vm' msgs. on_stop sample_codec (\<lambda>i. ''u'') sample_component_vm = Inr (vm', msgs) \<and>
     length msgs = 4 \<and> apply_packets (stop_packets (\<lambda>i. ''u'') sample_component_vm)
       {Fn ''f'', Def ''T'', Del ''c'', Meth ''c'' ''m''} = {}"
proof -
  let ?ps = "stop_packets (\<lambda>i. ''u'') sample_component_vm"
  have pkt: "packet_ok (define_component_packet unsubscribe tx a [] None)" for tx a
    by (simp add: packet_ok_def builder_defs in_body_def has_itype_def dict_ok_def)
  note defs = stop_packets_def sample_component_vm_def sample_factory_vm_def sample_vm_def
    sample_component_def make_component_def has_itype_def Let_def
  have "\<exists>msgs. dump_all sample_codec qs = Inr msgs \<and> length msgs = length qs"
    if "\<forall>e \<in> set qs. packet_ok (snd e)" for qs
    using that
  proof (induction qs)
    case (Cons e qs)
    obtain tx p where "e = (tx, p)" by fastforce
    with Cons dump_packet_ok [of p sample_codec] show ?case by auto
  qed simp
  moreover have "\<forall>e \<in> set ?ps. packet_ok (snd e)" "length ?ps = 4" by (simp_all add: defs pkt)
  ultimately obtain msgs where "dump_all sample_codec ?ps = Inr msgs" "length msgs = 4" by metis
  then obtain vm' where run: "on_stop sample_codec (\<lambda>i. ''u'') sample_component_vm = Inr (vm', msgs)"
    by (simp add: on_stop_def Let_def)
  have "vm_chans sample_component_vm = {Fn ''f'', Def ''T'', Del ''c'', Meth ''c'' ''m''}"
    by (auto simp: vm_chans_def comp_chans_def defs)
  with stop_unsubscribes_all [OF run] run \<open>length msgs = 4\<close> show ?thesis by auto
qed

text \<open>
  Defining a component again under the name of one that exists is not refused (the test
  looks among the component types) and leaks channels: the old component is replaced, but a
  method that only the old one had stays subscribed, and not even stopping unsubscribes it.
\<close>

lemma redefining_leaks_channels:
  assumes "headers p = Some [String_t tx, String_t ty]" and "body p = Some b"
    and "map_of b ''name'' = Some (String_t cname)" and "map_of b ''in'' = Some v"
    and "map_of (vm_factories vm) ty = Some mk" and "map_of (vm_factories vm) cname = None"
    and "mk (Some v) = Inr (Got c)"
    and "map_of (vm_components vm) cname = Some old" and "dict_ok (vm_components vm)"
    and "m \<in> fst ` set (ops old)" and "m \<notin> fst ` set (ops c)"
    and "handle_define_component C uuid p vm w = Inr (vm', w')"
  shows "map_of (vm_components vm') cname = Some c \<and> Meth cname m \<notin> vm_chans vm' \<and>
    Meth cname m \<in> apply_packets (define_packets uuid cname c (vm_uuids vm) @ stop_packets uuid vm')
      (vm_chans vm)"
proof -
  obtain vm1 w1 where te: "tell_expecting C (define_packets uuid cname c (vm_uuids vm)) vm w = Inr (vm1, w1)"
    and vm': "vm' = vm1\<lparr>vm_components := put cname c (vm_components vm1)\<rparr>"
    using assms(12) unfolding define_success [OF assms(1-7)] by (auto simp: bindR_eq_Inr)
  have tabs: "vm_components vm' = put cname c (vm_components vm)"
    using tell_expecting_tables [OF te] vm' by simp
  have only: "co = c" if "(cname, co) \<in> set (vm_components vm')" for co
  proof -
    have "dict_ok (vm_components vm')" using assms(9) by (simp add: tabs)
    with that have "map_of (vm_components vm') cname = Some co"
      by (simp add: dict_ok_distinct)
    then show ?thesis by (simp add: tabs)
  qed
  have gone: "Meth cname m \<notin> vm_chans vm'"
    using only assms(11) by (fastforce simp: vm_chans_def comp_chans_def)
  have had: "Meth cname m \<in> vm_chans vm"
  proof -
    have "Meth cname m \<in> comp_chans cname old" using assms(10) by (simp add: comp_chans_def)
    with map_of_SomeD [OF assms(8)] show ?thesis unfolding vm_chans_def by blast
  qed
  have "apply_packets (stop_packets uuid vm') X = X - vm_chans vm'" for X
    by (simp add: stop_packets_def apply_unsubscribes [where f = Fn] apply_unsubscribes [where f = Def]
        apply_component_packets vm_chans_def Let_def) blast
  with gone had show ?thesis by (simp add: tabs apply_define)
qed

lemma redefining_leaks_channels_witness:
  "let old = make_component [(''x'', make_method (Instant_method (\<lambda>os v. Inr (os, Got v))))];
       vm = sample_factory_vm\<lparr>vm_components := [(''c'', old)]\<rparr>
   in \<exists>vm' w'. handle_define_component sample_codec (\<lambda>i. ''u'') sample_define vm sample_world = Inr (vm', w') \<and>
        Meth ''c'' ''x'' \<notin> vm_chans vm' \<and>
        Meth ''c'' ''x'' \<in> apply_packets (define_packets (\<lambda>i. ''u'') ''c'' sample_component 0 @
          stop_packets (\<lambda>i. ''u'') vm') (vm_chans vm)"
proof -
  let ?old = "make_component [(''x'', make_method (Instant_method (\<lambda>os v. Inr (os, Got v))))] :: val component_t"
  let ?vm = "sample_factory_vm\<lparr>vm_components := [(''c'', ?old)]\<rparr>"
  obtain vm' w' where run: "handle_define_component sample_codec (\<lambda>i. ''u'') sample_define ?vm sample_world = Inr (vm', w')"
    using sample_define_runs by blast
  have "Meth ''c'' ''x'' \<notin> vm_chans vm' \<and>
        Meth ''c'' ''x'' \<in> apply_packets (define_packets (\<lambda>i. ''u'') ''c'' sample_component (vm_uuids ?vm) @
          stop_packets (\<lambda>i. ''u'') vm') (vm_chans ?vm)"
    using redefining_leaks_channels [OF sample_define_fields _ _ _ _ _ _ _ _ _ run, of "''c''" Null_t
        "\<lambda>v. Inr (Got sample_component)" sample_component ?old "''x''"]
    by (simp add: sample_factory_vm_def dict_ok_def make_component_def sample_component_def del: apply_packets_simps)
  moreover have "vm_uuids ?vm = 0" by (simp add: sample_factory_vm_def sample_vm_def)
  ultimately show ?thesis using run by (auto simp: Let_def simp del: apply_packets_simps)
qed

text \<open>
  Importing a module subscribes to what it adds: the subscriptions that
  \<open>on_import_module\<close> produces turn the channels that the VM had into those that it has with
  the module, whose operators and component types are new unless the name was taken.
\<close>

lemma import_subscribes:
  assumes "on_import_module C uuid md vm = Inr (vm', msgs)"
  shows "dump_all C (import_packets uuid md (vm_uuids vm)) = Inr msgs \<and>
    vm_chans vm' = apply_packets (import_packets uuid md (vm_uuids vm)) (vm_chans vm) \<and>
    vm_chans vm' = vm_chans vm \<union> Fn ` fst ` set (mod_ops md) \<union> Def ` fst ` set (mod_factories md)"
  using assms import_chans [OF assms]
  by (auto simp: on_import_module_def Let_def bindR_eq_Inr apply_import)

lemma import_subscribes_witness:
  "let md = \<lparr>mod_ops = [(''g'', sample_op)], mod_factories = []\<rparr> :: val module_t
   in \<exists>vm' msgs. on_import_module sample_codec (\<lambda>i. ''u'') md sample_vm = Inr (vm', msgs) \<and>
        vm_chans vm' = {Fn ''f'', Fn ''g''}"
proof -
  let ?md = "\<lparr>mod_ops = [(''g'', sample_op)], mod_factories = []\<rparr> :: val module_t"
  obtain bs where "dump_packet sample_codec (call_function_packet subscribe ''u'' ''g'' None) = Inr bs"
    using dump_packet_ok [of "call_function_packet subscribe ''u'' ''g'' None" sample_codec]
    by (auto simp: has_itype_def)
  then obtain vm' where run: "on_import_module sample_codec (\<lambda>i. ''u'') ?md sample_vm = Inr (vm', [(''u'', bs)])"
    by (simp add: on_import_module_def import_packets_def Let_def)
  have "vm_chans sample_vm = {Fn ''f''}" by (simp add: vm_chans_def sample_vm_def)
  with import_subscribes [OF run] run show ?thesis unfolding Let_def by auto
qed

section \<open>The end of a VM\<close>

text \<open>
  C38. The closing loop ends: when nothing arrives any more, it is left after at most four
  turns. If responses were still missing then, the static counter is left at its limit, and
  the closing loop of the next VM in the process does not wait at all, whatever it expects.
\<close>

theorem squeeze_ends:
  assumes "snd (monitor_wait (monitors w) (c_monitor (vm_client vm))) = None"
  shows "\<exists>g'. squeeze_turns 4 C vm g w = Inr (Squeezed vm g' w) \<and>
    (vm_expected vm = {} \<or> (\<forall>C' vm' w'. vm_squeeze C' vm' g' w' = Inr (Squeezed vm' g' w')))"
proof -
  obtain g' where "squeeze_turns 4 C vm g w = Inr (Squeezed vm g' w)"
    "vm_expected vm = {} \<or> vm_retry g' \<ge> 3"
    using quiet_squeeze_ends [OF assms, of C g] by blast
  then show ?thesis using squeeze_out [of _ g'] by blast
qed

lemma squeeze_ends_witness:
  "\<exists>g'. squeeze_turns 4 sample_codec (sample_vm\<lparr>vm_expected := {''t''}\<rparr>) \<lparr>vm_states = [], vm_retry = 0\<rparr> sample_world =
     Inr (Squeezed (sample_vm\<lparr>vm_expected := {''t''}\<rparr>) g' sample_world) \<and>
     vm_squeeze sample_codec (sample_vm\<lparr>vm_expected := {''s''}\<rparr>) g' sample_world =
       Inr (Squeezed (sample_vm\<lparr>vm_expected := {''s''}\<rparr>) g' sample_world)"
proof -
  let ?vm = "sample_vm\<lparr>vm_expected := {''t''}\<rparr>"
  have "snd (monitor_wait (monitors sample_world) (c_monitor (vm_client ?vm))) = None"
    by (simp add: monitor_wait_def sample_world_def sample_vm_def)
  from squeeze_ends [OF this, of sample_codec "\<lparr>vm_states = [], vm_retry = 0\<rparr>"] show ?thesis by auto
qed

text \<open>
  The name of a VM stays taken: in every phase of \<open>vm_start\<close> that has not failed, among
  them the one after its normal end, a \<open>vm_start\<close> with the same url and name throws, whatever
  other threads have done in between, \<open>vm_stop\<close> included.
\<close>

lemma finished_vm_keeps_name:
  assumes "vm_lives C uuid (vm_id_of url name) mods (g, w, ph)" and "\<not> aborted ph"
  shows "vm_begin url name g w' =
    Inl (Throw (''The VM name '' @ quoted name @ '' is already occupied for the url '' @ quoted url @ ''.''))"
  using lives_name [OF assms(1)] assms(2) by (simp add: vm_begin_def)

text \<open>
  A broker that rejects the connection is not noticed: the VM tests whether the answer
  has a \<open>status\<close>, not what it is, so an answer with \<open>status\<close> false is accepted like one with
  true, and the reason that comes with it is dropped.
\<close>

lemma rejected_connection_accepted:
  assumes "ptype p = respond" and "get_tx_id p = Inr tx" and "body p = Some b"
    and "map_of b ''status'' = Some (Bool_t status)"
  shows "vm_check_answer vm_id tx p g = (g, Inr ())"
  using assms by (simp add: vm_check_answer_def map_at_as_def map_at_def)

lemma rejected_connection_accepted_witness:
  "vm_check_answer ''u:n'' ''t'' (respond_err_packet ''t'' ''no'') \<lparr>vm_states = [], vm_retry = 0\<rparr> =
     (\<lparr>vm_states = [], vm_retry = 0\<rparr>, Inr ())"
proof -
  let ?p = "respond_err_packet ''t'' ''no''"
  have "ptype ?p = respond" "get_tx_id ?p = Inr ''t''"
    by (simp add: respond_err_packet_def new_packet_def, simp)
  moreover have "body ?p = Some [(''reason'', String_t ''no''), (''status'', Bool_t False)]"
    by (simp add: respond_err_packet_def new_packet_def)
  ultimately show ?thesis by (rule rejected_connection_accepted [where status = False]) simp
qed

text \<open>A VM without modules that runs to its end, with the world given at each wait.\<close>

definition life_codec :: codec where
  "life_codec = table_codec [header_json (respond_ok_packet ''u''), body_json (respond_ok_packet ''u'')]"

definition life_client :: client_t where
  "life_client = \<lparr>c_socket = Suc 0, c_monitor = 7, external_monitor = True\<rparr>"

definition life_world :: "string \<Rightarrow> msg list \<Rightarrow> world" where
  "life_world s ms = upd_socket (Suc 0) (\<lambda>x. x\<lparr>my_mailbox := ms\<rparr>)
     (sample_world\<lparr>monitors := [7 \<mapsto> [\<lparr>who = ''1'', what = s\<rparr>]]\<rparr>)"

lemma life_world_facts:
  "monitor_wait (monitors (life_world s ms)) 7 = ([7 \<mapsto> []], Some \<lparr>who = ''1'', what = s\<rparr>)"
  "box (Suc 0) (life_world s ms\<lparr>monitors := x\<rparr>) = ms"
  "peered (Suc 0) 3 (life_world s ms)" "box 3 (life_world s ms) = []"
  by (simp_all add: life_world_def monitor_wait_def upd_socket_def box_def peered_def sample_world_def
      sample_socket_def)

lemma life_hello:
  "\<exists>g vm w. vm_hello life_codec (\<lambda>i. ''u'') ''url:n'' life_client True 0 \<lparr>vm_states = [], vm_retry = 0\<rparr>
       (life_world ''x'' []) = (g, Inr (vm, w)) \<and>
     vm_client vm = life_client \<and> vm_operators vm = [] \<and> vm_factories vm = [] \<and>
     vm_components vm = [] \<and> vm_expected vm = {}"
proof -
  obtain w1 where w1: "client_dialed life_client True (life_world ''x'' []) = Inr (life_client, w1)"
    "w1 = socket_set_monitor (Suc 0) 7 (life_world ''x'' [])"
    by (simp add: client_dialed_def life_client_def)
  have link: "peered (Suc 0) 3 (w1\<lparr>next_id := k\<rparr>)" "box 3 (w1\<lparr>next_id := k\<rparr>) = []" for k
    by (simp_all add: w1(2) socket_set_monitor_def life_world_def upd_socket_def peered_def box_def
        sample_world_def sample_socket_def)
  have ok: "packet_ok (conn_packet connect ''u'')"
    by (simp add: packet_ok_def conn_packet_def new_packet_def has_itype_def dict_ok_def)
  have "\<exists>w3. client_send life_codec life_client (conn_packet connect ''u'') (w1\<lparr>next_id := k\<rparr>) = Inr (w3, True)" for k
    using dump_packet_ok [OF ok, of life_codec] send_peered(1) [OF link(1)] link(2)
    by (simp add: client_send_def send_bytes_def life_client_def mailbox_limit_def prod_eq_iff)
  from hello_sent [OF w1(1) this] show ?thesis by fastforce
qed

lemma life_answer:
  assumes "vm_client vm = life_client"
  shows "\<exists>ms w. vm_answer life_codec ''url:n'' ''u'' vm g (life_world ''recv'' ms) = (g, Inr (vm, w))"
proof -
  let ?p = "respond_ok_packet ''u''"
  have ok: "packet_ok ?p" by (simp add: packet_ok_def builder_defs has_itype_def dict_ok_def)
  have fit: "packet_fits life_codec ?p" by (simp add: packet_fits_def life_codec_def)
  have fth: "packet_faithful life_codec ?p"
    by (auto simp: packet_faithful_def life_codec_def intro!: table_codec_faithful)
  obtain bs where bs: "load_packet life_codec bs False = Inr (wire_packet False ?p)"
    using dumped [OF ok fit fth] by metis
  let ?w = "life_world ''recv'' [bs]\<lparr>monitors := [7 \<mapsto> []]\<rparr>"
  obtain w where w: "client_recv life_codec life_client False ?w = Inr (w, Some (wire_packet False ?p))"
    using client_recv_one [of life_client ?w bs "[]" life_codec False] bs
    by (auto simp: life_client_def life_world_facts)
  have b: "body (wire_packet False ?p) = Some [(''status'', Bool_t True)]" "ptype (wire_packet False ?p) = respond"
    by (simp_all add: wire_packet_def wire_map_def respond_ok_packet_def new_packet_def)
  have "get_tx_id (wire_packet False ?p) = Inr ''u''" by (simp add: tx_id_wire)
  with b have chk: "vm_check_answer ''url:n'' ''u'' (wire_packet False ?p) g = (g, Inr ())"
    by (simp add: vm_check_answer_def map_at_as_def map_at_def)
  have "c_monitor life_client = 7" by (simp add: life_client_def)
  then have "vm_answer life_codec ''url:n'' ''u'' vm g (life_world ''recv'' [bs]) = (g, Inr (vm, w))"
    unfolding vm_answer_def assms by (simp add: life_world_facts(1) Let_def w chk)
  then show ?thesis by blast
qed

lemma life_stop:
  assumes "vm_client vm = life_client" "vm_operators vm = []" "vm_factories vm = []" "vm_components vm = []"
  shows "\<exists>vm' w. vm_turn life_codec (\<lambda>i. ''u'') vm (life_world ''stop'' []) = Some (Inr (Vm_off vm' w)) \<and>
    vm_expected vm' = vm_expected vm \<and> vm_client vm' = life_client"
proof -
  have "c_monitor life_client = 7" by (simp add: life_client_def)
  with assms show ?thesis
    by (simp add: vm_turn_def life_world_facts(1) on_stop_def stop_packets_def Let_def)
qed

lemma life_bye:
  assumes "vm_client vm = life_client"
  shows "\<exists>vm' w. vm_bye life_codec (\<lambda>i. ''u'') ''url:n'' vm g (life_world ''x'' []) = (g, Inr (vm', w)) \<and>
    vm_client vm' = life_client"
proof -
  have ok: "packet_ok (conn_packet disconnect ''u'')"
    by (simp add: packet_ok_def conn_packet_def new_packet_def has_itype_def dict_ok_def)
  have "\<exists>w3. client_send life_codec life_client (conn_packet disconnect ''u'') (life_world ''x'' []) = Inr (w3, True)"
    using dump_packet_ok [OF ok, of life_codec] send_peered(1) [OF life_world_facts(3)] life_world_facts(4)
    by (simp add: client_send_def send_bytes_def life_client_def mailbox_limit_def prod_eq_iff)
  then show ?thesis using assms by (auto simp: vm_bye_def)
qed

lemma life_end:
  assumes "vm_client vm = life_client"
  shows "\<exists>w. vm_end life_codec ''url:n'' vm g (life_world ''x'' []) = (g, Inr w)"
proof -
  have c: "c_monitor life_client = 7" "c_socket life_client = Suc 0" by (simp_all add: life_client_def)
  have "snd (recv (Suc 0) (life_world ''x'' []\<lparr>monitors := [7 \<mapsto> []]\<rparr>)) = None"
    by (simp add: recv_simps life_world_facts(2))
  then show ?thesis
    unfolding vm_end_def assms c Let_def
    by (auto simp: life_world_facts(1) client_recv_def bindR_eq_Inr c split: prod.splits)
qed

lemma finished_vm_keeps_name_witness:
  "\<exists>g w. vm_lives life_codec (\<lambda>i. ''u'') ''url:n'' ([] :: val module_t list) (g, w, Ended) \<and>
     (\<exists>e. vm_begin ''url'' ''n'' g w = Inl (Throw e))"
proof -
  let ?live = "vm_lives life_codec (\<lambda>i. ''u'') ''url:n'' ([] :: val module_t list)"
  note go = vm_lives.step [where s = "(g, w, ph)" and t = "(g', w', ph')" for g w ph g' w' ph']
  note jump = go [OF _ vm_start_step.others]
  obtain g vm w where h: "vm_hello life_codec (\<lambda>i. ''u'') ''url:n'' life_client True 0
      \<lparr>vm_states = [], vm_retry = 0\<rparr> (life_world ''x'' []) = (g, Inr (vm :: val vm_t, w))"
    and vm: "vm_client vm = life_client" "vm_operators vm = []" "vm_factories vm = []"
      "vm_components vm = []" "vm_expected vm = {}"
    using life_hello by blast
  have "?live (g, w, Greeting ''u'' vm)" using vm_lives.hello [OF _ h] by simp
  moreover obtain ms w1 where "vm_answer life_codec ''url:n'' ''u'' vm g (life_world ''recv'' ms) = (g, Inr (vm, w1))"
    using life_answer [OF vm(1)] by blast
  ultimately have "?live (g, w1, Loading vm)" by (metis go jump vm_start_step.own vm_own_step.answer)
  then have "?live (g, w1, Serving vm)" by (rule go) (rule vm_start_step.own, rule vm_own_step.load, simp)
  moreover obtain vm1 w2 where "vm_turn life_codec (\<lambda>i. ''u'') vm (life_world ''stop'' []) = Some (Inr (Vm_off vm1 w2))"
    and vm1: "vm_expected vm1 = {}" "vm_client vm1 = life_client"
    using life_stop [OF vm(1-4)] vm(5) by auto
  ultimately have "?live (g, w2, Closing vm1)" by (metis go jump vm_start_step.own vm_own_step.stopped)
  then have "?live (g, w2, Leaving vm1)"
    by (rule go) (rule vm_start_step.own, rule vm_own_step.squeezed, simp add: vm_squeeze_def vm1)
  moreover obtain vm2 w3 where "vm_bye life_codec (\<lambda>i. ''u'') ''url:n'' vm1 g (life_world ''x'' []) = (g, Inr (vm2, w3))"
    and vm2: "vm_client vm2 = life_client"
    using life_bye [OF vm1(2)] by blast
  ultimately have "?live (g, w3, Ending vm2)" by (metis go jump vm_start_step.own vm_own_step.bye)
  moreover obtain w4 where "vm_end life_codec ''url:n'' vm2 g (life_world ''x'' []) = (g, Inr w4)"
    using life_end [OF vm2] by blast
  ultimately have "?live (g, w4, Ended)" by (metis go jump vm_start_step.own vm_own_step.finish)
  moreover have "vm_id_of ''url'' ''n'' = ''url:n''" by (simp add: vm_id_of_def)
  ultimately show ?thesis
    using finished_vm_keeps_name [of life_codec "\<lambda>i. ''u''" "''url''" "''n''" "[]" g w4 Ended] by fastforce
qed

end
