(* ===== verification/StringUtil.thy ===== *)
theory StringUtil
  imports Prelude "HOL-Library.Sublist"
begin

text \<open>
  String helpers (\<open>vm/src/string_util.hpp\<close>, \<open>vm/src/string_util.cpp\<close>): splitting by a
  delimiter, joining, and trimming white space.
\<close>

section \<open>Splitting\<close>

text \<open>The first place where \<open>d\<close> occurs in a string (\<open>std::string::find\<close>).\<close>

fun find_sub :: "string \<Rightarrow> string \<Rightarrow> nat option" where
  "find_sub d [] = (if d = [] then Some 0 else None)"
| "find_sub d (c # s) = (if prefix d (c # s) then Some 0 else map_option Suc (find_sub d s))"

lemma find_sub_Some: "find_sub d s = Some i \<Longrightarrow> s = take i s @ d @ drop (i + length d) s"
proof (induction s arbitrary: i)
  case Nil
  then show ?case by (auto split: if_splits)
next
  case (Cons c s)
  show ?case
  proof (cases "prefix d (c # s)")
    case True
    with Cons.prems show ?thesis by (auto simp: prefix_def)
  next
    case False
    with Cons.prems obtain j where j: "find_sub d s = Some j" "i = Suc j" by auto
    with Cons.IH [OF j(1)] show ?thesis by simp
  qed
qed

lemma find_sub_length: "find_sub d s = Some i \<Longrightarrow> i + length d \<le> length s"
proof (induction s arbitrary: i)
  case (Cons c s)
  then show ?case
    by (auto simp: prefix_length_le split: if_splits dest: prefix_length_le)
qed (auto split: if_splits)

text \<open>The elements of a \<open>split_view\<close> whose delimiter is not empty.\<close>

function split_on :: "string \<Rightarrow> string \<Rightarrow> string list" where
  "split_on d s =
     (if d = [] then [s]
      else (case find_sub d s of
              None \<Rightarrow> [s]
            | Some i \<Rightarrow> take i s # split_on d (drop (i + length d) s)))"
  by pat_completeness auto
termination
proof (relation "measure (\<lambda>(d, s). length s)")
  fix d s :: string and i assume "d \<noteq> []" "find_sub d s = Some i"
  then show "((d, drop (i + length d) s), (d, s)) \<in> measure (\<lambda>(d, s). length s)"
    using find_sub_length [of d s i] by (cases d) auto
qed simp

declare split_on.simps [simp del]

text \<open>
  \<open>split_text\<close>: a \<open>split_view\<close> of an empty range has no elements, and with an empty
  delimiter it yields the characters one by one.
\<close>

definition split_text :: "string \<Rightarrow> string \<Rightarrow> string list" where
  "split_text s delimiter =
     (if s = [] then [] else if delimiter = [] then map (\<lambda>c. [c]) s else split_on delimiter s)"

section \<open>Joining\<close>

fun join :: "string \<Rightarrow> string list \<Rightarrow> string" where
  "join delimiter [] = []"
| "join delimiter [c] = c"
| "join delimiter (c # cs) = c @ delimiter @ join delimiter cs"

lemma join_Cons: "join d (c # cs) = (if cs = [] then c else c @ d @ join d cs)"
  by (cases cs) auto

lemma join_append:
  "join d (xs @ ys) = (if xs = [] then join d ys else if ys = [] then join d xs
     else join d xs @ d @ join d ys)"
  by (induction xs) (auto simp: join_Cons)

lemma join_Nil_delimiter: "join [] cs = concat cs"
  by (induction cs) (auto simp: join_Cons)

lemma split_on_not_Nil [simp]: "split_on d s \<noteq> []"
  by (subst split_on.simps) (auto split: option.splits)

lemma join_split_on: "join d (split_on d s) = s"
proof (induction d s rule: split_on.induct)
  case (1 d s)
  show ?case
  proof (cases "d = []")
    case False
    show ?thesis
    proof (cases "find_sub d s")
      case (Some i)
      have "join d (split_on d (drop (i + length d) s)) = drop (i + length d) s"
        by (rule "1.IH" [OF False Some])
      then show ?thesis
        using False Some find_sub_Some [OF Some]
        by (subst split_on.simps) (simp add: join_Cons)
    qed (use False in \<open>simp add: split_on.simps [of d s]\<close>)
  next
    case True
    then show ?thesis by (simp add: split_on.simps [of "[]" s])
  qed
qed

lemma join_split_text: "join d (split_text s d) = s"
proof -
  have "concat (map (\<lambda>c. [c]) s) = s" by (induction s) auto
  then show ?thesis by (simp add: split_text_def join_split_on join_Nil_delimiter)
qed

text \<open>No piece contains the delimiter again.\<close>

lemma find_sub_None: "find_sub d s = None \<Longrightarrow> \<not> sublist d s"
proof (induction s)
  case (Cons c s)
  then have "\<not> prefix d (c # s)" "find_sub d s = None" by (auto split: if_splits)
  with Cons.IH show ?case by (simp add: sublist_Cons_right)
qed (auto split: if_splits)

lemma find_sub_first: "find_sub d s = Some i \<Longrightarrow> d \<noteq> [] \<Longrightarrow> \<not> sublist d (take i s)"
proof (induction s arbitrary: i)
  case (Cons c s)
  show ?case
  proof (cases "prefix d (c # s)")
    case True
    with Cons.prems show ?thesis by auto
  next
    case False
    with Cons.prems obtain j where j: "find_sub d s = Some j" "i = Suc j" by auto
    have "\<not> prefix d (c # take j s)"
      using False by (metis prefix_order.trans take_Suc_Cons take_is_prefix)
    with Cons.IH [OF j(1) Cons.prems(2)] j(2) show ?thesis
      by (simp add: sublist_Cons_right)
  qed
qed (auto split: if_splits)

lemma split_on_pieces: "d \<noteq> [] \<Longrightarrow> p \<in> set (split_on d s) \<Longrightarrow> \<not> sublist d p"
proof (induction d s rule: split_on.induct)
  case (1 d s)
  show ?case
  proof (cases "find_sub d s")
    case None
    with 1 show ?thesis by (simp add: split_on.simps [of d s] find_sub_None)
  next
    case (Some i)
    with 1 show ?thesis by (auto simp: split_on.simps [of d s] find_sub_first)
  qed
qed

section \<open>Numbers\<close>

text \<open>\<open>std::to_string\<close> on an \<open>int64_t\<close>, kept as the 64 bits of the number.\<close>

definition show_i64 :: "u64 \<Rightarrow> string" where
  "show_i64 w = (if sint w < 0 then CHR ''-'' # show_nat (nat (- sint w)) else show_nat (nat (sint w)))"

section \<open>Trimming\<close>

definition is_digit :: "char \<Rightarrow> bool" where
  "is_digit c \<longleftrightarrow> 48 \<le> (of_char c :: nat) \<and> (of_char c :: nat) \<le> 57"

definition is_space :: "char \<Rightarrow> bool" where
  "is_space c \<longleftrightarrow> c \<in> {CHR 0x20, CHR 0x09, CHR 0x0A, CHR 0x0B, CHR 0x0C, CHR 0x0D}"

definition ltrim :: "string \<Rightarrow> string" where
  "ltrim s = dropWhile is_space s"

definition rtrim :: "string \<Rightarrow> string" where
  "rtrim s = rev (dropWhile is_space (rev s))"

text \<open>\<open>trim\<close> changes the string it is given.\<close>

definition trim :: "string \<Rightarrow> string" where
  "trim s = ltrim (rtrim s)"

lemma trim_sublist: "sublist (trim s) s"
proof -
  have "suffix (dropWhile is_space (rev s)) (rev s)" by (rule suffix_dropWhile)
  then have "prefix (rtrim s) s"
    unfolding rtrim_def by (simp add: suffix_to_prefix)
  moreover have "suffix (trim s) (rtrim s)"
    unfolding trim_def ltrim_def by (rule suffix_dropWhile)
  ultimately show ?thesis
    by (meson prefix_imp_sublist sublist_order.order.trans suffix_imp_sublist)
qed

lemma trim_length: "length (trim s) \<le> length s"
  by (rule sublist_length_le [OF trim_sublist])

end
