(* ===== verification/SplitText.thy ===== *)
theory SplitText
  imports StringUtil Modules Exceptions
begin

text \<open>
  Splitting a text into chunks (\<open>vm/src/split_text.cpp\<close>): pieces between separators are
  merged into chunks of a bounded size that overlap, either with one separator or with a
  list of separators that is tried recursively on the pieces that are too big; and the two
  operators that parse the parameters. Sizes are \<open>size_t\<close>, 64-bit words that wrap around.
\<close>

section \<open>Merging\<close>

definition flength :: "string \<Rightarrow> u64" where
  "flength s = word_of_nat (length s)"

definition length_function_of :: "string \<Rightarrow> (string \<Rightarrow> u64) res" where
  "length_function_of name =
     (if name = ''default'' \<or> name = ''string'' then Inr flength else Inl (LibThrow ''out_of_range''))"

definition check_chunk_overlap :: "u64 \<Rightarrow> u64 \<Rightarrow> unit res" where
  "check_chunk_overlap chunk_size chunk_overlap =
     (if chunk_overlap > chunk_size
      then Inl (Throw (''chunk_overlap('' @ show_u64 chunk_overlap @
             '') should be smaller than chunk size('' @ show_u64 chunk_size @ '').''))
      else Inr ())"

definition calculate_total_direct :: "string list \<Rightarrow> u64 \<Rightarrow> u64 \<Rightarrow> u64" where
  "calculate_total_direct current separator_len new_len =
     (if current = [] then new_len
      else (let r = foldl (\<lambda>a e. a + flength e) 0 current +
                    word_of_nat (length current - 1) * separator_len
            in r + (if new_len \<noteq> 0 then separator_len + new_len else 0)))"

definition complete_document :: "string \<Rightarrow> string list \<Rightarrow> string list \<Rightarrow> string list" where
  "complete_document separator current docs =
     (let doc = trim (join separator current) in if doc \<noteq> [] then docs @ [doc] else docs)"

text \<open>The inner loop, which drops pieces from the front; \<open>at(0)\<close> throws on an empty deque.\<close>

fun drop_front ::
  "(string \<Rightarrow> u64) \<Rightarrow> u64 \<Rightarrow> u64 \<Rightarrow> u64 \<Rightarrow> u64 \<Rightarrow> string list \<Rightarrow> u64 \<Rightarrow> u64 \<Rightarrow>
     (string list \<times> u64 \<times> u64) res" where
  "drop_front fl chunk_size chunk_overlap separator_len new_len current tot total_if_merge =
     (if tot > chunk_overlap \<or> (total_if_merge > chunk_size \<and> tot > 0) then
        (case current of
           [] \<Rightarrow> Inl (LibThrow ''out_of_range'')
         | first # rest \<Rightarrow>
             (let sl = (if rest \<noteq> [] then separator_len else 0);
                  tot' = tot - (fl first + sl)
              in drop_front fl chunk_size chunk_overlap separator_len new_len rest tot'
                   (tot' + new_len + sl)))
      else Inr (current, tot, total_if_merge))"

declare drop_front.simps [simp del]

fun merge_loop ::
  "(string \<Rightarrow> u64) \<Rightarrow> string \<Rightarrow> u64 \<Rightarrow> u64 \<Rightarrow> string list \<Rightarrow> string list \<Rightarrow> string list \<Rightarrow> u64 \<Rightarrow>
     string list res" where
  "merge_loop fl separator chunk_size chunk_overlap [] docs current tot =
     Inr (complete_document separator current docs)"
| "merge_loop fl separator chunk_size chunk_overlap (s # splits) docs current tot =
     (let separator_len = fl separator; new_len = fl s;
          total_if_merge = tot + new_len + (if current \<noteq> [] then separator_len else 0)
      in bindR (if total_if_merge > chunk_size \<and> current \<noteq> []
                then mapR_res (Pair (complete_document separator current docs))
                       (drop_front fl chunk_size chunk_overlap separator_len new_len current tot
                          total_if_merge)
                else Inr (docs, current, tot, total_if_merge))
         (\<lambda>(docs', current', _, tot').
            merge_loop fl separator chunk_size chunk_overlap splits docs' (current' @ [s]) tot'))"

definition merge_splits ::
  "string list \<Rightarrow> string \<Rightarrow> u64 \<Rightarrow> u64 \<Rightarrow> (string \<Rightarrow> u64) \<Rightarrow> string list res" where
  "merge_splits splits separator chunk_size chunk_overlap fl =
     merge_loop fl separator chunk_size chunk_overlap splits [] [] 0"

definition split_text_by_separator ::
  "string \<Rightarrow> u64 \<Rightarrow> u64 \<Rightarrow> string \<Rightarrow> string \<Rightarrow> string list res" where
  "split_text_by_separator txt chunk_size chunk_overlap separator length_function =
     bindR (check_chunk_overlap chunk_size chunk_overlap) (\<lambda>_.
     bindR (length_function_of length_function) (\<lambda>fl.
       merge_splits (split_text txt separator) separator chunk_size chunk_overlap fl))"

section \<open>Recursion over the separators\<close>

text \<open>
  The separator to use and those that remain. \<open>back()\<close> of an empty vector is undefined.
\<close>

fun pick_loop :: "string \<Rightarrow> string \<Rightarrow> string list \<Rightarrow> string \<times> string list" where
  "pick_loop txt rv [] = (rv, [])"
| "pick_loop txt rv (sep # seps) =
     (if sep = [] then (sep, [])
      else if find_sub sep txt \<noteq> None then (sep, seps)
      else pick_loop txt rv seps)"

definition pick_best_separator :: "string \<Rightarrow> string list \<Rightarrow> (string \<times> string list) res" where
  "pick_best_separator txt separators =
     (if separators = [] then Inl (UB ''back of an empty vector'')
      else Inr (pick_loop txt (List.last separators) separators))"

definition merge_splits_and_put ::
  "string list \<Rightarrow> string list \<Rightarrow> string \<Rightarrow> u64 \<Rightarrow> u64 \<Rightarrow> (string \<Rightarrow> u64) \<Rightarrow> string list res" where
  "merge_splits_and_put chunks splits separator chunk_size chunk_overlap fl =
     mapR_res (\<lambda>merged. chunks @ merged) (merge_splits splits separator chunk_size chunk_overlap fl)"

text \<open>
  The loop over the pieces; \<open>deeper\<close> is the recursive call, or \<open>None\<close> if there is no
  separator left.
\<close>

fun pieces_loop ::
  "(string \<Rightarrow> string list res) option \<Rightarrow> (string \<Rightarrow> u64) \<Rightarrow> string \<Rightarrow> u64 \<Rightarrow> u64 \<Rightarrow> string list \<Rightarrow>
     string list \<Rightarrow> string list \<Rightarrow> string list res" where
  "pieces_loop deeper fl separator chunk_size chunk_overlap [] good final =
     (if good \<noteq> [] then merge_splits_and_put final good separator chunk_size chunk_overlap fl
      else Inr final)"
| "pieces_loop deeper fl separator chunk_size chunk_overlap (s # splits) good final =
     (if fl s < chunk_size
      then pieces_loop deeper fl separator chunk_size chunk_overlap splits (good @ [s]) final
      else bindR (if good \<noteq> []
                  then merge_splits_and_put final good separator chunk_size chunk_overlap fl
                  else Inr final) (\<lambda>final1.
           bindR (case deeper of
                    None \<Rightarrow> Inr (final1 @ [s])
                  | Some f \<Rightarrow> mapR_res (\<lambda>cs. final1 @ cs) (f s)) (\<lambda>final2.
             pieces_loop deeper fl separator chunk_size chunk_overlap splits [] final2)))"

lemma pick_loop_shorter: "length (snd (pick_loop txt rv seps)) \<le> length seps - 1"
  by (induction seps) auto

lemma pick_best_shorter:
  "pick_best_separator txt seps = Inr (sep, new) \<Longrightarrow> length new < length seps"
  using pick_loop_shorter [of "txt" "List.last seps" seps]
  by (cases seps) (auto simp: pick_best_separator_def split: if_splits)

function split_text_recursive ::
  "string \<Rightarrow> u64 \<Rightarrow> u64 \<Rightarrow> string list \<Rightarrow> (string \<Rightarrow> u64) \<Rightarrow> string list res" where
  "split_text_recursive txt chunk_size chunk_overlap separators fl =
     bindR (pick_best_separator txt separators) (\<lambda>r.
       pieces_loop
         (if snd r = [] then None
          else Some (\<lambda>s. split_text_recursive s chunk_size chunk_overlap (snd r) fl))
         fl (fst r) chunk_size chunk_overlap (split_text txt (fst r)) [] [])"
  by pat_completeness auto
termination
  by (relation "measure (\<lambda>(t, cs, ov, seps, fl). length seps)") (auto dest: pick_best_shorter)

declare split_text_recursive.simps [simp del]

definition split_text_by_separators_recursively ::
  "string \<Rightarrow> u64 \<Rightarrow> u64 \<Rightarrow> string list \<Rightarrow> string \<Rightarrow> string list res" where
  "split_text_by_separators_recursively txt chunk_size chunk_overlap separators length_function =
     bindR (check_chunk_overlap chunk_size chunk_overlap) (\<lambda>_.
     bindR (length_function_of length_function) (\<lambda>fl.
       split_text_recursive txt chunk_size chunk_overlap separators fl))"

section \<open>The operators\<close>

definition or_bind :: "'a or_error \<Rightarrow> ('a \<Rightarrow> 'b or_error) \<Rightarrow> 'b or_error" where
  "or_bind r f = (case r of Got a \<Rightarrow> f a | Failed e \<Rightarrow> Failed e)"

lemma or_bind_simps [simp]: "or_bind (Got a) f = f a" "or_bind (Failed e) f = Failed e"
  by (simp_all add: or_bind_def)

definition parse_inputs :: "string \<Rightarrow> string \<Rightarrow> val \<Rightarrow> (string \<times> val) list or_error" where
  "parse_inputs ctx name v =
     (case v of Map_t m \<Rightarrow> Got m | _ \<Rightarrow> Failed (type_error4 ctx name ''map_t'' (get_type v)))"

definition parse_required_string :: "string \<Rightarrow> string \<Rightarrow> (string \<times> val) list \<Rightarrow> string or_error" where
  "parse_required_string ctx key m =
     (case map_of m key of
        None \<Rightarrow> Failed (range_error2 ctx key)
      | Some v \<Rightarrow>
          (case v of String_t s \<Rightarrow> Got s
           | _ \<Rightarrow> Failed (type_error4 ctx key ''string_t'' (get_type v))))"

text \<open>An \<open>int_t\<close> is converted to \<open>size_t\<close>: its bits are taken as they are.\<close>

definition parse_size :: "string \<Rightarrow> u64 \<Rightarrow> (string \<times> val) list \<Rightarrow> u64 or_error" where
  "parse_size key dflt m =
     (case map_of m key of
        None \<Rightarrow> Got dflt
      | Some v \<Rightarrow>
          or_bind (case v of Uint_t n \<Rightarrow> Got n | Int_t n \<Rightarrow> Got n
                   | _ \<Rightarrow> Failed (type_error4 ''Split Text'' key ''uint_t | int_t'' (get_type v)))
            (\<lambda>n. if n < 1 then Failed (value_error4 ''Split Text'' key ''>= 1'' (show_u64 n))
                 else Got n))"

definition parse_separator :: "(string \<times> val) list \<Rightarrow> string or_error" where
  "parse_separator m =
     (case map_of m ''separator'' of
        None \<Rightarrow> Got (nl @ nl)
      | Some v \<Rightarrow>
          (case v of String_t s \<Rightarrow> Got s
           | _ \<Rightarrow> Failed (type_error4 ''Split Text'' ''separator'' ''string_t'' (get_type v))))"

fun parse_separator_list :: "val list \<Rightarrow> string list or_error" where
  "parse_separator_list [] = Got []"
| "parse_separator_list (v # vs) =
     (case v of
        String_t s \<Rightarrow> or_bind (parse_separator_list vs) (\<lambda>ss. Got (s # ss))
      | _ \<Rightarrow> Failed (type_error4 ''Split Text'' ''separators.*'' ''string_t'' (get_type v)))"

definition parse_separators :: "(string \<times> val) list \<Rightarrow> string list or_error" where
  "parse_separators m =
     (case map_of m ''separators'' of
        None \<Rightarrow> Got [nl @ nl, nl, '' '', []]
      | Some v \<Rightarrow>
          (case v of Array_t vs \<Rightarrow> parse_separator_list vs
           | _ \<Rightarrow> Failed (type_error4 ''Split Text'' ''separators'' ''array_t'' (get_type v))))"

definition parse_length_function :: "(string \<times> val) list \<Rightarrow> string or_error" where
  "parse_length_function m =
     (case map_of m ''length_function'' of
        None \<Rightarrow> Got ''default''
      | Some v \<Rightarrow>
          (case v of
             String_t s \<Rightarrow>
               if s = ''default'' \<or> s = ''string'' then Got s
               else Failed (value_error4 ''Split Text'' ''length_function'' ''default | string'' s)
           | _ \<Rightarrow> Failed (type_error4 ''Split Text'' ''length_function'' ''string_t'' (get_type v))))"

definition chunks_output :: "string list \<Rightarrow> value_or_error" where
  "chunks_output chunks = Got (Some (Map_t (put ''chunks'' (Array_t (map String_t chunks)) [])))"

definition run_parsed :: "'a or_error \<Rightarrow> ('a \<Rightarrow> value_or_error res) \<Rightarrow> value_or_error res" where
  "run_parsed r f = (case r of Failed e \<Rightarrow> Inr (Failed e) | Got a \<Rightarrow> f a)"

definition split_text_by_separator_op :: "val option \<Rightarrow> value_or_error res" where
  "split_text_by_separator_op inputs =
     bindR (deref inputs) (\<lambda>v.
     run_parsed
       (or_bind (parse_inputs ''Split Text'' ''inputs'' v) (\<lambda>m.
        or_bind (parse_required_string ''Split Text'' ''text'' m) (\<lambda>t.
        or_bind (parse_size ''chunk_size'' 4000 m) (\<lambda>cs.
        or_bind (parse_size ''chunk_overlap'' 200 m) (\<lambda>ov.
        or_bind (parse_separator m) (\<lambda>sep.
        or_bind (parse_length_function m) (\<lambda>lf. Got (t, cs, ov, sep, lf))))))))
       (\<lambda>(t, cs, ov, sep, lf).
          mapR_res chunks_output (split_text_by_separator t cs ov sep lf)))"

definition split_text_by_separators_recursively_op :: "val option \<Rightarrow> value_or_error res" where
  "split_text_by_separators_recursively_op inputs =
     bindR (deref inputs) (\<lambda>v.
     run_parsed
       (or_bind (parse_inputs ''Split Text'' ''inputs'' v) (\<lambda>m.
        or_bind (parse_required_string ''Split Text'' ''text'' m) (\<lambda>t.
        or_bind (parse_size ''chunk_size'' 4000 m) (\<lambda>cs.
        or_bind (parse_size ''chunk_overlap'' 200 m) (\<lambda>ov.
        or_bind (parse_separators m) (\<lambda>seps.
        or_bind (parse_length_function m) (\<lambda>lf. Got (t, cs, ov, seps, lf))))))))
       (\<lambda>(t, cs, ov, seps, lf).
          mapR_res chunks_output (split_text_by_separators_recursively t cs ov seps lf)))"

end
