(* ===== verification/SplitTextFacts.thy ===== *)
theory SplitTextFacts
  imports SplitText
begin

text \<open>
  What splitting guarantees. The reference is \<open>windows\<close>: which consecutive pieces make up
  each chunk, with sizes as natural numbers and nothing to go wrong. The code's merging,
  with its running totals in machine words, computes exactly these windows (\<open>merge_refines\<close>);
  the bounds and the covering of the text are then shown of the windows.
\<close>

section \<open>The reference\<close>

definition jlen :: "string \<Rightarrow> string list \<Rightarrow> nat" where
  "jlen sep ps = length (join sep ps)"

lemma jlen_simps [simp]:
  "jlen sep [] = 0"
  "jlen sep (p # ps) = length p + (if ps = [] then 0 else length sep + jlen sep ps)"
  by (auto simp: jlen_def join_Cons)

lemma jlen_append:
  "jlen sep (ps @ qs) = (if ps = [] then jlen sep qs else if qs = [] then jlen sep ps
     else jlen sep ps + length sep + jlen sep qs)"
  by (simp add: jlen_def join_append)

lemma jlen_middle: "jlen sep qs \<le> jlen sep (ps @ qs @ rs)"
  by (auto simp: jlen_append)

text \<open>Which of the pieces stay as the overlap with the next chunk, which begins with \<open>s\<close>.\<close>

fun keep_overlap :: "nat \<Rightarrow> nat \<Rightarrow> string \<Rightarrow> string \<Rightarrow> string list \<Rightarrow> string list" where
  "keep_overlap cs ov sep s [] = []"
| "keep_overlap cs ov sep s (p # ps) =
     (if jlen sep (p # ps) > ov \<or> (jlen sep ((p # ps) @ [s]) > cs \<and> jlen sep (p # ps) > 0)
      then keep_overlap cs ov sep s ps else p # ps)"

fun windows :: "nat \<Rightarrow> nat \<Rightarrow> string \<Rightarrow> string list \<Rightarrow> string list \<Rightarrow> string list list" where
  "windows cs ov sep cur [] = [cur]"
| "windows cs ov sep cur (s # ss) =
     (if jlen sep (cur @ [s]) > cs \<and> cur \<noteq> []
      then cur # windows cs ov sep (keep_overlap cs ov sep s cur @ [s]) ss
      else windows cs ov sep (cur @ [s]) ss)"

definition chunk_of :: "string \<Rightarrow> string list \<Rightarrow> string" where
  "chunk_of sep w = trim (join sep w)"

definition chunks_of :: "string \<Rightarrow> string list list \<Rightarrow> string list" where
  "chunks_of sep ws = filter (\<lambda>d. d \<noteq> []) (map (chunk_of sep) ws)"

lemma keep_overlap_suffix: "suffix (keep_overlap cs ov sep s cur) cur"
  by (induction cur) (auto simp: suffix_Cons)

lemma keep_overlap_bound: "jlen sep (keep_overlap cs ov sep s cur) \<le> ov"
  by (induction cur) auto

lemma keep_overlap_room:
  "jlen sep (keep_overlap cs ov sep s cur @ [s]) \<le> cs \<or> jlen sep (keep_overlap cs ov sep s cur) = 0"
  by (induction cur) auto

section \<open>The code computes the windows\<close>

abbreviation wlen :: "string \<Rightarrow> string list \<Rightarrow> u64" where
  "wlen sep ps \<equiv> word_of_nat (jlen sep ps)"

lemma flength_sum: "flength a + flength b = word_of_nat (length a + length b)"
  by (simp add: flength_def)

lemma wlen_snoc:
  "wlen sep (ps @ [s]) = wlen sep ps + flength s + (if ps \<noteq> [] then flength sep else 0)"
  by (simp add: jlen_append flength_def)

lemma word_of_nat_less_iff: "n < 2 ^ 64 \<Longrightarrow> (word_of_nat n :: u64) > c \<longleftrightarrow> n > unat c"
  by (simp add: word_less_nat_alt unat_of_nat)

lemma drop_front_refines:
  assumes "jlen sep (cur @ [s]) < 2 ^ 64"
  shows "drop_front flength cs ov (flength sep) (flength s) cur (wlen sep cur) (wlen sep (cur @ [s])) =
    (let k = keep_overlap (unat cs) (unat ov) sep s cur in Inr (k, wlen sep k, wlen sep (k @ [s])))"
  using assms
proof (induction cur)
  case Nil
  then show ?case by (subst drop_front.simps) simp
next
  case (Cons p ps)
  have big: "jlen sep (p # ps) < 2 ^ 64" "jlen sep (ps @ [s]) < 2 ^ 64"
    using Cons.prems jlen_middle [of sep "p # ps" "[]" "[s]"] jlen_middle [of sep "ps @ [s]" "[p]" "[]"]
    by (simp_all del: jlen_simps)
  have test: "wlen sep (p # ps) > ov \<longleftrightarrow> jlen sep (p # ps) > unat ov"
    "wlen sep ((p # ps) @ [s]) > cs \<longleftrightarrow> jlen sep ((p # ps) @ [s]) > unat cs"
    "wlen sep (p # ps) > 0 \<longleftrightarrow> jlen sep (p # ps) > 0"
    using word_of_nat_less_iff [OF big(1)] word_of_nat_less_iff [OF Cons.prems] by simp_all
  let ?sl = "if ps \<noteq> [] then flength sep else 0"
  have dec: "wlen sep (p # ps) - (flength p + ?sl) = wlen sep ps"
    by (simp add: flength_def)
  have inc: "wlen sep ps + flength s + ?sl = wlen sep (ps @ [s])"
    by (simp add: wlen_snoc)
  let ?c = "jlen sep (p # ps) > unat ov \<or> (jlen sep ((p # ps) @ [s]) > unat cs \<and> jlen sep (p # ps) > 0)"
  have step: "drop_front flength cs ov (flength sep) (flength s) (p # ps) (wlen sep (p # ps))
      (wlen sep ((p # ps) @ [s])) =
    (if ?c then drop_front flength cs ov (flength sep) (flength s) ps (wlen sep ps) (wlen sep (ps @ [s]))
     else Inr (p # ps, wlen sep (p # ps), wlen sep ((p # ps) @ [s])))"
    by (subst drop_front.simps) (simp only: test list.case Let_def dec inc)
  show ?case
    unfolding step Cons.IH [OF big(2)] keep_overlap.simps Let_def by (cases ?c) (simp_all only: if_True if_False)
qed

lemma merge_loop_refines:
  assumes "splits = pre @ cur @ rest" and "jlen sep splits < 2 ^ 64"
  shows "merge_loop flength sep cs ov rest docs cur (wlen sep cur) =
    Inr (docs @ chunks_of sep (windows (unat cs) (unat ov) sep cur rest))"
  using assms
proof (induction rest arbitrary: pre cur docs)
  case Nil
  then show ?case by (simp add: complete_document_def chunks_of_def chunk_of_def Let_def)
next
  case (Cons s rest)
  have fits: "jlen sep (cur @ [s]) < 2 ^ 64"
    using Cons.prems jlen_middle [of sep "cur @ [s]" pre rest] by (simp del: jlen_simps)
  have test: "wlen sep (cur @ [s]) > cs \<longleftrightarrow> jlen sep (cur @ [s]) > unat cs"
    by (rule word_of_nat_less_iff [OF fits])
  have tim: "wlen sep cur + flength s + (if cur \<noteq> [] then flength sep else 0) = wlen sep (cur @ [s])"
    by (simp add: wlen_snoc)
  have step: "merge_loop flength sep cs ov (s # rest) docs cur (wlen sep cur) =
    bindR (if wlen sep (cur @ [s]) > cs \<and> cur \<noteq> []
           then mapR_res (Pair (complete_document sep cur docs))
             (drop_front flength cs ov (flength sep) (flength s) cur (wlen sep cur) (wlen sep (cur @ [s])))
           else Inr (docs, cur, wlen sep cur, wlen sep (cur @ [s])))
      (\<lambda>(docs', cur', _, tot'). merge_loop flength sep cs ov rest docs' (cur' @ [s]) tot')"
    by (simp only: merge_loop.simps Let_def tim)
  show ?case
  proof (cases "jlen sep (cur @ [s]) > unat cs \<and> cur \<noteq> []")
    case True
    let ?k = "keep_overlap (unat cs) (unat ov) sep s cur"
    obtain zs where "cur = zs @ ?k"
      using keep_overlap_suffix unfolding suffix_def by blast
    then have "splits = (pre @ zs) @ (?k @ [s]) @ rest"
      using Cons.prems(1) by (metis append.assoc append_Cons append_Nil)
    note ih = Cons.IH [OF this Cons.prems(2), of "complete_document sep cur docs"]
    have "(wlen sep (cur @ [s]) > cs \<and> cur \<noteq> []) = True" using True test by blast
    then have "merge_loop flength sep cs ov (s # rest) docs cur (wlen sep cur) =
        Inr (complete_document sep cur docs @
          chunks_of sep (windows (unat cs) (unat ov) sep (?k @ [s]) rest))"
      unfolding step by (simp only: if_True drop_front_refines [OF fits] Let_def mapR_res_simps
          bindR_simps prod.case ih)
    moreover have "windows (unat cs) (unat ov) sep cur (s # rest) =
        cur # windows (unat cs) (unat ov) sep (?k @ [s]) rest"
      using True by simp
    ultimately show ?thesis
      by (simp add: complete_document_def chunks_of_def chunk_of_def Let_def)
  next
    case False
    have "splits = pre @ (cur @ [s]) @ rest" using Cons.prems(1) by simp
    note ih = Cons.IH [OF this Cons.prems(2), of docs]
    have "(wlen sep (cur @ [s]) > cs \<and> cur \<noteq> []) = False" using False test by blast
    then have "merge_loop flength sep cs ov (s # rest) docs cur (wlen sep cur) =
        Inr (docs @ chunks_of sep (windows (unat cs) (unat ov) sep (cur @ [s]) rest))"
      unfolding step by (simp only: if_False bindR_simps prod.case ih)
    with False show ?thesis by (simp only: windows.simps if_False)
  qed
qed

lemma merge_refines:
  "jlen sep splits < 2 ^ 64 \<Longrightarrow>
     merge_splits splits sep cs ov flength =
       Inr (chunks_of sep (windows (unat cs) (unat ov) sep [] splits))"
  using merge_loop_refines [of splits "[]" "[]" splits sep cs ov "[]"]
  by (simp add: merge_splits_def)

section \<open>Bounds\<close>

text \<open>A chunk keeps to the size unless it is a single piece that is itself too big.\<close>

lemma jlen_0: "jlen sep ps = 0 \<Longrightarrow> \<forall>p \<in> set ps. p \<noteq> [] \<Longrightarrow> ps = []"
  by (cases ps) (auto split: if_splits)

lemma windows_bounded:
  assumes "\<forall>s \<in> set ss. s \<noteq> []" and "\<forall>s \<in> set cur. s \<noteq> []"
    and "jlen sep cur \<le> cs \<or> length cur = 1"
    and "w \<in> set (windows cs ov sep cur ss)"
  shows "jlen sep w \<le> cs \<or> length w = 1"
  using assms
proof (induction ss arbitrary: cur)
  case Nil
  then show ?case by simp
next
  case (Cons s ss)
  show ?case
  proof (cases "jlen sep (cur @ [s]) > cs \<and> cur \<noteq> []")
    case False
    then have "jlen sep (cur @ [s]) \<le> cs \<or> length (cur @ [s]) = 1" by auto
    with Cons.prems False show ?thesis
      by (intro Cons.IH [of "cur @ [s]"]) (auto simp del: jlen_simps)
  next
    case True
    let ?k = "keep_overlap cs ov sep s cur"
    have "set ?k \<subseteq> set cur" using keep_overlap_suffix by (rule set_mono_suffix)
    then have k: "\<forall>s \<in> set ?k. s \<noteq> []" using Cons.prems(2) by blast
    with Cons.prems(1) have ne: "\<forall>p \<in> set (?k @ [s]). p \<noteq> []" by auto
    have room: "jlen sep (?k @ [s]) \<le> cs \<or> length (?k @ [s]) = 1"
      using keep_overlap_room [of sep cs ov s cur] jlen_0 [OF _ k] by auto
    have "w = cur \<or> w \<in> set (windows cs ov sep (?k @ [s]) ss)"
      using Cons.prems(4) True by (simp del: jlen_simps)
    then show ?thesis
    proof
      assume "w \<in> set (windows cs ov sep (?k @ [s]) ss)"
      with Cons.IH [OF _ ne room] Cons.prems(1) show ?thesis by simp
    qed (use Cons.prems(3) in blast)
  qed
qed

lemma windows_pieces: "w \<in> set (windows cs ov sep cur ss) \<Longrightarrow> set w \<subseteq> set cur \<union> set ss"
proof (induction ss arbitrary: cur)
  case (Cons s ss)
  have k: "set (keep_overlap cs ov sep s cur) \<subseteq> set cur"
    using keep_overlap_suffix by (rule set_mono_suffix)
  consider "w = cur" | "w \<in> set (windows cs ov sep (keep_overlap cs ov sep s cur @ [s]) ss)"
    | "w \<in> set (windows cs ov sep (cur @ [s]) ss)"
    using Cons.prems by (auto simp del: jlen_simps split: if_splits)
  then show ?case
    by cases (use k in \<open>fastforce dest!: Cons.IH\<close>)+
qed simp

section \<open>Nothing is lost\<close>

text \<open>
  \<open>covers sep ov ws ps\<close>: the windows \<open>ws\<close> cover the pieces \<open>ps\<close> in order and without a gap;
  each begins with the end of the one before, at most \<open>ov\<close> characters of it.
\<close>

inductive covers :: "string \<Rightarrow> nat \<Rightarrow> string list list \<Rightarrow> string list \<Rightarrow> bool" for sep ov where
  one: "covers sep ov [w] w"
| next_window: "covers sep ov (ws @ [w]) ps \<Longrightarrow> suffix k w \<Longrightarrow> jlen sep k \<le> ov \<Longrightarrow>
    covers sep ov (ws @ [w, k @ new]) (ps @ new)"

lemma covers_snoc:
  assumes "covers sep ov (ws @ [w]) ps"
  shows "covers sep ov (ws @ [w @ [s]]) (ps @ [s])"
  using assms
proof (cases rule: covers.cases)
  case one
  then show ?thesis using covers.one [of sep ov "w @ [s]"] by simp
next
  case (next_window ws' w' ps' k new)
  then have "ws = ws' @ [w']" "w = k @ new" by simp_all
  with next_window covers.next_window [of sep ov ws' w' ps' k "new @ [s]"] show ?thesis by simp
qed

lemma windows_cover:
  "covers sep ov (ws @ [cur]) ps \<Longrightarrow> covers sep ov (ws @ windows cs ov sep cur ss) (ps @ ss)"
proof (induction ss arbitrary: ws cur ps)
  case Nil
  then show ?case by simp
next
  case (Cons s ss)
  show ?case
  proof (cases "jlen sep (cur @ [s]) > cs \<and> cur \<noteq> []")
    case False
    then have w: "windows cs ov sep cur (s # ss) = windows cs ov sep (cur @ [s]) ss"
      by (simp only: windows.simps if_False)
    show ?thesis
      unfolding w using Cons.IH [OF covers_snoc [OF Cons.prems]] by simp
  next
    case True
    let ?k = "keep_overlap cs ov sep s cur"
    have w: "windows cs ov sep cur (s # ss) = cur # windows cs ov sep (?k @ [s]) ss"
      using True by simp
    have "covers sep ov ((ws @ [cur]) @ [?k @ [s]]) (ps @ [s])"
      using covers.next_window [OF Cons.prems keep_overlap_suffix keep_overlap_bound] by simp
    from Cons.IH [OF this] show ?thesis unfolding w by simp
  qed
qed

section \<open>The recursion always returns chunks\<close>

lemma jlen_split_text: "jlen sep (split_text t sep) = length t"
  by (simp add: jlen_def join_split_text)

lemma jlen_member: "p \<in> set ps \<Longrightarrow> length p \<le> jlen sep ps"
  by (induction ps) (auto split: if_splits)

lemma merge_and_put_ok:
  "jlen sep good < 2 ^ 64 \<Longrightarrow> \<exists>r. merge_splits_and_put final good sep cs ov flength = Inr r"
  by (simp add: merge_splits_and_put_def merge_refines)

lemma pieces_loop_ok:
  assumes "\<And>s. length s < 2 ^ 64 \<Longrightarrow> deeper \<noteq> None \<Longrightarrow> \<exists>r. the deeper s = Inr r"
    and "jlen sep (good @ ss) < 2 ^ 64"
  shows "\<exists>r. pieces_loop deeper flength sep cs ov ss good final = Inr r"
  using assms(2)
proof (induction ss arbitrary: good final)
  case Nil
  then show ?case using merge_and_put_ok by simp
next
  case (Cons s ss)
  have tail: "jlen sep ss < 2 ^ 64" and head: "jlen sep good < 2 ^ 64" and s: "length s < 2 ^ 64"
    using Cons.prems jlen_middle [of sep ss "good @ [s]" "[]"] jlen_middle [of sep good "[]" "s # ss"]
      jlen_middle [of sep "[s]" good ss] by auto
  obtain f1 where f1: "(if good \<noteq> [] then merge_splits_and_put final good sep cs ov flength else Inr final) = Inr f1"
    using merge_and_put_ok [OF head, of final cs ov] by (cases "good = []") auto
  obtain f2 where f2: "(case deeper of None \<Rightarrow> Inr (f1 @ [s]) | Some f \<Rightarrow> mapR_res (\<lambda>cs. f1 @ cs) (f s)) = Inr f2"
    using assms(1) [OF s] by (cases deeper) auto
  show ?case
  proof (cases "flength s < cs")
    case True
    with Cons.IH [of "good @ [s]" final] Cons.prems show ?thesis by (simp del: jlen_simps)
  next
    case False
    with Cons.IH [of "[]" f2] tail f1 f2 show ?thesis by simp
  qed
qed

lemma split_text_recursive_ok:
  "seps \<noteq> [] \<Longrightarrow> length t < 2 ^ 64 \<Longrightarrow> fl = flength \<Longrightarrow> \<exists>r. split_text_recursive t cs ov seps fl = Inr r"
proof (induction t cs ov seps fl rule: split_text_recursive.induct)
  case (1 t cs ov seps fl)
  obtain r where r: "pick_best_separator t seps = Inr r"
    using 1(2) by (simp add: pick_best_separator_def)
  have deeper: "\<exists>x. the (if snd r = [] then None
       else Some (\<lambda>s. split_text_recursive s cs ov (snd r) flength)) s = Inr x"
    if "length s < 2 ^ 64" "(if snd r = [] then None
       else Some (\<lambda>s. split_text_recursive s cs ov (snd r) flength)) \<noteq> None" for s
    using that "1.IH" [OF r] 1(4) by (auto split: if_splits)
  show ?case
    using pieces_loop_ok [OF deeper, of "fst r" "[]" "split_text t (fst r)" cs ov "[]"] r 1(3,4)
    by (subst split_text_recursive.simps) (cases "snd r = []"; simp add: jlen_split_text)
qed

end
