(* ===== verification/DebugModule.thy ===== *)
theory DebugModule
  imports Modules Exceptions
begin

text \<open>
  The operators and the component of the debug module (\<open>vm/src/debug_module.cpp\<close>): the
  instant operator \<open>echo\<close>, the iterative operator \<open>spell\<close> and the component
  \<open>accumulator\<close>. The objects of the accumulator are values.
\<close>

section \<open>echo\<close>

definition echo_f :: "val option \<Rightarrow> value_or_error res" where
  "echo_f inputs = bindR (deref inputs) (\<lambda>v.
     case v of
       Map_t m \<Rightarrow>
         Inr (case map_of m ''text'' of
                None \<Rightarrow> Failed (range_error2 ''echo'' ''text'')
              | Some x \<Rightarrow>
                  (case x of
                     String_t s \<Rightarrow> Got (Some (Map_t [(''text'', String_t s)]))
                   | _ \<Rightarrow> Failed (type_error4 ''echo'' ''text'' ''string_t'' (get_type x))))
     | _ \<Rightarrow> Inr (Failed (type_error4 ''echo'' ''inputs'' ''map_t'' (get_type v))))"

section \<open>spell\<close>

definition spell_init :: "val option \<Rightarrow> value_or_error res" where
  "spell_init inputs = bindR (deref inputs) (\<lambda>v.
     case v of
       Map_t m \<Rightarrow>
         Inr (case map_of m ''text'' of
                None \<Rightarrow> Failed (range_error2 ''spell'' ''text'')
              | Some x \<Rightarrow>
                  (case x of
                     String_t s \<Rightarrow>
                       Got (Some (Map_t (put ''index'' (Uint_t 0) (put ''message'' (String_t s) []))))
                   | _ \<Rightarrow> Failed (type_error4 ''spell'' ''text'' ''string_t'' (get_type x))))
     | _ \<Rightarrow> Inr (Failed (type_error4 ''spell'' ''inputs'' ''map_t'' (get_type v))))"

text \<open>
  The index in the state is changed in place, after it has been used and before it is
  compared again. \<open>substr\<close> at the end of the string gives the empty string.
\<close>

definition spell_step :: "val option \<Rightarrow> (val option \<times> output_t) res" where
  "spell_step state =
     bindR (deref state) (\<lambda>st.
     bindR (deref (as_map st)) (\<lambda>m.
     bindR (map_at_as as_string m ''message'') (\<lambda>msgp.
     bindR (map_get as_uint m ''index'') (\<lambda>idx.
     bindR (deref msgp) (\<lambda>msg.
       if idx > word_of_nat (length msg)
       then Inr (Some st, Error_output (range_error2 ''Spell'' ''Index overflow''))
       else
         (let next_char = take 1 (drop (unat idx) msg); idx' = idx + 1 in
          Inr (Some (Map_t (put ''index'' (Uint_t idx') m)),
            Ok_output (Some (Map_t [(''text'', String_t next_char)]))
              (idx' = word_of_nat (length msg)))))))))"

section \<open>accumulator\<close>

definition accumulator_put :: "val objs \<Rightarrow> val option \<Rightarrow> (val objs \<times> value_or_error) res" where
  "accumulator_put os inputs = bindR (deref inputs) (\<lambda>v.
     case v of
       Map_t m \<Rightarrow>
         (case map_of m ''s'' of
            None \<Rightarrow> Inr (os, Failed (range_error2 ''accumulator.put'' ''s''))
          | Some x \<Rightarrow>
              (case x of
                 String_t s \<Rightarrow>
                   bindR (deref (get_obj as_string os ''base'')) (\<lambda>base.
                   bindR (deref (get_obj as_uint os ''count'')) (\<lambda>count.
                     Inr (set_obj ''count'' (Uint_t (count + 1))
                            (set_obj ''base'' (String_t (base @ s)) os), Got (Some (Map_t [])))))
               | _ \<Rightarrow> Inr (os, Failed (type_error4 ''accumulator.put'' ''s'' ''string_t'' (get_type x)))))
     | _ \<Rightarrow> Inr (os, Failed (type_error4 ''accumulator.put'' ''inputs'' ''map_t'' (get_type v))))"

definition accumulator_get :: "val objs \<Rightarrow> val option \<Rightarrow> (val objs \<times> value_or_error) res" where
  "accumulator_get os inputs =
     bindR (deref (get_obj as_string os ''base'')) (\<lambda>base.
       Inr (os, Got (Some (Map_t [(''text'', String_t base)]))))"

definition accumulator_count :: "val objs \<Rightarrow> val option \<Rightarrow> (val objs \<times> value_or_error) res" where
  "accumulator_count os inputs =
     bindR (deref (get_obj as_uint os ''count'')) (\<lambda>count.
       Inr (os, Got (Some (Map_t [(''count'', Uint_t count)]))))"

definition create_accumulator :: "val component_factory" where
  "create_accumulator attrs = bindR (deref attrs) (\<lambda>v.
     case v of
       Map_t m \<Rightarrow>
         Inr (case map_of m ''base'' of
                None \<Rightarrow> Failed (range_error2 ''accumulator'' ''base'')
              | Some x \<Rightarrow>
                  (case x of
                     String_t s \<Rightarrow>
                       (let c = make_component
                          (put ''put'' (make_method (Instant_method accumulator_put))
                          (put ''get'' (make_method (Instant_method accumulator_get))
                          (put ''count'' (make_method (Instant_method accumulator_count)) [])))
                        in Got (c\<lparr>objs := set_obj ''base'' (String_t s)
                              (set_obj ''count'' (Uint_t 0) (objs c))\<rparr>))
                   | _ \<Rightarrow> Failed (type_error4 ''accumulator'' ''base'' ''string_t'' (get_type x))))
     | _ \<Rightarrow> Inr (Failed (type_error4 ''accumulator'' ''attrs'' ''map_t'' (get_type v))))"

text \<open>
  \<open>get_debug_module\<close> on the static module: an entry is made only when it is missing.
\<close>

definition get_debug_module :: "val module_t \<Rightarrow> val module_t" where
  "get_debug_module md =
     md\<lparr>mod_ops := put_new ''spell'' (make_operator (Iterative spell_init spell_step))
          (put_new ''echo'' (make_operator (Instant echo_f)) (mod_ops md)),
        mod_factories := put_new ''accumulator'' create_accumulator (mod_factories md)\<rparr>"

section \<open>Spelling\<close>

text \<open>The state with the message and the index.\<close>

definition spell_state :: "string \<Rightarrow> u64 \<Rightarrow> val" where
  "spell_state msg i = Map_t (put ''index'' (Uint_t i) (put ''message'' (String_t msg) []))"

lemma spell_step_at:
  assumes "i < length msg" and "length msg < 2 ^ 64"
  shows "spell_step (Some (spell_state msg (word_of_nat i))) =
    Inr (Some (spell_state msg (word_of_nat (Suc i))),
      Ok_output (Some (Map_t [(''text'', String_t [msg ! i])])) (Suc i = length msg))"
proof -
  have i: "unat (word_of_nat i :: u64) = i"
    using assms by (simp add: unat_of_nat)
  have le: "\<not> (word_of_nat i :: u64) > word_of_nat (length msg)"
    using assms by (simp add: word_less_nat_alt unat_of_nat)
  have eq: "(1 + word_of_nat i :: u64) = word_of_nat (length msg) \<longleftrightarrow> Suc i = length msg"
  proof -
    have "(word_of_nat (Suc i) :: u64) = word_of_nat (length msg) \<longleftrightarrow> Suc i = length msg"
      using assms by (simp add: word_unat_eq_iff unat_of_nat del: of_nat_Suc)
    then show ?thesis by simp
  qed
  have t: "take (Suc 0) (drop i msg) = [msg ! i]"
    using assms(1) by (simp add: take_Suc_conv_app_nth)
  show ?thesis
    using le by (simp add: spell_step_def spell_state_def map_at_as_def map_get_def map_at_def i eq t
        add.commute Let_def)
qed

text \<open>The outputs from an index on: one character at a time, the last one marked.\<close>

definition spell_outputs :: "string \<Rightarrow> nat \<Rightarrow> output_t list" where
  "spell_outputs msg i =
     map (\<lambda>j. Ok_output (Some (Map_t [(''text'', String_t [msg ! j])])) (Suc j = length msg)) [i..<length msg]"

lemma spell_runs:
  assumes "i < length msg" and "length msg < 2 ^ 64"
    and "op_code s = Iterative spell_init spell_step" and "op_state s = Some (spell_state msg (word_of_nat i))"
  shows "\<exists>s'. runs op_step s (spell_outputs msg i) s' \<and> op_in s' = None \<and> op_state s' = None"
  using assms
proof (induction "length msg - i" arbitrary: i s)
  case 0
  then show ?case by simp
next
  case (Suc n)
  note step = spell_step_at [OF Suc.prems(1,2)]
  show ?case
  proof (cases "Suc i = length msg")
    case True
    let ?s' = "iterative_reset_input (s\<lparr>op_state := Some (spell_state msg (word_of_nat (Suc i)))\<rparr>)"
    have "op_step s = Inr (?s', Ok_output (Some (Map_t [(''text'', String_t [msg ! i])])) True)"
      using Suc.prems step True by (simp add: op_step_def iterative_step_def Let_def del: of_nat_Suc)
    then have "runs op_step s [Ok_output (Some (Map_t [(''text'', String_t [msg ! i])])) True] ?s'"
      by (rule runs.last) simp
    moreover have "spell_outputs msg i = [Ok_output (Some (Map_t [(''text'', String_t [msg ! i])])) True]"
      using True by (simp add: spell_outputs_def flip: True)
    moreover have "op_in ?s' = None" "op_state ?s' = None"
      by (simp_all add: iterative_reset_input_def operator_reset_input_def)
    ultimately show ?thesis by metis
  next
    case False
    let ?s1 = "s\<lparr>op_state := Some (spell_state msg (word_of_nat (Suc i)))\<rparr>"
    have "op_step s = Inr (?s1, Ok_output (Some (Map_t [(''text'', String_t [msg ! i])])) False)"
      using Suc.prems step False by (simp add: op_step_def iterative_step_def Let_def del: of_nat_Suc)
    moreover obtain s' where "runs op_step ?s1 (spell_outputs msg (Suc i)) s'"
      "op_in s' = None" "op_state s' = None"
    proof -
      have "n = length msg - Suc i" "Suc i < length msg" using Suc.hyps(2) Suc.prems(1) False by simp_all
      from Suc.hyps(1) [OF this(1,2) Suc.prems(2), of ?s1] Suc.prems(3) that show ?thesis by auto
    qed
    moreover have "spell_outputs msg i =
        Ok_output (Some (Map_t [(''text'', String_t [msg ! i])])) False # spell_outputs msg (Suc i)"
      using Suc.prems(1) False by (simp add: spell_outputs_def upt_conv_Cons)
    ultimately show ?thesis using runs.more [of op_step s ?s1] by (metis is_last.simps(1))
  qed
qed

section \<open>Accumulating\<close>

text \<open>Calls of \<open>put\<close>, one after the other, and the objects after them.\<close>

fun put_texts :: "string list \<Rightarrow> val objs \<Rightarrow> val objs res" where
  "put_texts [] os = Inr os"
| "put_texts (s # ss) os =
     bindR (accumulator_put os (Some (Map_t [(''s'', String_t s)]))) (\<lambda>(os', _). put_texts ss os')"

definition accumulated :: "string \<Rightarrow> u64 \<Rightarrow> val objs" where
  "accumulated base n = set_obj ''base'' (String_t base) (set_obj ''count'' (Uint_t n) [])"

lemma put_accumulated:
  "accumulator_put (accumulated base n) (Some (Map_t [(''s'', String_t s)])) =
     Inr (accumulated (base @ s) (n + 1), Got (Some (Map_t [])))"
  by (simp add: accumulator_put_def accumulated_def get_obj_def set_obj_def)

lemma put_texts_concat:
  "put_texts ss (accumulated base n) = Inr (accumulated (base @ concat ss) (n + word_of_nat (length ss)))"
  by (induction ss arbitrary: base n) (simp_all add: put_accumulated add.assoc)

end
