(* ===== verification/Calculator.thy ===== *)
theory Calculator
  imports Modules Exceptions
begin

text \<open>
  The operator \<open>calculator\<close> (\<open>vm/src/calculator.hpp\<close>) and the default module
  (\<open>vm/src/default_module.cpp\<close>). The expression parser is the library tinyexpr: \<open>te\<close> maps
  an expression to its value, the bits of a \<open>double\<close>, or to the position of the error.
\<close>

type_synonym te_eval = "string \<Rightarrow> u64 + nat"

definition evaluate_expression :: "te_eval \<Rightarrow> string \<Rightarrow> u64 + nat" where
  "evaluate_expression te expression = te expression"

text \<open>
  \<open>std::string(n - 1, ' ')\<close>: at position 0 the length is the largest \<open>size_t\<close>, and the
  constructor throws.
\<close>

definition calculator_op :: "te_eval \<Rightarrow> val option \<Rightarrow> value_or_error res" where
  "calculator_op te inputs = bindR (deref inputs) (\<lambda>v.
     case v of
       Map_t m \<Rightarrow>
         (case map_of m ''expression'' of
            None \<Rightarrow> Inr (Failed (range_error2 ''calculator'' ''expression''))
          | Some x \<Rightarrow>
              (case x of
                 String_t expression \<Rightarrow>
                   (case evaluate_expression te expression of
                      Inl d \<Rightarrow> Inr (Got (Some (Map_t [(''value'', Double_t d)])))
                    | Inr err \<Rightarrow>
                        if err = 0 then Inl (LibThrow ''length_error'')
                        else Inr (Failed (''Error near here in the expression:'' @ nl @ [CHR 0x09] @
                               expression @ nl @ [CHR 0x09] @ replicate (err - 1) (CHR '' '') @ ''^'')))
               | _ \<Rightarrow> Inr (Failed (type_error4 ''calculator'' ''expression'' ''string_t'' (get_type x)))))
     | _ \<Rightarrow> Inr (Failed (type_error4 ''calculator'' ''inputs'' ''map_t'' (get_type v))))"

definition get_default_module ::
  "(val option \<Rightarrow> value_or_error res) \<Rightarrow> te_eval \<Rightarrow> 'o module_t \<Rightarrow> 'o module_t" where
  "get_default_module http_request te md =
     md\<lparr>mod_ops := put_new ''calculator'' (make_operator (Instant (calculator_op te)))
          (put_new ''http_request'' (make_operator (Instant http_request)) (mod_ops md))\<rparr>"

text \<open>The operator never throws on an expression whose error position is a real one.\<close>

lemma calculator_returns:
  assumes "\<And>e. te e \<noteq> Inr 0"
  shows "\<exists>r. calculator_op te (Some v) = Inr r"
proof (cases v)
  case (Map_t m)
  then show ?thesis
    using assms
    by (cases "map_of m ''expression''")
      (auto simp: calculator_op_def evaluate_expression_def split: val.splits sum.splits)
qed (simp_all add: calculator_op_def)

end
