(* ===== verification/TextProperties.thy ===== *)
theory TextProperties
  imports SplitTextFacts DebugModule Calculator
begin

text \<open>
  The properties of the text splitter and of the operators of the debug and the default
  module.
\<close>

section \<open>Splitting text\<close>

text \<open>
  C23. Merging computes the reference: for pieces whose joined length fits in a machine word,
  \<open>merge_splits\<close> with its running totals in \<open>size_t\<close> never throws, and its result is the
  chunks of \<open>windows\<close>, which is defined on natural numbers by the total lengths alone.
\<close>

theorem merge_refines_windows:
  assumes "jlen sep splits < 2 ^ 64"
  shows "merge_splits splits sep cs ov flength =
    Inr (chunks_of sep (windows (unat cs) (unat ov) sep [] splits))"
  by (rule merge_refines [OF assms])

lemma merge_refines_windows_witness:
  "merge_splits [''ab'', ''cd'', ''ef''] '' '' 5 2 flength = Inr [''ab cd'', ''cd ef'']"
  using merge_refines_windows [of "'' ''" "[''ab'', ''cd'', ''ef'']" 5 2]
  by (simp add: chunks_of_def chunk_of_def trim_def ltrim_def rtrim_def is_space_def)

lemma split_chunks:
  assumes "length t < 2 ^ 64" and "split_text_by_separator t cs ov sep lf = Inr chunks"
  shows "chunks = chunks_of sep (windows (unat cs) (unat ov) sep [] (split_text t sep))"
proof -
  have "check_chunk_overlap cs ov = Inr ()" "length_function_of lf = Inr flength"
    using assms(2)
    by (auto simp: split_text_by_separator_def bindR_eq_Inr length_function_of_def split: if_splits)
  with assms(2) merge_refines [of sep "split_text t sep" cs ov] assms(1) show ?thesis
    by (simp add: split_text_by_separator_def jlen_split_text)
qed



text \<open>
  C25. Nothing is lost: every chunk is a window of consecutive pieces, and the windows cover
  the pieces of the text in order and without a gap, each beginning with the end of the one
  before, at most \<open>chunk_overlap\<close> characters of it.
\<close>

theorem chunks_cover:
  assumes "length t < 2 ^ 64" and "split_text_by_separator t cs ov sep lf = Inr chunks"
  shows "\<exists>ws. chunks = filter (\<lambda>d. d \<noteq> []) (map (\<lambda>w. trim (join sep w)) ws) \<and>
    covers sep (unat ov) ws (split_text t sep) \<and> join sep (split_text t sep) = t"
proof -
  let ?ws = "windows (unat cs) (unat ov) sep [] (split_text t sep)"
  have "covers sep (unat ov) ?ws (split_text t sep)"
    using windows_cover [of sep "unat ov" "[]" "[]" "[]" "unat cs" "split_text t sep"] covers.one [of sep "unat ov" "[]"]
    by simp
  moreover have "chunks = filter (\<lambda>d. d \<noteq> []) (map (\<lambda>w. trim (join sep w)) ?ws)"
    using split_chunks [OF assms] by (simp add: chunks_of_def chunk_of_def [abs_def])
  ultimately show ?thesis using join_split_text by blast
qed

lemma chunks_cover_witness:
  "\<exists>ws. covers '' '' 2 ws [''ab'', ''cd'', ''ef''] \<and>
     filter (\<lambda>d. d \<noteq> []) (map (\<lambda>w. trim (join '' '' w)) ws) = [''ab cd'', ''cd ef'']"
proof -
  have s: "split_text ''ab cd ef'' '' '' = [''ab'', ''cd'', ''ef'']" by code_simp
  have run: "split_text_by_separator ''ab cd ef'' 5 2 '' '' ''default'' = Inr [''ab cd'', ''cd ef'']" by code_simp
  have "length ''ab cd ef'' < 2 ^ 64" by simp
  from chunks_cover [OF this run] show ?thesis unfolding s by auto
qed

text \<open>
  C26. The recursive splitter always returns: with at least one separator, an overlap that is
  not more than the size and one of the two names for the length function, it ends with a list
  of chunks, whatever the text and the separators are.
\<close>

theorem recursive_split_returns:
  assumes "seps \<noteq> []" and "length t < 2 ^ 64" and "ov \<le> cs" and "lf = ''default'' \<or> lf = ''string''"
  shows "\<exists>chunks. split_text_by_separators_recursively t cs ov seps lf = Inr chunks"
  using assms split_text_recursive_ok [OF assms(1,2) refl, of cs ov]
  by (simp add: split_text_by_separators_recursively_def check_chunk_overlap_def length_function_of_def
      not_less)

lemma recursive_split_returns_witness:
  "\<exists>chunks. split_text_by_separators_recursively ''a b'' 1 0 ['' '', []] ''default'' = Inr chunks"
  by (rule recursive_split_returns) simp_all

text \<open>
  Splitting and joining: for a separator that is not empty, joining the pieces with it
  gives the text back, and no piece contains the separator.
\<close>

lemma split_join_roundtrip:
  assumes "d \<noteq> []"
  shows "join d (split_text s d) = s \<and> (\<forall>p \<in> set (split_text s d). \<not> sublist d p)"
proof -
  have "\<not> sublist d p" if "p \<in> set (split_text s d)" for p
    using split_on_pieces [OF assms] that assms by (auto simp: split_text_def split: if_splits)
  then show ?thesis by (simp add: join_split_text)
qed

lemma split_join_roundtrip_witness: "join '','' (split_text ''a,,b'' '','') = ''a,,b''"
  using split_join_roundtrip [of "'',''" "''a,,b''"] by simp

text \<open>
  A chunk can be bigger than the size although every piece of it is small enough: a piece
  that is empty is kept when the next one is added, however little room there is, because the
  code drops pieces only while their total is positive. So a text that begins with the
  separator comes out as one chunk whatever the size is.
\<close>

lemma chunk_exceeds_size:
  assumes "sep \<noteq> []" and "find_sub sep s = None" and "length (sep @ s) < 2 ^ 64" and "ov \<le> cs"
    and "trim (sep @ s) = sep @ s"
  shows "split_text_by_separator (sep @ s) cs ov sep ''default'' = Inr [sep @ s]"
proof -
  have "split_text (sep @ s) sep = [[], s]"
  proof -
    have "find_sub sep (sep @ s) = Some 0" using assms(1) by (cases sep) auto
    then show ?thesis
      using assms(1,2) by (simp add: split_text_def split_on.simps [of sep "sep @ s"] split_on.simps [of sep s])
  qed
  moreover have "trim [] = []" by (simp add: trim_def ltrim_def rtrim_def)
  ultimately have "merge_splits (split_text (sep @ s) sep) sep cs ov flength = Inr [sep @ s]"
    using merge_refines [of sep "[[], s]" cs ov] assms(1,3,5)
    by (simp add: chunks_of_def chunk_of_def)
  with assms(4) show ?thesis
    by (simp add: split_text_by_separator_def check_chunk_overlap_def length_function_of_def not_less)
qed

lemma chunk_exceeds_size_witness:
  "split_text_by_separator '',xxxx'' 4 0 '','' ''default'' = Inr ['',xxxx''] \<and> length '',xxxx'' > 4"
  using chunk_exceeds_size [of "'',''" "''xxxx''" 0 4]
  by (simp add: trim_def ltrim_def rtrim_def is_space_def)

text \<open>
  The default overlap of 200 makes small chunks impossible: a request that only sets a
  \<open>chunk_size\<close> below 200 does not get an error back, it makes the operator throw.
\<close>

lemma default_overlap_throws:
  assumes "map_of m ''text'' = Some (String_t t)" and "map_of m ''chunk_size'' = Some (Uint_t n)"
    and "1 \<le> n" and "n < 200" and "map_of m ''chunk_overlap'' = None"
    and "map_of m ''separator'' = None" and "map_of m ''length_function'' = None"
  shows "split_text_by_separator_op (Some (Map_t m)) =
    Inl (Throw (''chunk_overlap(200) should be smaller than chunk size('' @ show_u64 n @ '').''))"
proof -
  have "parse_size ''chunk_size'' 4000 m = Got n"
    using assms(2,3) by (simp add: parse_size_def not_less [of n 1, symmetric] del: word_less_1)
  moreover have "show_u64 200 = ''200''" by code_simp
  ultimately show ?thesis
    using assms by (simp add: split_text_by_separator_op_def parse_inputs_def parse_required_string_def
        parse_size_def [of "''chunk_overlap''"] parse_separator_def parse_length_function_def
        run_parsed_def split_text_by_separator_def check_chunk_overlap_def)
qed

lemma default_overlap_throws_witness:
  "split_text_by_separator_op (Some (Map_t [(''chunk_size'', Uint_t 100), (''text'', String_t ''abc'')])) =
     Inl (Throw ''chunk_overlap(200) should be smaller than chunk size(100).'')"
proof -
  have "show_u64 100 = ''100''" by code_simp
  with default_overlap_throws [of "[(''chunk_size'', Uint_t 100), (''text'', String_t ''abc'')]" "''abc''" 100]
  show ?thesis by simp
qed

section \<open>The debug module\<close>

text \<open>
  The iterative operator \<open>spell\<close> spells: initialised with a text that is not empty, it has
  a complete run whose outputs are the characters of the text, one by one, the last one marked
  as the last, and at the end it holds neither input nor state.
\<close>

lemma spell_spells:
  assumes "msg \<noteq> []" and "length msg < 2 ^ 64"
  shows "\<exists>op1 op2. op_initialize (make_operator (Iterative spell_init spell_step))
      (Some (Map_t [(''text'', String_t msg)])) = Inr (op1, None) \<and>
    runs op_step op1 (spell_outputs msg 0) op2 \<and> op_in op2 = None \<and> op_state op2 = None"
proof -
  let ?op1 = "make_operator (Iterative spell_init spell_step)
    \<lparr>op_in := Some (Map_t [(''text'', String_t msg)]), op_state := Some (spell_state msg (word_of_nat 0))\<rparr>"
  have "op_initialize (make_operator (Iterative spell_init spell_step))
      (Some (Map_t [(''text'', String_t msg)])) = Inr (?op1, None)"
    by (simp add: op_initialize_def make_operator_def iterative_initialize_def operator_initialize_def
        spell_init_def spell_state_def)
  moreover have "0 < length msg" using assms(1) by simp
  ultimately show ?thesis
    using spell_runs [of 0 msg ?op1] assms(2) by (auto simp: make_operator_def)
qed

lemma spell_spells_witness:
  "\<exists>op1 op2. op_initialize (make_operator (Iterative spell_init spell_step))
      (Some (Map_t [(''text'', String_t ''hi'')])) = Inr (op1, None) \<and>
    runs op_step op1 [Ok_output (Some (Map_t [(''text'', String_t ''h'')])) False,
      Ok_output (Some (Map_t [(''text'', String_t ''i'')])) True] op2"
proof -
  have "spell_outputs ''hi'' 0 = [Ok_output (Some (Map_t [(''text'', String_t ''h'')])) False,
      Ok_output (Some (Map_t [(''text'', String_t ''i'')])) True]"
    by (simp add: spell_outputs_def upt_rec)
  with spell_spells [of "''hi''"] show ?thesis by auto
qed

text \<open>
  Spelling nothing fails: for the empty text the first output is an empty text that is not
  marked as the last, and the second one is the error of an index overflow.
\<close>

lemma spelling_nothing_fails:
  "\<exists>op1 op2. op_initialize (make_operator (Iterative spell_init spell_step))
      (Some (Map_t [(''text'', String_t [])])) = Inr (op1, None) \<and>
    runs op_step op1 [Ok_output (Some (Map_t [(''text'', String_t [])])) False,
      Error_output (range_error2 ''Spell'' ''Index overflow'')] op2"
proof -
  let ?op = "\<lambda>i. make_operator (Iterative spell_init spell_step)
    \<lparr>op_in := Some (Map_t [(''text'', String_t [])]), op_state := Some (spell_state [] i)\<rparr>"
  note defs = op_step_def iterative_step_def make_operator_def spell_step_def spell_state_def map_at_as_def
    map_get_def map_at_def
  have "op_initialize (make_operator (Iterative spell_init spell_step))
      (Some (Map_t [(''text'', String_t [])])) = Inr (?op 0, None)"
    by (simp add: op_initialize_def make_operator_def iterative_initialize_def operator_initialize_def
        spell_init_def spell_state_def)
  moreover have "op_step (?op 0) = Inr (?op 1, Ok_output (Some (Map_t [(''text'', String_t [])])) False)"
    by (simp add: defs)
  moreover have "op_step (?op 1) = Inr (?op 1, Error_output (range_error2 ''Spell'' ''Index overflow''))"
    by (simp add: defs)
  ultimately show ?thesis
    by (intro exI conjI) (assumption, (rule runs.more, assumption, simp), rule runs.last, assumption, simp)
qed

text \<open>
  The component \<open>accumulator\<close> accumulates: created with a base and given texts, it returns
  the base followed by the texts in the order they came, and their number.
\<close>

lemma accumulator_accumulates:
  "\<exists>c os. create_accumulator (Some (Map_t [(''base'', String_t base)])) = Inr (Got c) \<and>
     put_texts ss (objs c) = Inr os \<and>
     accumulator_get os inp = Inr (os, Got (Some (Map_t [(''text'', String_t (base @ concat ss))]))) \<and>
     accumulator_count os inp = Inr (os, Got (Some (Map_t [(''count'', Uint_t (word_of_nat (length ss)))])))"
  using put_texts_concat [of ss base 0]
  by (simp add: create_accumulator_def make_component_def accumulator_get_def accumulator_count_def
      get_obj_def set_obj_def accumulated_def)

section \<open>The calculator\<close>

text \<open>
  The calculator returns for every input: with an expression parser that reports errors at
  positions from 1 on, it answers each value with a result or an error, and throws on none.
\<close>

lemma calculator_always_answers:
  assumes "\<forall>e. te e \<noteq> Inr 0"
  shows "\<exists>r. calculator_op te (Some v) = Inr r"
  by (rule calculator_returns) (use assms in blast)

lemma calculator_always_answers_witness:
  "\<exists>r. calculator_op (\<lambda>e. if e = ''0'' then Inl 0 else Inr 1) (Some (Map_t [(''expression'', String_t ''0'')])) = Inr r"
  by (rule calculator_always_answers) simp

end
