(* ===== verification/VectorStore.thy ===== *)
theory VectorStore
  imports Modules Json Exceptions
begin

text \<open>
  The component that wraps a vector store (\<open>vm/src/vector_store.hpp\<close>): six methods that check
  their inputs and call the store. The store is an object with virtual functions, here the
  record \<open>store_ops\<close> over the type of its states; what the methods rely on is the locale
  \<open>vector_store\<close>.
\<close>

section \<open>The interface\<close>

record vs_add_input =
  vi_embedding :: ndarray
  vi_document :: string
  vi_metadata :: "json option"

record vs_get_result =
  vg_id :: string
  vg_document :: string
  vg_metadata :: "json option"
  vg_embedding :: ndarray

record vs_retrieve_result =
  vr_id :: string
  vr_document :: string
  vr_metadata :: "json option"
  vr_similarity :: u32

record 's store_ops =
  add_vector :: "vs_add_input \<Rightarrow> 's \<Rightarrow> ('s \<times> string) res"
  add_vectors :: "vs_add_input list \<Rightarrow> 's \<Rightarrow> ('s \<times> string list) res"
  get_by_id :: "string \<Rightarrow> 's \<Rightarrow> ('s \<times> vs_get_result option) res"
  retrieve :: "ndarray \<Rightarrow> u64 \<Rightarrow> 's \<Rightarrow> ('s \<times> vs_retrieve_result list) res"
  remove_vector :: "string \<Rightarrow> 's \<Rightarrow> ('s \<times> unit) res"
  clear :: "'s \<Rightarrow> ('s \<times> unit) res"

section \<open>The methods\<close>

text \<open>\<open>component->get_obj("vector_store")->as<vector_store_t>()\<close>, and a call on it.\<close>

definition on_store ::
  "('s \<Rightarrow> ('s \<times> 'a) res) \<Rightarrow> ('a \<Rightarrow> val res) \<Rightarrow> 's objs \<Rightarrow> ('s objs \<times> value_or_error) res" where
  "on_store f out os =
     bindR (deref (get_obj Some os ''vector_store'')) (\<lambda>s.
     bindR (f s) (\<lambda>(s', a).
     bindR (out a) (\<lambda>v. Inr (set_obj ''vector_store'' s' os, Got (Some v)))))"

definition parse_metadata :: "string \<Rightarrow> string \<Rightarrow> (string \<times> val) list \<Rightarrow> json or_error" where
  "parse_metadata ctx name m =
     (case map_of m ''metadata'' of
        None \<Rightarrow> Got (JObject [])
      | Some v \<Rightarrow>
          if is_map v \<or> is_null v then Got (to_json v)
          else Failed (type_error4 ctx name ''map_t | null_t'' (get_type v)))"

text \<open>
  An item to insert. When the embedding is missing, the error message asks for its type, and
  \<open>at\<close> throws; the message about a wrong document shows the type of the embedding.
\<close>

definition parse_add_input ::
  "string \<Rightarrow> string \<Rightarrow> (string \<times> val) list \<Rightarrow> vs_add_input or_error res" where
  "parse_add_input ctx prfx m =
     bindR (map_at m ''embedding'') (\<lambda>e.
     case e of
       Ndarray_t a \<Rightarrow>
         (case map_of m ''document'' of
            Some (String_t d) \<Rightarrow>
              Inr (case parse_metadata ctx (prfx @ ''metadata'') m of
                     Failed r \<Rightarrow> Failed r
                   | Got md \<Rightarrow> Got \<lparr>vi_embedding = a, vi_document = d, vi_metadata = Some md\<rparr>)
          | _ \<Rightarrow> Inr (Failed (type_error4 ctx (prfx @ ''document'') ''string_t'' (get_type e))))
     | _ \<Rightarrow> Inr (Failed (type_error4 ctx (prfx @ ''embedding'') ''ndarray_t'' (get_type e))))"

definition vs_insert :: "'s store_ops \<Rightarrow> 's objs \<Rightarrow> val option \<Rightarrow> ('s objs \<times> value_or_error) res" where
  "vs_insert S os inputs = bindR (deref inputs) (\<lambda>v.
     case v of
       Map_t m \<Rightarrow>
         bindR (parse_add_input ''vector_store.insert'' [] m) (\<lambda>r.
         case r of
           Failed e \<Rightarrow> Inr (os, Failed e)
         | Got inp \<Rightarrow> on_store (add_vector S inp) (\<lambda>vid. Inr (Map_t [(''id'', String_t vid)])) os)
     | _ \<Rightarrow> Inr (os, Failed (type_error4 ''vector_store.insert'' ''inputs'' ''map_t'' (get_type v))))"

fun parse_add_inputs :: "val list \<Rightarrow> vs_add_input list or_error res" where
  "parse_add_inputs [] = Inr (Got [])"
| "parse_add_inputs (v # vs) =
     (case v of
        Map_t m \<Rightarrow>
          bindR (parse_add_input ''vector_store.insert_many'' ''inputs.'' m) (\<lambda>r.
          case r of
            Failed e \<Rightarrow> Inr (Failed e)
          | Got inp \<Rightarrow>
              bindR (parse_add_inputs vs) (\<lambda>rs.
                Inr (case rs of Failed e \<Rightarrow> Failed e | Got inps \<Rightarrow> Got (inp # inps))))
      | _ \<Rightarrow> Inr (Failed (type_error4 ''vector_store.insert_many'' ''inputs.*'' ''map_t'' (get_type v))))"

definition vs_insert_many ::
  "'s store_ops \<Rightarrow> 's objs \<Rightarrow> val option \<Rightarrow> ('s objs \<times> value_or_error) res" where
  "vs_insert_many S os inputs = bindR (deref inputs) (\<lambda>v.
     case v of
       Array_t vs \<Rightarrow>
         bindR (parse_add_inputs vs) (\<lambda>r.
         case r of
           Failed e \<Rightarrow> Inr (os, Failed e)
         | Got inps \<Rightarrow>
             on_store (add_vectors S inps) (\<lambda>ids. Inr (Map_t [(''ids'', Array_t (map String_t ids))])) os)
     | _ \<Rightarrow> Inr (os, Failed (type_error4 ''vector_store.insert_many'' ''inputs'' ''array_t'' (get_type v))))"

definition parse_id :: "string \<Rightarrow> val \<Rightarrow> string or_error" where
  "parse_id ctx v =
     (case v of
        Map_t m \<Rightarrow>
          (case map_of m ''id'' of
             None \<Rightarrow> Failed (range_error2 ctx ''id'')
           | Some x \<Rightarrow>
               (case x of String_t s \<Rightarrow> Got s
                | _ \<Rightarrow> Failed (type_error4 ctx ''id'' ''string_t'' (get_type x))))
      | _ \<Rightarrow> Failed (type_error4 ctx ''inputs'' ''map_t'' (get_type v)))"

definition metadata_val :: "json option \<Rightarrow> val res" where
  "metadata_val md = (case md of None \<Rightarrow> Inr Null_t | Some j \<Rightarrow> from_json j)"

definition get_result_val :: "vs_get_result option \<Rightarrow> val res" where
  "get_result_val r =
     (case r of
        None \<Rightarrow> Inr Null_t
      | Some g \<Rightarrow>
          bindR (metadata_val (vg_metadata g)) (\<lambda>md.
            Inr (Map_t (put ''metadata'' md (put ''document'' (String_t (vg_document g))
              (put ''embedding'' (Ndarray_t (vg_embedding g)) (put ''id'' (String_t (vg_id g)) [])))))))"

definition vs_get_by_id :: "'s store_ops \<Rightarrow> 's objs \<Rightarrow> val option \<Rightarrow> ('s objs \<times> value_or_error) res" where
  "vs_get_by_id S os inputs = bindR (deref inputs) (\<lambda>v.
     case parse_id ''vector_store.get_by_id'' v of
       Failed e \<Rightarrow> Inr (os, Failed e)
     | Got vid \<Rightarrow> on_store (get_by_id S vid) get_result_val os)"

text \<open>The number of results; the message about a missing \<open>top_k\<close> names the other field.\<close>

definition parse_query :: "val \<Rightarrow> (ndarray \<times> u64) or_error" where
  "parse_query v =
     (case v of
        Map_t m \<Rightarrow>
          (case map_of m ''query_embedding'' of
             None \<Rightarrow> Failed (range_error2 ''vector_store.retrieve'' ''query_embedding'')
           | Some x \<Rightarrow>
               (case x of
                  Ndarray_t q \<Rightarrow>
                    (case map_of m ''top_k'' of
                       None \<Rightarrow> Failed (range_error2 ''vector_store.retrieve'' ''query_embedding'')
                     | Some k \<Rightarrow>
                         (case k of
                            Uint_t n \<Rightarrow> Got (q, n)
                          | Int_t n \<Rightarrow> Got (q, n)
                          | _ \<Rightarrow> Failed (type_error4 ''vector_store.retrieve'' ''top_k'' ''uint_t | int_t'' (get_type k))))
                | _ \<Rightarrow> Failed (type_error4 ''vector_store.retrieve'' ''query_embedding'' ''ndarray_t'' (get_type x))))
      | _ \<Rightarrow> Failed (type_error4 ''vector_store.retrieve'' ''inputs'' ''map_t'' (get_type v)))"

definition retrieve_result_val :: "vs_retrieve_result \<Rightarrow> val res" where
  "retrieve_result_val r =
     bindR (metadata_val (vr_metadata r)) (\<lambda>md.
       Inr (Map_t (put ''similarity'' (Float_t (vr_similarity r)) (put ''metadata'' md
         (put ''document'' (String_t (vr_document r)) (put ''id'' (String_t (vr_id r)) []))))))"

definition vs_retrieve :: "'s store_ops \<Rightarrow> 's objs \<Rightarrow> val option \<Rightarrow> ('s objs \<times> value_or_error) res" where
  "vs_retrieve S os inputs = bindR (deref inputs) (\<lambda>v.
     case parse_query v of
       Failed e \<Rightarrow> Inr (os, Failed e)
     | Got (q, k) \<Rightarrow>
         on_store (retrieve S q k)
           (\<lambda>rs. bindR (mapR retrieve_result_val rs) (\<lambda>vs. Inr (Map_t [(''results'', Array_t vs)]))) os)"

definition vs_remove :: "'s store_ops \<Rightarrow> 's objs \<Rightarrow> val option \<Rightarrow> ('s objs \<times> value_or_error) res" where
  "vs_remove S os inputs = bindR (deref inputs) (\<lambda>v.
     case parse_id ''vector_store.remove'' v of
       Failed e \<Rightarrow> Inr (os, Failed e)
     | Got vid \<Rightarrow> on_store (remove_vector S vid) (\<lambda>_. Inr (Bool_t True)) os)"

definition vs_clear :: "'s store_ops \<Rightarrow> 's objs \<Rightarrow> val option \<Rightarrow> ('s objs \<times> value_or_error) res" where
  "vs_clear S os inputs = on_store (clear S) (\<lambda>_. Inr (Bool_t True)) os"

text \<open>\<open>new\<close> is the constructor of the derived class.\<close>

definition create_vector_store_component ::
  "(val option \<Rightarrow> 's res) \<Rightarrow> 's store_ops \<Rightarrow> 's component_factory" where
  "create_vector_store_component new S attrs =
     bindR (new attrs) (\<lambda>s.
       let c = make_component
         (put ''insert'' (make_method (Instant_method (vs_insert S)))
         (put ''insert_many'' (make_method (Instant_method (vs_insert_many S)))
         (put ''get_by_id'' (make_method (Instant_method (vs_get_by_id S)))
         (put ''retrieve'' (make_method (Instant_method (vs_retrieve S)))
         (put ''remove'' (make_method (Instant_method (vs_remove S)))
         (put ''clear'' (make_method (Instant_method (vs_clear S))) []))))))
       in Inr (Got (c\<lparr>objs := set_obj ''vector_store'' s (objs c)\<rparr>)))"

section \<open>The contract of a store\<close>

text \<open>
  \<open>docs s\<close> are the documents with their metadata, under the keys that the ids stand for,
  \<open>room s n\<close> says that \<open>n\<close> more vectors can be added, and \<open>keeps\<close> is what a store keeps of
  the metadata it is given.
\<close>

locale vector_store =
  fixes S :: "'s store_ops"
    and inv :: "'s \<Rightarrow> bool"
    and key :: "string \<Rightarrow> 'k"
    and docs :: "'s \<Rightarrow> 'k \<rightharpoonup> string \<times> json option"
    and room :: "'s \<Rightarrow> nat \<Rightarrow> bool"
    and keeps :: "json option \<Rightarrow> json option"
  assumes add: "inv s \<Longrightarrow> room s 1 \<Longrightarrow> add_vector S i s = Inr (s', vid) \<Longrightarrow>
      inv s' \<and> docs s (key vid) = None \<and> docs s' = (docs s)(key vid \<mapsto> (vi_document i, keeps (vi_metadata i)))"
    and get: "inv s \<Longrightarrow> get_by_id S vid s = Inr (s', r) \<Longrightarrow>
      s' = s \<and> (case r of None \<Rightarrow> docs s (key vid) = None
        | Some g \<Rightarrow> vg_id g = vid \<and> docs s (key vid) = Some (vg_document g, vg_metadata g))"
    and ret: "inv s \<Longrightarrow> retrieve S q n s = Inr (s', rs) \<Longrightarrow>
      s' = s \<and> (\<forall>r \<in> set rs. docs s (key (vr_id r)) = Some (vr_document r, vr_metadata r))"
    and rem: "inv s \<Longrightarrow> remove_vector S vid s = Inr (s', u) \<Longrightarrow> inv s' \<and> docs s' = (docs s)(key vid := None)"
    and clr: "inv s \<Longrightarrow> clear S s = Inr (s', u) \<Longrightarrow> inv s' \<and> docs s' = Map.empty"
begin

lemma insert_outcome:
  assumes "map_of os ''vector_store'' = Some s" "inv s" "room s 1"
    and "vs_insert S os inp = Inr (os', Got (Some v))"
  obtains i vid s' where "v = Map_t [(''id'', String_t vid)]" "os' = put ''vector_store'' s' os" "inv s'"
    "docs s (key vid) = None" "docs s' = (docs s)(key vid \<mapsto> (vi_document i, keeps (vi_metadata i)))"
    "\<exists>m. inp = Some (Map_t m) \<and> parse_add_input ''vector_store.insert'' [] m = Inr (Got i)"
proof -
  obtain x where x: "inp = Some x" using assms(4) by (cases inp) (auto simp: vs_insert_def)
  with assms(4) obtain m where m: "x = Map_t m" by (cases x) (auto simp: vs_insert_def)
  with assms(4) x obtain r where r: "parse_add_input ''vector_store.insert'' [] m = Inr r"
    by (auto simp: vs_insert_def bindR_eq_Inr)
  with assms(4) x m obtain i where inp: "inp = Some (Map_t m)"
    "parse_add_input ''vector_store.insert'' [] m = Inr (Got i)"
    and run: "on_store (add_vector S i) (\<lambda>vid. Inr (Map_t [(''id'', String_t vid)])) os = Inr (os', Got (Some v))"
    by (cases r) (auto simp: vs_insert_def)
  obtain s' vid where st: "add_vector S i s = Inr (s', vid)" "v = Map_t [(''id'', String_t vid)]"
    "os' = put ''vector_store'' s' os"
    using run assms(1) by (auto simp: on_store_def get_obj_def set_obj_def bindR_eq_Inr)
  with add [OF assms(2,3) st(1)] inp that show ?thesis by blast
qed

lemma get_outcome:
  assumes "map_of os ''vector_store'' = Some s" "inv s"
    and "vs_get_by_id S os (Some (Map_t [(''id'', String_t vid)])) = Inr (os', Got (Some v))"
  shows "map_of os' ''vector_store'' = Some s \<and>
    (case docs s (key vid) of None \<Rightarrow> v = Null_t
     | Some (d, md) \<Rightarrow> \<exists>m. v = Map_t m \<and> map_of m ''id'' = Some (String_t vid) \<and>
         map_of m ''document'' = Some (String_t d) \<and>
         metadata_val md = Inr (the (map_of m ''metadata'')))"
proof -
  obtain s' r where st: "get_by_id S vid s = Inr (s', r)" "get_result_val r = Inr v"
    "os' = put ''vector_store'' s' os"
    using assms(1,3)
    by (auto simp: vs_get_by_id_def parse_id_def on_store_def get_obj_def set_obj_def bindR_eq_Inr)
  note g = get [OF assms(2) st(1)]
  show ?thesis
  proof (cases r)
    case None
    with g st show ?thesis by (simp add: get_result_val_def)
  next
    case (Some x)
    with g st show ?thesis by (auto simp: get_result_val_def bindR_eq_Inr)
  qed
qed

lemma remove_outcome:
  assumes "map_of os ''vector_store'' = Some s" "inv s"
    and "vs_remove S os (Some (Map_t [(''id'', String_t vid)])) = Inr (os', Got (Some v))"
  obtains s' where "map_of os' ''vector_store'' = Some s'" "inv s'" "docs s' = (docs s)(key vid := None)"
    "v = Bool_t True"
proof -
  obtain s' where "remove_vector S vid s = Inr (s', ())" "os' = put ''vector_store'' s' os" "v = Bool_t True"
    using assms(1,3)
    by (auto simp: vs_remove_def parse_id_def on_store_def get_obj_def set_obj_def bindR_eq_Inr)
  with rem [OF assms(2)] that show ?thesis by auto
qed

text \<open>What is inserted is found, and what is removed is not.\<close>

lemma insert_then_get:
  assumes "map_of os ''vector_store'' = Some s" "inv s" "room s 1"
    and "map_of m ''embedding'' = Some (Ndarray_t a)" "map_of m ''document'' = Some (String_t d)"
    and "vs_insert S os (Some (Map_t m)) = Inr (os1, Got (Some (Map_t [(''id'', String_t vid)])))"
    and "vs_get_by_id S os1 (Some (Map_t [(''id'', String_t vid)])) = Inr (os2, Got (Some v))"
  shows "\<exists>g. v = Map_t g \<and> map_of g ''id'' = Some (String_t vid) \<and> map_of g ''document'' = Some (String_t d)"
proof -
  obtain i id' s1 where ins: "Map_t [(''id'', String_t vid)] = Map_t [(''id'', String_t id')]"
    "os1 = put ''vector_store'' s1 os" "inv s1" "docs s (key id') = None"
    "docs s1 = (docs s)(key id' \<mapsto> (vi_document i, keeps (vi_metadata i)))"
    and inp: "\<exists>m'. Some (Map_t m) = Some (Map_t m') \<and>
      parse_add_input ''vector_store.insert'' [] m' = Inr (Got i)"
    by (rule insert_outcome [OF assms(1-3,6)])
  have i: "parse_add_input ''vector_store.insert'' [] m = Inr (Got i)" using inp by simp
  have "vi_document i = d"
    using assms(4,5) i
    by (auto simp: parse_add_input_def map_at_def split: or_error.splits)
  moreover have "map_of os1 ''vector_store'' = Some s1" using ins(2) by simp
  ultimately show ?thesis
    using get_outcome [OF _ ins(3) assms(7)] ins(1,5) by auto
qed

lemma remove_then_get:
  assumes "map_of os ''vector_store'' = Some s" "inv s"
    and "vs_remove S os (Some (Map_t [(''id'', String_t vid)])) = Inr (os1, Got (Some u))"
    and "vs_get_by_id S os1 (Some (Map_t [(''id'', String_t vid)])) = Inr (os2, Got (Some v))"
  shows "v = Null_t"
proof -
  obtain s1 where r: "map_of os1 ''vector_store'' = Some s1" "inv s1" "docs s1 = (docs s)(key vid := None)"
    "u = Bool_t True"
    by (rule remove_outcome [OF assms(1-3)])
  then have none: "docs s1 (key vid) = None" by simp
  from get_outcome [OF r(1,2) assms(4)] none show ?thesis by simp
qed

end

text \<open>A store that also adds many vectors at once: each under an id of its own.\<close>

locale batch_store = vector_store +
  assumes adds: "inv s \<Longrightarrow> room s (length is) \<Longrightarrow> add_vectors S is s = Inr (s', vids) \<Longrightarrow>
      inv s' \<and> length vids = length is \<and> distinct (map key vids) \<and> (\<forall>vid \<in> set vids. docs s (key vid) = None) \<and>
      docs s' = docs s ++ map_of (zip (map key vids) (map (\<lambda>i. (vi_document i, keeps (vi_metadata i))) is))"
begin

lemma insert_many_outcome:
  assumes "map_of os ''vector_store'' = Some s" "inv s"
    and "parse_add_inputs vs = Inr (Got is)" "room s (length is)"
    and "vs_insert_many S os (Some (Array_t vs)) = Inr (os', Got (Some v))"
  obtains vids s' where "v = Map_t [(''ids'', Array_t (map String_t vids))]" "os' = put ''vector_store'' s' os"
    "inv s'" "length vids = length is"
    "\<And>k. k < length is \<Longrightarrow>
      docs s' (key (vids ! k)) = Some (vi_document (is ! k), keeps (vi_metadata (is ! k)))"
proof -
  obtain s' vids where st: "add_vectors S is s = Inr (s', vids)" "os' = put ''vector_store'' s' os"
    "v = Map_t [(''ids'', Array_t (map String_t vids))]"
    using assms(1,3,5) by (auto simp: vs_insert_many_def on_store_def get_obj_def set_obj_def bindR_eq_Inr)
  note a = adds [OF assms(2,4) st(1)]
  let ?ds = "map (\<lambda>i. (vi_document i, keeps (vi_metadata i))) is"
  have "docs s' (key (vids ! k)) = Some (vi_document (is ! k), keeps (vi_metadata (is ! k)))" if "k < length is" for k
  proof -
    have "map_of (zip (map key vids) ?ds) (map key vids ! k) = Some (?ds ! k)"
      using a that by (intro map_of_zip_nth) simp_all
    with a that show ?thesis by (simp add: map_add_Some_iff)
  qed
  with a st that show ?thesis by blast
qed

text \<open>Every document of a batch is found under its id.\<close>

lemma insert_many_then_get:
  assumes "map_of os ''vector_store'' = Some s" "inv s"
    and "parse_add_inputs vs = Inr (Got is)" "room s (length is)"
    and "vs_insert_many S os (Some (Array_t vs)) = Inr (os1, Got (Some (Map_t [(''ids'', Array_t (map String_t vids))])))"
    and "k < length is"
    and "vs_get_by_id S os1 (Some (Map_t [(''id'', String_t (vids ! k))])) = Inr (os2, Got (Some v))"
  shows "\<exists>g. v = Map_t g \<and> map_of g ''id'' = Some (String_t (vids ! k)) \<and>
    map_of g ''document'' = Some (String_t (vi_document (is ! k)))"
proof -
  obtain vids' s1 where r: "Map_t [(''ids'', Array_t (map String_t vids))] = Map_t [(''ids'', Array_t (map String_t vids'))]"
    "os1 = put ''vector_store'' s1 os" "inv s1" "length vids' = length is"
    "\<And>k. k < length is \<Longrightarrow> docs s1 (key (vids' ! k)) = Some (vi_document (is ! k), keeps (vi_metadata (is ! k)))"
    by (rule insert_many_outcome [OF assms(1-5)]) blast
  have "vids' = vids" using r(1) by (simp add: inj_map_eq_map inj_def)
  moreover have "map_of os1 ''vector_store'' = Some s1" using r(2) by simp
  ultimately show ?thesis using get_outcome [OF _ r(3) assms(7)] r(5) [OF assms(6)] by auto
qed

end

end
