(* ===== verification/FaissStore.thy ===== *)
theory FaissStore
  imports VectorStore StringUtil
begin

text \<open>
  The vector store on a FAISS index (\<open>vm/src/faiss/faiss_vector_store.cpp\<close>). The index is a
  library: \<open>faiss\<close> holds the functions of it that the code calls, and \<open>faiss_ok\<close> says what
  its documentation promises. Ids are numbers, printed for the caller and read back with
  \<open>strtoll\<close>.
\<close>

section \<open>Reading ids\<close>

text \<open>
  \<open>strtoll\<close> with base 10 on a C string: white space, an optional sign, digits up to the first
  character that is none, and the number cut to the range of the type.
\<close>

definition strtoll :: "string \<Rightarrow> u64" where
  "strtoll s =
     (let s1 = dropWhile is_space (takeWhile (\<lambda>c. c \<noteq> CHR 0x00) s);
          neg = (s1 \<noteq> [] \<and> hd s1 = CHR ''-'');
          s2 = (if s1 \<noteq> [] \<and> (hd s1 = CHR ''-'' \<or> hd s1 = CHR ''+'') then tl s1 else s1);
          n = int (read_nat (takeWhile is_digit s2));
          i = (if neg then - n else n)
      in word_of_int (max (- (2 ^ 63)) (min (2 ^ 63 - 1) i)))"

lemma digit_facts:
  assumes "d < 10"
  shows "is_digit (digit d)" "\<not> is_space (digit d)" "digit d \<noteq> CHR 0x00" "digit d \<noteq> CHR ''-''"
    "digit d \<noteq> CHR ''+''"
proof -
  have c: "(of_char (digit d) :: nat) = 48 + d" by (rule of_char_digit [OF assms])
  then have ne: "digit d \<noteq> x" if "(of_char x :: nat) < 48" for x using that by auto
  show "is_digit (digit d)" using c assms by (simp add: is_digit_def)
  show "\<not> is_space (digit d)" "digit d \<noteq> CHR 0x00" "digit d \<noteq> CHR ''-''" "digit d \<noteq> CHR ''+''"
    using ne by (auto simp: is_space_def)
qed

lemma strtoll_digits:
  assumes "\<forall>c \<in> set s. \<exists>d < 10. c = digit d" and "int (read_nat s) < 2 ^ 63"
  shows "strtoll s = word_of_nat (read_nat s)"
proof -
  have nul: "takeWhile (\<lambda>c. c \<noteq> CHR 0x00) s = s" and dig: "takeWhile is_digit s = s"
    using assms(1) digit_facts(1,3) by (fastforce simp: takeWhile_eq_all_conv)+
  have sp: "dropWhile is_space s = s" and sg: "s \<noteq> [] \<longrightarrow> hd s \<noteq> CHR ''-'' \<and> hd s \<noteq> CHR ''+''"
    using assms(1) by (cases s; auto simp: digit_facts)+
  have "strtoll s = word_of_int (max (- (2 ^ 63)) (min (2 ^ 63 - 1) (int (read_nat s))))"
    using sg by (auto simp: strtoll_def nul sp dig Let_def)
  also have "max (- (2 ^ 63)) (min (2 ^ 63 - 1) (int (read_nat s))) = int (read_nat s)"
    using assms(2) by auto
  finally show ?thesis by simp
qed

lemma strtoll_show:
  assumes "unat w < 2 ^ 63" shows "strtoll (show_i64 w) = w"
proof -
  have small: "int (unat w) < 2 ^ 63"
  proof -
    have "int (unat w) < int (2 ^ 63)" using assms by (simp only: of_nat_less_iff)
    then show ?thesis by (simp only: of_nat_power of_nat_numeral)
  qed
  then have s: "sint w = int (unat w)"
    using sint_uint [of w] signed_take_bit_int_eq_self [of 63 "uint w"] order_trans [OF _ uint_ge_0, of "- (2 ^ 63)" w]
    by simp
  then have "show_i64 w = show_nat (unat w)" by (simp add: show_i64_def)
  moreover have "\<forall>c \<in> set (show_nat (unat w)). \<exists>d < 10. c = digit d"
    using show_nat_digits by blast
  ultimately show ?thesis using small strtoll_digits [of "show_nat (unat w)"] by simp
qed

lemma sint_nonneg:
  assumes "0 \<le> sint (w :: u64)" shows "sint w = int (unat w)"
proof -
  have "sint w < 2 ^ 64" using sint_lt [of w] by simp
  with assms have "take_bit 64 (sint w) = sint w" by (intro take_bit_int_eq_self)
  then show ?thesis using uint_sint [of w] by simp
qed

lemma sint_le_unat: "0 \<le> sint (a :: u64) \<Longrightarrow> sint a < sint (b :: u64) \<Longrightarrow> unat a \<le> unat b"
  using sint_nonneg [of a] sint_nonneg [of b] by (metis le_less_trans less_imp_le of_nat_less_iff)

section \<open>The index\<close>

record 'i faiss =
  fi_new :: "u64 \<Rightarrow> 'i"
  fi_d :: "'i \<Rightarrow> u64"
  fi_add :: "'i \<Rightarrow> (u64 \<times> u32 list) list \<Rightarrow> 'i"
  fi_reconstruct :: "'i \<Rightarrow> u64 \<Rightarrow> u32 list option"
  fi_ntotal :: "'i \<Rightarrow> u64"
  fi_search :: "'i \<Rightarrow> u32 list \<Rightarrow> u64 \<Rightarrow> (u64 \<times> u32) list"
  fi_remove :: "'i \<Rightarrow> u64 \<Rightarrow> 'i"
  fi_remove_all :: "'i \<Rightarrow> 'i"

text \<open>
  What is documented, with \<open>vecs\<close> the vectors of an index under their ids: adding under new
  ids, reading back, removing, and a search that returns as many different ids of the index
  as it is asked for, if there are so many.
\<close>

definition faiss_ok :: "'i faiss \<Rightarrow> ('i \<Rightarrow> u64 \<rightharpoonup> u32 list) \<Rightarrow> bool" where
  "faiss_ok F vecs \<longleftrightarrow>
     (\<forall>d. vecs (fi_new F d) = Map.empty \<and> (unat d < 2 ^ 31 \<longrightarrow> fi_d F (fi_new F d) = d)) \<and>
     (\<forall>x es. distinct (map fst es) \<longrightarrow> fst ` set es \<inter> dom (vecs x) = {} \<longrightarrow>
        vecs (fi_add F x es) = vecs x ++ map_of es \<and> fi_d F (fi_add F x es) = fi_d F x) \<and>
     (\<forall>x n. fi_reconstruct F x n = vecs x n) \<and>
     (\<forall>x q k. unat k \<le> unat (fi_ntotal F x) \<longrightarrow>
        length (fi_search F x q k) = unat k \<and> fst ` set (fi_search F x q k) \<subseteq> dom (vecs x)) \<and>
     (\<forall>x n. vecs (fi_remove F x n) = (vecs x)(n := None) \<and> fi_d F (fi_remove F x n) = fi_d F x) \<and>
     (\<forall>x. vecs (fi_remove_all F x) = Map.empty \<and> fi_d F (fi_remove_all F x) = fi_d F x)"

section \<open>The store\<close>

record 'i faiss_store =
  fs_index :: 'i
  fs_counter :: u64
  fs_docs :: "(u64 \<times> (string \<times> json option)) list"

definition is_valid_embedding :: "'i faiss \<Rightarrow> 'i faiss_store \<Rightarrow> ndarray \<Rightarrow> bool" where
  "is_valid_embedding F s a \<longleftrightarrow> length (nd_shape a) = 1 \<and> nd_shape a ! 0 = fi_d F (fs_index s)"

text \<open>The index reads \<open>d\<close> floats from the vector that it is given.\<close>

definition read_floats :: "u64 \<Rightarrow> u32 list \<Rightarrow> u32 list res" where
  "read_floats d xs =
     (if length xs < unat d then Inl (UB ''read past the end of a vector'') else Inr (take (unat d) xs))"

definition invalid_shape :: "string \<Rightarrow> ndarray \<Rightarrow> 'a res" where
  "invalid_shape what a = Inl (Throw (runtime_error1 (''[FAISS] invalid '' @ what @ '' shape: '' @ shape_str a)))"

definition faiss_add_vector ::
  "'i faiss \<Rightarrow> vs_add_input \<Rightarrow> 'i faiss_store \<Rightarrow> ('i faiss_store \<times> string) res" where
  "faiss_add_vector F inp s =
     (if \<not> is_valid_embedding F s (vi_embedding inp) then invalid_shape ''embedding'' (vi_embedding inp)
      else (let n = fs_counter s in
        bindR (nd_floats (vi_embedding inp)) (\<lambda>xs.
        bindR (read_floats (fi_d F (fs_index s)) xs) (\<lambda>v.
          Inr (s\<lparr>fs_counter := n + 1, fs_index := fi_add F (fs_index s) [(n, v)],
                 fs_docs := put n (vi_document inp, vi_metadata inp) (fs_docs s)\<rparr>, show_i64 n)))))"

text \<open>The loop that numbers the vectors of several inputs.\<close>

fun number_vectors :: "u64 \<Rightarrow> vs_add_input list \<Rightarrow> u64 \<Rightarrow> (u64 \<times> u32 list) list res" where
  "number_vectors d [] n = Inr []"
| "number_vectors d (i # inps) n =
     bindR (nd_floats (vi_embedding i)) (\<lambda>xs.
     bindR (read_floats d xs) (\<lambda>v.
     bindR (number_vectors d inps (n + 1)) (\<lambda>es. Inr ((n, v) # es))))"

definition faiss_add_vectors ::
  "'i faiss \<Rightarrow> vs_add_input list \<Rightarrow> 'i faiss_store \<Rightarrow> ('i faiss_store \<times> string list) res" where
  "faiss_add_vectors F inps s =
     (case find (\<lambda>i. \<not> is_valid_embedding F s (vi_embedding i)) inps of
        Some i \<Rightarrow> invalid_shape ''embedding'' (vi_embedding i)
      | None \<Rightarrow>
          bindR (number_vectors (fi_d F (fs_index s)) inps (fs_counter s)) (\<lambda>es.
            let ids = map fst es in
            Inr (s\<lparr>fs_counter := fs_counter s + word_of_nat (length inps),
                   fs_index := fi_add F (fs_index s) es,
                   fs_docs := fold (\<lambda>(n, i). put n (vi_document i, vi_metadata i)) (zip ids inps) (fs_docs s)\<rparr>,
                 map show_i64 ids)))"

text \<open>\<open>document_store_[id]\<close>: a missing entry is made, empty.\<close>

definition doc_at :: "u64 \<Rightarrow> 'i faiss_store \<Rightarrow> 'i faiss_store \<times> string \<times> json option" where
  "doc_at n s =
     (case map_of (fs_docs s) n of
        Some d \<Rightarrow> (s, d)
      | None \<Rightarrow> (s\<lparr>fs_docs := put n ([], None) (fs_docs s)\<rparr>, [], None))"

definition float_vector :: "u64 \<Rightarrow> u32 list \<Rightarrow> ndarray" where
  "float_vector d v =
     \<lparr>nd_shape = [d], nd_dtype = \<lparr>dt_code = 2, dt_bits = 32, dt_lanes = 1\<rparr>, nd_data = concat (map put_u32 v)\<rparr>"

definition faiss_get_by_id ::
  "'i faiss \<Rightarrow> string \<Rightarrow> 'i faiss_store \<Rightarrow> ('i faiss_store \<times> vs_get_result option) res" where
  "faiss_get_by_id F vid s =
     (let n = strtoll vid in
      case fi_reconstruct F (fs_index s) n of
        None \<Rightarrow> Inr (s, None)
      | Some v \<Rightarrow>
          (let (s', d, md) = doc_at n s in
           Inr (s', Some \<lparr>vg_id = vid, vg_document = d, vg_metadata = md,
             vg_embedding = float_vector (fi_d F (fs_index s)) v\<rparr>)))"

fun results_of :: "(u64 \<times> u32) list \<Rightarrow> 'i faiss_store \<Rightarrow> 'i faiss_store \<times> vs_retrieve_result list" where
  "results_of [] s = (s, [])"
| "results_of ((n, sim) # rs) s =
     (let (s1, d, md) = doc_at n s; (s2, out) = results_of rs s1
      in (s2, \<lparr>vr_id = show_i64 n, vr_document = d, vr_metadata = md, vr_similarity = sim\<rparr> # out))"

text \<open>
  The number of results is the smaller one of two signed numbers; a negative one is the
  length of a vector that can not be made.
\<close>

definition faiss_retrieve ::
  "'i faiss \<Rightarrow> ndarray \<Rightarrow> u64 \<Rightarrow> 'i faiss_store \<Rightarrow> ('i faiss_store \<times> vs_retrieve_result list) res" where
  "faiss_retrieve F q top_k s =
     (if \<not> is_valid_embedding F s q then invalid_shape ''query embedding'' q
      else (let total = fi_ntotal F (fs_index s); min_k = (if sint top_k < sint total then top_k else total) in
        if min_k = 0 then Inr (s, [])
        else if sint min_k < 0 then Inl (LibThrow ''length_error'')
        else bindR (nd_floats q) (\<lambda>xs.
             bindR (read_floats (fi_d F (fs_index s)) xs) (\<lambda>v.
               Inr (results_of (fi_search F (fs_index s) v min_k) s)))))"

definition faiss_remove_vector ::
  "'i faiss \<Rightarrow> string \<Rightarrow> 'i faiss_store \<Rightarrow> ('i faiss_store \<times> unit) res" where
  "faiss_remove_vector F vid s =
     (let n = strtoll vid in
      Inr (s\<lparr>fs_index := fi_remove F (fs_index s) n, fs_docs := del n (fs_docs s)\<rparr>, ()))"

definition faiss_clear :: "'i faiss \<Rightarrow> 'i faiss_store \<Rightarrow> ('i faiss_store \<times> unit) res" where
  "faiss_clear F s = Inr (s\<lparr>fs_index := fi_remove_all F (fs_index s), fs_docs := []\<rparr>, ())"

definition faiss_new :: "'i faiss \<Rightarrow> u64 \<Rightarrow> 'i faiss_store" where
  "faiss_new F d = \<lparr>fs_index = fi_new F d, fs_counter = 0, fs_docs = []\<rparr>"

definition faiss_of_attrs :: "'i faiss \<Rightarrow> val option \<Rightarrow> 'i faiss_store res" where
  "faiss_of_attrs F attrs =
     bindR (deref attrs) (\<lambda>v.
     bindR (deref (as_map v)) (\<lambda>m.
     bindR (map_get as_uint m ''dimension'') (\<lambda>d. Inr (faiss_new F d))))"

definition faiss_ops :: "'i faiss \<Rightarrow> 'i faiss_store store_ops" where
  "faiss_ops F =
     \<lparr>add_vector = faiss_add_vector F, add_vectors = faiss_add_vectors F, get_by_id = faiss_get_by_id F,
      retrieve = faiss_retrieve F, remove_vector = faiss_remove_vector F, clear = faiss_clear F\<rparr>"

section \<open>What the store keeps\<close>

text \<open>
  The index and the documents have the same ids, and the counter is above all of them. A
  store has room for \<open>n\<close> vectors if the counter stays below 2^63, where ids turn negative.
\<close>

definition faiss_inv :: "('i \<Rightarrow> u64 \<rightharpoonup> u32 list) \<Rightarrow> 'i faiss_store \<Rightarrow> bool" where
  "faiss_inv vecs s \<longleftrightarrow>
     dict_ok (fs_docs s) \<and> dom (vecs (fs_index s)) = dom (map_of (fs_docs s)) \<and>
     (\<forall>n d. map_of (fs_docs s) n = Some d \<longrightarrow> unat n < unat (fs_counter s)) \<and> unat (fs_counter s) < 2 ^ 63"

definition faiss_room :: "'i faiss_store \<Rightarrow> nat \<Rightarrow> bool" where
  "faiss_room s k \<longleftrightarrow> unat (fs_counter s) + k < 2 ^ 63"

lemma dom_put: "dom (map_of (put k v m)) = insert k (dom (map_of m))"
  by (auto simp: domIff)

lemma doc_at_known:
  "map_of (fs_docs s) n = Some d \<Longrightarrow> doc_at n s = (s, d)"
  by (simp add: doc_at_def)

lemma results_of_known:
  assumes "fst ` set es \<subseteq> dom (map_of (fs_docs s))" and "\<forall>n d. map_of (fs_docs s) n = Some d \<longrightarrow> unat n < 2 ^ 63"
    and "results_of es s = (s', rs)"
  shows "s' = s \<and> (\<forall>r \<in> set rs. map_of (fs_docs s) (strtoll (vr_id r)) = Some (vr_document r, vr_metadata r))"
  using assms(1,3)
proof (induction es arbitrary: rs s')
  case Nil
  then show ?case by simp
next
  case (Cons e es)
  obtain n sim where e: "e = (n, sim)" by fastforce
  then obtain d md where d: "map_of (fs_docs s) n = Some (d, md)" using Cons.prems(1) by fastforce
  obtain s2 out where r: "results_of es s = (s2, out)" by fastforce
  with Cons have "s2 = s" "\<forall>r \<in> set out. map_of (fs_docs s) (strtoll (vr_id r)) = Some (vr_document r, vr_metadata r)"
    by auto
  moreover have "strtoll (show_i64 n) = n" using assms(2) d by (auto intro: strtoll_show)
  moreover have "s' = s2" "rs = \<lparr>vr_id = show_i64 n, vr_document = d, vr_metadata = md, vr_similarity = sim\<rparr> # out"
    using Cons.prems(2) by (simp_all add: e doc_at_known [OF d] r)
  ultimately show ?case using d by simp
qed

lemma faiss_new_inv: "faiss_ok F vecs \<Longrightarrow> faiss_inv vecs (faiss_new F d)"
  by (simp add: faiss_ok_def faiss_inv_def faiss_new_def dict_ok_def)

lemma faiss_add_effect:
  assumes ok: "faiss_ok F vecs" and inv: "faiss_inv vecs s" and room: "faiss_room s 1"
    and run: "faiss_add_vector F i s = Inr (s', vid)"
  shows "faiss_inv vecs s' \<and> map_of (fs_docs s) (strtoll vid) = None \<and>
    map_of (fs_docs s') = (map_of (fs_docs s))(strtoll vid \<mapsto> (vi_document i, vi_metadata i))"
proof -
  obtain v where s': "s' = s\<lparr>fs_counter := fs_counter s + 1,
      fs_index := fi_add F (fs_index s) [(fs_counter s, v)],
      fs_docs := put (fs_counter s) (vi_document i, vi_metadata i) (fs_docs s)\<rparr>"
    and vid: "vid = show_i64 (fs_counter s)"
    using run by (auto simp: faiss_add_vector_def invalid_shape_def bindR_eq_Inr Let_def split: if_splits)
  have small: "unat (fs_counter s) < 2 ^ 63" using inv by (simp add: faiss_inv_def)
  have key: "strtoll vid = fs_counter s" unfolding vid by (rule strtoll_show [OF small])
  have new: "map_of (fs_docs s) (fs_counter s) = None"
    using inv by (cases "map_of (fs_docs s) (fs_counter s)") (auto simp: faiss_inv_def)
  have up: "unat (fs_counter s + 1) = unat (fs_counter s) + 1"
    using small by (simp add: unat_word_ariths)
  have "vecs (fs_index s') = (vecs (fs_index s))(fs_counter s \<mapsto> v)"
    using ok inv new by (simp add: s' faiss_ok_def faiss_inv_def domIff)
  moreover have "\<forall>n d. map_of (fs_docs s') n = Some d \<longrightarrow> unat n < unat (fs_counter s')"
    using inv up by (auto simp: s' faiss_inv_def intro: less_SucI)
  ultimately have "faiss_inv vecs s'"
    using inv room up by (simp add: faiss_inv_def faiss_room_def s' dom_put)
  with key new s' show ?thesis by (auto simp: domIff)
qed

lemma faiss_is_store:
  assumes ok: "faiss_ok F vecs"
  shows "vector_store (faiss_ops F) (faiss_inv vecs) strtoll (\<lambda>s. map_of (fs_docs s)) faiss_room (\<lambda>md. md)"
proof
  fix s s' :: "'a faiss_store" and i vid assume "faiss_inv vecs s" "faiss_room s 1"
    "add_vector (faiss_ops F) i s = Inr (s', vid)"
  then show "faiss_inv vecs s' \<and> map_of (fs_docs s) (strtoll vid) = None \<and>
      map_of (fs_docs s') = (map_of (fs_docs s))(strtoll vid \<mapsto> (vi_document i, vi_metadata i))"
    using faiss_add_effect [OF ok] by (simp add: faiss_ops_def)
next
  fix s s' :: "'a faiss_store" and vid r assume inv: "faiss_inv vecs s" and
    run: "get_by_id (faiss_ops F) vid s = Inr (s', r)"
  have rec: "fi_reconstruct F x n = vecs x n" for x n using ok by (simp add: faiss_ok_def)
  have dm: "vecs (fs_index s) n = None \<longleftrightarrow> map_of (fs_docs s) n = None" for n
    using inv by (auto simp: faiss_inv_def)
  show "s' = s \<and> (case r of None \<Rightarrow> map_of (fs_docs s) (strtoll vid) = None
      | Some g \<Rightarrow> vg_id g = vid \<and> map_of (fs_docs s) (strtoll vid) = Some (vg_document g, vg_metadata g))"
  proof (cases "vecs (fs_index s) (strtoll vid)")
    case None
    with run dm show ?thesis by (auto simp: faiss_ops_def faiss_get_by_id_def rec)
  next
    case (Some v)
    then obtain d md where d: "map_of (fs_docs s) (strtoll vid) = Some (d, md)"
      using dm [of "strtoll vid"] by (cases "map_of (fs_docs s) (strtoll vid)") auto
    with run Some show ?thesis
      by (auto simp: faiss_ops_def faiss_get_by_id_def rec doc_at_known [OF d])
  qed
next
  fix s s' :: "'a faiss_store" and q n rs assume inv: "faiss_inv vecs s" and
    run: "retrieve (faiss_ops F) q n s = Inr (s', rs)"
  have inv': "\<forall>n d. map_of (fs_docs s) n = Some d \<longrightarrow> unat n < 2 ^ 63" using inv unfolding faiss_inv_def by (meson less_trans)
  let ?t = "fi_ntotal F (fs_index s)"
  let ?k = "if sint n < sint ?t then n else ?t"
  consider "s' = s" "rs = []" | v where "results_of (fi_search F (fs_index s) v ?k) s = (s', rs)" "0 \<le> sint ?k"
    using run by (auto simp: faiss_ops_def faiss_retrieve_def invalid_shape_def bindR_eq_Inr Let_def
        split: if_splits)
  then show "s' = s \<and> (\<forall>r \<in> set rs. map_of (fs_docs s) (strtoll (vr_id r)) = Some (vr_document r, vr_metadata r))"
  proof cases
    case (2 v)
    have "unat ?k \<le> unat ?t"
      using 2(2) by (auto simp: not_less intro: sint_le_unat)
    then have "fst ` set (fi_search F (fs_index s) v ?k) \<subseteq> dom (vecs (fs_index s))"
      using ok unfolding faiss_ok_def by blast
    then have "fst ` set (fi_search F (fs_index s) v ?k) \<subseteq> dom (map_of (fs_docs s))"
      using inv unfolding faiss_inv_def by metis
    from results_of_known [OF this inv' 2(1)] show ?thesis .
  qed simp
next
  fix s s' :: "'a faiss_store" and vid u assume inv: "faiss_inv vecs s"
    and run: "remove_vector (faiss_ops F) vid s = Inr (s', u)"
  have rem: "vecs (fi_remove F x n) = (vecs x)(n := None)" for x n using ok unfolding faiss_ok_def by blast
  from run have s': "s' = s\<lparr>fs_index := fi_remove F (fs_index s) (strtoll vid), fs_docs := del (strtoll vid) (fs_docs s)\<rparr>"
    by (simp add: faiss_ops_def faiss_remove_vector_def Let_def)
  then have docs: "map_of (fs_docs s') = (map_of (fs_docs s))(strtoll vid := None)" by auto
  moreover have "faiss_inv vecs s'"
    using inv by (simp add: faiss_inv_def docs) (simp add: s' rem)
  ultimately show "faiss_inv vecs s' \<and> map_of (fs_docs s') = (map_of (fs_docs s))(strtoll vid := None)"
    by simp
next
  fix s s' :: "'a faiss_store" and u assume "faiss_inv vecs s" "clear (faiss_ops F) s = Inr (s', u)"
  moreover have "vecs (fi_remove_all F x) = Map.empty" for x using ok unfolding faiss_ok_def by blast
  ultimately show "faiss_inv vecs s' \<and> map_of (fs_docs s') = Map.empty"
    by (auto simp: faiss_ops_def faiss_clear_def faiss_inv_def dict_ok_def)
qed

section \<open>Adding and reading\<close>

lemma faiss_add_law:
  assumes "faiss_ok F vecs" and "distinct (map fst es)" and "fst ` set es \<inter> dom (vecs x) = {}"
  shows "vecs (fi_add F x es) = vecs x ++ map_of es \<and> fi_d F (fi_add F x es) = fi_d F x"
  using assms unfolding faiss_ok_def by blast

lemma faiss_inv_None: "faiss_inv vecs s \<Longrightarrow> vecs (fs_index s) n = None \<longleftrightarrow> map_of (fs_docs s) n = None"
  unfolding faiss_inv_def by (metis domIff)

lemma faiss_add_runs:
  assumes ok: "faiss_ok F vecs" and inv: "faiss_inv vecs s"
    and shape: "nd_shape (vi_embedding i) = [fi_d F (fs_index s)]"
    and fl: "nd_floats (vi_embedding i) = Inr xs" "read_floats (fi_d F (fs_index s)) xs = Inr v"
  shows "faiss_add_vector F i s =
      Inr (s\<lparr>fs_counter := fs_counter s + 1, fs_index := fi_add F (fs_index s) [(fs_counter s, v)],
             fs_docs := put (fs_counter s) (vi_document i, vi_metadata i) (fs_docs s)\<rparr>, show_i64 (fs_counter s))"
    and "vecs (fi_add F (fs_index s) [(fs_counter s, v)]) = (vecs (fs_index s))(fs_counter s \<mapsto> v)"
    and "fi_d F (fi_add F (fs_index s) [(fs_counter s, v)]) = fi_d F (fs_index s)"
proof -
  have "map_of (fs_docs s) (fs_counter s) = None"
    using inv by (cases "map_of (fs_docs s) (fs_counter s)") (auto simp: faiss_inv_def)
  then have "vecs (fs_index s) (fs_counter s) = None" by (simp add: faiss_inv_None [OF inv])
  then have "fst ` set [(fs_counter s, v)] \<inter> dom (vecs (fs_index s)) = {}" by (simp add: domIff)
  from faiss_add_law [OF ok _ this]
  show "vecs (fi_add F (fs_index s) [(fs_counter s, v)]) = (vecs (fs_index s))(fs_counter s \<mapsto> v)"
    "fi_d F (fi_add F (fs_index s) [(fs_counter s, v)]) = fi_d F (fs_index s)"
    by simp_all
  show "faiss_add_vector F i s =
      Inr (s\<lparr>fs_counter := fs_counter s + 1, fs_index := fi_add F (fs_index s) [(fs_counter s, v)],
             fs_docs := put (fs_counter s) (vi_document i, vi_metadata i) (fs_docs s)\<rparr>, show_i64 (fs_counter s))"
    using shape fl by (simp add: faiss_add_vector_def is_valid_embedding_def Let_def)
qed

lemma faiss_get_eq:
  assumes "faiss_ok F vecs" and "faiss_inv vecs s"
  shows "faiss_get_by_id F vid s = Inr (s,
    case vecs (fs_index s) (strtoll vid) of
      None \<Rightarrow> None
    | Some v \<Rightarrow> (case the (map_of (fs_docs s) (strtoll vid)) of
        (d, md) \<Rightarrow> Some \<lparr>vg_id = vid, vg_document = d, vg_metadata = md,
                         vg_embedding = float_vector (fi_d F (fs_index s)) v\<rparr>))"
proof -
  have rec: "fi_reconstruct F x n = vecs x n" for x n using assms(1) unfolding faiss_ok_def by blast
  show ?thesis
    using faiss_inv_None [OF assms(2), of "strtoll vid"]
    by (auto simp: faiss_get_by_id_def rec doc_at_def Let_def split: option.splits)
qed

lemma results_of_length: "results_of es s = (s', rs) \<Longrightarrow> length rs = length es"
  by (induction es s arbitrary: s' rs rule: results_of.induct) (auto simp: Let_def split: prod.splits)

text \<open>Adding one after the other.\<close>

fun add_each :: "'i faiss \<Rightarrow> vs_add_input list \<Rightarrow> 'i faiss_store \<Rightarrow> ('i faiss_store \<times> string list) res" where
  "add_each F [] s = Inr (s, [])"
| "add_each F (i # inps) s =
     bindR (faiss_add_vector F i s) (\<lambda>(s1, vid).
     bindR (add_each F inps s1) (\<lambda>(s2, vids). Inr (s2, vid # vids)))"

lemma number_vectors_ids:
  assumes "number_vectors d inps n = Inr es" and "unat n + length inps < 2 ^ 63"
  shows "length es = length inps \<and> distinct (map fst es) \<and> (\<forall>e \<in> set es. unat n \<le> unat (fst e))"
  using assms
proof (induction inps arbitrary: n es)
  case (Cons i inps)
  then obtain v es' where es: "es = (n, v) # es'" "number_vectors d inps (n + 1) = Inr es'"
    by (auto simp: bindR_eq_Inr)
  have up: "unat (n + 1) = unat n + 1" using Cons.prems(2) by (simp add: unat_word_ariths)
  with Cons.IH [OF es(2)] Cons.prems(2)
  have "length es' = length inps \<and> distinct (map fst es') \<and> (\<forall>e \<in> set es'. unat n + 1 \<le> unat (fst e))" by simp
  then show ?case by (fastforce simp: es(1))
qed simp

lemma add_each_runs:
  assumes ok: "faiss_ok F vecs"
    and "faiss_inv vecs s" and "faiss_room s (length inps)"
    and "\<forall>i \<in> set inps. nd_shape (vi_embedding i) = [fi_d F (fs_index s)]"
    and "number_vectors (fi_d F (fs_index s)) inps (fs_counter s) = Inr es"
  shows "\<exists>s2. add_each F inps s = Inr (s2, map (\<lambda>e. show_i64 (fst e)) es) \<and> faiss_inv vecs s2 \<and>
    fs_counter s2 = fs_counter s + word_of_nat (length inps) \<and>
    fs_docs s2 = fold (\<lambda>(n, i). put n (vi_document i, vi_metadata i)) (zip (map fst es) inps) (fs_docs s) \<and>
    vecs (fs_index s2) = vecs (fs_index s) ++ map_of es"
  using assms(2-)
proof (induction inps arbitrary: s es)
  case (Cons i inps)
  let ?n = "fs_counter s" and ?d = "fi_d F (fs_index s)"
  obtain xs v es' where es: "es = (?n, v) # es'" "number_vectors ?d inps (?n + 1) = Inr es'"
    and fl: "nd_floats (vi_embedding i) = Inr xs" "read_floats ?d xs = Inr v"
    using Cons.prems(4) by (auto simp: bindR_eq_Inr)
  let ?s1 = "s\<lparr>fs_counter := ?n + 1, fs_index := fi_add F (fs_index s) [(?n, v)],
             fs_docs := put ?n (vi_document i, vi_metadata i) (fs_docs s)\<rparr>"
  note run = faiss_add_runs [OF ok Cons.prems(1) _ fl]
  have add: "faiss_add_vector F i s = Inr (?s1, show_i64 ?n)" using run(1) Cons.prems(3) by simp
  have room: "unat ?n + Suc (length inps) < 2 ^ 63" using Cons.prems(2) by (simp add: faiss_room_def)
  have inv: "faiss_inv vecs ?s1"
    using faiss_add_effect [OF ok Cons.prems(1) _ add] room by (simp add: faiss_room_def)
  have up: "unat (?n + 1) = unat ?n + 1" using room by (simp add: unat_word_ariths)
  have d: "fi_d F (fs_index ?s1) = ?d" using run(3) Cons.prems(3) by simp
  obtain s2 where s2: "add_each F inps ?s1 = Inr (s2, map (\<lambda>e. show_i64 (fst e)) es')" "faiss_inv vecs s2"
    "fs_counter s2 = ?n + 1 + word_of_nat (length inps)"
    "fs_docs s2 = fold (\<lambda>(n, i). put n (vi_document i, vi_metadata i)) (zip (map fst es') inps) (fs_docs ?s1)"
    "vecs (fs_index s2) = vecs (fs_index ?s1) ++ map_of es'"
    using Cons.IH [OF inv, of es'] room up d Cons.prems(3) es(2) by (auto simp: faiss_room_def)
  have "\<forall>e \<in> set es'. unat ?n + 1 \<le> unat (fst e)"
    using number_vectors_ids [OF es(2)] room up by simp
  then have "map_of es' ?n = None" by (auto simp: map_of_eq_None_iff)
  then have "vecs (fs_index ?s1) ++ map_of es' = vecs (fs_index s) ++ map_of es"
    using run(2) Cons.prems(3) by (auto simp: es(1) map_add_def fun_eq_iff split: option.split)
  with s2(5) have "vecs (fs_index s2) = vecs (fs_index s) ++ map_of es" by (rule trans)
  moreover have "add_each F (i # inps) s = Inr (s2, map (\<lambda>e. show_i64 (fst e)) es)"
    using add s2(1) by (simp add: es(1))
  moreover have "fs_counter s2 = fs_counter s + word_of_nat (length (i # inps))" using s2(3) by simp
  moreover have "fs_docs s2 =
      fold (\<lambda>(n, i). put n (vi_document i, vi_metadata i)) (zip (map fst es) (i # inps)) (fs_docs s)"
    using s2(4) by (simp add: es(1))
  ultimately show ?case using s2(2) by blast
qed simp

text \<open>A batch is the single insertions one after the other.\<close>

lemma faiss_batch:
  assumes "faiss_ok F vecs" and "faiss_inv vecs s" and "faiss_room s (length inps)"
    and "faiss_add_vectors F inps s = Inr (s', ids)"
  shows "\<exists>ns s2. map strtoll ids = ns \<and> length ns = length inps \<and> distinct ns \<and>
    (\<forall>n \<in> set ns. map_of (fs_docs s) n = None) \<and>
    fs_docs s' = fold (\<lambda>(n, i). put n (vi_document i, vi_metadata i)) (zip ns inps) (fs_docs s) \<and>
    faiss_inv vecs s' \<and> add_each F inps s = Inr (s2, ids) \<and> fs_counter s2 = fs_counter s' \<and>
    fs_docs s2 = fs_docs s' \<and> vecs (fs_index s2) = vecs (fs_index s')"
proof -
  let ?d = "fi_d F (fs_index s)"
  have valid: "\<forall>i \<in> set inps. is_valid_embedding F s (vi_embedding i)"
    using assms(4) by (auto simp: faiss_add_vectors_def invalid_shape_def find_None_iff split: option.splits)
  then have shapes: "\<forall>i \<in> set inps. nd_shape (vi_embedding i) = [?d]"
    by (auto simp: is_valid_embedding_def length_Suc_conv)
  have "find (\<lambda>i. \<not> is_valid_embedding F s (vi_embedding i)) inps = None" using valid by (simp add: find_None_iff)
  with assms(4) obtain es where es: "number_vectors ?d inps (fs_counter s) = Inr es"
    and s': "s' = s\<lparr>fs_counter := fs_counter s + word_of_nat (length inps), fs_index := fi_add F (fs_index s) es,
      fs_docs := fold (\<lambda>(n, i). put n (vi_document i, vi_metadata i)) (zip (map fst es) inps) (fs_docs s)\<rparr>"
    and ids: "ids = map show_i64 (map fst es)"
    by (auto simp: faiss_add_vectors_def bindR_eq_Inr Let_def)
  have nums: "length es = length inps" "distinct (map fst es)" "\<forall>e \<in> set es. unat (fs_counter s) \<le> unat (fst e)"
    using number_vectors_ids [OF es] assms(3) by (simp_all add: faiss_room_def)
  have new: "vecs (fs_index s) (fst e) = None" if "e \<in> set es" for e
    using nums(3) that assms(2) by (cases "map_of (fs_docs s) (fst e)") (fastforce simp: faiss_inv_None faiss_inv_def)+
  have "fst ` set es \<inter> dom (vecs (fs_index s)) = {}" using new by auto
  note idx = faiss_add_law [OF assms(1) nums(2) this]
  obtain s2 where s2: "add_each F inps s = Inr (s2, map (\<lambda>e. show_i64 (fst e)) es)" "faiss_inv vecs s2"
    "fs_counter s2 = fs_counter s'" "fs_docs s2 = fs_docs s'" "vecs (fs_index s2) = vecs (fs_index s')"
    using add_each_runs [OF assms(1-3) shapes es] idx by (auto simp: s')
  have inv: "faiss_inv vecs s'" using s2(2) by (simp add: faiss_inv_def s2(3-5))
  have "map strtoll ids = map fst es"
  proof -
    have "unat (fst e) < 2 ^ 63" if "e \<in> set es" for e
    proof -
      have "map_of es (fst e) = Some (snd e)" using that nums(2) by (intro map_of_is_SomeI) simp_all
      with idx have "vecs (fs_index s') (fst e) \<noteq> None" by (simp add: s')
      then obtain d where "map_of (fs_docs s') (fst e) = Some d"
        using faiss_inv_None [OF inv, of "fst e"] by (metis not_None_eq)
      then have "unat (fst e) < unat (fs_counter s')" "unat (fs_counter s') < 2 ^ 63"
        using inv unfolding faiss_inv_def by blast+
      then show ?thesis by (rule less_trans)
    qed
    then show ?thesis by (simp add: ids strtoll_show)
  qed
  moreover have "add_each F inps s = Inr (s2, ids)" using s2(1) by (simp add: ids comp_def)
  moreover have "\<forall>n \<in> set (map fst es). map_of (fs_docs s) n = None" using new by (auto simp: faiss_inv_None [OF assms(2)])
  moreover have "fs_docs s' = fold (\<lambda>(n, i). put n (vi_document i, vi_metadata i)) (zip (map fst es) inps) (fs_docs s)"
    by (simp add: s')
  ultimately show ?thesis using nums(1,2) s2(3-5) inv by (intro exI [of _ "map fst es"] exI [of _ s2]) simp
qed

lemma map_of_fold_put:
  assumes "length ns = length is" and "distinct ns"
  shows "map_of (fold (\<lambda>(n, i). put n (f i)) (zip ns is) m) = map_of m ++ map_of (zip ns (map f is))"
  using assms
proof (induction ns "is" arbitrary: m rule: list_induct2)
  case (Cons n ns i "is")
  have "map_of (zip ns (map f is)) n = None" using Cons.hyps Cons.prems by (simp add: map_of_zip_is_None)
  then have "(map_of m)(n \<mapsto> f i) ++ map_of (zip ns (map f is)) = (map_of m ++ map_of (zip ns (map f is)))(n \<mapsto> f i)"
    by (intro map_add_upd_left) (simp add: domIff)
  also have "\<dots> = map_of m ++ map_of (zip (n # ns) (map f (i # is)))"
    by (simp only: list.map zip_Cons_Cons map_of.simps map_add_upd fst_conv snd_conv)
  finally have "(map_of m)(n \<mapsto> f i) ++ map_of (zip ns (map f is)) = map_of m ++ map_of (zip (n # ns) (map f (i # is)))" .
  moreover have "map_of (put n (f i) m) = (map_of m)(n \<mapsto> f i)" by auto
  moreover have "distinct ns" using Cons.prems by simp
  ultimately show ?case unfolding zip_Cons_Cons fold_simps prod.case by (simp only: Cons.IH)
qed simp

lemma faiss_is_batch_store:
  assumes ok: "faiss_ok F vecs"
  shows "batch_store (faiss_ops F) (faiss_inv vecs) strtoll (\<lambda>s. map_of (fs_docs s)) faiss_room (\<lambda>md. md)"
proof (intro batch_store.intro batch_store_axioms.intro faiss_is_store [OF ok])
  fix s s' :: "'a faiss_store" and inps ids
  assume "faiss_inv vecs s" "faiss_room s (length inps)" "add_vectors (faiss_ops F) inps s = Inr (s', ids)"
  from faiss_batch [OF ok this(1,2)] this(3)
  obtain ns where ns: "map strtoll ids = ns" "length ns = length inps" "distinct ns"
    "\<forall>n \<in> set ns. map_of (fs_docs s) n = None" "faiss_inv vecs s'"
    "fs_docs s' = fold (\<lambda>(n, i). put n (vi_document i, vi_metadata i)) (zip ns inps) (fs_docs s)"
    by (auto simp: faiss_ops_def)
  have "length ids = length inps" using ns(1,2) by (metis length_map)
  then show "faiss_inv vecs s' \<and> length ids = length inps \<and> distinct (map strtoll ids) \<and>
      (\<forall>vid \<in> set ids. map_of (fs_docs s) (strtoll vid) = None) \<and>
      map_of (fs_docs s') = map_of (fs_docs s) ++
        map_of (zip (map strtoll ids) (map (\<lambda>i. (vi_document i, vi_metadata i)) inps))"
    using ns map_of_fold_put [OF ns(2,3), of "\<lambda>i. (vi_document i, vi_metadata i)"] by auto
qed

text \<open>
  An index kept as a list meets the documentation; with it everything here can be evaluated.
\<close>

definition list_faiss :: "(u64 \<times> (u64 \<times> u32 list) list) faiss" where
  "list_faiss =
     \<lparr>fi_new = (\<lambda>d. (d, [])), fi_d = fst, fi_add = (\<lambda>x es. (fst x, es @ snd x)),
      fi_reconstruct = (\<lambda>x n. map_of (snd x) n), fi_ntotal = (\<lambda>x. word_of_nat (length (snd x))),
      fi_search = (\<lambda>x q k. map (\<lambda>e. (fst e, 0)) (take (unat k) (snd x))),
      fi_remove = (\<lambda>x n. (fst x, del n (snd x))), fi_remove_all = (\<lambda>x. (fst x, []))\<rparr>"

definition list_vecs :: "u64 \<times> (u64 \<times> u32 list) list \<Rightarrow> u64 \<rightharpoonup> u32 list" where
  "list_vecs x = map_of (snd x)"

lemma list_faiss_ok: "faiss_ok list_faiss list_vecs"
proof -
  have "length (take (unat k) es) = unat k" if "unat k \<le> unat (word_of_nat (length es) :: u64)"
    for k :: u64 and es :: "(u64 \<times> u32 list) list"
  proof -
    have "unat (word_of_nat (length es) :: u64) \<le> length es" by (simp add: unsigned_of_nat take_bit_eq_mod)
    with that show ?thesis by simp
  qed
  moreover have "fst ` set (map (\<lambda>e. (fst e, 0 :: u32)) (take n es)) \<subseteq> dom (map_of es)"
    for n and es :: "(u64 \<times> u32 list) list"
    using image_mono [OF set_take_subset, of fst n es]
    by (simp add: dom_map_of_conv_image_fst image_image)
  ultimately show ?thesis
    by (simp add: faiss_ok_def list_faiss_def list_vecs_def fun_eq_iff)
qed

interpretation fs: batch_store "faiss_ops list_faiss" "faiss_inv list_vecs" strtoll
  "\<lambda>s. map_of (fs_docs s)" faiss_room "\<lambda>md. md"
  by (rule faiss_is_batch_store [OF list_faiss_ok])

end
