(* ===== verification/LanguageModule.thy ===== *)
theory LanguageModule
  imports SplitText FaissStore
begin

text \<open>
  The language module (\<open>vm/src/language_module.cpp\<close>): the operators and component types for
  language models, put into the static module when they are missing. What is not modelled
  elsewhere is a parameter: the record \<open>language_parts\<close>.
\<close>

record 'o language_parts =
  lp_embedding :: "'o component_factory"
  lp_language :: "'o component_factory"
  lp_list_models :: "val option \<Rightarrow> value_or_error res"
  lp_download :: "val option \<Rightarrow> value_or_error res"
  lp_remove :: "val option \<Rightarrow> value_or_error res"
  lp_faiss :: "'o component_factory"
  lp_chromadb :: "'o component_factory"
  lp_openai :: "'o component_factory"

definition instant :: "(val option \<Rightarrow> value_or_error res) \<Rightarrow> operator_t" where
  "instant f = make_operator (Instant f)"

text \<open>
  The two entries of the recursive splitter are made again if one of them is missing.
\<close>

definition add_split_text :: "(string \<times> operator_t) list \<Rightarrow> (string \<times> operator_t) list" where
  "add_split_text os =
     (let op = instant split_text_by_separators_recursively_op in
      if map_of os ''split_text'' = None \<or> map_of os ''split_text_separators_recursively'' = None
      then put ''split_text'' op (put ''split_text_separators_recursively'' op os) else os)"

definition get_language_module :: "'o language_parts \<Rightarrow> 'o module_t \<Rightarrow> 'o module_t" where
  "get_language_module P md =
     md\<lparr>mod_factories :=
          put_new ''openai'' (lp_openai P)
         (put_new ''chromadb_vector_store'' (lp_chromadb P)
         (put_new ''faiss_vector_store'' (lp_faiss P)
         (put_new ''tvm_language_model'' (lp_language P)
         (put_new ''tvm_embedding_model'' (lp_embedding P) (mod_factories md))))),
        mod_ops :=
          add_split_text
         (put_new ''split_text_by_separator'' (instant split_text_by_separator_op)
         (put_new ''remove_model'' (instant (lp_remove P))
         (put_new ''download_model'' (instant (lp_download P))
         (put_new ''list_local_models'' (instant (lp_list_models P)) (mod_ops md)))))\<rparr>"

text \<open>Getting the module a second time changes nothing, whatever was there before.\<close>

lemma put_new_present: "map_of m k \<noteq> None \<Longrightarrow> put_new k v m = m"
  by (cases "map_of m k") (simp_all add: put_new_def)

lemma put_new_None: "map_of (put_new k v m) j = None \<longleftrightarrow> j \<noteq> k \<and> map_of m j = None"
  by (cases "map_of m k") (auto simp: put_new_def)

lemma add_split_text_None:
  "map_of (add_split_text os) j = None \<longleftrightarrow>
     j \<noteq> ''split_text'' \<and> j \<noteq> ''split_text_separators_recursively'' \<and> map_of os j = None"
  by (cases "map_of os ''split_text''"; cases "map_of os ''split_text_separators_recursively''")
    (auto simp: add_split_text_def Let_def)

lemma language_module_factories:
  "n \<in> {''openai'', ''chromadb_vector_store'', ''faiss_vector_store'', ''tvm_language_model'',
        ''tvm_embedding_model''} \<Longrightarrow> map_of (mod_factories (get_language_module P md)) n \<noteq> None"
  by (auto simp: get_language_module_def put_new_None simp del: not_None_eq)

lemma language_module_ops:
  "n \<in> {''split_text'', ''split_text_separators_recursively'', ''split_text_by_separator'',
        ''remove_model'', ''download_model'', ''list_local_models''} \<Longrightarrow>
     map_of (mod_ops (get_language_module P md)) n \<noteq> None"
  by (auto simp: get_language_module_def put_new_None add_split_text_None simp del: not_None_eq)

lemma language_module_twice:
  "get_language_module P (get_language_module P md) = get_language_module P md"
proof -
  let ?m = "get_language_module P md"
  have f: "put_new n f (mod_factories ?m) = mod_factories ?m"
    if "n \<in> {''openai'', ''chromadb_vector_store'', ''faiss_vector_store'', ''tvm_language_model'',
        ''tvm_embedding_model''}" for n f
    by (rule put_new_present [OF language_module_factories [OF that]])
  have o: "put_new n f (mod_ops ?m) = mod_ops ?m"
    if "n \<in> {''split_text_by_separator'', ''remove_model'', ''download_model'', ''list_local_models''}" for n f
    by (rule put_new_present [OF language_module_ops]) (use that in auto)
  have s: "add_split_text (mod_ops ?m) = mod_ops ?m"
    using language_module_ops [of "''split_text''" P md]
      language_module_ops [of "''split_text_separators_recursively''" P md]
    by (simp add: add_split_text_def Let_def del: not_None_eq)
  show ?thesis
    by (subst get_language_module_def) (simp add: f o s)
qed

end
