(* ===== verification/TextCodec.thy ===== *)
theory TextCodec
  imports Json
begin

text \<open>
  A JSON library for examples: a textual form with lengths in front, which can be read back for
  every document, so that it meets every hypothesis about a library that some property has.
\<close>

section \<open>Printing\<close>

definition show_num :: "nat \<Rightarrow> string" where
  "show_num n = show_nat n @ '';''"

definition show_text :: "string \<Rightarrow> string" where
  "show_text s = show_num (length s) @ s"

fun show_json :: "json \<Rightarrow> string" where
  "show_json JNull = ''n''"
| "show_json (JBool b) = (if b then ''t'' else ''f'')"
| "show_json (JInt w) = ''i'' @ show_num (unat w)"
| "show_json (JUint w) = ''u'' @ show_num (unat w)"
| "show_json (JFloat w) = ''d'' @ show_num (unat w)"
| "show_json (JString s) = ''s'' @ show_text s"
| "show_json (JBinary bs None) = ''b'' @ show_text (string_of_bytes bs)"
| "show_json (JBinary bs (Some w)) = ''c'' @ show_num (unat w) @ show_text (string_of_bytes bs)"
| "show_json (JArray js) = ''a'' @ show_num (length js) @ concat (map show_json js)"
| "show_json (JObject m) =
     ''o'' @ show_num (length m) @ concat (map (\<lambda>e. show_text (fst e) @ show_json (snd e)) m)"

section \<open>Reading\<close>

type_synonym 'a scanner = "string \<Rightarrow> ('a \<times> string) option"

definition scan_num :: "nat scanner" where
  "scan_num s =
     (case dropWhile (\<lambda>c. c \<noteq> CHR '';'') s of
        [] \<Rightarrow> None | _ # rest \<Rightarrow> Some (read_nat (takeWhile (\<lambda>c. c \<noteq> CHR '';'') s), rest))"

definition scan_text :: "string scanner" where
  "scan_text s =
     (case scan_num s of
        None \<Rightarrow> None
      | Some (n, rest) \<Rightarrow> if length rest < n then None else Some (take n rest, drop n rest))"

primrec scan_many :: "nat \<Rightarrow> 'a scanner \<Rightarrow> 'a list scanner" where
  "scan_many 0 p s = Some ([], s)"
| "scan_many (Suc n) p s =
     (case p s of
        None \<Rightarrow> None
      | Some (x, rest) \<Rightarrow>
          (case scan_many n p rest of None \<Rightarrow> None | Some (xs, rest') \<Rightarrow> Some (x # xs, rest')))"

definition scan_entry :: "json scanner \<Rightarrow> (string \<times> json) scanner" where
  "scan_entry p s =
     (case scan_text s of
        None \<Rightarrow> None
      | Some (k, rest) \<Rightarrow> (case p rest of None \<Rightarrow> None | Some (j, rest') \<Rightarrow> Some ((k, j), rest')))"

definition scan_map :: "('a \<Rightarrow> 'b) \<Rightarrow> 'a scanner \<Rightarrow> 'b scanner" where
  "scan_map f p s = map_option (\<lambda>(x, rest). (f x, rest)) (p s)"

text \<open>The number limits how deep documents are nested; the length of the text is enough.\<close>

primrec scan_json :: "nat \<Rightarrow> json scanner" where
  "scan_json 0 = (\<lambda>s. None)"
| "scan_json (Suc n) = (\<lambda>s.
     case s of
       [] \<Rightarrow> None
     | c # cs \<Rightarrow>
         if c = CHR ''n'' then Some (JNull, cs)
         else if c = CHR ''t'' then Some (JBool True, cs)
         else if c = CHR ''f'' then Some (JBool False, cs)
         else if c = CHR ''i'' then scan_map (\<lambda>k. JInt (word_of_nat k)) scan_num cs
         else if c = CHR ''u'' then scan_map (\<lambda>k. JUint (word_of_nat k)) scan_num cs
         else if c = CHR ''d'' then scan_map (\<lambda>k. JFloat (word_of_nat k)) scan_num cs
         else if c = CHR ''s'' then scan_map JString scan_text cs
         else if c = CHR ''b'' then scan_map (\<lambda>t. JBinary (bytes_of_string t) None) scan_text cs
         else if c = CHR ''c'' then
           (case scan_num cs of
              None \<Rightarrow> None
            | Some (k, rest) \<Rightarrow> scan_map (\<lambda>t. JBinary (bytes_of_string t) (Some (word_of_nat k))) scan_text rest)
         else if c = CHR ''a'' then
           (case scan_num cs of
              None \<Rightarrow> None | Some (k, rest) \<Rightarrow> scan_map JArray (scan_many k (scan_json n)) rest)
         else if c = CHR ''o'' then
           (case scan_num cs of
              None \<Rightarrow> None | Some (k, rest) \<Rightarrow> scan_map JObject (scan_many k (scan_entry (scan_json n))) rest)
         else None)"

definition read_json :: "string \<Rightarrow> json option" where
  "read_json s = (case scan_json (length s) s of Some (j, []) \<Rightarrow> Some j | _ \<Rightarrow> None)"

definition text_codec :: codec where
  "text_codec =
     \<lparr>cbor_out = (\<lambda>j. bytes_of_string (show_json (cbor_norm j))), cbor_in = (\<lambda>bs. read_json (string_of_bytes bs)),
      json_dump = (\<lambda>j. Some (show_json j)), json_parse = read_json\<rparr>"

section \<open>Reading back\<close>

lemma scan_show_num [simp]: "scan_num (show_num n @ rest) = Some (n, rest)"
proof -
  have "CHR '';'' \<noteq> digit d" if "d < 10" for d
  proof
    assume "CHR '';'' = digit d"
    then have "(of_char (digit d) :: nat) = of_char (CHR '';'')" by simp
    with of_char_digit [OF that] that show False by simp
  qed
  then have "\<forall>c \<in> set (show_nat n). c \<noteq> CHR '';''" using show_nat_digits by fastforce
  then show ?thesis by (simp add: scan_num_def show_num_def dropWhile_append2 takeWhile_append2)
qed

lemma scan_show_text [simp]: "scan_text (show_text s @ rest) = Some (s, rest)"
  by (simp add: scan_text_def show_text_def)

lemma scan_many_concat:
  assumes "\<And>x rest. x \<in> set xs \<Longrightarrow> p (f x @ rest) = Some (x, rest)"
  shows "scan_many (length xs) p (concat (map f xs) @ rest) = Some (xs, rest)"
  using assms by (induction xs) simp_all

lemma length_concat_member: "x \<in> set xs \<Longrightarrow> length (f x) \<le> length (concat (map f xs))"
  by (induction xs) auto

lemma scan_show_json: "length (show_json j) \<le> n \<Longrightarrow> scan_json n (show_json j @ rest) = Some (j, rest)"
proof (induction j arbitrary: n rest rule: show_json.induct)
  case 1
  then show ?case by (cases n) (simp_all add: scan_map_def)
next
  case (2 b)
  then show ?case by (cases n; cases b) simp_all
next
  case (3 w)
  then show ?case by (cases n) (simp_all add: scan_map_def)
next
  case (4 w)
  then show ?case by (cases n) (simp_all add: scan_map_def)
next
  case (5 w)
  then show ?case by (cases n) (simp_all add: scan_map_def)
next
  case (6 s)
  then show ?case by (cases n) (simp_all add: scan_map_def)
next
  case (7 bs)
  then show ?case by (cases n) (simp_all add: scan_map_def)
next
  case (8 bs w)
  then show ?case by (cases n) (simp_all add: scan_map_def)
next
  case (9 js)
  then obtain k where n: "n = Suc k" by (cases n) auto
  have "scan_json k (show_json x @ rest') = Some (x, rest')" if "x \<in> set js" for x rest'
    using that 9 n length_concat_member [OF that, of show_json] by simp
  from scan_many_concat [OF this, of js]
  show ?case by (simp add: n scan_map_def)
next
  case (10 m)
  then obtain k where n: "n = Suc k" by (cases n) auto
  let ?f = "\<lambda>e. show_text (fst e) @ show_json (snd e)"
  have "scan_entry (scan_json k) (?f x @ rest') = Some (x, rest')" if "x \<in> set m" for x rest'
  proof -
    have "length (show_json (snd x)) \<le> k" using 10(2) n length_concat_member [OF that, of ?f] by simp
    then have "scan_json k (show_json (snd x) @ rest') = Some (snd x, rest')" using 10(1) that by blast
    then show ?thesis by (simp add: scan_entry_def)
  qed
  from scan_many_concat [OF this, of m]
  show ?case by (simp add: n scan_map_def)
qed

lemma read_show_json [simp]: "read_json (show_json j) = Some j"
  using scan_show_json [of j "length (show_json j)" "[]"] by (simp add: read_json_def)

lemma text_codec_reads [simp]:
  "json_dump text_codec j = Some (show_json j)" "json_parse text_codec (show_json j) = Some j"
  "cbor_faithful text_codec j"
  by (simp_all add: text_codec_def cbor_faithful_def)

declare show_json.simps [simp del]

end
