(* ===== verification/ChromaStore.thy ===== *)
theory ChromaStore
  imports FaissStore JsonNumbers TextCodec
begin

text \<open>
  The vector store on a Chroma server (\<open>vm/src/chromadb_vector_store.cpp\<close>): every operation is
  a request with a JSON document. The server and the HTTP client are the record \<open>chroma_lib\<close>:
  \<open>cl_http\<close> takes the url, the method, the path, the body and the state of the server to its new
  state and either an error or status and body of the response; \<open>cl_status\<close> are the texts of the
  status codes. Identifiers are drawn from \<open>cl_uuid\<close>. \<open>chroma_ok\<close> says what the server's
  documentation promises.
\<close>

section \<open>Requests\<close>

record 'w chroma_lib =
  cl_codec :: codec
  cl_http :: "string \<Rightarrow> string \<Rightarrow> string \<Rightarrow> string option \<Rightarrow> 'w \<Rightarrow> 'w \<times> (string + u32 \<times> string)"
  cl_status :: "u32 \<Rightarrow> string"
  cl_uuid :: "nat \<Rightarrow> string"

record 'w chroma =
  ch_url :: string
  ch_id :: string
  ch_name :: string
  ch_cleanup :: bool
  ch_uuids :: nat
  ch_world :: 'w

definition collections_url :: string where
  "collections_url = ''/api/v2/tenants/default_tenant/databases/default_database/collections''"

definition name_url :: "string \<Rightarrow> string" where
  "name_url name = collections_url @ ''/'' @ name"

definition action_url :: "string \<Rightarrow> string \<Rightarrow> string" where
  "action_url cid act = collections_url @ ''/'' @ cid @ ''/'' @ act"

definition chroma_send ::
  "'w chroma_lib \<Rightarrow> string \<Rightarrow> string \<Rightarrow> string option \<Rightarrow> 'w chroma \<Rightarrow> 'w chroma \<times> (string + u32 \<times> string)" where
  "chroma_send L verb path body s =
     (let (w, r) = cl_http L (ch_url s) verb path body (ch_world s) in (s\<lparr>ch_world := w\<rparr>, r))"

text \<open>\<open>result->status\<close>: a failed request has no response, and nothing looks at that.\<close>

definition response_of :: "string + 'a \<Rightarrow> 'a res" where
  "response_of r = (case r of Inl _ \<Rightarrow> Inl (UB ''null pointer dereference'') | Inr x \<Rightarrow> Inr x)"

definition chroma_failed :: "'w chroma_lib \<Rightarrow> string \<Rightarrow> u32 \<Rightarrow> 'a res" where
  "chroma_failed L what status =
     Inl (Throw (runtime_error1 (''[Chromadb] Failed to '' @ what @ '': '' @ cl_status L status)))"

definition chroma_dump :: "'w chroma_lib \<Rightarrow> json \<Rightarrow> string res" where
  "chroma_dump L j =
     (case json_dump (cl_codec L) j of None \<Rightarrow> Inl (LibThrow ''json::dump'') | Some b \<Rightarrow> Inr b)"

definition chroma_parse :: "'w chroma_lib \<Rightarrow> string \<Rightarrow> json res" where
  "chroma_parse L t =
     (case json_parse (cl_codec L) t of None \<Rightarrow> Inl (LibThrow ''json::parse_error'') | Some j \<Rightarrow> Inr j)"

text \<open>A request about the documents of the collection.\<close>

definition chroma_ask ::
  "'w chroma_lib \<Rightarrow> string \<Rightarrow> json \<Rightarrow> 'w chroma \<Rightarrow> ('w chroma \<times> u32 \<times> string) res" where
  "chroma_ask L action params s =
     bindR (chroma_dump L params) (\<lambda>b.
       let (s', r) = chroma_send L ''POST'' (action_url (ch_id s) action) (Some b) s
       in mapR_res (Pair s') (response_of r))"

section \<open>The collection\<close>

definition create_params :: "string \<Rightarrow> json" where
  "create_params name =
     JObject (put ''configuration'' (JObject [(''hnsw'', JObject [(''space'', JString ''cosine'')])])
       (put ''name'' (JString name) []))"

definition id_of_body :: "'w chroma_lib \<Rightarrow> string \<Rightarrow> string res" where
  "id_of_body L t = bindR (chroma_parse L t) (\<lambda>j. bindR (member_or_null j ''id'') json_string)"

text \<open>A collection that exists already is looked up by its name.\<close>

definition create_collection :: "'w chroma_lib \<Rightarrow> 'w chroma \<Rightarrow> 'w chroma res" where
  "create_collection L s =
     bindR (chroma_dump L (create_params (ch_name s))) (\<lambda>b.
       let (s1, r) = chroma_send L ''POST'' collections_url (Some b) s in
       case r of
         Inl err \<Rightarrow> Inl (Throw (runtime_error1 (''[Chromadb] Failed to request: '' @ err)))
       | Inr (status, t) \<Rightarrow>
           if status = 200 then mapR_res (\<lambda>i. s1\<lparr>ch_id := i\<rparr>) (id_of_body L t)
           else if status = 409
           then (let (s2, r2) = chroma_send L ''GET'' (name_url (ch_name s)) None s1 in
             bindR (response_of r2) (\<lambda>(status2, t2).
               if status2 \<noteq> 200 then chroma_failed L ''get existing collection'' status2
               else mapR_res (\<lambda>i. s2\<lparr>ch_id := i\<rparr>) (id_of_body L t2)))
           else chroma_failed L ''create collection'' status)"

definition delete_collection :: "'w chroma_lib \<Rightarrow> 'w chroma \<Rightarrow> 'w chroma res" where
  "delete_collection L s =
     (let (s', r) = chroma_send L ''DELETE'' (name_url (ch_name s)) None s in
      bindR (response_of r) (\<lambda>(status, t).
        if status \<noteq> 200 then chroma_failed L ''delete collection'' status else Inr s'))"

text \<open>The constructors; \<open>n\<close> identifiers have been drawn before.\<close>

definition chroma_new ::
  "'w chroma_lib \<Rightarrow> string \<Rightarrow> string \<Rightarrow> bool \<Rightarrow> nat \<Rightarrow> 'w \<Rightarrow> 'w chroma res" where
  "chroma_new L url name cleanup n w =
     create_collection L
       \<lparr>ch_url = url, ch_id = [], ch_name = name, ch_cleanup = cleanup, ch_uuids = n, ch_world = w\<rparr>"

definition string_attr :: "(string \<times> val) list \<Rightarrow> string \<Rightarrow> string \<Rightarrow> string res" where
  "string_attr m key dflt =
     (case map_of m key of
        None \<Rightarrow> Inr dflt
      | Some v \<Rightarrow>
          (case v of String_t s \<Rightarrow> Inr s
           | _ \<Rightarrow> Inl (Throw (runtime_error1 (''[Chromadb] '' @ key @ '' should be a type of string'')))))"

definition chroma_of_attrs :: "'w chroma_lib \<Rightarrow> nat \<Rightarrow> 'w \<Rightarrow> val option \<Rightarrow> 'w chroma res" where
  "chroma_of_attrs L n w attrs = bindR (deref attrs) (\<lambda>v.
     case v of
       Map_t m \<Rightarrow>
         bindR (string_attr m ''url'' ''http://localhost:8000'') (\<lambda>url.
         bindR (string_attr m ''collection'' ''default_collection'') (\<lambda>name.
           chroma_new L url name False n w))
     | _ \<Rightarrow> Inl (Throw (runtime_error1 ''[Chromadb] component attrs should be map type'')))"

text \<open>The destructor: an exception leaving it ends the process.\<close>

definition chroma_destroy :: "'w chroma_lib \<Rightarrow> 'w chroma \<Rightarrow> 'w chroma res" where
  "chroma_destroy L s =
     (if \<not> ch_cleanup s then Inr s
      else (case delete_collection L s of
              Inl (UB u) \<Rightarrow> Inl (UB u)
            | Inl _ \<Rightarrow> Inl (UB ''std::terminate'')
            | Inr s' \<Rightarrow> Inr s'))"

section \<open>The documents\<close>

definition strings_json :: "string list \<Rightarrow> json" where
  "strings_json ss = JArray (map JString ss)"

text \<open>Without metadata an empty object is sent.\<close>

definition metadata_json :: "json option \<Rightarrow> json" where
  "metadata_json md = (case md of None \<Rightarrow> JObject [] | Some j \<Rightarrow> j)"

definition add_params :: "string list \<Rightarrow> u32 list list \<Rightarrow> string list \<Rightarrow> json list \<Rightarrow> json" where
  "add_params ids vs ds mds =
     JObject (put ''metadatas'' (JArray mds) (put ''documents'' (strings_json ds)
       (put ''embeddings'' (JArray (map floats_json vs)) (put ''ids'' (strings_json ids) []))))"

definition chroma_add_vector ::
  "'w chroma_lib \<Rightarrow> vs_add_input \<Rightarrow> 'w chroma \<Rightarrow> ('w chroma \<times> string) res" where
  "chroma_add_vector L inp s =
     (let vid = cl_uuid L (ch_uuids s) in
      bindR (nd_floats (vi_embedding inp)) (\<lambda>v.
      bindR (chroma_ask L ''add'' (add_params [vid] [v] [vi_document inp] [metadata_json (vi_metadata inp)])
          (s\<lparr>ch_uuids := ch_uuids s + 1\<rparr>)) (\<lambda>(s', status, t).
        if status \<noteq> 201 then chroma_failed L ''add vector to collection'' status else Inr (s', vid))))"

definition chroma_add_vectors ::
  "'w chroma_lib \<Rightarrow> vs_add_input list \<Rightarrow> 'w chroma \<Rightarrow> ('w chroma \<times> string list) res" where
  "chroma_add_vectors L inps s =
     (let vids = map (\<lambda>i. cl_uuid L (ch_uuids s + i)) [0..<length inps] in
      bindR (mapR (\<lambda>i. nd_floats (vi_embedding i)) inps) (\<lambda>vs.
      bindR (chroma_ask L ''add''
          (add_params vids vs (map vi_document inps) (map (\<lambda>i. metadata_json (vi_metadata i)) inps))
          (s\<lparr>ch_uuids := ch_uuids s + length inps\<rparr>)) (\<lambda>(s', status, t).
        if status \<noteq> 201 then chroma_failed L ''add vectors to collection'' status else Inr (s', vids))))"

definition get_params :: "string \<Rightarrow> json" where
  "get_params vid =
     JObject (put ''include'' (strings_json [''embeddings'', ''documents'', ''metadatas''])
       (put ''ids'' (strings_json [vid]) []))"

text \<open>\<open>j[key][0]\<close>.\<close>

definition first_of :: "json \<Rightarrow> string \<Rightarrow> json res" where
  "first_of j key = bindR (member_or_null j key) first_or_null"

definition chroma_get_by_id ::
  "'w chroma_lib \<Rightarrow> string \<Rightarrow> 'w chroma \<Rightarrow> ('w chroma \<times> vs_get_result option) res" where
  "chroma_get_by_id L vid s =
     bindR (chroma_ask L ''get'' (get_params vid) s) (\<lambda>(s', status, t).
       if status \<noteq> 200 then Inr (s', None)
       else bindR (chroma_parse L t) (\<lambda>j.
            bindR (bindR (first_of j ''documents'') json_string) (\<lambda>d.
            bindR (first_of j ''metadatas'') (\<lambda>md.
            bindR (bindR (first_of j ''embeddings'') json_floats) (\<lambda>v.
              Inr (s', Some \<lparr>vg_id = vid, vg_document = d, vg_metadata = Some md,
                vg_embedding = float_vector (word_of_nat (length v)) v\<rparr>))))))"

definition query_params :: "u32 list \<Rightarrow> u64 \<Rightarrow> json" where
  "query_params q k =
     JObject (put ''n_results'' (JUint k)
       (put ''include'' (strings_json [''documents'', ''metadatas'', ''distances''])
       (put ''query_embeddings'' (JArray [floats_json q]) [])))"

text \<open>Element \<open>i\<close> of a \<open>std::vector\<close>, which is not checked.\<close>

definition vector_nth :: "'a list \<Rightarrow> nat \<Rightarrow> 'a res" where
  "vector_nth xs i = (if i < length xs then Inr (xs ! i) else Inl (UB ''read past the end of a vector''))"

definition chroma_results ::
  "string list \<Rightarrow> string list \<Rightarrow> json \<Rightarrow> u32 list \<Rightarrow> vs_retrieve_result list res" where
  "chroma_results ids ds mds dists =
     mapR (\<lambda>i. bindR (vector_nth ds i) (\<lambda>d. bindR (nth_or_null mds i) (\<lambda>md. bindR (vector_nth dists i) (\<lambda>x.
        Inr \<lparr>vr_id = ids ! i, vr_document = d, vr_metadata = Some md, vr_similarity = f32_sub 0x3F800000 x\<rparr>))))
       [0..<length ids]"

definition chroma_retrieve ::
  "'w chroma_lib \<Rightarrow> ndarray \<Rightarrow> u64 \<Rightarrow> 'w chroma \<Rightarrow> ('w chroma \<times> vs_retrieve_result list) res" where
  "chroma_retrieve L q top_k s =
     bindR (nd_floats q) (\<lambda>v.
     bindR (chroma_ask L ''query'' (query_params v top_k) s) (\<lambda>(s', status, t).
       if status \<noteq> 200 then chroma_failed L ''get query results'' status
       else bindR (chroma_parse L t) (\<lambda>j.
            bindR (bindR (bindR (first_of j ''ids'') json_list) (mapR json_string)) (\<lambda>ids.
            bindR (bindR (bindR (first_of j ''documents'') json_list) (mapR json_string)) (\<lambda>ds.
            bindR (first_of j ''metadatas'') (\<lambda>mds.
            bindR (bindR (first_of j ''distances'') json_floats) (\<lambda>dists.
              mapR_res (Pair s') (chroma_results ids ds mds dists))))))))"

definition remove_params :: "string \<Rightarrow> json" where
  "remove_params vid = JObject [(''ids'', strings_json [vid])]"

definition chroma_remove_vector ::
  "'w chroma_lib \<Rightarrow> string \<Rightarrow> 'w chroma \<Rightarrow> ('w chroma \<times> unit) res" where
  "chroma_remove_vector L vid s =
     bindR (chroma_ask L ''delete'' (remove_params vid) s) (\<lambda>(s', status, t).
       if status \<noteq> 200 then chroma_failed L ''delete embedding'' status else Inr (s', ()))"

definition chroma_clear :: "'w chroma_lib \<Rightarrow> 'w chroma \<Rightarrow> ('w chroma \<times> unit) res" where
  "chroma_clear L s = mapR_res (\<lambda>s'. (s', ())) (bindR (delete_collection L s) (create_collection L))"

definition chroma_ops :: "'w chroma_lib \<Rightarrow> 'w chroma store_ops" where
  "chroma_ops L =
     \<lparr>add_vector = chroma_add_vector L, add_vectors = chroma_add_vectors L, get_by_id = chroma_get_by_id L,
      retrieve = chroma_retrieve L, remove_vector = chroma_remove_vector L, clear = chroma_clear L\<rparr>"

section \<open>The server\<close>

text \<open>
  What is documented of a server that answers: \<open>cols w\<close> are the collections in state \<open>w\<close> under
  their identifiers, each with its documents, metadata (\<open>nm\<close> is what it makes of them) and
  vectors as they were sent, and \<open>named w\<close> are the identifiers of the collections' names.
\<close>

type_synonym collection = "string \<rightharpoonup> string \<times> json \<times> json"

definition answers :: "'w chroma_lib \<Rightarrow> string \<Rightarrow> string \<Rightarrow> string \<Rightarrow> json \<Rightarrow> 'w \<Rightarrow> ('w \<times> u32 \<times> string) option" where
  "answers L url verb path j w =
     (case json_dump (cl_codec L) j of
        None \<Rightarrow> None
      | Some b \<Rightarrow>
          (case cl_http L url verb path (Some b) w of (w', Inr r) \<Rightarrow> Some (w', r) | (_, Inl _) \<Rightarrow> None))"

definition body_of :: "'w chroma_lib \<Rightarrow> string \<Rightarrow> (string \<times> json) list option" where
  "body_of L t = (case json_parse (cl_codec L) t of Some (JObject m) \<Rightarrow> Some m | _ \<Rightarrow> None)"

definition chroma_adds :: "'w chroma_lib \<Rightarrow> string \<Rightarrow> (json \<Rightarrow> json) \<Rightarrow> ('w \<Rightarrow> string \<rightharpoonup> collection) \<Rightarrow> ('w \<Rightarrow> string \<rightharpoonup> string) \<Rightarrow> bool" where
  "chroma_adds L url nm cols named \<longleftrightarrow>
     (\<forall>w cid c ids vs ds mds. cols w cid = Some c \<longrightarrow> distinct ids \<longrightarrow> set ids \<inter> dom c = {} \<longrightarrow>
        length vs = length ids \<longrightarrow> length ds = length ids \<longrightarrow> length mds = length ids \<longrightarrow>
        json_dump (cl_codec L) (add_params ids vs ds mds) \<noteq> None \<longrightarrow>
        (\<exists>w' t. answers L url ''POST'' (action_url cid ''add'') (add_params ids vs ds mds) w = Some (w', 201, t) \<and>
           cols w' = (cols w)(cid \<mapsto> c ++ map_of (zip ids (zip ds (zip (map nm mds) (map floats_json vs))))) \<and> named w' = named w))"

definition chroma_gets :: "'w chroma_lib \<Rightarrow> string \<Rightarrow> ('w \<Rightarrow> string \<rightharpoonup> collection) \<Rightarrow> bool" where
  "chroma_gets L url cols \<longleftrightarrow>
     (\<forall>w cid c vid. cols w cid = Some c \<longrightarrow> json_dump (cl_codec L) (get_params vid) \<noteq> None \<longrightarrow>
        (\<exists>t m. answers L url ''POST'' (action_url cid ''get'') (get_params vid) w = Some (w, 200, t) \<and>
           body_of L t = Some m \<and>
           (let es = (case c vid of None \<Rightarrow> [] | Some e \<Rightarrow> [e]) in
             map_of m ''documents'' = Some (JArray (map (\<lambda>(d, md, v). JString d) es)) \<and>
             map_of m ''metadatas'' = Some (JArray (map (\<lambda>(d, md, v). md) es)) \<and>
             map_of m ''embeddings'' = Some (JArray (map (\<lambda>(d, md, v). v) es)))))"

definition chroma_queries :: "'w chroma_lib \<Rightarrow> string \<Rightarrow> ('w \<Rightarrow> string \<rightharpoonup> collection) \<Rightarrow> bool" where
  "chroma_queries L url cols \<longleftrightarrow>
     (\<forall>w cid c q k. cols w cid = Some c \<longrightarrow> json_dump (cl_codec L) (query_params q k) \<noteq> None \<longrightarrow>
        (\<exists>t m rs. answers L url ''POST'' (action_url cid ''query'') (query_params q k) w = Some (w, 200, t) \<and>
           body_of L t = Some m \<and> length rs \<le> unat k \<and> (\<forall>(i, d, md, x) \<in> set rs. \<exists>v. c i = Some (d, md, v)) \<and>
           map_of m ''ids'' = Some (JArray [strings_json (map fst rs)]) \<and>
           map_of m ''documents'' = Some (JArray [strings_json (map (\<lambda>(i, d, md, x). d) rs)]) \<and>
           map_of m ''metadatas'' = Some (JArray [JArray (map (\<lambda>(i, d, md, x). md) rs)]) \<and>
           map_of m ''distances'' = Some (JArray [floats_json (map (\<lambda>(i, d, md, x). x) rs)])))"

definition chroma_removes :: "'w chroma_lib \<Rightarrow> string \<Rightarrow> ('w \<Rightarrow> string \<rightharpoonup> collection) \<Rightarrow> ('w \<Rightarrow> string \<rightharpoonup> string) \<Rightarrow> bool" where
  "chroma_removes L url cols named \<longleftrightarrow>
     (\<forall>w cid c vid. cols w cid = Some c \<longrightarrow> json_dump (cl_codec L) (remove_params vid) \<noteq> None \<longrightarrow>
        (\<exists>w' t. answers L url ''POST'' (action_url cid ''delete'') (remove_params vid) w = Some (w', 200, t) \<and>
           cols w' = (cols w)(cid \<mapsto> c(vid := None)) \<and> named w' = named w))"

text \<open>Collections are made, found and dropped by name.\<close>

definition says_id :: "'w chroma_lib \<Rightarrow> string \<Rightarrow> string \<Rightarrow> bool" where
  "says_id L t cid \<longleftrightarrow> (\<exists>m. body_of L t = Some m \<and> map_of m ''id'' = Some (JString cid))"

definition chroma_collections :: "'w chroma_lib \<Rightarrow> string \<Rightarrow> ('w \<Rightarrow> string \<rightharpoonup> collection) \<Rightarrow> ('w \<Rightarrow> string \<rightharpoonup> string) \<Rightarrow> bool" where
  "chroma_collections L url cols named \<longleftrightarrow>
     (\<forall>w name. named w name = None \<longrightarrow> json_dump (cl_codec L) (create_params name) \<noteq> None \<longrightarrow>
        (\<exists>w' t cid. answers L url ''POST'' collections_url (create_params name) w = Some (w', 200, t) \<and>
           says_id L t cid \<and> cols w cid = None \<and> cols w' = (cols w)(cid \<mapsto> Map.empty) \<and>
           named w' = (named w)(name \<mapsto> cid))) \<and>
     (\<forall>w name cid. named w name = Some cid \<longrightarrow> json_dump (cl_codec L) (create_params name) \<noteq> None \<longrightarrow>
        (\<exists>t. answers L url ''POST'' collections_url (create_params name) w = Some (w, 409, t))) \<and>
     (\<forall>w name cid. named w name = Some cid \<longrightarrow>
        (\<exists>t. cl_http L url ''GET'' (name_url name) None w = (w, Inr (200, t)) \<and> says_id L t cid)) \<and>
     (\<forall>w name cid. named w name = Some cid \<longrightarrow>
        (\<exists>w' t. cl_http L url ''DELETE'' (name_url name) None w = (w', Inr (200, t)) \<and>
           cols w' = (cols w)(cid := None) \<and> named w' = (named w)(name := None)))"

definition chroma_ok ::
  "'w chroma_lib \<Rightarrow> string \<Rightarrow> (json \<Rightarrow> json) \<Rightarrow> ('w \<Rightarrow> string \<rightharpoonup> collection) \<Rightarrow> ('w \<Rightarrow> string \<rightharpoonup> string) \<Rightarrow> bool" where
  "chroma_ok L url nm cols named \<longleftrightarrow>
     inj (cl_uuid L) \<and> chroma_adds L url nm cols named \<and> chroma_gets L url cols \<and> chroma_queries L url cols \<and>
     chroma_removes L url cols named \<and> chroma_collections L url cols named"

text \<open>
  The store's collection exists under its name, and the identifiers still to be drawn are not
  taken in it.
\<close>

definition chroma_inv ::
  "'w chroma_lib \<Rightarrow> string \<Rightarrow> ('w \<Rightarrow> string \<rightharpoonup> collection) \<Rightarrow> ('w \<Rightarrow> string \<rightharpoonup> string) \<Rightarrow> 'w chroma \<Rightarrow> bool" where
  "chroma_inv L url cols named s \<longleftrightarrow>
     ch_url s = url \<and> named (ch_world s) (ch_name s) = Some (ch_id s) \<and>
     (case cols (ch_world s) (ch_id s) of None \<Rightarrow> False
      | Some c \<Rightarrow> \<forall>k \<ge> ch_uuids s. c (cl_uuid L k) = None)"

definition chroma_docs :: "('w \<Rightarrow> string \<rightharpoonup> collection) \<Rightarrow> 'w chroma \<Rightarrow> string \<rightharpoonup> string \<times> json option" where
  "chroma_docs cols s =
     (case cols (ch_world s) (ch_id s) of None \<Rightarrow> Map.empty
      | Some c \<Rightarrow> (\<lambda>i. map_option (\<lambda>(d, md, v). (d, Some md)) (c i)))"

definition chroma_keeps :: "(json \<Rightarrow> json) \<Rightarrow> json option \<Rightarrow> json option" where
  "chroma_keeps nm md = Some (nm (metadata_json md))"

section \<open>What the store keeps\<close>

lemma chroma_inv_col:
  assumes "chroma_inv L url cols named s"
  obtains c where "cols (ch_world s) (ch_id s) = Some c" "\<forall>k \<ge> ch_uuids s. c (cl_uuid L k) = None"
    "ch_url s = url" "named (ch_world s) (ch_name s) = Some (ch_id s)"
  using assms by (auto simp: chroma_inv_def split: option.splits)

text \<open>An answered request, as the store sees it.\<close>

lemma chroma_ask_answered:
  assumes "answers L (ch_url s) ''POST'' (action_url (ch_id s) act) j (ch_world s) = Some (w, st, t)"
  shows "chroma_ask L act j s = Inr (s\<lparr>ch_world := w\<rparr>, st, t)"
  using assms
  by (auto simp: answers_def chroma_ask_def chroma_dump_def chroma_send_def response_of_def
      split: option.splits prod.splits sum.splits)

lemma chroma_ask_unprinted:
  "json_dump (cl_codec L) j = None \<Longrightarrow> chroma_ask L act j s = Inl (LibThrow ''json::dump'')"
  by (simp add: chroma_ask_def chroma_dump_def)

lemma body_of_parse: "body_of L t = Some m \<Longrightarrow> chroma_parse L t = Inr (JObject m)"
  by (auto simp: body_of_def chroma_parse_def split: option.splits json.splits)

lemma says_id_id: "says_id L t cid \<Longrightarrow> id_of_body L t = Inr cid"
  by (auto simp: says_id_def id_of_body_def body_of_parse member_or_null_def)

lemma chroma_add_one:
  "chroma_add_vector L i s = Inr (s', vid) \<Longrightarrow> chroma_add_vectors L [i] s = Inr (s', [vid])"
  by (auto simp: chroma_add_vector_def chroma_add_vectors_def chroma_failed_def bindR_eq_Inr Let_def split: if_splits)

lemma chroma_add_effect:
  assumes ok: "chroma_ok L url nm cols named" and inv: "chroma_inv L url cols named s"
    and run: "chroma_add_vectors L inps s = Inr (s', vids)"
  shows "chroma_inv L url cols named s' \<and> length vids = length inps \<and> distinct vids \<and>
    (\<forall>vid \<in> set vids. chroma_docs cols s vid = None) \<and>
    chroma_docs cols s' = chroma_docs cols s ++
      map_of (zip vids (map (\<lambda>i. (vi_document i, chroma_keeps nm (vi_metadata i))) inps))"
proof -
  obtain c where c: "cols (ch_world s) (ch_id s) = Some c" "\<forall>k \<ge> ch_uuids s. c (cl_uuid L k) = None"
    "ch_url s = url" "named (ch_world s) (ch_name s) = Some (ch_id s)"
    using chroma_inv_col [OF inv] .
  let ?n = "ch_uuids s" and ?ids = "map (\<lambda>i. cl_uuid L (ch_uuids s + i)) [0..<length inps]"
  let ?s1 = "s\<lparr>ch_uuids := ?n + length inps\<rparr>"
  let ?ds = "map vi_document inps" and ?mds = "map (\<lambda>i. metadata_json (vi_metadata i)) inps"
  have inj: "inj (cl_uuid L)" and adds: "chroma_adds L url nm cols named" using ok by (simp_all add: chroma_ok_def)
  obtain vs w st t where vs: "mapR (\<lambda>i. nd_floats (vi_embedding i)) inps = Inr vs" "vids = ?ids"
    and ask: "chroma_ask L ''add'' (add_params ?ids vs ?ds ?mds) ?s1 = Inr (s', st, t)"
    using run by (auto simp: chroma_add_vectors_def bindR_eq_Inr chroma_failed_def Let_def split: if_splits)
  have "inj_on (\<lambda>i. cl_uuid L (?n + i)) {0..<length inps}" by (auto simp: inj_on_def dest: injD [OF inj])
  then have dist: "distinct ?ids" by (simp add: distinct_map)
  have new: "set ?ids \<inter> dom c = {}" using c(2) by auto
  have "json_dump (cl_codec L) (add_params ?ids vs ?ds ?mds) \<noteq> None" using ask chroma_ask_unprinted by fastforce
  from adds [unfolded chroma_adds_def, rule_format, OF c(1) dist new _ _ _ this]
  obtain w' t' where ans: "answers L url ''POST'' (action_url (ch_id s) ''add'') (add_params ?ids vs ?ds ?mds)
      (ch_world s) = Some (w', 201, t')" "named w' = named (ch_world s)"
    "cols w' = (cols (ch_world s))(ch_id s \<mapsto> c ++ map_of (zip ?ids (zip ?ds (zip (map nm ?mds) (map floats_json vs)))))"
    using mapR_length [OF vs(1)] by auto
  then have s': "s' = ?s1\<lparr>ch_world := w'\<rparr>"
    using chroma_ask_answered [of L ?s1 "''add''" "add_params ?ids vs ?ds ?mds" w' 201 t'] ask c(3) by simp
  have late: "map_of (zip ?ids xs) (cl_uuid L k) = None" if "k \<ge> ?n + length inps" for k xs
  proof -
    have "cl_uuid L k \<notin> set ?ids" using that by (auto dest: injD [OF inj])
    then show ?thesis unfolding map_of_eq_None_iff by (metis (no_types, lifting) imageE prod.collapse set_zip_leftD)
  qed
  have inv': "chroma_inv L url cols named s'"
    using c by (simp add: chroma_inv_def s' ans(2,3) map_add_None) (blast intro: late)
  have docs: "map_option (\<lambda>(d, md, v). (d, Some md)) (map_of (zip ids (zip ds (zip ms ws))) i) =
      map_of (zip ids (zip ds (map Some ms))) i"
    if "length ws = length ms" "length ds = length ms" "length ids = length ms"
    for ids :: "string list" and ds :: "string list" and ms :: "json list" and ws :: "json list" and i
    using that by (induction ms arbitrary: ids ds ws) (auto simp: length_Suc_conv)
  have "zip ?ds (map Some (map nm ?mds)) = map (\<lambda>i. (vi_document i, chroma_keeps nm (vi_metadata i))) inps"
    by (simp add: zip_map_map chroma_keeps_def comp_def zip_same_conv_map)
  then have "map_option (\<lambda>(d, md, v). (d, Some md)) (map_of (zip ?ids (zip ?ds (zip (map nm ?mds) (map floats_json vs)))) i) =
      map_of (zip ?ids (map (\<lambda>i. (vi_document i, chroma_keeps nm (vi_metadata i))) inps)) i" for i
    using docs [of "map floats_json vs" "map nm ?mds" ?ds ?ids i] mapR_length [OF vs(1)] by (simp del: map_map)
  moreover have "(\<lambda>i. map_option f ((c ++ Z) i)) = (\<lambda>i. map_option f (c i)) ++ Y"
    if "\<And>i. map_option f (Z i) = Y i" for f :: "string \<times> json \<times> json \<Rightarrow> string \<times> json option" and Y Z
  proof
    show "map_option f ((c ++ Z) i) = ((\<lambda>i. map_option f (c i)) ++ Y) i" for i
      using that [of i] by (cases "Z i"; cases "Y i") (simp_all add: map_add_def)
  qed
  ultimately have "chroma_docs cols s' = chroma_docs cols s ++
      map_of (zip ?ids (map (\<lambda>i. (vi_document i, chroma_keeps nm (vi_metadata i))) inps))"
    by (simp add: chroma_docs_def s' ans(3) c(1) del: map_map)
  moreover have "\<forall>vid \<in> set ?ids. chroma_docs cols s vid = None" using c(2) by (simp add: chroma_docs_def c(1))
  ultimately show ?thesis using inv' dist vs(2) by simp
qed

lemma chroma_get_eq:
  assumes ok: "chroma_ok L url nm cols named" and inv: "chroma_inv L url cols named s"
    and c: "cols (ch_world s) (ch_id s) = Some c"
  shows "chroma_get_by_id L vid s =
    (if json_dump (cl_codec L) (get_params vid) = None then Inl (LibThrow ''json::dump'')
     else case c vid of
       None \<Rightarrow> Inl (LibThrow ''json::type_error'')
     | Some (d, md, v) \<Rightarrow> bindR (json_floats v) (\<lambda>v'.
         Inr (s, Some \<lparr>vg_id = vid, vg_document = d, vg_metadata = Some md,
                        vg_embedding = float_vector (word_of_nat (length v')) v'\<rparr>)))"
proof (cases "json_dump (cl_codec L) (get_params vid)")
  case None
  then show ?thesis by (simp add: chroma_get_by_id_def chroma_ask_unprinted)
next
  case (Some b)
  have gets: "chroma_gets L url cols" using ok by (simp add: chroma_ok_def)
  have url: "ch_url s = url" using inv by (simp add: chroma_inv_def)
  obtain t m where a: "answers L url ''POST'' (action_url (ch_id s) ''get'') (get_params vid) (ch_world s) =
      Some (ch_world s, 200, t)" "body_of L t = Some m"
    and es: "let es = (case c vid of None \<Rightarrow> [] | Some e \<Rightarrow> [e]) in
             map_of m ''documents'' = Some (JArray (map (\<lambda>(d, md, v). JString d) es)) \<and>
             map_of m ''metadatas'' = Some (JArray (map (\<lambda>(d, md, v). md) es)) \<and>
             map_of m ''embeddings'' = Some (JArray (map (\<lambda>(d, md, v). v) es))"
    using gets Some c unfolding chroma_gets_def by blast
  have ask: "chroma_ask L ''get'' (get_params vid) s = Inr (s, 200, t)"
    using chroma_ask_answered [of L s "''get''"] a(1) url by simp
  show ?thesis
  proof (cases "c vid")
    case None
    with es Some show ?thesis
      by (simp add: chroma_get_by_id_def ask body_of_parse [OF a(2)] first_of_def member_or_null_def first_or_null_def json_string_def)
  next
    case e: (Some e)
    obtain d md v where "e = (d, md, v)" by (cases e)
    with es e Some show ?thesis
      by (simp add: chroma_get_by_id_def ask body_of_parse [OF a(2)] first_of_def member_or_null_def first_or_null_def json_string_def)
  qed
qed

lemma chroma_results_eq:
  "chroma_results (map fst rs) (map (\<lambda>(i, d, md, x). d) rs) (JArray (map (\<lambda>(i, d, md, x). md) rs)) xs = Inr out \<Longrightarrow>
    length out = length rs \<and>
    (\<forall>r \<in> set out. \<exists>(i, d, md, x) \<in> set rs. vr_id r = i \<and> vr_document r = d \<and> vr_metadata r = Some md)"
proof -
  assume run: "chroma_results (map fst rs) (map (\<lambda>(i, d, md, x). d) rs) (JArray (map (\<lambda>(i, d, md, x). md) rs)) xs = Inr out"
  have each: "\<forall>y \<in> set ys. \<exists>k \<in> set ks. f k = Inr y" if "mapR f ks = Inr ys" for f :: "nat \<Rightarrow> vs_retrieve_result res" and ks ys
    using that by (induction ks arbitrary: ys) (simp, fastforce simp: bindR_eq_Inr)
  have "\<exists>(i, d, md, x) \<in> set rs. vr_id r = i \<and> vr_document r = d \<and> vr_metadata r = Some md" if "r \<in> set out" for r
  proof -
    from each [OF run [unfolded chroma_results_def]] that obtain k where "k < length rs"
      "vr_id r = fst (rs ! k)" "vr_document r = (case rs ! k of (i, d, md, x) \<Rightarrow> d)"
      "vr_metadata r = Some (case rs ! k of (i, d, md, x) \<Rightarrow> md)"
      by (fastforce simp: bindR_eq_Inr vector_nth_def nth_or_null_def split: if_splits)
    then show ?thesis by (intro bexI [of _ "rs ! k"]) (auto split: prod.splits)
  qed
  moreover have "length out = length rs" using mapR_length [OF run [unfolded chroma_results_def]] by simp
  ultimately show ?thesis by blast
qed

lemma chroma_retrieve_effect:
  assumes ok: "chroma_ok L url nm cols named" and inv: "chroma_inv L url cols named s"
    and run: "chroma_retrieve L q k s = Inr (s', rs)"
  shows "s' = s \<and> length rs \<le> unat k \<and>
    (\<forall>r \<in> set rs. chroma_docs cols s (vr_id r) = Some (vr_document r, vr_metadata r))"
proof -
  obtain c where c: "cols (ch_world s) (ch_id s) = Some c" "ch_url s = url" using chroma_inv_col [OF inv] by metis
  have queries: "chroma_queries L url cols" using ok by (simp add: chroma_ok_def)
  obtain v where v: "nd_floats q = Inr v" using run by (auto simp: chroma_retrieve_def bindR_eq_Inr)
  have "json_dump (cl_codec L) (query_params v k) \<noteq> None"
    by (rule notI) (use run in \<open>simp add: chroma_retrieve_def v chroma_ask_unprinted\<close>)
  with queries c obtain t m es where
    a: "answers L url ''POST'' (action_url (ch_id s) ''query'') (query_params v k) (ch_world s) =
      Some (ch_world s, 200, t)" "body_of L t = Some m" "length es \<le> unat k"
    and known: "\<forall>(i, d, md, x) \<in> set es. \<exists>v. c i = Some (d, md, v)"
    and m: "map_of m ''ids'' = Some (JArray [strings_json (map fst es)])"
      "map_of m ''documents'' = Some (JArray [strings_json (map (\<lambda>(i, d, md, x). d) es)])"
      "map_of m ''metadatas'' = Some (JArray [JArray (map (\<lambda>(i, d, md, x). md) es)])"
      "map_of m ''distances'' = Some (JArray [floats_json (map (\<lambda>(i, d, md, x). x) es)])"
    unfolding chroma_queries_def by blast
  have ask: "chroma_ask L ''query'' (query_params v k) s = Inr (s, 200, t)"
    using chroma_ask_answered [of L s "''query''"] a(1) c(2) by simp
  have strings: "mapR json_string (map JString ss) = Inr ss" for ss by (induction ss) simp_all
  obtain xs where "s' = s" and out: "chroma_results (map fst es) (map (\<lambda>(i, d, md, x). d) es)
      (JArray (map (\<lambda>(i, d, md, x). md) es)) xs = Inr rs"
    using run
    by (auto simp: chroma_retrieve_def v ask body_of_parse [OF a(2)] first_of_def member_or_null_def first_or_null_def
        m strings_json_def strings bindR_eq_Inr mapR_res_def simp del: map_map)
  with chroma_results_eq [OF out] known a(3) show ?thesis by (fastforce simp: chroma_docs_def c(1))
qed

lemma chroma_remove_effect:
  assumes ok: "chroma_ok L url nm cols named" and inv: "chroma_inv L url cols named s"
    and run: "chroma_remove_vector L vid s = Inr (s', u)"
  shows "chroma_inv L url cols named s' \<and> chroma_docs cols s' = (chroma_docs cols s)(vid := None)"
proof -
  obtain c where c: "cols (ch_world s) (ch_id s) = Some c" "\<forall>k \<ge> ch_uuids s. c (cl_uuid L k) = None"
    "ch_url s = url" "named (ch_world s) (ch_name s) = Some (ch_id s)"
    using chroma_inv_col [OF inv] .
  have removes: "chroma_removes L url cols named" using ok by (simp add: chroma_ok_def)
  have "json_dump (cl_codec L) (remove_params vid) \<noteq> None"
    by (rule notI) (use run in \<open>simp add: chroma_remove_vector_def chroma_ask_unprinted\<close>)
  with removes c(1) obtain w' t where
    a: "answers L url ''POST'' (action_url (ch_id s) ''delete'') (remove_params vid) (ch_world s) = Some (w', 200, t)"
    "cols w' = (cols (ch_world s))(ch_id s \<mapsto> c(vid := None))" "named w' = named (ch_world s)"
    unfolding chroma_removes_def by blast
  have "chroma_ask L ''delete'' (remove_params vid) s = Inr (s\<lparr>ch_world := w'\<rparr>, 200, t)"
    using chroma_ask_answered [of L s "''delete''"] a(1) c(3) by simp
  with run have s': "s' = s\<lparr>ch_world := w'\<rparr>" by (simp add: chroma_remove_vector_def)
  show ?thesis using c by (auto simp: chroma_inv_def chroma_docs_def s' a(2,3))
qed

text \<open>Making the collection: a new one is empty, an existing one is taken as it is.\<close>

lemma chroma_create_effect:
  assumes ok: "chroma_ok L url nm cols named" and url: "ch_url s = url" and run: "create_collection L s = Inr s'"
  shows "case named (ch_world s) (ch_name s) of
      None \<Rightarrow> (\<exists>cid w. s' = s\<lparr>ch_world := w, ch_id := cid\<rparr> \<and> cols (ch_world s) cid = None \<and>
        cols w = (cols (ch_world s))(cid \<mapsto> Map.empty) \<and> named w = (named (ch_world s))(ch_name s \<mapsto> cid))
    | Some cid \<Rightarrow> s' = s\<lparr>ch_id := cid\<rparr>"
proof -
  let ?p = "create_params (ch_name s)" and ?w = "ch_world s"
  obtain b where b: "json_dump (cl_codec L) ?p = Some b"
    using run by (cases "json_dump (cl_codec L) ?p") (simp_all add: create_collection_def chroma_dump_def)
  have colls: "chroma_collections L url cols named" using ok by (simp add: chroma_ok_def)
  have sent: "chroma_send L ''POST'' collections_url (Some b) s = (s\<lparr>ch_world := w\<rparr>, Inr r)"
    if "answers L url ''POST'' collections_url ?p ?w = Some (w, r)" for w r
    using that url by (auto simp: answers_def b chroma_send_def split: prod.splits sum.splits)
  show ?thesis
  proof (cases "named ?w (ch_name s)")
    case None
    then obtain w t cid where a: "answers L url ''POST'' collections_url ?p ?w = Some (w, 200, t)" "says_id L t cid"
      "cols ?w cid = None" "cols w = (cols ?w)(cid \<mapsto> Map.empty)" "named w = (named ?w)(ch_name s \<mapsto> cid)"
      using colls b unfolding chroma_collections_def by blast
    have "s' = s\<lparr>ch_world := w, ch_id := cid\<rparr>"
      using run by (simp add: create_collection_def chroma_dump_def b sent [OF a(1)] says_id_id [OF a(2)])
    then have "\<exists>cid w. s' = s\<lparr>ch_world := w, ch_id := cid\<rparr> \<and> cols ?w cid = None \<and>
        cols w = (cols ?w)(cid \<mapsto> Map.empty) \<and> named w = (named ?w)(ch_name s \<mapsto> cid)"
      using a(3-5) by blast
    with None show ?thesis by simp
  next
    case (Some cid)
    then obtain t t2 where a: "answers L url ''POST'' collections_url ?p ?w = Some (?w, 409, t)"
      and g: "cl_http L url ''GET'' (name_url (ch_name s)) None ?w = (?w, Inr (200, t2))" "says_id L t2 cid"
      using colls b unfolding chroma_collections_def by blast
    have "chroma_send L ''GET'' (name_url (ch_name s)) None s = (s, Inr (200, t2))"
      using url by (simp add: chroma_send_def g(1))
    then have "s' = s\<lparr>ch_id := cid\<rparr>"
      using run by (simp add: create_collection_def chroma_dump_def b sent [OF a] response_of_def says_id_id [OF g(2)])
    with Some show ?thesis by simp
  qed
qed

lemma chroma_clear_effect:
  assumes ok: "chroma_ok L url nm cols named" and inv: "chroma_inv L url cols named s"
    and run: "chroma_clear L s = Inr (s', u)"
  shows "chroma_inv L url cols named s' \<and> chroma_docs cols s' = Map.empty"
proof -
  have url: "ch_url s = url" and name: "named (ch_world s) (ch_name s) = Some (ch_id s)"
    using inv by (simp_all add: chroma_inv_def)
  have colls: "chroma_collections L url cols named" using ok by (simp add: chroma_ok_def)
  then obtain w t where d: "cl_http L url ''DELETE'' (name_url (ch_name s)) None (ch_world s) = (w, Inr (200, t))"
    "cols w = (cols (ch_world s))(ch_id s := None)" "named w = (named (ch_world s))(ch_name s := None)"
    using name unfolding chroma_collections_def by blast
  have del: "delete_collection L s = Inr (s\<lparr>ch_world := w\<rparr>)"
    using url by (simp add: delete_collection_def chroma_send_def d(1) response_of_def)
  then have "create_collection L (s\<lparr>ch_world := w\<rparr>) = Inr s'"
    using run by (cases "create_collection L (s\<lparr>ch_world := w\<rparr>)") (simp_all add: chroma_clear_def)
  from chroma_create_effect [OF ok _ this] url d(3)
  obtain cid w2 where "s' = s\<lparr>ch_world := w2, ch_id := cid\<rparr>" "cols w2 = (cols w)(cid \<mapsto> Map.empty)"
    "named w2 = (named w)(ch_name s \<mapsto> cid)"
    by auto
  then show ?thesis using url by (simp add: chroma_inv_def chroma_docs_def)
qed

lemma chroma_is_batch_store:
  assumes ok: "chroma_ok L url nm cols named"
  shows "batch_store (chroma_ops L) (chroma_inv L url cols named) (\<lambda>vid. vid) (chroma_docs cols) (\<lambda>s n. True)
    (chroma_keeps nm)"
proof unfold_locales
  fix s s' :: "'a chroma" and i vid
  assume "chroma_inv L url cols named s" "add_vector (chroma_ops L) i s = Inr (s', vid)"
  then show "chroma_inv L url cols named s' \<and> chroma_docs cols s vid = None \<and>
      chroma_docs cols s' = (chroma_docs cols s)(vid \<mapsto> (vi_document i, chroma_keeps nm (vi_metadata i)))"
    using chroma_add_effect [OF ok, of s "[i]" s' "[vid]"] chroma_add_one [of L i s s' vid] by (simp add: chroma_ops_def)
next
  fix s s' :: "'a chroma" and vid r
  assume inv: "chroma_inv L url cols named s" and run: "get_by_id (chroma_ops L) vid s = Inr (s', r)"
  obtain c where c: "cols (ch_world s) (ch_id s) = Some c" using chroma_inv_col [OF inv] .
  show "s' = s \<and> (case r of None \<Rightarrow> chroma_docs cols s vid = None
      | Some g \<Rightarrow> vg_id g = vid \<and> chroma_docs cols s vid = Some (vg_document g, vg_metadata g))"
    using run chroma_get_eq [OF ok inv c, of vid]
    by (auto simp: chroma_ops_def chroma_docs_def c bindR_eq_Inr split: if_splits option.splits)
next
  fix s s' :: "'a chroma" and q n rs
  assume "chroma_inv L url cols named s" "retrieve (chroma_ops L) q n s = Inr (s', rs)"
  then show "s' = s \<and> (\<forall>r \<in> set rs. chroma_docs cols s (vr_id r) = Some (vr_document r, vr_metadata r))"
    using chroma_retrieve_effect [OF ok] by (simp add: chroma_ops_def)
next
  fix s s' :: "'a chroma" and vid u
  assume "chroma_inv L url cols named s" "remove_vector (chroma_ops L) vid s = Inr (s', u)"
  then show "chroma_inv L url cols named s' \<and> chroma_docs cols s' = (chroma_docs cols s)(vid := None)"
    using chroma_remove_effect [OF ok] by (simp add: chroma_ops_def)
next
  fix s s' :: "'a chroma" and u
  assume "chroma_inv L url cols named s" "clear (chroma_ops L) s = Inr (s', u)"
  then show "chroma_inv L url cols named s' \<and> chroma_docs cols s' = Map.empty"
    using chroma_clear_effect [OF ok] by (simp add: chroma_ops_def)
next
  fix s s' :: "'a chroma" and inps vids
  assume "chroma_inv L url cols named s" "add_vectors (chroma_ops L) inps s = Inr (s', vids)"
  then show "chroma_inv L url cols named s' \<and> length vids = length inps \<and> distinct (map (\<lambda>vid. vid) vids) \<and>
      (\<forall>vid \<in> set vids. chroma_docs cols s vid = None) \<and>
      chroma_docs cols s' = chroma_docs cols s ++
        map_of (zip (map (\<lambda>vid. vid) vids) (map (\<lambda>i. (vi_document i, chroma_keeps nm (vi_metadata i))) inps))"
    using chroma_add_effect [OF ok] by (simp add: chroma_ops_def)
qed

section \<open>A server for examples\<close>

text \<open>
  A server that keeps its collections in lists and meets the documentation; with it everything
  here can be evaluated.
\<close>

record list_server =
  sv_names :: "(string \<times> string) list"
  sv_cols :: "(string \<times> (string \<times> string \<times> json \<times> json) list) list"

definition members :: "json \<Rightarrow> string \<Rightarrow> json list" where
  "members j key = (case json_member key j of JArray xs \<Rightarrow> xs | _ \<Rightarrow> [])"

definition text_of :: "json \<Rightarrow> string" where
  "text_of j = (case j of JString s \<Rightarrow> s | _ \<Rightarrow> [])"

definition ok_json :: "json \<Rightarrow> string + u32 \<times> string" where
  "ok_json j = Inr (200, show_json j)"

definition server_create :: "json \<Rightarrow> list_server \<Rightarrow> list_server \<times> (string + u32 \<times> string)" where
  "server_create j w =
     (let name = text_of (json_member ''name'' j); cid = ''c'' @ concat (map fst (sv_cols w)) in
      if map_of (sv_names w) name = None
      then (w\<lparr>sv_names := put name cid (sv_names w), sv_cols := put cid [] (sv_cols w)\<rparr>, ok_json (JObject [(''id'', JString cid)]))
      else (w, Inr (409, [])))"

definition server_act ::
  "string \<Rightarrow> json \<Rightarrow> string \<Rightarrow> (string \<times> string \<times> json \<times> json) list \<Rightarrow> list_server \<Rightarrow> list_server \<times> (string + u32 \<times> string)" where
  "server_act act j cid es w =
     (let ids = map text_of (members j ''ids'') in
      if act = ''add'' then
        (w\<lparr>sv_cols := put cid (zip ids (zip (map text_of (members j ''documents''))
            (zip (members j ''metadatas'') (members j ''embeddings''))) @ es) (sv_cols w)\<rparr>, Inr (201, []))
      else if act = ''delete'' then
        (w\<lparr>sv_cols := put cid (filter (\<lambda>e. fst e \<notin> set ids) es) (sv_cols w)\<rparr>, ok_json (JObject []))
      else if act = ''get'' then
        (let fs = List.map_filter (\<lambda>i. map_of es i) ids in
         (w, ok_json (JObject [(''documents'', JArray (map (\<lambda>(d, md, v). JString d) fs)),
            (''embeddings'', JArray (map (\<lambda>(d, md, v). v) fs)), (''metadatas'', JArray (map (\<lambda>(d, md, v). md) fs))])))
      else
        (let k = (case json_member ''n_results'' j of JUint n \<Rightarrow> unat n | _ \<Rightarrow> 0);
             fs = take k (filter (\<lambda>(i, e). map_of es i = Some e) es) in
         (w, ok_json (JObject [(''distances'', JArray [floats_json (map (\<lambda>_. 0) fs)]),
            (''documents'', JArray [strings_json (map (\<lambda>(i, d, md, v). d) fs)]),
            (''ids'', JArray [strings_json (map fst fs)]),
            (''metadatas'', JArray [JArray (map (\<lambda>(i, d, md, v). md) fs)])]))))"

definition server_post :: "string \<Rightarrow> json \<Rightarrow> list_server \<Rightarrow> list_server \<times> (string + u32 \<times> string)" where
  "server_post path j w =
     (if path = collections_url then server_create j w
      else case find (\<lambda>(act, cid, es). path = action_url cid act)
          (List.product [''add'', ''get'', ''query'', ''delete''] (sv_cols w)) of
             None \<Rightarrow> (w, Inr (404, []))
           | Some (act, cid, es) \<Rightarrow> server_act act j cid es w)"

definition server_http ::
  "string \<Rightarrow> string \<Rightarrow> string \<Rightarrow> string option \<Rightarrow> list_server \<Rightarrow> list_server \<times> (string + u32 \<times> string)" where
  "server_http url verb path body w =
     (case body of
        Some b \<Rightarrow> (case read_json b of None \<Rightarrow> (w, Inr (400, [])) | Some j \<Rightarrow> server_post path j w)
      | None \<Rightarrow>
          (case find (\<lambda>(name, cid). path = name_url name) (sv_names w) of
             None \<Rightarrow> (w, Inr (404, []))
           | Some (name, cid) \<Rightarrow>
               if verb = ''GET'' then (w, ok_json (JObject [(''id'', JString cid)]))
               else (w\<lparr>sv_names := del name (sv_names w), sv_cols := del cid (sv_cols w)\<rparr>, ok_json (JObject []))))"

definition list_chroma :: "list_server chroma_lib" where
  "list_chroma =
     \<lparr>cl_codec = text_codec, cl_http = server_http, cl_status = (\<lambda>_. ''status''), cl_uuid = show_nat\<rparr>"

definition server_cols :: "list_server \<Rightarrow> string \<rightharpoonup> collection" where
  "server_cols w = (\<lambda>cid. map_option map_of (map_of (sv_cols w) cid))"

definition server_named :: "list_server \<Rightarrow> string \<rightharpoonup> string" where
  "server_named w = map_of (sv_names w)"

definition server_acts :: "string list" where
  "server_acts = [''add'', ''get'', ''query'', ''delete'']"

lemma action_url_eq:
  assumes "a \<in> set server_acts" and "a' \<in> set server_acts"
  shows "action_url c a = action_url c' a' \<longleftrightarrow> c = c' \<and> a = a'"
proof
  assume "action_url c a = action_url c' a'"
  then have "rev (c @ ''/'' @ a) = rev (c' @ ''/'' @ a')" by (simp add: action_url_def)
  with assms show "c = c' \<and> a = a'" by (auto simp: server_acts_def)
qed simp

lemma action_url_not_root: "action_url c a \<noteq> collections_url"
  by (simp add: action_url_def)

lemma find_none_append: "(\<And>x. x \<in> set xs \<Longrightarrow> \<not> P x) \<Longrightarrow> find P (xs @ ys) = find P ys"
  by (induction xs) simp_all

lemma find_first:
  assumes "map_of cols cid = Some es" and "\<And>c e. P (f (c, e)) \<longleftrightarrow> c = cid"
  shows "find P (map f cols @ ys) = Some (f (cid, es))"
  using assms(1)
proof (induction cols)
  case (Cons x cols)
  then show ?case by (cases x) (auto simp: assms(2) split: if_splits)
qed simp

lemma find_col:
  assumes "map_of cols cid = Some es" and "act \<in> set acts" and "set acts \<subseteq> set server_acts"
  shows "find (\<lambda>(act', c, es). action_url cid act = action_url c act') (List.product acts cols) = Some (act, cid, es)"
  using assms(2,3)
proof (induction acts)
  case (Cons a acts)
  let ?P = "\<lambda>(act', c, es). action_url cid act = action_url c act'"
  show ?case
  proof (cases "a = act")
    case True
    have "?P (a, c, e) \<longleftrightarrow> c = cid" for c e
      using Cons.prems True action_url_eq [of act act cid c] by auto
    then show ?thesis using find_first [OF assms(1), of ?P "Pair a"] True by (simp del: split_paired_All)
  next
    case False
    have "\<not> ?P x" if "x \<in> set (map (Pair a) cols)" for x
      using that Cons.prems False action_url_eq [of act a] by auto
    then have "find ?P (map (Pair a) cols @ List.product acts cols) = find ?P (List.product acts cols)"
      by (rule find_none_append)
    with Cons False show ?thesis by simp
  qed
qed simp

lemma list_chroma_sel [simp]:
  "cl_codec list_chroma = text_codec" "cl_http list_chroma = server_http" "cl_uuid list_chroma = show_nat"
  by (simp_all add: list_chroma_def)

lemma read_body [simp]: "body_of list_chroma (show_json (JObject m)) = Some m"
  by (simp add: body_of_def)

lemma server_answers:
  assumes "server_post path j w = (w', Inr r)"
  shows "answers list_chroma url verb path j w = Some (w', r)"
  using assms by (simp add: answers_def server_http_def)

lemma server_post_act:
  assumes "server_cols w cid = Some c" and "act \<in> set server_acts"
  obtains es where "map_of (sv_cols w) cid = Some es" "c = map_of es"
    "\<And>j. server_post (action_url cid act) j w = server_act act j cid es w"
proof -
  obtain es where es: "map_of (sv_cols w) cid = Some es" "c = map_of es"
    using assms(1) by (auto simp: server_cols_def)
  have "server_post (action_url cid act) j w = server_act act j cid es w" for j
    using find_col [OF es(1) assms(2)] by (simp add: server_post_def action_url_not_root flip: server_acts_def)
  with es that show ?thesis by blast
qed

lemma texts_back [simp]: "map text_of (map JString ss) = ss" "map (text_of \<circ> JString) ss = ss"
  by (induction ss) (simp_all add: text_of_def)

lemma server_cols_put [simp]:
  "server_cols (w\<lparr>sv_cols := put cid es (sv_cols w)\<rparr>) = (server_cols w)(cid \<mapsto> map_of es)"
  by (auto simp: server_cols_def fun_eq_iff)

lemma server_adds: "chroma_adds list_chroma url (\<lambda>j. j) server_cols server_named"
  unfolding chroma_adds_def
proof (intro allI impI)
  fix w cid c ids and ds :: "string list" and mds :: "json list" and vs :: "u32 list list"
  assume a: "server_cols w cid = Some c" "distinct ids" "set ids \<inter> dom c = {}" and
    len: "length vs = length ids" "length ds = length ids" "length mds = length ids"
  let ?p = "add_params ids vs ds mds" and ?es = "zip ids (zip ds (zip mds (map floats_json vs)))"
  have "''add'' \<in> set server_acts" by (simp add: server_acts_def)
  from server_post_act [OF a(1) this] obtain es where es: "map_of (sv_cols w) cid = Some es" "c = map_of es"
    "\<And>j. server_post (action_url cid ''add'') j w = server_act ''add'' j cid es w" by blast
  have mem: "members ?p ''ids'' = map JString ids" "members ?p ''documents'' = map JString ds"
    "members ?p ''metadatas'' = mds" "members ?p ''embeddings'' = map floats_json vs"
    by (simp_all add: members_def json_member_def add_params_def strings_json_def)
  have act: "server_act ''add'' ?p cid es w = (w\<lparr>sv_cols := put cid (?es @ es) (sv_cols w)\<rparr>, Inr (201, []))"
    by (simp add: server_act_def mem)
  show "\<exists>w' t. answers list_chroma url ''POST'' (action_url cid ''add'') ?p w = Some (w', 201, t) \<and>
      server_cols w' = (server_cols w)(cid \<mapsto> c ++ map_of (zip ids (zip ds (zip (map (\<lambda>j. j) mds) (map floats_json vs))))) \<and>
      server_named w' = server_named w"
    using server_answers [OF trans [OF es(3) act]]
    by (simp add: es(2) map_of_append server_named_def)
qed

lemma server_gets: "chroma_gets list_chroma url server_cols"
  unfolding chroma_gets_def
proof (intro allI impI)
  fix w cid c vid assume a: "server_cols w cid = Some c"
  let ?p = "get_params vid"
  obtain es where es: "c = map_of es" "\<And>j. server_post (action_url cid ''get'') j w = server_act ''get'' j cid es w"
    using server_post_act [OF a, of "''get''"] by (auto simp: server_acts_def)
  have mem: "members ?p ''ids'' = [JString vid]"
    by (simp add: members_def json_member_def get_params_def strings_json_def)
  define fs where "fs = (case c vid of None \<Rightarrow> [] | Some e \<Rightarrow> [e])"
  have "List.map_filter (\<lambda>i. map_of es i) [vid] = fs"
    by (simp add: map_filter_simps fs_def es(1) split: option.split)
  then have act: "server_act ''get'' ?p cid es w = (w, Inr (200, show_json (JObject
      [(''documents'', JArray (map (\<lambda>(d, md, v). JString d) fs)), (''embeddings'', JArray (map (\<lambda>(d, md, v). v) fs)),
       (''metadatas'', JArray (map (\<lambda>(d, md, v). md) fs))])))"
    by (simp add: server_act_def mem text_of_def ok_json_def Let_def)
  show "\<exists>t m. answers list_chroma url ''POST'' (action_url cid ''get'') ?p w = Some (w, 200, t) \<and> body_of list_chroma t = Some m \<and>
      (let es = (case c vid of None \<Rightarrow> [] | Some e \<Rightarrow> [e]) in
         map_of m ''documents'' = Some (JArray (map (\<lambda>(d, md, v). JString d) es)) \<and>
         map_of m ''metadatas'' = Some (JArray (map (\<lambda>(d, md, v). md) es)) \<and>
         map_of m ''embeddings'' = Some (JArray (map (\<lambda>(d, md, v). v) es)))"
    unfolding fs_def [symmetric] Let_def
    by (intro exI conjI, rule server_answers [OF trans [OF es(2) act]], rule read_body) simp_all
qed

lemma server_queries: "chroma_queries list_chroma url server_cols"
  unfolding chroma_queries_def
proof (intro allI impI)
  fix w cid c q k assume a: "server_cols w cid = Some c"
  let ?p = "query_params q k"
  obtain es where es: "c = map_of es" "\<And>j. server_post (action_url cid ''query'') j w = server_act ''query'' j cid es w"
    using server_post_act [OF a, of "''query''"] by (auto simp: server_acts_def)
  define fs where "fs = take (unat k) (filter (\<lambda>(i, e). map_of es i = Some e) es)"
  define rs where "rs = map (\<lambda>(i, d, md, v). (i, d, md, 0 :: u32)) fs"
  have rs: "map fst fs = map fst rs" "map (\<lambda>(i, d, md, v). d) fs = map (\<lambda>(i, d, md, x). d) rs"
    "map (\<lambda>(i, d, md, v). md) fs = map (\<lambda>(i, d, md, x). md) rs" "map (\<lambda>_. 0) fs = map (\<lambda>(i, d, md, x). x) rs"
    by (auto simp: rs_def)
  have act: "server_act ''query'' ?p cid es w = (w, Inr (200, show_json (JObject
      [(''distances'', JArray [floats_json (map (\<lambda>(i, d, md, x). x) rs)]),
       (''documents'', JArray [strings_json (map (\<lambda>(i, d, md, x). d) rs)]),
       (''ids'', JArray [strings_json (map fst rs)]),
       (''metadatas'', JArray [JArray (map (\<lambda>(i, d, md, x). md) rs)])])))"
    unfolding rs [symmetric]
    by (simp add: server_act_def ok_json_def json_member_def query_params_def Let_def flip: fs_def)
  have len: "length rs \<le> unat k" by (simp add: rs_def fs_def)
  have known: "\<forall>(i, d, md, x) \<in> set rs. \<exists>v. c i = Some (d, md, v)"
    by (auto simp: rs_def fs_def es(1) dest!: in_set_takeD)
  show "\<exists>t m rs. answers list_chroma url ''POST'' (action_url cid ''query'') ?p w = Some (w, 200, t) \<and>
      body_of list_chroma t = Some m \<and> length rs \<le> unat k \<and> (\<forall>(i, d, md, x) \<in> set rs. \<exists>v. c i = Some (d, md, v)) \<and>
      map_of m ''ids'' = Some (JArray [strings_json (map fst rs)]) \<and>
      map_of m ''documents'' = Some (JArray [strings_json (map (\<lambda>(i, d, md, x). d) rs)]) \<and>
      map_of m ''metadatas'' = Some (JArray [JArray (map (\<lambda>(i, d, md, x). md) rs)]) \<and>
      map_of m ''distances'' = Some (JArray [floats_json (map (\<lambda>(i, d, md, x). x) rs)])"
    by (intro exI conjI, rule server_answers [OF trans [OF es(2) act]], rule read_body, rule len, rule known) simp_all
qed

lemma server_removes: "chroma_removes list_chroma url server_cols server_named"
  unfolding chroma_removes_def
proof (intro allI impI)
  fix w cid c vid assume a: "server_cols w cid = Some c"
  let ?p = "remove_params vid"
  obtain es where es: "c = map_of es" "\<And>j. server_post (action_url cid ''delete'') j w = server_act ''delete'' j cid es w"
    using server_post_act [OF a, of "''delete''"] by (auto simp: server_acts_def)
  let ?w = "w\<lparr>sv_cols := put cid (filter (\<lambda>e. fst e \<noteq> vid) es) (sv_cols w)\<rparr>"
  have act: "server_act ''delete'' ?p cid es w = (?w, Inr (200, show_json (JObject [])))"
    by (simp add: server_act_def ok_json_def members_def json_member_def remove_params_def strings_json_def text_of_def Let_def)
  have "map_of (filter (\<lambda>e. fst e \<noteq> vid) es) = (map_of es)(vid := None)"
    by (induction es) auto
  then show "\<exists>w' t. answers list_chroma url ''POST'' (action_url cid ''delete'') ?p w = Some (w', 200, t) \<and>
      server_cols w' = (server_cols w)(cid \<mapsto> c(vid := None)) \<and> server_named w' = server_named w"
    using server_answers [OF trans [OF es(2) act]] by (simp add: es(1) server_named_def)
qed

lemma server_lookup:
  assumes "server_named w name = Some cid"
  shows "server_http url verb (name_url name) None w =
    (if verb = ''GET'' then (w, ok_json (JObject [(''id'', JString cid)]))
     else (w\<lparr>sv_names := del name (sv_names w), sv_cols := del cid (sv_cols w)\<rparr>, ok_json (JObject [])))"
proof -
  have "find (\<lambda>(n, c). name_url name = name_url n) (map (\<lambda>e. e) (sv_names w) @ []) = Some (name, cid)"
    by (rule find_first) (use assms in \<open>auto simp: server_named_def name_url_def\<close>)
  then show ?thesis by (simp add: server_http_def)
qed

lemma server_collections: "chroma_collections list_chroma url server_cols server_named"
proof -
  have p: "text_of (json_member ''name'' (create_params name)) = name" for name
    by (simp add: create_params_def json_member_def text_of_def)
  have post: "server_post collections_url j w = server_create j w" for j w by (simp add: server_post_def)
  have fresh: "map_of cs (''c'' @ concat (map fst cs)) = None" for cs :: "(string \<times> 'x) list"
    using length_concat_member [of _ cs fst] by (fastforce simp: map_of_eq_None_iff)
  have none: "\<exists>w' t cid. answers list_chroma url ''POST'' collections_url (create_params name) w = Some (w', 200, t) \<and>
      says_id list_chroma t cid \<and> server_cols w cid = None \<and> server_cols w' = (server_cols w)(cid \<mapsto> Map.empty) \<and>
      server_named w' = (server_named w)(name \<mapsto> cid)" if "server_named w name = None" for w name
  proof -
    let ?cid = "''c'' @ concat (map fst (sv_cols w))"
    let ?w = "w\<lparr>sv_names := put name ?cid (sv_names w), sv_cols := put ?cid [] (sv_cols w)\<rparr>"
    have "server_create (create_params name) w = (?w, Inr (200, show_json (JObject [(''id'', JString ?cid)])))"
      using that by (simp add: server_create_def p server_named_def ok_json_def Let_def)
    note a = server_answers [OF trans [OF post this]]
    show ?thesis
      by (intro exI conjI, rule a) (use fresh [of "sv_cols w"] in \<open>auto simp: says_id_def server_cols_def server_named_def fun_eq_iff\<close>)
  qed
  have some: "answers list_chroma url ''POST'' collections_url (create_params name) w = Some (w, 409, [])"
    if "server_named w name = Some cid" for w name cid
  proof -
    have "server_create (create_params name) w = (w, Inr (409, []))"
      using that by (simp add: server_create_def p server_named_def Let_def)
    from server_answers [OF trans [OF post this]] show ?thesis .
  qed
  have drop: "server_cols (w\<lparr>sv_names := del name (sv_names w), sv_cols := del cid (sv_cols w)\<rparr>) = (server_cols w)(cid := None)"
    "server_named (w\<lparr>sv_names := del name (sv_names w), sv_cols := del cid (sv_cols w)\<rparr>) = (server_named w)(name := None)"
    for w :: list_server and name cid
    by (auto simp: server_cols_def server_named_def fun_eq_iff)
  show ?thesis
    unfolding chroma_collections_def list_chroma_sel
    by (intro conjI allI impI) (use none some drop in \<open>auto simp: server_lookup ok_json_def says_id_def\<close>)
qed

lemma list_chroma_ok: "chroma_ok list_chroma url (\<lambda>j. j) server_cols server_named"
  unfolding chroma_ok_def
  by (simp add: server_adds server_gets server_queries server_removes server_collections) (simp add: inj_def)

interpretation cs: batch_store "chroma_ops list_chroma" "chroma_inv list_chroma url server_cols server_named"
  "\<lambda>vid. vid" "chroma_docs server_cols" "\<lambda>s n. True" "chroma_keeps (\<lambda>j. j)" for url
  by (rule chroma_is_batch_store [OF list_chroma_ok])

end
