(* ===== verification/StoreProperties.thy ===== *)
theory StoreProperties
  imports LanguageModule ChromaStore
begin

text \<open>
  Properties of the vector store component on a FAISS index and on a Chroma server, for every
  index and server that keeps its documentation (\<open>faiss_ok\<close>, \<open>chroma_ok\<close>). The examples use the
  index \<open>list_faiss\<close> and the server \<open>list_chroma\<close>.
\<close>

section \<open>Through the component\<close>

text \<open>
  C32. What is inserted is found. A component holds a FAISS store, which meets its invariant
  and has room for one more vector. Inserting a document with metadata and a vector of the
  right length returns an id; asking for this id returns the document, the metadata as it
  comes back from JSON, and the vector. The invariant still holds.
\<close>

theorem stored_document_found:
  assumes "faiss_ok F vecs" and "map_of os ''vector_store'' = Some s" and "faiss_inv vecs s" and "faiss_room s 1"
    and "map_of m ''embedding'' = Some (Ndarray_t a)" and "map_of m ''document'' = Some (String_t d)"
    and "map_of m ''metadata'' = Some md" and "is_map md \<or> is_null md" and "val_ok md"
    and "nd_shape a = [fi_d F (fs_index s)]" and "nd_floats a = Inr xs"
    and "read_floats (fi_d F (fs_index s)) xs = Inr v"
  shows "\<exists>vid os1 s1 os2 g.
    vs_insert (faiss_ops F) os (Some (Map_t m)) = Inr (os1, Got (Some (Map_t [(''id'', String_t vid)]))) \<and>
    map_of os1 ''vector_store'' = Some s1 \<and> faiss_inv vecs s1 \<and>
    vs_get_by_id (faiss_ops F) os1 (Some (Map_t [(''id'', String_t vid)])) = Inr (os2, Got (Some (Map_t g))) \<and>
    map_of os2 ''vector_store'' = Some s1 \<and> map_of g ''id'' = Some (String_t vid) \<and>
    map_of g ''document'' = Some (String_t d) \<and> map_of g ''metadata'' = Some (widen md) \<and>
    map_of g ''embedding'' = Some (Ndarray_t (float_vector (fi_d F (fs_index s)) v))"
proof -
  let ?i = "\<lparr>vi_embedding = a, vi_document = d, vi_metadata = Some (to_json md)\<rparr>"
  let ?vid = "show_i64 (fs_counter s)"
  let ?x = "fi_add F (fs_index s) [(fs_counter s, v)]"
  let ?s1 = "s\<lparr>fs_counter := fs_counter s + 1, fs_index := ?x,
               fs_docs := put (fs_counter s) (d, Some (to_json md)) (fs_docs s)\<rparr>"
  let ?os1 = "put ''vector_store'' ?s1 os"
  have run: "faiss_add_vector F ?i s = Inr (?s1, ?vid)"
    and vecs: "vecs ?x = (vecs (fs_index s))(fs_counter s \<mapsto> v)" "fi_d F ?x = fi_d F (fs_index s)"
    using faiss_add_runs [OF assms(1,3), of ?i xs v] assms(10-12) by simp_all
  have inv: "faiss_inv vecs ?s1" using faiss_add_effect [OF assms(1,3,4) run] by blast
  have key: "strtoll ?vid = fs_counter s" using assms(3) by (intro strtoll_show) (simp add: faiss_inv_def)
  have "parse_add_input ''vector_store.insert'' [] m = Inr (Got ?i)"
    using assms(5-8) by (simp add: parse_add_input_def map_at_def parse_metadata_def)
  with run assms(2) have ins: "vs_insert (faiss_ops F) os (Some (Map_t m)) =
      Inr (?os1, Got (Some (Map_t [(''id'', String_t ?vid)])))"
    by (simp add: vs_insert_def on_store_def get_obj_def set_obj_def faiss_ops_def)
  have "faiss_get_by_id F ?vid ?s1 = Inr (?s1, Some \<lparr>vg_id = ?vid, vg_document = d,
      vg_metadata = Some (to_json md), vg_embedding = float_vector (fi_d F (fs_index s)) v\<rparr>)"
    by (simp add: faiss_get_eq [OF assms(1) inv] key vecs)
  then have "vs_get_by_id (faiss_ops F) ?os1 (Some (Map_t [(''id'', String_t ?vid)])) =
      Inr (put ''vector_store'' ?s1 ?os1, Got (Some (Map_t (put ''metadata'' (widen md)
        (put ''document'' (String_t d) (put ''embedding'' (Ndarray_t (float_vector (fi_d F (fs_index s)) v))
        (put ''id'' (String_t ?vid) [])))))))"
    by (simp add: vs_get_by_id_def parse_id_def on_store_def get_obj_def set_obj_def faiss_ops_def
        get_result_val_def metadata_val_def from_to_json [OF assms(9)])
  with ins inv show ?thesis by (intro exI conjI) (assumption | simp)+
qed

lemma stored_document_found_witness:
  "\<exists>vid os1 s1 os2 g.
    vs_insert (faiss_ops list_faiss) [(''vector_store'', faiss_new list_faiss 1)]
      (Some (Map_t [(''document'', String_t ''d''), (''embedding'', Ndarray_t (float_vector 1 [7])),
                    (''metadata'', Map_t [(''k'', Bool_t True)])])) =
      Inr (os1, Got (Some (Map_t [(''id'', String_t vid)]))) \<and>
    map_of os1 ''vector_store'' = Some s1 \<and> faiss_inv list_vecs s1 \<and>
    vs_get_by_id (faiss_ops list_faiss) os1 (Some (Map_t [(''id'', String_t vid)])) =
      Inr (os2, Got (Some (Map_t g))) \<and>
    map_of os2 ''vector_store'' = Some s1 \<and> map_of g ''id'' = Some (String_t vid) \<and>
    map_of g ''document'' = Some (String_t ''d'') \<and>
    map_of g ''metadata'' = Some (widen (Map_t [(''k'', Bool_t True)])) \<and>
    map_of g ''embedding'' =
      Some (Ndarray_t (float_vector (fi_d list_faiss (fs_index (faiss_new list_faiss 1))) [7]))"
proof (rule stored_document_found [OF list_faiss_ok, where a = "float_vector 1 [7]" and xs = "[7]"])
  show "nd_floats (float_vector 1 [7]) = Inr [7]" by code_simp
  show "read_floats (fi_d list_faiss (fs_index (faiss_new list_faiss 1))) [7] = Inr [7]" by code_simp
  show "nd_shape (float_vector 1 [7]) = [fi_d list_faiss (fs_index (faiss_new list_faiss 1))]" by code_simp
  show "faiss_inv list_vecs (faiss_new list_faiss 1)" by (rule faiss_new_inv [OF list_faiss_ok])
qed (simp_all add: faiss_room_def faiss_new_def dict_ok_def)

text \<open>
  C33. Removing answers \<open>true\<close> and takes away the document that the id stands for and no other:
  afterwards every id that reads as the same number gives null, and every other id gives what
  it gave before. Since an id that is no number reads as 0, removing it removes the first
  document.
\<close>

theorem removed_document_gone:
  assumes "faiss_ok F vecs" and "map_of os ''vector_store'' = Some s" and "faiss_inv vecs s"
  shows "\<exists>os1 s1.
    vs_remove (faiss_ops F) os (Some (Map_t [(''id'', String_t vid)])) = Inr (os1, Got (Some (Bool_t True))) \<and>
    map_of os1 ''vector_store'' = Some s1 \<and> faiss_inv vecs s1 \<and>
    (\<forall>w. mapR_res snd (vs_get_by_id (faiss_ops F) os1 (Some (Map_t [(''id'', String_t w)]))) =
       (if strtoll w = strtoll vid then Inr (Got (Some Null_t))
        else mapR_res snd (vs_get_by_id (faiss_ops F) os (Some (Map_t [(''id'', String_t w)])))))"
proof -
  let ?n = "strtoll vid"
  let ?s1 = "s\<lparr>fs_index := fi_remove F (fs_index s) ?n, fs_docs := del ?n (fs_docs s)\<rparr>"
  have run: "remove_vector (faiss_ops F) vid s = Inr (?s1, ())"
    by (simp add: faiss_ops_def faiss_remove_vector_def Let_def)
  have inv: "faiss_inv vecs ?s1"
    using vector_store.rem [OF faiss_is_store [OF assms(1)] assms(3) run] by blast
  have rem: "vecs (fi_remove F x n) = (vecs x)(n := None)" "fi_d F (fi_remove F x n) = fi_d F x" for x n
    using assms(1) unfolding faiss_ok_def by blast+
  have get: "mapR_res snd (vs_get_by_id (faiss_ops F) os' (Some (Map_t [(''id'', String_t w)]))) =
      bindR (faiss_get_by_id F w s') (\<lambda>(_, r). mapR_res (\<lambda>v. Got (Some v)) (get_result_val r))"
    if "map_of os' ''vector_store'' = Some s'" for os' s' w
    using that
  proof (cases "faiss_get_by_id F w s'")
    case (Inr p)
    then show ?thesis using that
      by (cases p; cases "get_result_val (snd p)")
        (auto simp: vs_get_by_id_def parse_id_def on_store_def get_obj_def faiss_ops_def)
  qed (use that in \<open>simp add: vs_get_by_id_def parse_id_def on_store_def get_obj_def faiss_ops_def\<close>)
  have "bindR (faiss_get_by_id F w ?s1) (\<lambda>(_, r). mapR_res (\<lambda>v. Got (Some v)) (get_result_val r)) =
      (if strtoll w = ?n then Inr (Got (Some Null_t))
       else bindR (faiss_get_by_id F w s) (\<lambda>(_, r). mapR_res (\<lambda>v. Got (Some v)) (get_result_val r)))" for w
  proof (cases "strtoll w = ?n")
    case True
    then show ?thesis by (simp add: faiss_get_eq [OF assms(1) inv] rem get_result_val_def)
  next
    case False
    then show ?thesis
      by (cases "vecs (fs_index s) (strtoll w)"; cases "the (map_of (fs_docs s) (strtoll w))")
        (simp_all add: faiss_get_eq [OF assms(1) inv] faiss_get_eq [OF assms(1,3)] rem)
  qed
  moreover have "vs_remove (faiss_ops F) os (Some (Map_t [(''id'', String_t vid)])) =
      Inr (put ''vector_store'' ?s1 os, Got (Some (Bool_t True)))"
    using assms(2) run by (simp add: vs_remove_def parse_id_def on_store_def get_obj_def set_obj_def)
  ultimately show ?thesis
    using inv get [OF assms(2)] get [of "put ''vector_store'' ?s1 os" ?s1] by (intro exI conjI allI) auto
qed

text \<open>A store with two documents.\<close>

definition two_docs :: "(u64 \<times> (u64 \<times> u32 list) list) faiss_store" where
  "two_docs = \<lparr>fs_index = (1, [(0, [7]), (1, [8])]), fs_counter = 2,
     fs_docs = [(0, ''a'', None), (1, ''b'', None)]\<rparr>"

lemma two_docs_inv: "faiss_inv list_vecs two_docs"
  by (auto simp: two_docs_def faiss_inv_def list_vecs_def dict_ok_def split: if_splits)

lemma removed_document_gone_witness:
  "\<exists>os1 s1.
    vs_remove (faiss_ops list_faiss) [(''vector_store'', two_docs)] (Some (Map_t [(''id'', String_t ''junk'')])) =
      Inr (os1, Got (Some (Bool_t True))) \<and>
    map_of os1 ''vector_store'' = Some s1 \<and> faiss_inv list_vecs s1 \<and>
    (\<forall>w. mapR_res snd (vs_get_by_id (faiss_ops list_faiss) os1 (Some (Map_t [(''id'', String_t w)]))) =
       (if strtoll w = strtoll ''junk'' then Inr (Got (Some Null_t))
        else mapR_res snd (vs_get_by_id (faiss_ops list_faiss) [(''vector_store'', two_docs)]
          (Some (Map_t [(''id'', String_t w)]))))) \<and>
    strtoll ''junk'' = strtoll ''0''"
proof -
  have junk: "strtoll ''junk'' = strtoll ''0''" by code_simp
  have "map_of [(''vector_store'', two_docs)] ''vector_store'' = Some two_docs" by simp
  from removed_document_gone [OF list_faiss_ok this two_docs_inv, of "''junk''"] junk
  show ?thesis by blast
qed

section \<open>Many documents\<close>

text \<open>
  Inserting many vectors at once is inserting them one after the other: if the store has
  room for them and the batch succeeds, the single insertions succeed too, give the same ids in
  the same order, and end with the same counter, the same documents and the same vectors. The
  ids are all different, and the invariant holds.
\<close>

lemma batch_is_one_by_one:
  assumes "faiss_ok F vecs" and "faiss_inv vecs s" and "faiss_room s (length inps)"
    and "faiss_add_vectors F inps s = Inr (s', ids)"
  shows "\<exists>s2. add_each F inps s = Inr (s2, ids) \<and> fs_counter s2 = fs_counter s' \<and> fs_docs s2 = fs_docs s' \<and>
    vecs (fs_index s2) = vecs (fs_index s') \<and> faiss_inv vecs s' \<and>
    length ids = length inps \<and> distinct (map strtoll ids)"
  using faiss_batch [OF assms] by fastforce

lemma batch_is_one_by_one_witness:
  "\<exists>s' ids s2. faiss_add_vectors list_faiss
      [\<lparr>vi_embedding = float_vector 1 [9], vi_document = ''c'', vi_metadata = None\<rparr>,
       \<lparr>vi_embedding = float_vector 1 [5], vi_document = ''d'', vi_metadata = None\<rparr>] two_docs = Inr (s', ids) \<and>
    add_each list_faiss
      [\<lparr>vi_embedding = float_vector 1 [9], vi_document = ''c'', vi_metadata = None\<rparr>,
       \<lparr>vi_embedding = float_vector 1 [5], vi_document = ''d'', vi_metadata = None\<rparr>] two_docs = Inr (s2, ids) \<and>
    fs_counter s2 = fs_counter s' \<and> fs_docs s2 = fs_docs s' \<and>
    list_vecs (fs_index s2) = list_vecs (fs_index s') \<and> distinct (map strtoll ids)"
proof -
  let ?inps = "[\<lparr>vi_embedding = float_vector 1 [9], vi_document = ''c'', vi_metadata = None\<rparr>,
       \<lparr>vi_embedding = float_vector 1 [5], vi_document = ''d'', vi_metadata = None\<rparr>]"
  have "nd_floats (float_vector 1 [9]) = Inr [9]" "nd_floats (float_vector 1 [5]) = Inr [5]" by code_simp+
  then have "number_vectors 1 ?inps 2 = Inr [(2, [9]), (3, [5])]" by (simp add: read_floats_def)
  then have "\<exists>r. faiss_add_vectors list_faiss ?inps two_docs = Inr r"
    by (simp add: faiss_add_vectors_def is_valid_embedding_def two_docs_def list_faiss_def float_vector_def Let_def)
  then obtain s' ids where run: "faiss_add_vectors list_faiss ?inps two_docs = Inr (s', ids)" by auto
  have "faiss_room two_docs (length ?inps)" by (simp add: faiss_room_def two_docs_def)
  from batch_is_one_by_one [OF list_faiss_ok two_docs_inv this run] run show ?thesis by blast
qed

section \<open>Searching\<close>

text \<open>
  What a search returns. With a query of the right length and a \<open>top_k\<close> that is not
  negative as a signed number, it returns as many results as asked for or as there are
  vectors, every result is a stored document with its metadata under the id it is given, and
  the store is not changed. A negative \<open>top_k\<close> makes it throw.
\<close>

lemma search_returns_stored:
  assumes "faiss_ok F vecs" and "faiss_inv vecs s" and "nd_shape q = [fi_d F (fs_index s)]"
    and "nd_floats q = Inr xs" and "read_floats (fi_d F (fs_index s)) xs = Inr v"
    and "0 \<le> sint (fi_ntotal F (fs_index s))"
  shows "if 0 \<le> sint top_k
    then \<exists>rs. faiss_retrieve F q top_k s = Inr (s, rs) \<and>
      length rs = min (unat top_k) (unat (fi_ntotal F (fs_index s))) \<and>
      (\<forall>r \<in> set rs. map_of (fs_docs s) (strtoll (vr_id r)) = Some (vr_document r, vr_metadata r))
    else faiss_retrieve F q top_k s = Inl (LibThrow ''length_error'')"
proof (cases "0 \<le> sint top_k")
  case False
  with assms(6) have "sint top_k < sint (fi_ntotal F (fs_index s))" "top_k \<noteq> 0" by auto
  with False assms(3) show ?thesis by (simp add: faiss_retrieve_def is_valid_embedding_def Let_def)
next
  case True
  let ?t = "fi_ntotal F (fs_index s)"
  let ?k = "if sint top_k < sint ?t then top_k else ?t"
  have k: "unat ?k = min (unat top_k) (unat ?t)"
    using sint_nonneg [OF True] sint_nonneg [OF assms(6)] by (simp only: of_nat_less_iff min_def if_distrib) auto
  show ?thesis
  proof (cases "?k = 0")
    case zero: True
    then have "faiss_retrieve F q top_k s = Inr (s, [])"
      using assms(3) by (simp add: faiss_retrieve_def is_valid_embedding_def Let_def)
    with k zero True show ?thesis by simp
  next
    case False
    then have run: "faiss_retrieve F q top_k s = Inr (results_of (fi_search F (fs_index s) v ?k) s)"
      using True assms(3-6) by (simp add: faiss_retrieve_def is_valid_embedding_def Let_def)
    have "unat ?k \<le> unat ?t" using k by simp
    then have es: "length (fi_search F (fs_index s) v ?k) = unat ?k"
      using assms(1) unfolding faiss_ok_def by blast
    obtain s' rs where r: "results_of (fi_search F (fs_index s) v ?k) s = (s', rs)" by fastforce
    have "retrieve (faiss_ops F) q top_k s = Inr (s', rs)" using run r by (simp add: faiss_ops_def)
    from vector_store.ret [OF faiss_is_store [OF assms(1)] assms(2) this]
    have "s' = s" "\<forall>r \<in> set rs. map_of (fs_docs s) (strtoll (vr_id r)) = Some (vr_document r, vr_metadata r)"
      by simp_all
    moreover have "length rs = unat ?k" using results_of_length [OF r] es by simp
    ultimately show ?thesis using True run r k by simp
  qed
qed

lemma search_returns_stored_witness:
  "(\<exists>rs. faiss_retrieve list_faiss (float_vector 1 [7]) 5 two_docs = Inr (two_docs, rs) \<and> length rs = 2) \<and>
   faiss_retrieve list_faiss (float_vector 1 [7]) (- 1) two_docs = Inl (LibThrow ''length_error'')"
proof -
  have pre: "nd_shape (float_vector 1 [7]) = [fi_d list_faiss (fs_index two_docs)]"
    "nd_floats (float_vector 1 [7]) = Inr [7]"
    "read_floats (fi_d list_faiss (fs_index two_docs)) [7] = Inr [7]"
    "0 \<le> sint (fi_ntotal list_faiss (fs_index two_docs))" by code_simp+
  have t: "unat (fi_ntotal list_faiss (fs_index two_docs)) = 2" by code_simp
  note th = search_returns_stored [OF list_faiss_ok two_docs_inv pre]
  show ?thesis using th [of 5] th [of "- 1"] by (auto simp: t)
qed

section \<open>On a Chroma server\<close>

lemma chroma_add_runs:
  assumes ok: "chroma_ok L url nm cols named" and inv: "chroma_inv L url cols named s"
    and c: "cols (ch_world s) (ch_id s) = Some c" and v: "nd_floats (vi_embedding i) = Inr v"
    and "json_dump (cl_codec L) (add_params [cl_uuid L (ch_uuids s)] [v] [vi_document i] [metadata_json (vi_metadata i)]) \<noteq> None"
  shows "\<exists>w. chroma_add_vector L i s = Inr (s\<lparr>ch_uuids := ch_uuids s + 1, ch_world := w\<rparr>, cl_uuid L (ch_uuids s)) \<and>
    cols w = (cols (ch_world s))(ch_id s \<mapsto>
      c(cl_uuid L (ch_uuids s) \<mapsto> (vi_document i, nm (metadata_json (vi_metadata i)), floats_json v)))"
proof -
  let ?vid = "cl_uuid L (ch_uuids s)" and ?s1 = "s\<lparr>ch_uuids := ch_uuids s + 1\<rparr>"
  let ?p = "add_params [?vid] [v] [vi_document i] [metadata_json (vi_metadata i)]"
  have adds: "chroma_adds L url nm cols named" using ok by (simp add: chroma_ok_def)
  have url: "ch_url s = url" and new: "set [?vid] \<inter> dom c = {}" using inv by (auto simp: chroma_inv_def c)
  from adds [unfolded chroma_adds_def, rule_format, OF c _ new _ _ _ assms(5)]
  obtain w t where a: "answers L url ''POST'' (action_url (ch_id s) ''add'') ?p (ch_world s) = Some (w, 201, t)"
    "cols w = (cols (ch_world s))(ch_id s \<mapsto> c ++ map_of (zip [?vid] (zip [vi_document i]
      (zip (map nm [metadata_json (vi_metadata i)]) (map floats_json [v])))))"
    by auto
  have "chroma_ask L ''add'' ?p ?s1 = Inr (?s1\<lparr>ch_world := w\<rparr>, 201, t)"
    using chroma_ask_answered [of L ?s1 "''add''" ?p w 201 t] a(1) url by simp
  with a(2) v show ?thesis by (intro exI [of _ w]) (simp add: chroma_add_vector_def Let_def)
qed


text \<open>A store on a server with one empty collection.\<close>

definition empty_chroma :: "list_server chroma" where
  "empty_chroma = \<lparr>ch_url = ''u'', ch_id = ''c'', ch_name = ''n'', ch_cleanup = False, ch_uuids = 0,
     ch_world = \<lparr>sv_names = [(''n'', ''c'')], sv_cols = [(''c'', [])]\<rparr>\<rparr>"

lemma empty_chroma_inv: "chroma_inv list_chroma ''u'' server_cols server_named empty_chroma"
  by (simp add: empty_chroma_def chroma_inv_def server_cols_def server_named_def)




text \<open>
  A server that stops answering: every operation on the documents reads a null pointer.
\<close>

lemma unreachable_server_crashes:
  assumes "\<And>verb path b w. \<exists>w' e. cl_http L (ch_url s) verb path b w = (w', Inl e)"
    and "json_dump (cl_codec L) (get_params vid) \<noteq> None"
  shows "chroma_get_by_id L vid s = Inl (UB ''null pointer dereference'')"
proof -
  obtain b where "json_dump (cl_codec L) (get_params vid) = Some b" using assms(2) by blast
  moreover obtain w' e where "cl_http L (ch_url s) ''POST'' (action_url (ch_id s) ''get'') (Some b) (ch_world s) = (w', Inl e)"
    using assms(1) by blast
  ultimately show ?thesis
    by (simp add: chroma_get_by_id_def chroma_ask_def chroma_dump_def chroma_send_def response_of_def)
qed

end
