(* ===== verification/HttpRequest.thy ===== *)
theory HttpRequest
  imports StringUtil Modules Exceptions
begin

text \<open>
  The operator \<open>http_request\<close> (\<open>vm/src/http_request.cpp\<close>): it takes a request apart, splits
  the url and sends it. The transfer itself is done by a library: \<open>http\<close> maps the host, the
  method, the path, the headers, the body and the content type to a response, if there is one.
\<close>

record http_request_t =
  hq_url :: string
  hq_method :: string
  hq_headers :: "(string \<times> string) list"
  hq_body :: "string option"

record http_response_t =
  hr_status :: u32
  hr_headers :: "(string \<times> string) list"
  hr_body :: string

type_synonym http_client =
  "string \<Rightarrow> string \<Rightarrow> string \<Rightarrow> (string \<times> string) list \<Rightarrow> (string \<times> string) option \<Rightarrow> http_response_t option"

section \<open>The url\<close>

text \<open>Host and path. The path begins at the first slash after the scheme.\<close>

definition split_url :: "string \<Rightarrow> (string \<times> string) option" where
  "split_url url =
     (case find_sub ''://'' url of
        None \<Rightarrow> None
      | Some i \<Rightarrow>
          (let rest = drop (i + 3) url in
           case find_sub ''/'' rest of
             None \<Rightarrow> Some (rest, ''/'')
           | Some j \<Rightarrow> Some (take j rest, drop j rest)))"

definition simple_response :: "u32 \<Rightarrow> string \<Rightarrow> http_response_t" where
  "simple_response code msg = \<lparr>hr_status = code, hr_headers = [], hr_body = msg\<rparr>"

text \<open>\<open>data()\<close> as a C string: up to the first null character.\<close>

definition c_str :: "string \<Rightarrow> string" where
  "c_str s = takeWhile (\<lambda>c. c \<noteq> CHR 0x00) s"

definition run_http_request :: "http_client \<Rightarrow> http_request_t \<Rightarrow> http_response_t" where
  "run_http_request http req =
     (case split_url (hq_url req) of
        None \<Rightarrow> simple_response 400 ''Invalid URL format''
      | Some (host, path) \<Rightarrow>
          (let body_str = (case hq_body req of None \<Rightarrow> [] | Some b \<Rightarrow> c_str b);
               content_type = (case map_of (hq_headers req) ''Content-Type'' of None \<Rightarrow> ''text/plain'' | Some t \<Rightarrow> t);
               m = hq_method req;
               result = (if m = ''GET'' \<or> m = ''DELETE'' then Some (http host m path (hq_headers req) None)
                         else if m = ''POST'' \<or> m = ''PUT''
                         then Some (http host m path (hq_headers req) (Some (body_str, content_type)))
                         else None)
           in case result of
                None \<Rightarrow> simple_response 400 ''Unsupported HTTP method''
              | Some None \<Rightarrow> simple_response 500 ''Request Failed''
              | Some (Some r) \<Rightarrow>
                  r\<lparr>hr_headers := fold (\<lambda>(k, v). put k v) (hr_headers r) []\<rparr>))"

section \<open>The operator\<close>

definition require_string :: "string \<Rightarrow> string \<Rightarrow> (string \<times> val) list \<Rightarrow> string or_error" where
  "require_string ctx key m =
     (case map_of m key of
        None \<Rightarrow> Failed (range_error2 ctx key)
      | Some v \<Rightarrow>
          (case v of String_t s \<Rightarrow> Got s
           | _ \<Rightarrow> Failed (type_error4 ctx key ''string_t'' (get_type v))))"

definition http_methods :: "string list" where
  "http_methods = [''GET'', ''POST'', ''PUT'', ''DELETE'']"

definition parse_method :: "(string \<times> val) list \<Rightarrow> string or_error" where
  "parse_method m =
     (case require_string ''http_request'' ''method'' m of
        Failed e \<Rightarrow> Failed e
      | Got s \<Rightarrow>
          if s \<in> set http_methods then Got s
          else Failed (value_error4 ''HTTP Request'' ''method'' ''GET | POST | PUT | DELETE'' s))"

definition parse_headers :: "(string \<times> val) list \<Rightarrow> (string \<times> val) list or_error" where
  "parse_headers m =
     (case map_of m ''headers'' of
        None \<Rightarrow> Got []
      | Some v \<Rightarrow>
          (case v of Map_t h \<Rightarrow> Got h
           | _ \<Rightarrow> Failed (type_error4 ''http_request'' ''headers'' ''map_t'' (get_type v))))"

definition parse_body :: "(string \<times> val) list \<Rightarrow> string or_error" where
  "parse_body m =
     (case map_of m ''body'' of
        None \<Rightarrow> Got []
      | Some v \<Rightarrow>
          (case v of String_t s \<Rightarrow> Got s
           | _ \<Rightarrow> Failed (type_error4 ''http_request'' ''body'' ''string_t'' (get_type v))))"

definition parse_http_inputs ::
  "val \<Rightarrow> (string \<times> string \<times> (string \<times> val) list \<times> string) or_error" where
  "parse_http_inputs v =
     (case v of
        Map_t m \<Rightarrow>
          (case require_string ''http_request'' ''url'' m of
             Failed e \<Rightarrow> Failed e
           | Got url \<Rightarrow>
               (case parse_method m of
                  Failed e \<Rightarrow> Failed e
                | Got mt \<Rightarrow>
                    (case parse_headers m of
                       Failed e \<Rightarrow> Failed e
                     | Got h \<Rightarrow>
                         (case parse_body m of Failed e \<Rightarrow> Failed e | Got b \<Rightarrow> Got (url, mt, h, b)))))
      | _ \<Rightarrow> Failed (type_error4 ''http_request'' ''inputs'' ''map_t'' (get_type v)))"

text \<open>A header whose value is not a string is a null pointer here.\<close>

definition header_strings :: "(string \<times> val) list \<Rightarrow> (string \<times> string) list res" where
  "header_strings h = mapR (\<lambda>(k, v). bindR (deref (as_string v)) (\<lambda>s. Inr (k, s))) h"

definition http_request_op :: "http_client \<Rightarrow> val option \<Rightarrow> value_or_error res" where
  "http_request_op http inputs = bindR (deref inputs) (\<lambda>v.
     case parse_http_inputs v of
       Failed e \<Rightarrow> Inr (Failed e)
     | Got (url, mt, h, b) \<Rightarrow>
         bindR (header_strings h) (\<lambda>hs.
           let resp = run_http_request http
                 \<lparr>hq_url = url, hq_method = mt, hq_headers = hs, hq_body = Some (c_str b)\<rparr>
           in Inr (Got (Some (Map_t
                (put ''body'' (Bytes_t (bytes_of_string (hr_body resp)))
                (put ''headers'' (Map_t (fold (\<lambda>(k, s). put k (String_t s)) (hr_headers resp) []))
                (put ''status_code'' (Uint_t (scast (hr_status resp))) []))))))))"

section \<open>What the operator does\<close>

text \<open>A url is taken apart without losing anything but the scheme and its separator.\<close>

lemma split_url_whole:
  assumes "split_url url = Some (host, path)"
  shows "\<exists>scheme. \<not> sublist ''://'' scheme \<and> CHR ''/'' \<notin> set host \<and>
    (url = scheme @ ''://'' @ host @ path \<or> url = scheme @ ''://'' @ host \<and> path = ''/'')"
proof -
  obtain i where i: "find_sub ''://'' url = Some i" using assms by (auto simp: split_url_def split: option.splits)
  let ?rest = "drop (i + 3) url"
  have url: "url = take i url @ ''://'' @ ?rest" using find_sub_Some [OF i] by (simp add: numeral_3_eq_3)
  have sch: "\<not> sublist ''://'' (take i url)" by (rule find_sub_first [OF i]) simp
  have slash: "CHR ''/'' \<notin> set s" if "\<not> sublist ''/'' s" for s
    using that by (auto simp: in_set_conv_decomp sublist_def)
  show ?thesis
  proof (cases "find_sub ''/'' ?rest")
    case None
    with assms i have "host = ?rest" "path = ''/''" by (simp_all add: split_url_def)
    with url sch slash [OF find_sub_None [OF None]] show ?thesis by metis
  next
    case (Some j)
    with assms i have hp: "host = take j ?rest" "path = drop j ?rest" by (simp_all add: split_url_def)
    moreover have "CHR ''/'' \<notin> set (take j ?rest)" by (rule slash, rule find_sub_first [OF Some]) simp
    moreover have "host @ path = ?rest" unfolding hp by (rule append_take_drop_id)
    ultimately show ?thesis using url sch by metis
  qed
qed

text \<open>With headers that are strings, every request is answered with a map or an error output.\<close>

lemma header_not_string:
  "\<not> is_string v \<Longrightarrow> header_strings ((k, v) # h) = Inl (UB ''null pointer dereference'')"
  by (cases v) (simp_all add: header_strings_def)

lemma header_strings_ok:
  "\<forall>(k, v) \<in> set h. is_string v \<Longrightarrow> \<exists>hs. header_strings h = Inr hs"
  by (induction h) (auto simp: header_strings_def)

lemma http_request_answers:
  assumes "\<forall>m h. v = Map_t m \<longrightarrow> map_of m ''headers'' = Some (Map_t h) \<longrightarrow> (\<forall>(k, x) \<in> set h. is_string x)"
  shows "\<exists>r. http_request_op http (Some v) = Inr r"
proof (cases "parse_http_inputs v")
  case (Failed e)
  then show ?thesis by (simp add: http_request_op_def)
next
  case (Got p)
  obtain url mt h b where p: "p = (url, mt, h, b)" by (metis prod_cases4)
  obtain m where v: "v = Map_t m" using Got by (cases v) (auto simp: parse_http_inputs_def)
  have "parse_headers m = Got h"
    using Got v p by (auto simp: parse_http_inputs_def split: or_error.splits)
  then have "h = [] \<or> map_of m ''headers'' = Some (Map_t h)"
    by (auto simp: parse_headers_def split: option.splits val.splits)
  with assms v have "\<forall>(k, x) \<in> set h. is_string x" by auto
  from header_strings_ok [OF this] show ?thesis by (auto simp: http_request_op_def Got p Let_def)
qed

end
