(* ===== verification/OpenAI.thy ===== *)
theory OpenAI
  imports Modules JsonAccess Exceptions HttpRequest
begin

text \<open>
  The client of the OpenAI API (\<open>vm/src/openai.hpp\<close>, \<open>vm/src/openai.cpp\<close>): its messages,
  their conversion to and from JSON, and the component that sends a request. The arguments of
  a function call are a JSON document in the program and a string on the wire; the
  thread-local switch between the two is the argument \<open>stringly\<close>. The HTTP library is a
  parameter, as are the printer and the parser of JSON texts in \<open>codec\<close>.
\<close>

section \<open>Optional members\<close>

text \<open>A member that may be missing or \<open>null\<close>.\<close>

definition opt_member :: "(json \<Rightarrow> 'a res) \<Rightarrow> json \<Rightarrow> string \<Rightarrow> 'a option res" where
  "opt_member get j key =
     (if json_has j key
      then bindR (json_at j key) (\<lambda>x. if x = JNull then Inr None else mapR_res Some (get x))
      else Inr None)"

definition opt_json :: "('a \<Rightarrow> json res) \<Rightarrow> 'a option \<Rightarrow> json res" where
  "opt_json f x = (case x of None \<Rightarrow> Inr JNull | Some a \<Rightarrow> f a)"

definition str_json :: "string \<Rightarrow> json res" where "str_json s = Inr (JString s)"

definition list_json :: "('a \<Rightarrow> json res) \<Rightarrow> 'a list \<Rightarrow> json res" where
  "list_json f xs = mapR_res JArray (mapR f xs)"

definition get_list :: "(json \<Rightarrow> 'a res) \<Rightarrow> json \<Rightarrow> 'a list res" where
  "get_list f j = bindR (json_list j) (mapR f)"

section \<open>Function calls\<close>

record function_call =
  fc_name :: string
  fc_arguments :: "json option"

definition function_call_to_json :: "codec \<Rightarrow> bool \<Rightarrow> function_call \<Rightarrow> json res" where
  "function_call_to_json C stringly fc =
     (let j = put ''name'' (JString (fc_name fc)) [] in
      case fc_arguments fc of
        None \<Rightarrow> Inr (JObject j)
      | Some a \<Rightarrow>
          if stringly then
            (case json_dump C a of
               None \<Rightarrow> Inl (LibThrow ''json::dump'')
             | Some s \<Rightarrow> Inr (JObject (put ''arguments'' (JString s) j)))
          else Inr (JObject (put ''arguments'' a j)))"

definition function_call_from_json :: "codec \<Rightarrow> json \<Rightarrow> function_call res" where
  "function_call_from_json C j =
     bindR (json_at j ''name'') (\<lambda>n.
     bindR (json_string n) (\<lambda>name.
       if json_has j ''arguments'' then
         bindR (json_at j ''arguments'') (\<lambda>a.
           case a of
             JString s \<Rightarrow>
               (case json_parse C s of
                  None \<Rightarrow> Inl (LibThrow ''json::parse_error'')
                | Some x \<Rightarrow> Inr \<lparr>fc_name = name, fc_arguments = Some x\<rparr>)
           | _ \<Rightarrow> Inr \<lparr>fc_name = name, fc_arguments = Some a\<rparr>)
       else Inr \<lparr>fc_name = name, fc_arguments = None\<rparr>))"

record tool_call =
  tc_id :: string
  tc_type :: string
  tc_function :: function_call

definition tool_call_to_json :: "codec \<Rightarrow> bool \<Rightarrow> tool_call \<Rightarrow> json res" where
  "tool_call_to_json C stringly tc =
     bindR (function_call_to_json C stringly (tc_function tc)) (\<lambda>f.
       Inr (JObject (put ''function'' f (put ''type'' (JString (tc_type tc))
         (put ''id'' (JString (tc_id tc)) [])))))"

definition tool_call_from_json :: "codec \<Rightarrow> json \<Rightarrow> tool_call res" where
  "tool_call_from_json C j =
     bindR (bindR (json_at j ''id'') json_string) (\<lambda>i.
     bindR (bindR (json_at j ''type'') json_string) (\<lambda>t.
     bindR (bindR (json_at j ''function'') (function_call_from_json C)) (\<lambda>f.
       Inr \<lparr>tc_id = i, tc_type = t, tc_function = f\<rparr>)))"

section \<open>Messages\<close>

record chat_message =
  msg_role :: string
  msg_content :: "string option"
  msg_name :: "string option"
  msg_tool_calls :: "tool_call list option"
  msg_tool_call_id :: "string option"

definition message_to_json :: "codec \<Rightarrow> bool \<Rightarrow> chat_message \<Rightarrow> json res" where
  "message_to_json C stringly m =
     bindR (opt_json str_json (msg_content m)) (\<lambda>c.
     bindR (opt_json str_json (msg_name m)) (\<lambda>n.
     bindR (opt_json (list_json (tool_call_to_json C stringly)) (msg_tool_calls m)) (\<lambda>ts.
     bindR (opt_json str_json (msg_tool_call_id m)) (\<lambda>i.
       Inr (JObject (put ''tool_call_id'' i (put ''tool_calls'' ts (put ''name'' n (put ''content'' c
         (put ''role'' (JString (msg_role m)) [])))))))))) "

definition message_from_json :: "codec \<Rightarrow> json \<Rightarrow> chat_message res" where
  "message_from_json C j =
     bindR (bindR (json_at j ''role'') json_string) (\<lambda>r.
     bindR (opt_member json_string j ''content'') (\<lambda>c.
     bindR (opt_member json_string j ''name'') (\<lambda>n.
     bindR (opt_member (get_list (tool_call_from_json C)) j ''tool_calls'') (\<lambda>ts.
     bindR (opt_member json_string j ''tool_call_id'') (\<lambda>i.
       Inr \<lparr>msg_role = r, msg_content = c, msg_name = n, msg_tool_calls = ts, msg_tool_call_id = i\<rparr>)))))"

section \<open>Tools and requests\<close>

record chat_function =
  cf_name :: string
  cf_description :: "string option"
  cf_parameters :: json

definition chat_function_to_json :: "chat_function \<Rightarrow> json res" where
  "chat_function_to_json f =
     bindR (opt_json str_json (cf_description f)) (\<lambda>d.
       Inr (JObject (put ''description'' d (put ''parameters'' (cf_parameters f)
         (put ''name'' (JString (cf_name f)) [])))))"

definition chat_function_from_json :: "json \<Rightarrow> chat_function res" where
  "chat_function_from_json j =
     bindR (bindR (json_at j ''name'') json_string) (\<lambda>n.
     bindR (json_at j ''parameters'') (\<lambda>p.
     bindR (opt_member json_string j ''description'') (\<lambda>d.
       Inr \<lparr>cf_name = n, cf_description = d, cf_parameters = p\<rparr>)))"

record chat_tool =
  ct_type :: string
  ct_function :: chat_function

definition chat_tool_to_json :: "chat_tool \<Rightarrow> json res" where
  "chat_tool_to_json t =
     bindR (chat_function_to_json (ct_function t)) (\<lambda>f.
       Inr (JObject (put ''function'' f (put ''type'' (JString (ct_type t)) []))))"

definition chat_tool_from_json :: "json \<Rightarrow> chat_tool res" where
  "chat_tool_from_json j =
     bindR (bindR (json_at j ''type'') json_string) (\<lambda>t.
     bindR (bindR (json_at j ''function'') chat_function_from_json) (\<lambda>f.
       Inr \<lparr>ct_type = t, ct_function = f\<rparr>))"

record chat_request =
  cr_messages :: "chat_message list"
  cr_model :: "string option"
  cr_tools :: "chat_tool list option"

definition request_to_json :: "codec \<Rightarrow> bool \<Rightarrow> chat_request \<Rightarrow> json res" where
  "request_to_json C stringly r =
     bindR (list_json (message_to_json C stringly) (cr_messages r)) (\<lambda>ms.
     bindR (opt_json str_json (cr_model r)) (\<lambda>m.
     bindR (opt_json (list_json chat_tool_to_json) (cr_tools r)) (\<lambda>ts.
       Inr (JObject (put ''tools'' ts (put ''model'' m (put ''messages'' ms []))))))) "

definition request_from_json :: "codec \<Rightarrow> json \<Rightarrow> chat_request res" where
  "request_from_json C j =
     bindR (bindR (json_at j ''messages'') (get_list (message_from_json C))) (\<lambda>ms.
     bindR (opt_member json_string j ''model'') (\<lambda>m.
     bindR (opt_member (get_list chat_tool_from_json) j ''tools'') (\<lambda>ts.
       Inr \<lparr>cr_messages = ms, cr_model = m, cr_tools = ts\<rparr>)))"

section \<open>The request of a caller\<close>

definition convert_request_input :: "codec \<Rightarrow> val option \<Rightarrow> chat_request res" where
  "convert_request_input C inputs = bindR (deref inputs) (\<lambda>v.
     case v of
       Map_t m \<Rightarrow>
         (case map_of m ''messages'' of
            Some (Array_t msgs) \<Rightarrow>
              bindR (mapR (\<lambda>x. message_from_json C (to_json x)) msgs) (\<lambda>ms.
              (case map_of m ''tools'' of
                 None \<Rightarrow> Inr \<lparr>cr_messages = ms, cr_model = None, cr_tools = None\<rparr>
               | Some (Array_t tools) \<Rightarrow>
                   bindR (mapR (\<lambda>x. chat_tool_from_json (to_json x)) tools) (\<lambda>ts.
                     Inr \<lparr>cr_messages = ms, cr_model = None, cr_tools = Some ts\<rparr>)
               | Some _ \<Rightarrow> Inl (Throw ''[OpenAI] tools should be an array type'')))
          | _ \<Rightarrow> Inl (Throw (''[OpenAI] input should have array type field '' @ CHR 0x27 # ''messages'' @ [CHR 0x27])))
     | _ \<Rightarrow> Inl (Throw ''[OpenAI] input should be a map''))"

section \<open>The engine\<close>

text \<open>A number as an \<open>int\<close>: the low 32 bits of an integer, a double cut towards zero.\<close>

definition double_to_int :: "u64 \<Rightarrow> u32 res" where
  "double_to_int d =
     (let n = unat d; e = n div 2 ^ 52 mod 2048; m = n mod 2 ^ 52;
          v = int ((2 ^ 52 + m) div 2 ^ (1075 - e)); i = (if n div 2 ^ 63 = 1 then - v else v)
      in if e < 1023 then Inr 0
         else if e \<le> 1054 \<and> - (2 ^ 31) \<le> i \<and> i < 2 ^ 31 then Inr (word_of_int i)
         else Inl (UB ''floating point number out of the range of int''))"

definition json_int :: "json \<Rightarrow> u32 res" where
  "json_int j =
     (case j of JInt i \<Rightarrow> Inr (ucast i) | JUint n \<Rightarrow> Inr (ucast n) | JFloat d \<Rightarrow> double_to_int d
      | JBool b \<Rightarrow> Inr (of_bool b) | _ \<Rightarrow> Inl (LibThrow ''json::type_error''))"

record chat_choice =
  ch_index :: u32
  ch_finish_reason :: string
  ch_message :: chat_message

definition choice_from_json :: "codec \<Rightarrow> json \<Rightarrow> chat_choice res" where
  "choice_from_json C j =
     bindR (bindR (json_at j ''index'') json_int) (\<lambda>i.
     bindR (bindR (json_at j ''finish_reason'') json_string) (\<lambda>r.
     bindR (bindR (json_at j ''message'') (message_from_json C)) (\<lambda>m.
       Inr \<lparr>ch_index = i, ch_finish_reason = r, ch_message = m\<rparr>)))"

definition choice_to_json :: "codec \<Rightarrow> bool \<Rightarrow> chat_choice \<Rightarrow> json res" where
  "choice_to_json C stringly c =
     bindR (message_to_json C stringly (ch_message c)) (\<lambda>m.
       Inr (JObject (put ''message'' m (put ''finish_reason'' (JString (ch_finish_reason c))
         (put ''index'' (JInt (scast (ch_index c))) [])))))"

record response_delta =
  rd_message :: chat_message
  rd_finish_reason :: string

definition delta_to_json :: "codec \<Rightarrow> bool \<Rightarrow> response_delta \<Rightarrow> json res" where
  "delta_to_json C stringly d =
     bindR (message_to_json C stringly (rd_message d)) (\<lambda>m.
       Inr (JObject (put ''finish_reason'' (JString (rd_finish_reason d)) (put ''message'' m []))))"

definition delta_from_json :: "codec \<Rightarrow> json \<Rightarrow> response_delta res" where
  "delta_from_json C j =
     bindR (bindR (json_at j ''message'') (message_from_json C)) (\<lambda>m.
     bindR (bindR (json_at j ''finish_reason'') json_string) (\<lambda>r.
       Inr \<lparr>rd_message = m, rd_finish_reason = r\<rparr>))"

record openai_engine =
  oe_api_key :: string
  oe_model :: string

type_synonym openai_http = "(string \<times> string) list \<Rightarrow> string \<Rightarrow> string + (u32 \<times> string)"

definition openai_headers :: "openai_engine \<Rightarrow> (string \<times> string) list" where
  "openai_headers e =
     [(''Authorization'', ''Bearer '' @ oe_api_key e), (''Content-Type'', ''application/json''),
      (''Cache-Control'', ''no-cache'')]"

definition openai_receive :: "codec \<Rightarrow> string + (u32 \<times> string) \<Rightarrow> response_delta res" where
  "openai_receive C result =
     (case result of
        Inl err \<Rightarrow> Inl (Throw (runtime_error1 (''[OpenAI] Request failed: '' @ err)))
      | Inr (status, text) \<Rightarrow>
          if status \<noteq> 200
          then Inl (Throw (runtime_error1 (''[OpenAI] Request failed: ['' @ show_u64 (ucast status) @ ''] '' @ text)))
          else (case json_parse C text of
                  None \<Rightarrow> Inl (LibThrow ''json::parse_error'')
                | Some j \<Rightarrow>
                    bindR (bindR (member_or_null j ''choices'') first_or_null) (\<lambda>x.
                    bindR (choice_from_json C x) (\<lambda>c.
                      Inr \<lparr>rd_message = ch_message c, rd_finish_reason = ch_finish_reason c\<rparr>))))"

text \<open>
  The switch is set before the request is converted and cleared after it, so an exception of
  the conversion leaves it set. The first component of the result is the switch afterwards.
\<close>

definition openai_infer ::
  "codec \<Rightarrow> openai_http \<Rightarrow> openai_engine \<Rightarrow> chat_request \<Rightarrow> bool \<times> response_delta res" where
  "openai_infer C http e r =
     (case request_to_json C True (r\<lparr>cr_model := Some (oe_model e)\<rparr>) of
        Inl f \<Rightarrow> (True, Inl f)
      | Inr b \<Rightarrow>
          (False,
           case json_dump C b of
             None \<Rightarrow> Inl (LibThrow ''json::dump'')
           | Some s \<Rightarrow> openai_receive C (http (openai_headers e) s)))"

text \<open>The method \<open>infer\<close> of the component, with the switch before and after it.\<close>

definition openai_infer_method ::
  "codec \<Rightarrow> openai_http \<Rightarrow> bool \<Rightarrow> openai_engine objs \<Rightarrow> val option \<Rightarrow> bool \<times> value_or_error res" where
  "openai_infer_method C http stringly os inputs =
     (case bindR (convert_request_input C inputs) (\<lambda>r. mapR_res (Pair r) (deref (get_obj Some os ''engine''))) of
        Inl f \<Rightarrow> (stringly, Inl f)
      | Inr (r, e) \<Rightarrow>
          (let (stringly', d) = openai_infer C http e r in
           (stringly',
            bindR d (\<lambda>d. bindR (delta_to_json C stringly' d) (\<lambda>j.
              mapR_res (\<lambda>v. Got (Some v)) (from_json j))))))"

definition create_openai_engine :: "val option \<Rightarrow> openai_engine res" where
  "create_openai_engine attrs = bindR (deref attrs) (\<lambda>v.
     case v of
       Map_t m \<Rightarrow>
         bindR (map_get as_string m ''api_key'') (\<lambda>k.
         bindR (deref (map_at_default as_string m ''model'' ''gpt-4o'')) (\<lambda>md.
           Inr \<lparr>oe_api_key = k, oe_model = md\<rparr>))
     | _ \<Rightarrow> Inl (Throw (runtime_error1 ''[OpenAI] Invalid input'')))"

section \<open>Conversions and back\<close>

text \<open>Which arguments survive: as documents all but strings, as strings those that are parsed
  as they were printed.\<close>

definition arguments_ok :: "codec \<Rightarrow> bool \<Rightarrow> function_call \<Rightarrow> bool" where
  "arguments_ok C stringly fc \<longleftrightarrow>
     (case fc_arguments fc of
        None \<Rightarrow> True
      | Some a \<Rightarrow> if stringly then \<exists>s. json_dump C a = Some s \<and> json_parse C s = Some a
                  else \<forall>s. a \<noteq> JString s)"

lemma function_call_back:
  assumes "arguments_ok C stringly fc"
  shows "\<exists>j. function_call_to_json C stringly fc = Inr j \<and> function_call_from_json C j = Inr fc"
proof (cases "fc_arguments fc")
  case None
  then show ?thesis by (simp add: function_call_to_json_def function_call_from_json_def Let_def)
next
  case (Some a)
  show ?thesis
  proof (cases stringly)
    case True
    with Some assms obtain s where "json_dump C a = Some s" "json_parse C s = Some a"
      by (auto simp: arguments_ok_def)
    with Some True show ?thesis
      by (simp add: function_call_to_json_def function_call_from_json_def Let_def)
  next
    case False
    with Some assms show ?thesis
      by (cases a) (simp_all add: arguments_ok_def function_call_to_json_def function_call_from_json_def Let_def)
  qed
qed

lemma tool_call_back:
  assumes "arguments_ok C stringly (tc_function tc)"
  shows "\<exists>j. tool_call_to_json C stringly tc = Inr j \<and> tool_call_from_json C j = Inr tc"
  using function_call_back [OF assms]
  by (auto simp: tool_call_to_json_def tool_call_from_json_def)

text \<open>Lists and optional members are converted back if what they hold is.\<close>

lemma list_back:
  assumes "\<forall>x \<in> set xs. \<exists>j. f x = Inr j \<and> g j = Inr x"
  shows "\<exists>j. list_json f xs = Inr j \<and> get_list g j = Inr xs"
proof -
  have "\<exists>js. mapR f xs = Inr js \<and> mapR g js = Inr xs"
    using assms by (induction xs) auto
  then show ?thesis by (auto simp: list_json_def get_list_def)
qed

definition member_law :: "('a \<Rightarrow> json res) \<Rightarrow> (json \<Rightarrow> 'a res) \<Rightarrow> 'a option \<Rightarrow> json \<Rightarrow> bool" where
  "member_law f g x j \<longleftrightarrow>
     opt_json f x = Inr j \<and> (\<forall>m k. map_of m k = Some j \<longrightarrow> opt_member g (JObject m) k = Inr x)"

lemma member_back:
  assumes "x = None \<or> (\<exists>a j. x = Some a \<and> f a = Inr j \<and> g j = Inr a \<and> j \<noteq> JNull)"
  shows "\<exists>j. member_law f g x j"
  using assms by (elim disjE exE conjE) (auto simp: opt_json_def opt_member_def member_law_def)

lemma str_member: "\<exists>j. member_law str_json json_string x j"
  by (rule member_back) (cases x; auto simp: str_json_def)

lemma list_member:
  assumes "\<forall>ys. x = Some ys \<longrightarrow> (\<forall>y \<in> set ys. \<exists>j. f y = Inr j \<and> g j = Inr y)"
  shows "\<exists>j. member_law (list_json f) (get_list g) x j"
proof (rule member_back, cases x)
  case (Some ys)
  with assms list_back [of ys f g] obtain j where j: "list_json f ys = Inr j" "get_list g j = Inr ys" by blast
  from j(1) have "j \<noteq> JNull" by (cases "mapR f ys") (auto simp: list_json_def)
  with j Some show "x = None \<or> (\<exists>a j. x = Some a \<and> list_json f a = Inr j \<and> get_list g j = Inr a \<and> j \<noteq> JNull)"
    by blast
qed simp

definition message_ok :: "codec \<Rightarrow> bool \<Rightarrow> chat_message \<Rightarrow> bool" where
  "message_ok C stringly m \<longleftrightarrow>
     (case msg_tool_calls m of None \<Rightarrow> True | Some ts \<Rightarrow> \<forall>t \<in> set ts. arguments_ok C stringly (tc_function t))"

lemma message_back:
  assumes "message_ok C stringly m"
  shows "\<exists>j. message_to_json C stringly m = Inr j \<and> message_from_json C j = Inr m"
proof -
  obtain c where c: "member_law str_json json_string (msg_content m) c" using str_member by blast
  obtain n where n: "member_law str_json json_string (msg_name m) n" using str_member by blast
  obtain i where i: "member_law str_json json_string (msg_tool_call_id m) i" using str_member by blast
  have "\<forall>ys. msg_tool_calls m = Some ys \<longrightarrow> (\<forall>y \<in> set ys. \<exists>j. tool_call_to_json C stringly y = Inr j \<and> tool_call_from_json C j = Inr y)"
    using assms tool_call_back by (auto simp: message_ok_def)
  then obtain t where t: "member_law (list_json (tool_call_to_json C stringly)) (get_list (tool_call_from_json C)) (msg_tool_calls m) t"
    using list_member by blast
  show ?thesis
    using c n i t by (simp add: message_to_json_def message_from_json_def member_law_def)
qed

lemma chat_tool_back: "\<exists>j. chat_tool_to_json t = Inr j \<and> chat_tool_from_json j = Inr t"
proof -
  obtain d where "member_law str_json json_string (cf_description (ct_function t)) d" using str_member by blast
  then show ?thesis
    by (simp add: chat_tool_to_json_def chat_tool_from_json_def chat_function_to_json_def chat_function_from_json_def
        member_law_def)
qed

lemma request_back:
  assumes "\<forall>m \<in> set (cr_messages r). message_ok C stringly m"
  shows "\<exists>j. request_to_json C stringly r = Inr j \<and> request_from_json C j = Inr r"
proof -
  obtain ms where ms: "list_json (message_to_json C stringly) (cr_messages r) = Inr ms"
    "get_list (message_from_json C) ms = Inr (cr_messages r)"
    using list_back [of "cr_messages r" "message_to_json C stringly" "message_from_json C"] assms message_back
    by blast
  obtain md where md: "member_law str_json json_string (cr_model r) md" using str_member by blast
  have "\<forall>ys. cr_tools r = Some ys \<longrightarrow> (\<forall>y \<in> set ys. \<exists>j. chat_tool_to_json y = Inr j \<and> chat_tool_from_json j = Inr y)"
    using chat_tool_back by blast
  then obtain t where t: "member_law (list_json chat_tool_to_json) (get_list chat_tool_from_json) (cr_tools r) t"
    using list_member by blast
  show ?thesis
    using ms md t by (simp add: request_to_json_def request_from_json_def member_law_def)
qed

end
