(* ===== verification/ServiceProperties.thy ===== *)
theory ServiceProperties
  imports OpenAI
begin

text \<open>
  Properties of the operators and components that talk to services: the client of the OpenAI
  API and the HTTP operator, for every transport (\<open>http\<close>) and every JSON library (\<open>codec\<close>).
\<close>

section \<open>OpenAI\<close>

lemma choice_back:
  assumes "message_ok C stringly (ch_message c)"
  shows "\<exists>j. choice_to_json C stringly c = Inr j \<and> choice_from_json C j = Inr c"
proof -
  have "ucast (scast i :: u64) = i" for i :: u32
    by (rule bit_word_eqI) (simp add: bit_unsigned_iff bit_signed_iff)
  with message_back [OF assms] show ?thesis
    by (auto simp: choice_to_json_def choice_from_json_def json_int_def)
qed

text \<open>
  C34. Asking the model. The arguments of all function calls can be printed and parsed. Then the
  request that is sent reads back as the caller's request with the engine's model in it, and
  when the service answers with status 200 and a list of choices, the result is message and
  reason of the first one, and function calls are written as documents again afterwards.
\<close>

theorem infer_round_trip:
  assumes "\<forall>m \<in> set (cr_messages r). message_ok C True m" and "message_ok C True (ch_message c)"
    and "\<forall>j. request_to_json C True (r\<lparr>cr_model := Some (oe_model e)\<rparr>) = Inr j \<longrightarrow> json_dump C j = Some body"
    and "choice_to_json C True c = Inr cj"
    and "http (openai_headers e) body = Inr (200, reply)"
    and "json_parse C reply = Some (JObject m)" and "map_of m ''choices'' = Some (JArray (cj # cs))"
  shows "openai_infer C http e r =
      (False, Inr \<lparr>rd_message = ch_message c, rd_finish_reason = ch_finish_reason c\<rparr>) \<and>
    (\<exists>j. json_dump C j = Some body \<and> request_from_json C j = Inr (r\<lparr>cr_model := Some (oe_model e)\<rparr>))"
proof -
  let ?r = "r\<lparr>cr_model := Some (oe_model e)\<rparr>"
  obtain j where j: "request_to_json C True ?r = Inr j" "request_from_json C j = Inr ?r"
    using request_back [of ?r C True] assms(1) by auto
  have "choice_from_json C cj = Inr c" using choice_back [OF assms(2)] assms(4) by auto
  then have "openai_receive C (Inr (200, reply)) =
      Inr \<lparr>rd_message = ch_message c, rd_finish_reason = ch_finish_reason c\<rparr>"
    using assms(6,7) by (simp add: openai_receive_def member_or_null_def first_or_null_def)
  with j assms(3,5) show ?thesis by (auto simp: openai_infer_def)
qed

lemma infer_round_trip_witness:
  "\<exists>C. openai_infer C (\<lambda>hs b. Inr (200, ''reply'')) \<lparr>oe_api_key = ''k'', oe_model = ''gpt-4o''\<rparr>
      \<lparr>cr_messages = [\<lparr>msg_role = ''user'', msg_content = Some ''hi'', msg_name = None, msg_tool_calls = None,
                       msg_tool_call_id = None\<rparr>],
       cr_model = None, cr_tools = None\<rparr> =
    (False, Inr \<lparr>rd_message = \<lparr>msg_role = ''assistant'', msg_content = Some ''hello'', msg_name = None,
                               msg_tool_calls = None, msg_tool_call_id = None\<rparr>,
                rd_finish_reason = ''stop''\<rparr>)"
proof -
  let ?m = "\<lparr>msg_role = ''assistant'', msg_content = Some ''hello'', msg_name = None, msg_tool_calls = None,
             msg_tool_call_id = None\<rparr>"
  let ?c = "\<lparr>ch_index = 0, ch_finish_reason = ''stop'', ch_message = ?m\<rparr>"
  let ?q = "\<lparr>cr_messages = [\<lparr>msg_role = ''user'', msg_content = Some ''hi'', msg_name = None,
                 msg_tool_calls = None, msg_tool_call_id = None\<rparr>], cr_model = None, cr_tools = None\<rparr>"
  have "message_ok C True ?m" for C by (simp add: message_ok_def)
  then obtain cj where cj: "choice_to_json (table_codec []) True ?c = Inr cj" using choice_back [of _ True ?c] by fastforce
  let ?C = "\<lparr>cbor_out = \<lambda>j. [], cbor_in = \<lambda>b. None, json_dump = \<lambda>j. Some ''body'',
             json_parse = \<lambda>s. Some (JObject [(''choices'', JArray [cj])])\<rparr>"
  have "choice_to_json ?C True ?c = Inr cj"
    using cj by (simp add: choice_to_json_def message_to_json_def opt_json_def)
  from infer_round_trip [where C = ?C and c = ?c and r = ?q and e = "\<lparr>oe_api_key = ''k'', oe_model = ''gpt-4o''\<rparr>"
      and http = "\<lambda>hs b. Inr (200, ''reply'')" and reply = "''reply''" and body = "''body''", OF _ _ _ this]
  have "openai_infer ?C (\<lambda>hs b. Inr (200, ''reply'')) \<lparr>oe_api_key = ''k'', oe_model = ''gpt-4o''\<rparr> ?q =
      (False, Inr \<lparr>rd_message = ch_message ?c, rd_finish_reason = ch_finish_reason ?c\<rparr>)"
    by (simp add: message_ok_def)
  then show ?thesis by (intro exI [of _ ?C]) simp
qed

text \<open>
  The switch is not cleared when the conversion throws: afterwards all arguments on this thread
  are written as strings.
\<close>

lemma switch_left_set:
  assumes "request_to_json C True (r\<lparr>cr_model := Some (oe_model e)\<rparr>) = Inl f"
  shows "openai_infer C http e r = (True, Inl f)"
  using assms by (simp add: openai_infer_def)

end
