(* ===== verification/Files.thy ===== *)
theory Files
  imports StringUtil
begin

text \<open>
  The file system as \<open>std::filesystem\<close> and \<open>std::fstream\<close> show it to the program: paths are
  strings, files hold strings, and there are no symbolic links. A file system is a map from the
  components of absolute paths; the root is always a directory.
\<close>

section \<open>Paths\<close>

text \<open>\<open>a / b\<close> of \<open>std::filesystem::path\<close>.\<close>

definition path_join :: "string \<Rightarrow> string \<Rightarrow> string" where
  "path_join a b =
     (if prefix ''/'' b then b
      else if a \<noteq> [] \<and> List.last a \<noteq> CHR ''/'' then a @ ''/'' @ b else a @ b)"

text \<open>The place that a path leads to from the current directory: \<open>.\<close> and \<open>..\<close> are followed.\<close>

fun follow :: "string list \<Rightarrow> string list \<Rightarrow> string list" where
  "follow at [] = at"
| "follow at (c # cs) =
     (if c = [] \<or> c = ''.'' then follow at cs
      else if c = ''..'' then follow (butlast at) cs
      else follow (at @ [c]) cs)"

definition place :: "string \<Rightarrow> string \<Rightarrow> string list" where
  "place cwd p = follow [] (split_on ''/'' (path_join cwd p))"

definition filename :: "string \<Rightarrow> string" where
  "filename p = List.last (split_on ''/'' p)"

definition replace_filename :: "string \<Rightarrow> string \<Rightarrow> string" where
  "replace_filename p name = path_join (take (length p - length (filename p)) p) name"

section \<open>Files and directories\<close>

datatype node = File string | Dir

type_synonym files = "(string list \<times> node) list"

definition node_at :: "string list \<Rightarrow> files \<Rightarrow> node option" where
  "node_at at fs = (if at = [] then Some Dir else map_of fs at)"

text \<open>A path that ends with a slash only leads to directories.\<close>

definition node_of :: "string \<Rightarrow> string \<Rightarrow> files \<Rightarrow> node option" where
  "node_of cwd p fs =
     (case node_at (place cwd p) fs of
        Some (File s) \<Rightarrow> if p \<noteq> [] \<and> List.last p = CHR ''/'' then None else Some (File s)
      | r \<Rightarrow> r)"

definition file_exists :: "string \<Rightarrow> string \<Rightarrow> files \<Rightarrow> bool" where
  "file_exists cwd p fs \<longleftrightarrow> node_of cwd p fs \<noteq> None"

text \<open>Opening for reading; a directory can be opened and has nothing to read.\<close>

definition open_in :: "string \<Rightarrow> string \<Rightarrow> files \<Rightarrow> string option" where
  "open_in cwd p fs =
     (case node_of cwd p fs of None \<Rightarrow> None | Some (File s) \<Rightarrow> Some s | Some Dir \<Rightarrow> Some [])"

text \<open>Writing a file needs its directory.\<close>

definition write_file :: "string \<Rightarrow> string \<Rightarrow> string \<Rightarrow> files \<Rightarrow> files option" where
  "write_file cwd p s fs =
     (let at = place cwd p in
      if at = [] \<or> (p \<noteq> [] \<and> List.last p = CHR ''/'') \<or> node_at at fs = Some Dir \<or> node_at (butlast at) fs \<noteq> Some Dir
      then None else Some (put at (File s) fs))"

fun make_dirs :: "string list \<Rightarrow> string list \<Rightarrow> files \<Rightarrow> files option" where
  "make_dirs at [] fs = Some fs"
| "make_dirs at (c # cs) fs =
     (case node_at (at @ [c]) fs of
        Some (File s) \<Rightarrow> None
      | Some Dir \<Rightarrow> make_dirs (at @ [c]) cs fs
      | None \<Rightarrow> make_dirs (at @ [c]) cs (put (at @ [c]) Dir fs))"

definition create_directories :: "string \<Rightarrow> string \<Rightarrow> files \<Rightarrow> files option" where
  "create_directories cwd p fs = make_dirs [] (place cwd p) fs"

text \<open>The names in a directory, in order; the program's results do not depend on the order.\<close>

definition dir_names :: "string list \<Rightarrow> files \<Rightarrow> string list" where
  "dir_names at fs = map (\<lambda>e. List.last (fst e)) (filter (\<lambda>e. fst e \<noteq> [] \<and> butlast (fst e) = at) fs)"

definition remove_all :: "string list \<Rightarrow> files \<Rightarrow> files" where
  "remove_all at fs = filter (\<lambda>e. \<not> prefix at (fst e)) fs"

section \<open>Facts\<close>

lemma node_at_put: "node_at at (put at' n fs) = (if at = at' \<and> at \<noteq> [] then Some n else node_at at fs)"
  by (simp add: node_at_def)

lemma write_file_node:
  assumes "write_file cwd p s fs = Some fs'"
  shows "node_at at fs' = (if at = place cwd p then Some (File s) else node_at at fs)"
    and "node_of cwd p fs' = Some (File s)"
proof -
  have *: "place cwd p \<noteq> []" "fs' = put (place cwd p) (File s) fs" "\<not> (p \<noteq> [] \<and> List.last p = CHR ''/'')"
    using assms by (auto simp: write_file_def Let_def split: if_splits)
  then show "node_at at fs' = (if at = place cwd p then Some (File s) else node_at at fs)"
    by (simp add: node_at_put)
  from * show "node_of cwd p fs' = Some (File s)" by (auto simp: node_of_def node_at_put)
qed

text \<open>Making directories keeps what is there.\<close>

lemma make_dirs_keeps:
  assumes "make_dirs at cs fs = Some fs'"
  shows "node_at q fs \<noteq> None \<Longrightarrow> node_at q fs' = node_at q fs"
    and "node_at at fs = Some Dir \<Longrightarrow> k \<le> length cs \<Longrightarrow> node_at (at @ take k cs) fs' = Some Dir"
    and "node_at q fs = None \<Longrightarrow> node_at q fs' = None \<or> node_at q fs' = Some Dir"
proof -
  have keep: "node_at q fs \<noteq> None \<Longrightarrow> node_at q fs' = node_at q fs"
    if "make_dirs at cs fs = Some fs'" for at cs fs fs' q
    using that
  proof (induction at cs fs rule: make_dirs.induct)
    case (2 at c cs fs)
    then show ?case by (auto simp: node_at_put split: option.splits node.splits if_splits)
  qed simp
  show "node_at q fs \<noteq> None \<Longrightarrow> node_at q fs' = node_at q fs" using keep [OF assms] .
  show "node_at at fs = Some Dir \<Longrightarrow> k \<le> length cs \<Longrightarrow> node_at (at @ take k cs) fs' = Some Dir"
    using assms
  proof (induction at cs fs arbitrary: k rule: make_dirs.induct)
    case (2 at c cs fs)
    show ?case
    proof (cases k)
      case 0
      with keep [OF "2.prems"(3), of at] "2.prems"(1) show ?thesis by simp
    next
      case (Suc j)
      with 2 show ?thesis by (auto simp: node_at_put split: option.splits node.splits)
    qed
  qed simp
  show "node_at q fs = None \<Longrightarrow> node_at q fs' = None \<or> node_at q fs' = Some Dir"
    using assms
  proof (induction at cs fs rule: make_dirs.induct)
    case (2 at c cs fs)
    show ?case
    proof (cases "node_at (at @ [c]) fs")
      case None
      with 2 keep [of "at @ [c]" cs "put (at @ [c]) Dir fs" fs' q] show ?thesis
        by (cases "q = at @ [c]") (auto simp: node_at_put)
    next
      case (Some n)
      with 2 show ?thesis by (cases n) auto
    qed
  qed simp
qed

lemma node_at_remove_all: "at \<noteq> [] \<Longrightarrow> node_at at (remove_all p fs) = (if prefix p at then None else node_at at fs)"
  by (induction fs) (auto simp: remove_all_def node_at_def)

end
