(* ===== verification/ModelCache.thy ===== *)
theory ModelCache
  imports Files Modules JsonAccess Exceptions
begin

text \<open>
  The cache of downloaded models (\<open>vm/src/mlc_llm/model_cache.hpp\<close>,
  \<open>vm/src/mlc_llm/model_cache.cpp\<close>): where a model is kept, which of its files are missing,
  downloading them, listing what is there and removing it. The record \<open>host\<close> is the machine, \<open>net\<close>
  the HTTP client; the printing of progress is left out. \<open>h_json_read\<close> reads a JSON document from a
  file, or says what is wrong with it.
\<close>

record host =
  h_env :: "string \<Rightarrow> string option"
  h_cwd :: string
  h_uname :: "(string \<times> string) option"
  h_sha1 :: "string \<Rightarrow> byte list"
  h_json_read :: "string \<Rightarrow> string + json"

text \<open>
  A transfer hands over chunks as long as they are taken, and ends with an error or a status;
  \<open>t_interrupt\<close> is the number of chunks before a SIGINT, \<open>t_cancel\<close> the error of a transfer that
  was stopped.
\<close>

record transfer =
  t_chunks :: "string list"
  t_interrupt :: "nat option"
  t_end :: "string + u32"
  t_cancel :: string

record net =
  n_get :: "string \<Rightarrow> string \<Rightarrow> string + (u32 \<times> string)"
  n_stream :: "string \<Rightarrow> string \<Rightarrow> transfer"

record list_result =
  lr_type :: string
  lr_model_id :: string
  lr_attributes :: json
  lr_path :: string
  lr_bytes :: u64

record download_result =
  dr_success :: bool
  dr_path :: "string option"
  dr_lib :: "string option"
  dr_error :: "string option"

record remove_result =
  rr_success :: bool
  rr_skipped :: bool
  rr_path :: "string option"
  rr_error :: "string option"

section \<open>The machine\<close>

definition get_uname :: "host \<Rightarrow> (string \<times> string) res" where
  "get_uname H =
     (case h_uname H of None \<Rightarrow> Inl (Throw (runtime_error1 ''Failed to get system info'')) | Some u \<Rightarrow> Inr u)"

definition hex_digit :: "nat \<Rightarrow> char" where
  "hex_digit d = (if d < 10 then char_of (48 + d) else char_of (87 + d))"

definition hex_string :: "byte list \<Rightarrow> string" where
  "hex_string bs = concat (map (\<lambda>b. [hex_digit (unat b div 16), hex_digit (unat b mod 16)]) bs)"

definition sha1_checksum :: "host \<Rightarrow> string \<Rightarrow> files \<Rightarrow> string res" where
  "sha1_checksum H p fs =
     (case open_in (h_cwd H) p fs of
        None \<Rightarrow> Inl (LibThrow (''Cannot open file: '' @ p))
      | Some s \<Rightarrow> Inr (hex_string (h_sha1 H s)))"

definition get_cache_root :: "host \<Rightarrow> files \<Rightarrow> (files \<times> string) res" where
  "get_cache_root H fs =
     (let root = (case h_env H ''AILOY_CACHE_ROOT'' of
                    Some r \<Rightarrow> r
                  | None \<Rightarrow>
                      (case h_env H ''HOME'' of
                         Some h \<Rightarrow> path_join (path_join h ''.cache'') ''ailoy''
                       | None \<Rightarrow> []))
      in if root = [] then Inl (Throw ''Cannot get cache root'')
         else (case create_directories (h_cwd H) root fs of
                 None \<Rightarrow> Inl (Throw ''cache root directory creation failed'')
               | Some fs' \<Rightarrow> Inr (fs', root)))"

definition get_models_url :: "host \<Rightarrow> string" where
  "get_models_url H =
     (case h_env H ''AILOY_MODELS_URL'' of Some u \<Rightarrow> u | None \<Rightarrow> ''https://models.download.ailoy.co'')"

text \<open>The pattern \<open>^http(s)://\<close> only matches https.\<close>

definition strip_scheme :: "string \<Rightarrow> string" where
  "strip_scheme url = (if prefix ''https://'' url then drop 8 url else url)"

section \<open>Transfers\<close>

definition http_failure :: "string \<Rightarrow> string \<Rightarrow> string" where
  "http_failure remote why = ''Failed to download '' @ remote @ '': HTTP '' @ why"

text \<open>A result is the error message, if there is one. Writing is not checked here.\<close>

definition download_file ::
  "host \<Rightarrow> net \<Rightarrow> string \<Rightarrow> string \<Rightarrow> string \<Rightarrow> files \<Rightarrow> files \<times> string option" where
  "download_file H N server remote local fs =
     (case n_get N server (''/'' @ remote) of
        Inl err \<Rightarrow> (fs, Some (http_failure remote err))
      | Inr (status, body) \<Rightarrow>
          if status \<noteq> 200 then (fs, Some (http_failure remote (show_u64 (ucast status))))
          else (case write_file (h_cwd H) local body fs of None \<Rightarrow> (fs, None) | Some fs' \<Rightarrow> (fs', None)))"

datatype received = All_taken | Interrupted | Not_written

text \<open>The content receiver on the chunks, with what it has written so far.\<close>

fun receive :: "string \<Rightarrow> string \<Rightarrow> string list \<Rightarrow> nat option \<Rightarrow> string \<Rightarrow> files \<Rightarrow> files \<times> received" where
  "receive cwd local [] intr acc fs = (fs, All_taken)"
| "receive cwd local (c # cs) intr acc fs =
     (if intr = Some 0 then (fs, Interrupted)
      else (case write_file cwd local (acc @ c) fs of
              None \<Rightarrow> (fs, Not_written)
            | Some fs' \<Rightarrow> receive cwd local cs (map_option (\<lambda>k. k - 1) intr) (acc @ c) fs'))"

definition download_file_with_progress ::
  "host \<Rightarrow> net \<Rightarrow> string \<Rightarrow> string \<Rightarrow> string \<Rightarrow> files \<Rightarrow> files \<times> string option" where
  "download_file_with_progress H N server remote local fs =
     (let t = n_stream N server (''/'' @ remote);
          (fs', r) = receive (h_cwd H) local (t_chunks t) (t_interrupt t) [] fs;
          interrupted = ''Interrupted while downloading the model''
      in (fs',
          case r of
            Interrupted \<Rightarrow> Some interrupted
          | Not_written \<Rightarrow> Some (http_failure remote (t_cancel t))
          | All_taken \<Rightarrow>
              (case t_end t of
                 Inr status \<Rightarrow>
                   if status = 200 \<or> status = 206 then None
                   else if t_interrupt t \<noteq> None then Some interrupted
                   else Some (http_failure remote (show_u64 (ucast status)))
               | Inl err \<Rightarrow>
                   if t_interrupt t \<noteq> None then Some interrupted else Some (http_failure remote err))))"

section \<open>Where a model is kept\<close>

definition escape_id :: "string \<Rightarrow> string" where
  "escape_id s = join ''--'' (split_on ''/'' s)"

definition unescape_id :: "string \<Rightarrow> string" where
  "unescape_id s = join ''/'' (split_on ''--'' s)"

definition get_model_base_path :: "string \<Rightarrow> string" where
  "get_model_base_path model_id = path_join ''tvm-models'' (escape_id model_id)"

section \<open>Downloading\<close>

text \<open>\<open>get<std::vector<std::pair<std::string, std::string>>>()\<close>.\<close>

definition json_pair :: "json \<Rightarrow> (string \<times> string) res" where
  "json_pair j =
     (case j of
        JArray [] \<Rightarrow> Inl (LibThrow ''json::out_of_range'')
      | JArray (a # bs) \<Rightarrow>
          bindR (json_string a) (\<lambda>x.
            case bs of [] \<Rightarrow> Inl (LibThrow ''json::out_of_range'')
            | b # _ \<Rightarrow> mapR_res (Pair x) (json_string b))
      | _ \<Rightarrow> Inl (LibThrow ''json::type_error''))"

text \<open>The files whose content is missing or has another checksum.\<close>

fun files_to_download :: "host \<Rightarrow> string \<Rightarrow> (string \<times> string) list \<Rightarrow> files \<Rightarrow> string list res" where
  "files_to_download H dir [] fs = Inr []"
| "files_to_download H dir ((file, sha1) # es) fs =
     (let p = path_join dir file in
      bindR (if file_exists (h_cwd H) p fs then mapR_res (\<lambda>c. sha1 \<noteq> c) (sha1_checksum H p fs) else Inr True)
        (\<lambda>missing. bindR (files_to_download H dir es fs) (\<lambda>rest.
          Inr (if missing then file # rest else rest))))"

fun download_files ::
  "host \<Rightarrow> net \<Rightarrow> string \<Rightarrow> string \<Rightarrow> string \<Rightarrow> string list \<Rightarrow> files \<Rightarrow> files \<times> string option" where
  "download_files H N server remote_dir dir [] fs = (fs, None)"
| "download_files H N server remote_dir dir (file # rest) fs =
     (case download_file_with_progress H N server (path_join remote_dir file) (path_join dir file) fs of
        (fs', Some err) \<Rightarrow> (fs', Some err)
      | (fs', None) \<Rightarrow> download_files H N server remote_dir dir rest fs')"

definition download_failed :: "string \<Rightarrow> download_result" where
  "download_failed err = \<lparr>dr_success = False, dr_path = None, dr_lib = None, dr_error = Some err\<rparr>"

text \<open>\<open>fs::remove\<close>, which does not remove a directory that is not empty.\<close>

definition remove_path :: "string \<Rightarrow> string \<Rightarrow> files \<Rightarrow> files res" where
  "remove_path cwd p fs =
     (let at = place cwd p in
      if dir_names at fs \<noteq> [] then Inl (LibThrow ''filesystem_error'') else Inr (del at fs))"

text \<open>What is done with the manifest once it is there.\<close>

definition use_manifest ::
  "host \<Rightarrow> net \<Rightarrow> string \<Rightarrow> string \<Rightarrow> string \<Rightarrow> string \<Rightarrow> files \<Rightarrow> (files \<times> download_result) res" where
  "use_manifest H N server remote_dir dir manifest_path fs =
     (case open_in (h_cwd H) manifest_path fs of
        None \<Rightarrow> Inr (fs, download_failed (''Failed to open manifest at '' @ manifest_path))
      | Some text \<Rightarrow>
          (case h_json_read H text of
             Inl what \<Rightarrow>
               mapR_res (\<lambda>fs'. (fs', download_failed (''Failed to parse manifest: '' @ what)))
                 (remove_path (h_cwd H) manifest_path fs)
           | Inr manifest \<Rightarrow>
               (case manifest of
                  JObject m \<Rightarrow>
                    (case map_of m ''files'' of
                       Some (JArray entries) \<Rightarrow>
                         bindR (mapR json_pair entries) (\<lambda>es.
                         bindR (files_to_download H dir es fs) (\<lambda>todo.
                         case download_files H N server remote_dir dir todo fs of
                           (fs', Some err) \<Rightarrow> Inr (fs', download_failed err)
                         | (fs', None) \<Rightarrow>
                             (case map_of m ''lib'' of
                                Some (JString lib) \<Rightarrow>
                                  Inr (fs', \<lparr>dr_success = True, dr_path = Some dir,
                                    dr_lib = Some (path_join dir lib), dr_error = None\<rparr>)
                              | _ \<Rightarrow> Inl (LibThrow ''json::type_error''))))
                     | _ \<Rightarrow> Inr (fs, download_failed (''Manifest is missing a valid '' @ CHR 0x27 # ''files'' @ CHR 0x27 # '' array'')))
                | _ \<Rightarrow> Inr (fs, download_failed (''Manifest is missing a valid '' @ CHR 0x27 # ''files'' @ CHR 0x27 # '' array'')))))"

definition manifest_name :: "string \<Rightarrow> string \<Rightarrow> string \<Rightarrow> string" where
  "manifest_name machine sysname device = ''manifest-'' @ machine @ ''-'' @ sysname @ ''-'' @ device @ ''.json''"

definition download_model ::
  "host \<Rightarrow> net \<Rightarrow> string \<Rightarrow> string \<Rightarrow> string \<Rightarrow> files \<Rightarrow> (files \<times> download_result) res" where
  "download_model H N model_id quantization device fs =
     (let server = strip_scheme (get_models_url H);
          remote_dir = path_join (get_model_base_path model_id) quantization
      in bindR (get_cache_root H fs) (\<lambda>(fs1, root).
         let dir = path_join (path_join root (get_model_base_path model_id)) quantization in
         case create_directories (h_cwd H) dir fs1 of
           None \<Rightarrow> Inl (LibThrow ''filesystem_error'')
         | Some fs2 \<Rightarrow>
             bindR (get_uname H) (\<lambda>(machine, sysname).
               let name = manifest_name machine sysname device; manifest_path = path_join dir name;
                   (fs3, err) = (if file_exists (h_cwd H) manifest_path fs2 then (fs2, None)
                                 else download_file H N server (path_join remote_dir name) manifest_path fs2)
               in case err of
                    Some e \<Rightarrow> Inr (fs3, download_failed e)
                  | None \<Rightarrow> use_manifest H N server remote_dir dir manifest_path fs3)))"

section \<open>Listing\<close>

text \<open>The size of the files of a manifest, as far as they are there.\<close>

fun total_bytes :: "host \<Rightarrow> string \<Rightarrow> json list \<Rightarrow> files \<Rightarrow> u64 res" where
  "total_bytes H dir [] fs = Inr 0"
| "total_bytes H dir (e # es) fs =
     bindR (case e of
              JArray (a # _) \<Rightarrow>
                (case a of
                   JString f \<Rightarrow>
                     Inr (case node_of (h_cwd H) (path_join dir f) fs of
                            Some (File s) \<Rightarrow> word_of_nat (length s) | _ \<Rightarrow> 0)
                 | _ \<Rightarrow> Inl (LibThrow ''json::type_error''))
            | _ \<Rightarrow> Inr 0) (\<lambda>n. mapR_res (\<lambda>rest. n + rest) (total_bytes H dir es fs))"

definition manifest_device :: "string \<Rightarrow> string option" where
  "manifest_device name =
     (if starts_with name ''manifest-'' \<and> suffix ''.json'' name
      then (let parts = split_on ''-'' (drop 9 (take (length name - 5) name)) in
            if length parts = 3 then Some (parts ! 2) else None)
      else None)"

definition list_file ::
  "host \<Rightarrow> string \<Rightarrow> string \<Rightarrow> string \<Rightarrow> files \<Rightarrow> string \<Rightarrow> list_result list res" where
  "list_file H model_id quantization quant_dir fs name =
     (case node_of (h_cwd H) (path_join quant_dir name) fs of
        Some (File text) \<Rightarrow>
          (case manifest_device name of
             None \<Rightarrow> Inr []
           | Some device \<Rightarrow>
               (case h_json_read H text of
                  Inl what \<Rightarrow> Inr []
                | Inr manifest \<Rightarrow>
                    bindR (case manifest of
                             JObject m \<Rightarrow>
                               (case map_of m ''files'' of
                                  Some (JArray es) \<Rightarrow> total_bytes H quant_dir es fs | _ \<Rightarrow> Inr 0)
                           | _ \<Rightarrow> Inr 0) (\<lambda>n.
                      Inr [\<lparr>lr_type = ''tvm'', lr_model_id = model_id,
                            lr_attributes = JObject [(''device'', JString device),
                              (''quantization'', JString quantization)],
                            lr_path = quant_dir, lr_bytes = n\<rparr>])))
      | _ \<Rightarrow> Inr [])"

definition list_quantization ::
  "host \<Rightarrow> string \<Rightarrow> string \<Rightarrow> files \<Rightarrow> string \<Rightarrow> list_result list res" where
  "list_quantization H model_id model_dir fs q =
     (let d = path_join (h_cwd H) (path_join model_dir q) in
      if node_of (h_cwd H) d fs = Some Dir
      then mapR_res concat (mapR (list_file H model_id q d fs) (dir_names (place (h_cwd H) d) fs))
      else Inr [])"

definition list_model :: "host \<Rightarrow> string \<Rightarrow> files \<Rightarrow> string \<Rightarrow> list_result list res" where
  "list_model H models_dir fs name =
     (let d = path_join models_dir name in
      if node_of (h_cwd H) d fs = Some Dir
      then mapR_res concat (mapR (list_quantization H (unescape_id name) d fs) (dir_names (place (h_cwd H) d) fs))
      else Inr [])"

definition list_local_models :: "host \<Rightarrow> files \<Rightarrow> (files \<times> list_result list) res" where
  "list_local_models H fs =
     bindR (get_cache_root H fs) (\<lambda>(fs1, root).
       let d = path_join root ''tvm-models'' in
       if file_exists (h_cwd H) d fs1
       then (if node_of (h_cwd H) d fs1 = Some Dir
             then mapR_res (\<lambda>rs. (fs1, concat rs)) (mapR (list_model H d fs1) (dir_names (place (h_cwd H) d) fs1))
             else Inl (LibThrow ''filesystem_error''))
       else Inr (fs1, []))"

section \<open>Removing\<close>

definition lower :: "char \<Rightarrow> char" where
  "lower c = (let n = (of_char c :: nat) in if 65 \<le> n \<and> n \<le> 90 then char_of (n + 32) else c)"

text \<open>The question is asked until the answer is y or n, or the input ends.\<close>

fun ask :: "string list \<Rightarrow> string \<Rightarrow> string" where
  "ask [] answer = answer"
| "ask (a # as) answer = (let l = map lower a in if l = ''y'' \<or> l = ''n'' then l else ask as l)"

definition remove_model ::
  "host \<Rightarrow> string \<Rightarrow> bool \<Rightarrow> string list \<Rightarrow> files \<Rightarrow> (files \<times> remove_result) res" where
  "remove_model H model_id ask_prompt answers fs =
     bindR (get_cache_root H fs) (\<lambda>(fs1, root).
       let p = path_join root (get_model_base_path model_id) in
       if \<not> file_exists (h_cwd H) p fs1 then
         Inr (fs1, \<lparr>rr_success = False, rr_skipped = False, rr_path = None,
           rr_error = Some (''The model id \"'' @ model_id @ ''\" does not exist in local cache'')\<rparr>)
       else if ask_prompt \<and> ask answers [] \<noteq> ''y'' then
         Inr (fs1, \<lparr>rr_success = True, rr_skipped = True, rr_path = Some p, rr_error = None\<rparr>)
       else Inr (remove_all (place (h_cwd H) p) fs1,
                 \<lparr>rr_success = True, rr_skipped = False, rr_path = Some p, rr_error = None\<rparr>))"

section \<open>The operators\<close>

definition list_result_val :: "list_result \<Rightarrow> val res" where
  "list_result_val r =
     bindR (from_json (lr_attributes r)) (\<lambda>a.
       Inr (Map_t (put ''total_bytes'' (Uint_t (lr_bytes r)) (put ''model_path'' (String_t (lr_path r))
         (put ''attributes'' a (put ''model_id'' (String_t (lr_model_id r))
         (put ''type'' (String_t (lr_type r)) [])))))))"

definition list_local_models_op :: "host \<Rightarrow> val option \<Rightarrow> files \<Rightarrow> (files \<times> value_or_error) res" where
  "list_local_models_op H inputs fs =
     bindR (list_local_models H fs) (\<lambda>(fs', models).
     bindR (mapR list_result_val models) (\<lambda>vs.
       Inr (fs', Got (Some (Map_t [(''results'', Array_t vs)])))))"

definition required_text :: "string \<Rightarrow> string \<Rightarrow> (string \<times> val) list \<Rightarrow> string or_error" where
  "required_text ctx key m =
     (case map_of m key of
        None \<Rightarrow> Failed (range_error2 ctx key)
      | Some v \<Rightarrow>
          (case v of String_t s \<Rightarrow> Got s
           | _ \<Rightarrow> Failed (type_error4 ctx key ''string_t'' (get_type v))))"

definition parse_download :: "val \<Rightarrow> (string \<times> string \<times> string) or_error" where
  "parse_download v =
     (case v of
        Map_t m \<Rightarrow>
          (case required_text ''download_model'' ''model_id'' m of
             Failed e \<Rightarrow> Failed e
           | Got i \<Rightarrow>
               (case required_text ''download_model'' ''quantization'' m of
                  Failed e \<Rightarrow> Failed e
                | Got q \<Rightarrow>
                    (case required_text ''download_model'' ''device'' m of
                       Failed e \<Rightarrow> Failed e | Got d \<Rightarrow> Got (i, q, d))))
      | _ \<Rightarrow> Failed (type_error4 ''download_model'' ''inputs'' ''map_t'' (get_type v)))"

text \<open>A missing member of a result is \<open>std::optional::value\<close> on nothing.\<close>

definition opt_value :: "'a option \<Rightarrow> 'a res" where
  "opt_value x = (case x of None \<Rightarrow> Inl (LibThrow ''bad_optional_access'') | Some a \<Rightarrow> Inr a)"

definition download_model_op ::
  "host \<Rightarrow> net \<Rightarrow> val option \<Rightarrow> files \<Rightarrow> (files \<times> value_or_error) res" where
  "download_model_op H N inputs fs = bindR (deref inputs) (\<lambda>v.
     case parse_download v of
       Failed e \<Rightarrow> Inr (fs, Failed e)
     | Got (i, q, d) \<Rightarrow>
         bindR (download_model H N i q d fs) (\<lambda>(fs', r).
           if \<not> dr_success r then mapR_res (\<lambda>e. (fs', Failed e)) (opt_value (dr_error r))
           else mapR_res (\<lambda>p. (fs', Got (Some (Map_t [(''model_path'', String_t p)])))) (opt_value (dr_path r))))"

text \<open>The messages of \<open>remove_model\<close> name the other operator.\<close>

definition remove_model_op ::
  "host \<Rightarrow> string list \<Rightarrow> val option \<Rightarrow> files \<Rightarrow> (files \<times> value_or_error) res" where
  "remove_model_op H answers inputs fs = bindR (deref inputs) (\<lambda>v.
     case v of
       Map_t m \<Rightarrow>
         (case required_text ''download_model'' ''model_id'' m of
            Failed e \<Rightarrow> Inr (fs, Failed e)
          | Got i \<Rightarrow>
              bindR (remove_model H i True answers fs) (\<lambda>(fs', r).
                if \<not> rr_success r then mapR_res (\<lambda>e. (fs', Failed e)) (opt_value (rr_error r))
                else mapR_res (\<lambda>p. (fs', Got (Some (Map_t (put ''skipped'' (Bool_t (rr_skipped r))
                       (put ''model_path'' (String_t p) [])))))) (opt_value (rr_path r))))
     | _ \<Rightarrow> Inr (fs, Failed (type_error4 ''remove_model'' ''inputs'' ''map_t'' (get_type v))))"

end
