(* ===== verification/CacheProperties.thy ===== *)
theory CacheProperties
  imports ModelCache
begin

text \<open>
  Properties of the model cache: what a download leaves behind, the names of the directories,
  and what removing removes.
\<close>

section \<open>Splitting at a character\<close>

lemma find_sub_char: "find_sub [c] (x # s) = (if x = c then Some 0 else map_option Suc (find_sub [c] s))"
  by simp

lemma split_on_char_Nil: "split_on [c] [] = [[]]"
  by (simp add: split_on.simps)

lemma split_on_char_Cons:
  "split_on [c] (x # s) =
     (if x = c then [] # split_on [c] s else (x # hd (split_on [c] s)) # tl (split_on [c] s))"
  by (subst (1 2 3 4) split_on.simps) (auto split: option.split)

lemma split_on_char_append: "split_on [c] (a @ c # b) = split_on [c] a @ split_on [c] b"
  by (induction a) (simp_all add: split_on_char_Nil split_on_char_Cons)

lemma follow_append: "follow at (xs @ ys) = follow (follow at xs) ys"
  by (induction at xs rule: follow.induct) simp_all

lemma place_slash:
  assumes "p \<noteq> []" shows "place cwd (p @ ''/'') = place cwd p"
proof -
  have "path_join cwd (p @ ''/'') = path_join cwd p @ ''/''"
    using assms by (cases p) (auto simp: path_join_def)
  then show ?thesis
    using split_on_char_append [of "CHR ''/''" "path_join cwd p" "[]"]
    by (simp add: place_def follow_append split_on_char_Nil)
qed

section \<open>Writing\<close>

text \<open>Nodes outside a place are untouched and directories stay.\<close>

definition only_at :: "string list set \<Rightarrow> files \<Rightarrow> files \<Rightarrow> bool" where
  "only_at P fs fs' \<longleftrightarrow>
     (\<forall>at. at \<notin> P \<longrightarrow> node_at at fs' = node_at at fs) \<and>
     (\<forall>at. node_at at fs = Some Dir \<longrightarrow> node_at at fs' = Some Dir)"

lemma only_at_refl [simp]: "only_at P fs fs"
  by (simp add: only_at_def)

lemma only_at_trans: "only_at P fs fs1 \<Longrightarrow> only_at Q fs1 fs2 \<Longrightarrow> only_at (P \<union> Q) fs fs2"
  by (simp add: only_at_def)

lemma only_at_mono: "only_at P fs fs' \<Longrightarrow> P \<subseteq> Q \<Longrightarrow> only_at Q fs fs'"
  by (auto simp: only_at_def)

lemma write_file_only: "write_file cwd p s fs = Some fs' \<Longrightarrow> only_at {place cwd p} fs fs'"
  using write_file_node(1) [of cwd p s fs fs']
  by (auto simp: only_at_def write_file_def Let_def split: if_splits)

lemma receive_only: "only_at {place cwd p} fs (fst (receive cwd p cs intr acc fs))"
proof (induction cwd p cs intr acc fs rule: receive.induct)
  case (2 cwd p c cs intr acc fs)
  show ?case
  proof (cases "intr = Some 0 \<or> write_file cwd p (acc @ c) fs = None")
    case True
    then show ?thesis by auto
  next
    case False
    then obtain fs1 where w: "write_file cwd p (acc @ c) fs = Some fs1" by blast
    let ?r = "receive cwd p cs (map_option (\<lambda>k. k - 1) intr) (acc @ c) fs1"
    have "only_at {place cwd p} fs1 (fst ?r)" using "2.IH" False w by blast
    with write_file_only [OF w] have "only_at ({place cwd p} \<union> {place cwd p}) fs (fst ?r)"
      by (rule only_at_trans)
    with False w show ?thesis by simp
  qed
qed simp

lemma receive_all:
  "receive cwd p cs intr acc fs = (fs', All_taken) \<Longrightarrow> cs \<noteq> [] \<Longrightarrow>
     node_of cwd p fs' = Some (File (acc @ concat cs))"
proof (induction cwd p cs intr acc fs rule: receive.induct)
  case (2 cwd p c cs intr acc fs)
  then obtain fs1 where w: "write_file cwd p (acc @ c) fs = Some fs1"
    "receive cwd p cs (map_option (\<lambda>k. k - 1) intr) (acc @ c) fs1 = (fs', All_taken)" "intr \<noteq> Some 0"
    by (auto split: if_splits option.splits)
  show ?case
  proof (cases cs)
    case Nil
    with w write_file_node(2) [OF w(1)] show ?thesis by simp
  next
    case (Cons a as)
    with 2 w show ?thesis by auto
  qed
qed simp

lemma progress_only: "only_at {place (h_cwd H) p} fs (fst (download_file_with_progress H N server r p fs))"
  using receive_only [of "h_cwd H" p fs]
  by (auto simp: download_file_with_progress_def Let_def split: prod.splits) (metis fst_conv)

lemma progress_content:
  assumes "download_file_with_progress H N server r p fs = (fs', None)"
    and "t_chunks (n_stream N server (''/'' @ r)) \<noteq> []"
  shows "node_of (h_cwd H) p fs' = Some (File (concat (t_chunks (n_stream N server (''/'' @ r)))))"
proof -
  let ?t = "n_stream N server (''/'' @ r)"
  obtain out where "receive (h_cwd H) p (t_chunks ?t) (t_interrupt ?t) [] fs = (fs', out)" "out = All_taken"
    using assms(1) by (auto simp: download_file_with_progress_def Let_def split: prod.splits received.splits)
  with receive_all [OF _ assms(2)] show ?thesis by fastforce
qed

lemma node_of_cong:
  "node_at (place cwd p) fs' = node_at (place cwd p) fs \<Longrightarrow> node_of cwd p fs' = node_of cwd p fs"
  by (simp add: node_of_def)

lemma download_files_only:
  "only_at ((\<lambda>f. place (h_cwd H) (path_join dir f)) ` set todo) fs (fst (download_files H N server rd dir todo fs))"
proof (induction todo arbitrary: fs)
  case (Cons f todo)
  obtain fs1 err where r: "download_file_with_progress H N server (path_join rd f) (path_join dir f) fs = (fs1, err)"
    by fastforce
  have one: "only_at {place (h_cwd H) (path_join dir f)} fs fs1"
    using progress_only [of H "path_join dir f" fs N server "path_join rd f"] r by simp
  show ?case
  proof (cases err)
    case None
    from only_at_trans [OF one Cons.IH [of fs1]] None r show ?thesis by simp
  next
    case (Some e)
    with r only_at_mono [OF one] show ?thesis by simp
  qed
qed simp

lemma download_files_content:
  assumes "download_files H N server rd dir todo fs = (fs', None)"
    and "distinct (map (\<lambda>f. place (h_cwd H) (path_join dir f)) todo)"
    and "\<forall>f \<in> set todo. t_chunks (n_stream N server (''/'' @ path_join rd f)) \<noteq> []"
    and "f \<in> set todo"
  shows "node_of (h_cwd H) (path_join dir f) fs' =
    Some (File (concat (t_chunks (n_stream N server (''/'' @ path_join rd f)))))"
  using assms
proof (induction todo arbitrary: fs)
  case (Cons g todo)
  obtain fs1 where r: "download_file_with_progress H N server (path_join rd g) (path_join dir g) fs = (fs1, None)"
    "download_files H N server rd dir todo fs1 = (fs', None)"
    using Cons.prems(1) by (auto split: prod.splits option.splits)
  show ?case
  proof (cases "f \<in> set todo")
    case True
    with Cons r show ?thesis by simp
  next
    case False
    with Cons.prems(4) have f: "f = g" by simp
    have "place (h_cwd H) (path_join dir g) \<notin> (\<lambda>f. place (h_cwd H) (path_join dir f)) ` set todo"
      using Cons.prems(2) by simp
    then have "node_of (h_cwd H) (path_join dir g) fs' = node_of (h_cwd H) (path_join dir g) fs1"
      using download_files_only [of H dir todo fs1 N server rd] r(2) by (intro node_of_cong) (simp add: only_at_def)
    with progress_content [OF r(1)] Cons.prems(3) f show ?thesis by simp
  qed
qed simp

section \<open>What is missing\<close>

definition file_good :: "host \<Rightarrow> string \<Rightarrow> string \<times> string \<Rightarrow> files \<Rightarrow> bool" where
  "file_good H dir e fs \<longleftrightarrow>
     file_exists (h_cwd H) (path_join dir (fst e)) fs \<and> sha1_checksum H (path_join dir (fst e)) fs = Inr (snd e)"

lemma nothing_missing: "\<forall>e \<in> set es. file_good H dir e fs \<Longrightarrow> files_to_download H dir es fs = Inr []"
  by (induction es) (auto simp: file_good_def Let_def)

lemma files_to_download_result:
  assumes "files_to_download H dir es fs = Inr todo"
  shows "set todo \<subseteq> fst ` set es \<and> (\<forall>e \<in> set es. fst e \<in> set todo \<or> file_good H dir e fs) \<and>
    (distinct (map (\<lambda>e. g (fst e)) es) \<longrightarrow> distinct (map g todo))"
  using assms
proof (induction H dir es fs arbitrary: todo rule: files_to_download.induct)
  case (2 H dir nm sha1 es fs)
  let ?p = "path_join dir nm"
  obtain missing rest where r:
    "(if file_exists (h_cwd H) ?p fs then mapR_res (\<lambda>c. sha1 \<noteq> c) (sha1_checksum H ?p fs) else Inr True) = Inr missing"
    "files_to_download H dir es fs = Inr rest" "todo = (if missing then nm # rest else rest)"
    using 2(2) by (auto simp: Let_def bindR_eq_Inr)
  have good: "\<not> missing \<Longrightarrow> file_good H dir (nm, sha1) fs"
    using r(1) by (cases "sha1_checksum H ?p fs") (auto simp: file_good_def split: if_splits)
  have "set rest \<subseteq> fst ` set es" "\<forall>e \<in> set es. fst e \<in> set rest \<or> file_good H dir e fs"
    "distinct (map (\<lambda>e. g (fst e)) es) \<longrightarrow> distinct (map g rest)"
    using "2.IH" [OF refl r(1)] r(2) by blast+
  then show ?case using good by (auto simp: r(3))
qed simp

lemma file_good_cong:
  "node_at (place (h_cwd H) (path_join dir (fst e))) fs' = node_at (place (h_cwd H) (path_join dir (fst e))) fs \<Longrightarrow>
     file_good H dir e fs' \<longleftrightarrow> file_good H dir e fs"
  by (simp add: file_good_def file_exists_def sha1_checksum_def open_in_def node_of_cong [of _ _ fs' fs])

text \<open>What the server has for each file of a manifest matches its checksum.\<close>

definition delivers :: "host \<Rightarrow> net \<Rightarrow> string \<Rightarrow> string \<Rightarrow> (string \<times> string) list \<Rightarrow> bool" where
  "delivers H N server rd es \<longleftrightarrow>
     (\<forall>e \<in> set es. t_chunks (n_stream N server (''/'' @ path_join rd (fst e))) \<noteq> [] \<and>
        hex_string (h_sha1 H (concat (t_chunks (n_stream N server (''/'' @ path_join rd (fst e)))))) = snd e)"

lemma all_good_after:
  assumes "files_to_download H dir es fs = Inr todo" and "download_files H N server rd dir todo fs = (fs', None)"
    and "distinct (map (\<lambda>e. place (h_cwd H) (path_join dir (fst e))) es)" and "delivers H N server rd es"
    and "e \<in> set es"
  shows "file_good H dir e fs'"
proof -
  note todo = files_to_download_result [OF assms(1), where g = "\<lambda>f. place (h_cwd H) (path_join dir f)"]
  show ?thesis
  proof (cases "fst e \<in> set todo")
    case True
    have "\<forall>f \<in> set todo. t_chunks (n_stream N server (''/'' @ path_join rd f)) \<noteq> []"
      using todo assms(4) by (fastforce simp: delivers_def)
    then have "node_of (h_cwd H) (path_join dir (fst e)) fs' =
        Some (File (concat (t_chunks (n_stream N server (''/'' @ path_join rd (fst e))))))"
      using download_files_content [OF assms(2) _ _ True] todo assms(3) by blast
    with assms(4,5) show ?thesis
      by (auto simp: file_good_def file_exists_def sha1_checksum_def open_in_def delivers_def)
  next
    case False
    have "place (h_cwd H) (path_join dir (fst e)) \<notin> (\<lambda>f. place (h_cwd H) (path_join dir f)) ` set todo"
    proof
      assume "place (h_cwd H) (path_join dir (fst e)) \<in> (\<lambda>f. place (h_cwd H) (path_join dir f)) ` set todo"
      then obtain f where "f \<in> set todo" "place (h_cwd H) (path_join dir (fst e)) = place (h_cwd H) (path_join dir f)"
        by blast
      moreover from this(1) todo obtain e' where "e' \<in> set es" "f = fst e'" by blast
      ultimately have "e' = e" "f = fst e" using assms(3,5) by (auto simp: distinct_map inj_on_def)
      with False \<open>f \<in> set todo\<close> show False by simp
    qed
    then have "file_good H dir e fs' \<longleftrightarrow> file_good H dir e fs"
      using download_files_only [of H dir todo fs N server rd] assms(2)
      by (intro file_good_cong) (simp add: only_at_def)
    with todo False assms(5) show ?thesis by blast
  qed
qed

section \<open>Downloading twice\<close>

lemma make_dirs_there:
  "\<forall>k \<le> length cs. node_at (at @ take k cs) fs = Some Dir \<Longrightarrow> make_dirs at cs fs = Some fs"
proof (induction cs arbitrary: at)
  case (Cons c cs)
  from Cons.prems have "node_at (at @ [c]) fs = Some Dir" by (drule_tac x = 1 in spec) simp
  moreover have "\<forall>k \<le> length cs. node_at ((at @ [c]) @ take k cs) fs = Some Dir"
    using Cons.prems by (metis Suc_le_mono append.assoc append_Cons append_Nil length_Cons take_Suc_Cons)
  ultimately show ?case using Cons.IH [of "at @ [c]"] by simp
qed simp

lemma make_dirs_again:
  assumes "make_dirs [] cs fs = Some fs1" and "\<And>at. node_at at fs1 = Some Dir \<Longrightarrow> node_at at fs' = Some Dir"
  shows "make_dirs [] cs fs' = Some fs'"
proof (rule make_dirs_there)
  show "\<forall>k \<le> length cs. node_at ([] @ take k cs) fs' = Some Dir"
    using make_dirs_keeps(2) [OF assms(1), of _] assms(2) by (auto simp: node_at_def [of "[]"])
qed

lemma make_dirs_dirs:
  assumes "make_dirs [] cs fs = Some fs1" shows "node_at at fs = Some Dir \<Longrightarrow> node_at at fs1 = Some Dir"
  using make_dirs_keeps(1) [OF assms, of at] by simp

lemma use_manifest_success:
  assumes "use_manifest H N server rd dir mp fs = Inr (fs', r)" and "dr_success r"
  shows "\<exists>text m entries es todo lib. open_in (h_cwd H) mp fs = Some text \<and>
    h_json_read H text = Inr (JObject m) \<and> map_of m ''files'' = Some (JArray entries) \<and>
    mapR json_pair entries = Inr es \<and> files_to_download H dir es fs = Inr todo \<and>
    download_files H N server rd dir todo fs = (fs', None) \<and> map_of m ''lib'' = Some (JString lib) \<and>
    r = \<lparr>dr_success = True, dr_path = Some dir, dr_lib = Some (path_join dir lib), dr_error = None\<rparr>"
proof -
  note run = assms(1) [unfolded use_manifest_def]
  obtain cont where 1: "open_in (h_cwd H) mp fs = Some cont"
    using run assms(2) by (cases "open_in (h_cwd H) mp fs") (auto simp: download_failed_def)
  obtain manifest where 2: "h_json_read H cont = Inr manifest"
    using run assms(2) 1 by (cases "h_json_read H cont") (auto simp: download_failed_def mapR_res_def bindR_eq_Inr)
  obtain m where 3: "manifest = JObject m"
    using run assms(2) 1 2 by (cases manifest) (auto simp: download_failed_def)
  obtain j where 4: "map_of m ''files'' = Some j"
    using run assms(2) 1 2 3 by (cases "map_of m ''files''") (auto simp: download_failed_def)
  obtain entries where 5: "j = JArray entries"
    using run assms(2) 1 2 3 4 by (cases j) (auto simp: download_failed_def)
  obtain es todo where 6: "mapR json_pair entries = Inr es" "files_to_download H dir es fs = Inr todo"
    using run 1 2 3 4 5 by (auto simp: bindR_eq_Inr)
  obtain fs1 err where 7: "download_files H N server rd dir todo fs = (fs1, err)" by fastforce
  with run assms(2) 1 2 3 4 5 6 have 8: "err = None" by (cases err) (auto simp: download_failed_def)
  obtain l where 9: "map_of m ''lib'' = Some l"
    using run 1 2 3 4 5 6 7 8 by (cases "map_of m ''lib''") auto
  then obtain lib where 10: "l = JString lib" using run 1 2 3 4 5 6 7 8 by (cases l) auto
  from run 1 2 3 4 5 6 7 8 9 10 show ?thesis by auto
qed

lemma download_file_only: "only_at {place (h_cwd H) p} fs (fst (download_file H N server r p fs))"
  using write_file_only [of "h_cwd H" p] by (auto simp: download_file_def split: sum.splits option.splits)

lemma download_success:
  assumes "download_model H N i q d fs = Inr (fs', r)" and "dr_success r" and "h_uname H = Some (machine, sysname)"
  shows "\<exists>fs1 root fs2 fs3 dir. get_cache_root H fs = Inr (fs1, root) \<and>
    dir = path_join (path_join root (get_model_base_path i)) q \<and>
    create_directories (h_cwd H) dir fs1 = Some fs2 \<and>
    (if file_exists (h_cwd H) (path_join dir (manifest_name machine sysname d)) fs2 then (fs2, None)
     else download_file H N (strip_scheme (get_models_url H))
       (path_join (path_join (get_model_base_path i) q) (manifest_name machine sysname d))
       (path_join dir (manifest_name machine sysname d)) fs2) = (fs3, None) \<and>
    use_manifest H N (strip_scheme (get_models_url H)) (path_join (get_model_base_path i) q) dir
      (path_join dir (manifest_name machine sysname d)) fs3 = Inr (fs', r)"
proof -
  obtain fs1 root where root: "get_cache_root H fs = Inr (fs1, root)"
    using assms(1) by (auto simp: download_model_def bindR_eq_Inr Let_def)
  let ?dir = "path_join (path_join root (get_model_base_path i)) q"
  let ?name = "manifest_name machine sysname d"
  obtain fs2 where made: "create_directories (h_cwd H) ?dir fs1 = Some fs2"
    using assms(1) root by (cases "create_directories (h_cwd H) ?dir fs1") (auto simp: download_model_def Let_def)
  let ?got = "if file_exists (h_cwd H) (path_join ?dir ?name) fs2 then (fs2, None)
     else download_file H N (strip_scheme (get_models_url H))
       (path_join (path_join (get_model_base_path i) q) ?name) (path_join ?dir ?name) fs2"
  obtain fs3 err where got: "?got = (fs3, err)" by fastforce
  have run: "(case err of Some e \<Rightarrow> Inr (fs3, download_failed e)
     | None \<Rightarrow> use_manifest H N (strip_scheme (get_models_url H)) (path_join (get_model_base_path i) q) ?dir
         (path_join ?dir ?name) fs3) = Inr (fs', r)"
    using assms(1) root made got by (simp add: download_model_def get_uname_def assms(3) Let_def)
  with assms(2) have "err = None" by (cases err) (auto simp: download_failed_def)
  with run got root made show ?thesis by (intro exI conjI) (assumption | simp)+
qed

lemma get_cache_root_cases:
  assumes "get_cache_root H fs = Inr (fs1, root)"
  shows "create_directories (h_cwd H) root fs = Some fs1 \<and>
    (\<forall>fs'. create_directories (h_cwd H) root fs' = Some fs' \<longrightarrow> get_cache_root H fs' = Inr (fs', root))"
  using assms by (auto simp: get_cache_root_def Let_def split: option.splits if_splits)

text \<open>The manifest that a download uses: the one that is there, or else the one of the server.\<close>

definition the_manifest :: "host \<Rightarrow> net \<Rightarrow> string \<Rightarrow> string \<Rightarrow> string \<Rightarrow> files \<Rightarrow> string option" where
  "the_manifest H N server remote mp fs =
     (case node_of (h_cwd H) mp fs of
        Some (File t) \<Rightarrow> Some t
      | Some Dir \<Rightarrow> None
      | None \<Rightarrow>
          (case n_get N server (''/'' @ remote) of
             Inr (status, t) \<Rightarrow> if status = 200 then Some t else None
           | Inl err \<Rightarrow> None))"

lemma manifest_opened:
  assumes "the_manifest H N server remote mp fs = Some t"
    and "create_directories (h_cwd H) root fs = Some fs1" and "create_directories (h_cwd H) dir fs1 = Some fs2"
    and "(if file_exists (h_cwd H) mp fs2 then (fs2, None) else download_file H N server remote mp fs2) = (fs3, None)"
    and "node_of (h_cwd H) mp fs3 \<noteq> Some Dir" and "open_in (h_cwd H) mp fs3 = Some t'"
  shows "t' = t"
proof -
  let ?at = "place (h_cwd H) mp"
  have keep: "node_at ?at fs \<noteq> None \<Longrightarrow> node_at ?at fs2 = node_at ?at fs"
    using assms(2,3) make_dirs_keeps(1) unfolding create_directories_def by metis
  have none: "node_at ?at fs = None \<Longrightarrow> node_at ?at fs2 = None \<or> node_at ?at fs2 = Some Dir"
    using assms(2,3) make_dirs_keeps(1,3) unfolding create_directories_def by metis
  show ?thesis
  proof (cases "node_of (h_cwd H) mp fs")
    case (Some n)
    then have n: "n = File t" using assms(1) by (cases n) (auto simp: the_manifest_def)
    have "node_at ?at fs \<noteq> None" using Some by (cases "node_at ?at fs") (simp_all add: node_of_def)
    then have "node_of (h_cwd H) mp fs2 = Some (File t)" using keep node_of_cong Some n by metis
    with assms(4,6) show ?thesis by (auto simp: file_exists_def open_in_def)
  next
    case None
    then have net: "n_get N server (''/'' @ remote) = Inr (200, t)"
      using assms(1) by (auto simp: the_manifest_def split: sum.splits if_splits)
    have ex: "\<not> file_exists (h_cwd H) mp fs2"
    proof
      assume ex: "file_exists (h_cwd H) mp fs2"
      have "node_of (h_cwd H) mp fs2 = Some Dir"
      proof (cases "node_at ?at fs")
        case None
        with none ex show ?thesis by (auto simp: file_exists_def node_of_def)
      next
        case (Some n)
        with keep node_of_cong [of "h_cwd H" mp fs2 fs] \<open>node_of (h_cwd H) mp fs = None\<close> ex
        show ?thesis by (simp add: file_exists_def)
      qed
      with ex assms(4,5) show False by simp
    qed
    with assms(4) net have "(case write_file (h_cwd H) mp t fs2 of None \<Rightarrow> fs2 | Some f \<Rightarrow> f) = fs3"
      by (auto simp: download_file_def split: option.splits)
    with assms(6) ex write_file_node(2) [of "h_cwd H" mp t fs2] show ?thesis
      by (auto simp: file_exists_def open_in_def split: option.splits)
  qed
qed


text \<open>A machine and a server with one model of one file.\<close>

definition demo_host :: host where
  "demo_host = \<lparr>h_env = (\<lambda>v. if v = ''AILOY_CACHE_ROOT'' then Some ''/c'' else None), h_cwd = ''/'',
     h_uname = Some (''m'', ''s''), h_sha1 = (\<lambda>s. [word_of_nat (length s)]),
     h_json_read = (\<lambda>s. if s = ''M''
       then Inr (JObject [(''files'', JArray [JArray [JString ''f'', JString ''03'']]), (''lib'', JString ''l'')])
       else Inl ''bad'')\<rparr>"

definition demo_net :: net where
  "demo_net = \<lparr>n_get = (\<lambda>server path. Inr (200, ''M'')),
     n_stream = (\<lambda>server path. \<lparr>t_chunks = [''ab'', ''c''], t_interrupt = None, t_end = Inr 200, t_cancel = ''x''\<rparr>)\<rparr>"

definition demo_result :: download_result where
  "demo_result = \<lparr>dr_success = True, dr_path = Some ''/c/tvm-models/a--b/q'', dr_lib = Some ''/c/tvm-models/a--b/q/l'',
     dr_error = None\<rparr>"

definition demo_files :: files where
  "demo_files = [([''c''], Dir), ([''c'', ''tvm-models''], Dir), ([''c'', ''tvm-models'', ''a--b''], Dir),
     ([''c'', ''tvm-models'', ''a--b'', ''q''], Dir),
     ([''c'', ''tvm-models'', ''a--b'', ''q'', ''f''], File ''abc''),
     ([''c'', ''tvm-models'', ''a--b'', ''q'', ''manifest-m-s-d.json''], File ''M'')]"

lemma demo_download:
  "download_model demo_host demo_net ''a/b'' ''q'' ''d'' [] = Inr (demo_files, demo_result)"
  by code_simp


section \<open>Names of directories\<close>

lemma find_dashes:
  "\<not> sublist ''--'' p \<Longrightarrow> (p = [] \<or> List.last p \<noteq> CHR ''-'') \<Longrightarrow> find_sub ''--'' (p @ ''--'' @ r) = Some (length p)"
proof (induction p)
  case (Cons c p)
  have "\<not> prefix ''--'' (c # p @ ''--'' @ r)"
  proof
    assume "prefix ''--'' (c # p @ ''--'' @ r)"
    then have c: "c = CHR ''-''" "hd (p @ ''--'' @ r) = CHR ''-''" by (cases p; auto)+
    with Cons.prems(2) obtain q where "p = CHR ''-'' # q" by (cases p) auto
    with c Cons.prems(1) show False by (auto simp: sublist_def)
  qed
  moreover have "\<not> sublist ''--'' p" using Cons.prems(1) by (meson sublist_Cons_right)
  moreover have "p = [] \<or> List.last p \<noteq> CHR ''-''" using Cons.prems(2) by (cases p) auto
  ultimately show ?case using Cons.IH by simp
qed simp

lemma find_dashes_none: "\<not> sublist ''--'' p \<Longrightarrow> find_sub ''--'' p = None"
  by (metis find_sub_Some not_None_eq sublist_appendI)

lemma split_join_dashes:
  "ps \<noteq> [] \<Longrightarrow> \<forall>p \<in> set ps. \<not> sublist ''--'' p \<and> (p = [] \<or> List.last p \<noteq> CHR ''-'') \<Longrightarrow>
     split_on ''--'' (join ''--'' ps) = ps"
proof (induction ps rule: induct_list012)
  case (2 c)
  then show ?case by (simp add: split_on.simps find_dashes_none)
next
  case (3 c c' cs)
  then have "find_sub ''--'' (c @ ''--'' @ join ''--'' (c' # cs)) = Some (length c)" by (intro find_dashes) auto
  with 3 show ?case by (subst split_on.simps) simp
qed simp

text \<open>
  A model is listed under the name it was downloaded with: turning the directory name back
  gives the id, if no part of the id between slashes contains two dashes or ends with one.
\<close>

lemma model_id_roundtrip:
  assumes "\<forall>p \<in> set (split_on ''/'' i). \<not> sublist ''--'' p \<and> (p = [] \<or> List.last p \<noteq> CHR ''-'')"
  shows "unescape_id (escape_id i) = i"
  using split_join_dashes [OF split_on_not_Nil assms] join_split_on [of "''/''" i]
  by (simp add: unescape_id_def escape_id_def)

lemma model_id_roundtrip_witness: "unescape_id (escape_id ''BAAI/bge-m3'') = ''BAAI/bge-m3''"
proof (rule model_id_roundtrip)
  have s: "split_on ''/'' ''BAAI/bge-m3'' = [''BAAI'', ''bge-m3'']" by code_simp
  have "\<not> sublist ''--'' ''BAAI''" "\<not> sublist ''--'' ''bge-m3''" by code_simp+
  with s show "\<forall>p \<in> set (split_on ''/'' ''BAAI/bge-m3''). \<not> sublist ''--'' p \<and> (p = [] \<or> List.last p \<noteq> CHR ''-'')"
    by simp
qed

text \<open>Two ids can have the same directory.\<close>

lemma ids_collide: "escape_id ''a/b'' = escape_id ''a--b''"
  by code_simp

section \<open>Removing\<close>

text \<open>
  Removing removes exactly the directory of the model: if it is there, everything in it is
  gone afterwards and nothing else has changed; if the user is asked and does not agree, nothing
  has changed at all. The directory of the empty id is the one of all models.
\<close>

lemma remove_exactly:
  assumes "get_cache_root H fs = Inr (fs1, root)" and "p = path_join root (get_model_base_path i)"
    and "file_exists (h_cwd H) p fs1"
  shows "(\<exists>fs' r. remove_model H i prompt answers fs = Inr (fs', r) \<and> rr_success r \<and> rr_path r = Some p \<and>
      (if prompt \<and> ask answers [] \<noteq> ''y'' then rr_skipped r \<and> fs' = fs1
       else \<not> rr_skipped r \<and>
         (\<forall>at. at \<noteq> [] \<longrightarrow> node_at at fs' = (if prefix (place (h_cwd H) p) at then None else node_at at fs1)))) \<and>
    (i = [] \<longrightarrow> place (h_cwd H) p = place (h_cwd H) (path_join root ''tvm-models''))"
proof (intro conjI impI)
  show "\<exists>fs' r. remove_model H i prompt answers fs = Inr (fs', r) \<and> rr_success r \<and> rr_path r = Some p \<and>
      (if prompt \<and> ask answers [] \<noteq> ''y'' then rr_skipped r \<and> fs' = fs1
       else \<not> rr_skipped r \<and>
         (\<forall>at. at \<noteq> [] \<longrightarrow> node_at at fs' = (if prefix (place (h_cwd H) p) at then None else node_at at fs1)))"
    using assms by (simp add: remove_model_def Let_def node_at_remove_all)
  assume "i = []"
  then have "get_model_base_path i = ''tvm-models/''"
    by (simp add: get_model_base_path_def escape_id_def split_on_char_Nil path_join_def)
  then have "p = path_join root ''tvm-models'' @ ''/''" using assms(2) by (simp add: path_join_def)
  moreover have "path_join root ''tvm-models'' \<noteq> []" by (simp add: path_join_def)
  ultimately show "place (h_cwd H) p = place (h_cwd H) (path_join root ''tvm-models'')"
    using place_slash by simp
qed

lemma remove_exactly_witness:
  "\<exists>fs' r. remove_model demo_host ''a/b'' True [''what'', ''Y''] demo_files = Inr (fs', r) \<and> rr_success r \<and>
     node_at [''c'', ''tvm-models'', ''a--b'', ''q'', ''f''] fs' = None \<and> node_at [''c'', ''tvm-models''] fs' = Some Dir"
proof -
  have root: "get_cache_root demo_host demo_files = Inr (demo_files, ''/c'')" by code_simp
  have ex: "file_exists (h_cwd demo_host) (path_join ''/c'' (get_model_base_path ''a/b'')) demo_files" by code_simp
  have yes: "ask [''what'', ''Y''] [] = ''y''" by code_simp
  have pl: "place (h_cwd demo_host) (path_join ''/c'' (get_model_base_path ''a/b'')) = [''c'', ''tvm-models'', ''a--b'']"
    by code_simp
  from remove_exactly [OF root refl ex, of True "[''what'', ''Y'']"] yes pl
  show ?thesis by (auto simp: node_at_def demo_files_def)
qed

end
