(* ===== verification/ChatEngine.thy ===== *)
theory ChatEngine
  imports StringUtil JsonAccess
begin

text \<open>
  The engine that runs a language model (\<open>vm/src/mlc_llm/mlc_llm_engine.cpp\<close>) and the chat
  template it asks about tool calls (\<open>vm/src/mlc_llm/chat_template_engine.cpp\<close>). The library
  computes tokens; what is modelled is what the program makes of them: the request it sends,
  the text, the tool calls and the reasoning that it takes out of the stream, and one step of a
  completion. The record \<open>llm\<close> holds what the library does.
\<close>

section \<open>The chat template\<close>

text \<open>\<open>ct_apply\<close> is the template of the library minja: messages, tools, whether to add the
  prompt of the answer, and the extra context.\<close>

record chat_template =
  ct_apply :: "json \<Rightarrow> json option \<Rightarrow> bool \<Rightarrow> json option \<Rightarrow> string res"
  ct_botc :: string
  ct_eotc :: string

definition apply_chat_template :: "chat_template \<Rightarrow> json \<Rightarrow> json \<Rightarrow> bool \<Rightarrow> bool \<Rightarrow> string res" where
  "apply_chat_template t messages tools enable_reasoning add_generation_prompt =
     ct_apply t messages (if tools = JNull then None else Some tools) add_generation_prompt
       (if enable_reasoning then None else Some (JObject [(''enable_thinking'', JBool False)]))"

definition is_botc_token :: "chat_template \<Rightarrow> string \<Rightarrow> bool" where
  "is_botc_token t token \<longleftrightarrow> token = ct_botc t"

definition is_eotc_token :: "chat_template \<Rightarrow> string \<Rightarrow> bool" where
  "is_eotc_token t token \<longleftrightarrow> token = ct_eotc t"

definition get_json_str_if_valid :: "codec \<Rightarrow> string list \<Rightarrow> string option" where
  "get_json_str_if_valid C tokens =
     (let s = trim (join '''' tokens) in if json_parse C s \<noteq> None then Some s else None)"

section \<open>State\<close>

datatype output_mode = Text_mode | Tool_call_mode | Reasoning_mode

record 'st request_state =
  rq_model :: string
  rq_streamers :: "'st list"

record response_state =
  rs_message :: json
  rs_finish :: "string option"

text \<open>
  \<open>en_core\<close> is the engine of the library, \<open>en_requests\<close> and \<open>en_responses\<close> are the two maps,
  and \<open>en_uuids\<close> counts the UUIDs drawn.
\<close>

record ('st, 'e) mlc_engine =
  en_core :: 'e
  en_template :: "chat_template option"
  en_mode :: output_mode
  en_tool_tokens :: "string list"
  en_stop_strs :: "string list"
  en_stop_ids :: "u32 list"
  en_requests :: "(string \<times> 'st request_state) list"
  en_responses :: "(string \<times> response_state) list"
  en_error :: "string option"
  en_uuids :: nat

section \<open>The library\<close>

text \<open>What the engine of the library says about a request after a step.\<close>

record delta_output =
  do_request :: string
  do_usage :: "string option"
  do_finish :: "string option list"
  do_tokens :: "u32 list list"

text \<open>A request and the configuration made of it; \<open>'x\<close> is what is only passed on.\<close>

record 'x completion_request =
  q_n :: u32
  q_stream :: bool
  q_model :: "string option"
  q_stop :: "string list option"
  q_temperature :: "'x option"
  q_top_p :: "'x option"
  q_frequency_penalty :: "'x option"
  q_presence_penalty :: "'x option"
  q_logprobs :: 'x
  q_top_logprobs :: 'x
  q_logit_bias :: "'x option"
  q_seed :: "'x option"
  q_max_tokens :: "'x option"
  q_response_format :: "'x option"
  q_debug_config :: "'x option"

record 'x gen_config =
  g_n :: u32
  g_temperature :: 'x
  g_top_p :: 'x
  g_frequency_penalty :: 'x
  g_presence_penalty :: 'x
  g_logprobs :: 'x
  g_top_logprobs :: 'x
  g_logit_bias :: 'x
  g_seed :: 'x
  g_max_tokens :: 'x
  g_stop_strs :: "string list"
  g_stop_ids :: "u32 list"
  g_response_format :: 'x
  g_debug_config :: 'x

text \<open>
  A streamer turns tokens into text (\<open>Put\<close>, \<open>Finish\<close>); \<open>lm_step\<close> is \<open>Step\<close>, with the outputs of
  the calls that it makes of its callback; \<open>lm_request\<close> is a request as it is constructed.
\<close>

record ('st, 'e, 'x) llm =
  lm_streamer :: 'st
  lm_put :: "'st \<Rightarrow> u32 list \<Rightarrow> 'st \<times> string"
  lm_finish :: "'st \<Rightarrow> 'st \<times> string"
  lm_step :: "'e \<Rightarrow> 'e \<times> delta_output list list"
  lm_add :: "'e \<Rightarrow> string \<Rightarrow> string list \<Rightarrow> 'x gen_config \<Rightarrow> 'e"
  lm_request :: "'x completion_request"
  lm_defaults :: "'x gen_config"
  lm_random :: 'x
  lm_format :: 'x
  lm_debug :: 'x
  lm_validate :: "'x gen_config \<Rightarrow> string option"
  lm_usage_error :: "string \<Rightarrow> string"

section \<open>A new completion\<close>

definition value_or :: "'a option \<Rightarrow> 'a \<Rightarrow> 'a" where
  "value_or x d = (case x of None \<Rightarrow> d | Some a \<Rightarrow> a)"

definition make_gen_config ::
  "('st, 'e, 'x) llm \<Rightarrow> 'x completion_request \<Rightarrow> string list \<Rightarrow> u32 list \<Rightarrow> 'x gen_config" where
  "make_gen_config L q stop_strs stop_ids =
     (let d = lm_defaults L in
      \<lparr>g_n = q_n q,
       g_temperature = value_or (q_temperature q) (g_temperature d),
       g_top_p = value_or (q_top_p q) (g_top_p d),
       g_frequency_penalty = value_or (q_frequency_penalty q) (g_frequency_penalty d),
       g_presence_penalty = value_or (q_presence_penalty q) (g_presence_penalty d),
       g_logprobs = q_logprobs q, g_top_logprobs = q_top_logprobs q,
       g_logit_bias = value_or (q_logit_bias q) (g_logit_bias d),
       g_seed = value_or (q_seed q) (lm_random L),
       g_max_tokens = value_or (q_max_tokens q) (g_max_tokens d),
       g_stop_strs = stop_strs @ value_or (q_stop q) [], g_stop_ids = stop_ids,
       g_response_format = value_or (q_response_format q) (lm_format L),
       g_debug_config = value_or (q_debug_config q) (lm_debug L)\<rparr>)"

definition initialize_chat_completion ::
  "('st, 'e, 'x) llm \<Rightarrow> string \<Rightarrow> string \<Rightarrow> ('st, 'e) mlc_engine \<Rightarrow> ('st, 'e) mlc_engine" where
  "initialize_chat_completion L rid prompt en =
     (let q = (lm_request L)\<lparr>q_n := 1, q_stream := True\<rparr>;
          g = make_gen_config L q (en_stop_strs en) (en_stop_ids en)
      in case lm_validate L g of
           Some err \<Rightarrow> en\<lparr>en_error := Some err\<rparr>
         | None \<Rightarrow>
             en\<lparr>en_requests := put rid \<lparr>rq_model = value_or (q_model q) rid,
                   rq_streamers = replicate (nat (sint (g_n g))) (lm_streamer L)\<rparr> (en_requests en),
                en_core := lm_add L (en_core en) rid [prompt] g\<rparr>)"

section \<open>Reading the stream\<close>

datatype finish_reason = Fr_stop | Fr_length | Fr_tool_calls | Fr_error

record stream_choice =
  sc_index :: u32
  sc_finish :: "finish_reason option"
  sc_role :: string
  sc_content :: "string option"

record stream_response =
  sr_id :: string
  sr_model :: string
  sr_usage :: "string option"
  sr_choices :: "stream_choice list"

definition finish_of :: "string option \<Rightarrow> finish_reason option" where
  "finish_of f =
     (if f = Some ''stop'' then Some Fr_stop else if f = Some ''length'' then Some Fr_length
      else if f = Some ''tool_calls'' then Some Fr_tool_calls
      else if f = Some ''error'' then Some Fr_error else None)"

text \<open>What a piece of text does to the mode and to the choice that carries it.\<close>

definition put_content ::
  "codec \<Rightarrow> string \<Rightarrow> ('st, 'e) mlc_engine \<Rightarrow> stream_choice \<Rightarrow> (('st, 'e) mlc_engine \<times> stream_choice) res" where
  "put_content C content en ch =
     bindR (deref (en_template en)) (\<lambda>t.
       Inr (if is_botc_token t content then (en\<lparr>en_mode := Tool_call_mode\<rparr>, ch)
            else if is_eotc_token t content then
              (en\<lparr>en_mode := Text_mode, en_tool_tokens := []\<rparr>,
               case get_json_str_if_valid C (en_tool_tokens en) of
                 None \<Rightarrow> ch
               | Some s \<Rightarrow> ch\<lparr>sc_content := Some s, sc_finish := Some Fr_tool_calls\<rparr>)
            else if en_mode en = Tool_call_mode then
              (en\<lparr>en_tool_tokens := en_tool_tokens en @ [content]\<rparr>, ch)
            else if content \<noteq> [] then
              (if content = ''<think>'' then (en\<lparr>en_mode := Reasoning_mode\<rparr>, ch\<lparr>sc_content := None\<rparr>)
               else if content = ''</think>'' then (en\<lparr>en_mode := Text_mode\<rparr>, ch\<lparr>sc_content := None\<rparr>)
               else (en, ch\<lparr>sc_content := Some content\<rparr>))
            else (en, ch)))"

definition stream_text :: "('st, 'e, 'x) llm \<Rightarrow> 'st \<Rightarrow> u32 list \<Rightarrow> bool \<Rightarrow> 'st \<times> string" where
  "stream_text L st tokens finished =
     (let (st1, c1) = lm_put L st tokens in
      if finished then (let (st2, c2) = lm_finish L st1 in (st2, c1 @ c2)) else (st1, c1))"

text \<open>The loop over the choices of an output, with the streamer of each.\<close>

fun choices_loop ::
  "('st, 'e, 'x) llm \<Rightarrow> codec \<Rightarrow> nat \<Rightarrow> (string option \<times> u32 list) list \<Rightarrow> 'st list \<Rightarrow>
     ('st, 'e) mlc_engine \<Rightarrow> ('st list \<times> ('st, 'e) mlc_engine \<times> stream_choice list) res" where
  "choices_loop L C i ((f, tokens) # outs) (st # sts) en =
     (let (st', content) = stream_text L st tokens (f \<noteq> None) in
      bindR (put_content C content en
               \<lparr>sc_index = word_of_nat i, sc_finish = finish_of f, sc_role = [], sc_content = None\<rparr>) (\<lambda>(en1, ch).
      bindR (choices_loop L C (Suc i) outs sts en1) (\<lambda>(sts', en2, chs).
        Inr (st' # sts', en2,
             if sc_content ch \<noteq> None \<or> sc_finish ch \<noteq> None then ch\<lparr>sc_role := ''assistant''\<rparr> # chs else chs))))"
| "choices_loop L C i outs sts en = Inr (sts, en, [])"

text \<open>
  One output. The final usage ends the request; otherwise the library's checks on the lengths
  come first.
\<close>

definition one_output ::
  "('st, 'e, 'x) llm \<Rightarrow> codec \<Rightarrow> delta_output \<Rightarrow> ('st, 'e) mlc_engine \<Rightarrow>
     (('st, 'e) mlc_engine \<times> stream_response list) res" where
  "one_output L C d en =
     (case map_of (en_requests en) (do_request d) of
        None \<Rightarrow> Inr (en, [])
      | Some rq \<Rightarrow>
          (let resp = \<lparr>sr_id = do_request d, sr_model = rq_model rq, sr_usage = None, sr_choices = []\<rparr> in
           case do_usage d of
             Some u \<Rightarrow>
               (let err = lm_usage_error L u; en1 = en\<lparr>en_requests := del (do_request d) (en_requests en)\<rparr> in
                Inr (if err \<noteq> [] then (en1\<lparr>en_error := Some err\<rparr>, [resp])
                     else (en1, [resp\<lparr>sr_usage := Some u\<rparr>])))
           | None \<Rightarrow>
               if do_finish d = [] \<or> length (do_tokens d) \<noteq> length (do_finish d)
                 \<or> length (do_tokens d) \<noteq> length (rq_streamers rq)
               then Inl (LibThrow ''tvm::InternalError'')
               else bindR (choices_loop L C 0 (zip (do_finish d) (do_tokens d)) (rq_streamers rq) en)
                 (\<lambda>(sts, en1, chs).
                   Inr (en1\<lparr>en_requests := put (do_request d) (rq\<lparr>rq_streamers := sts\<rparr>) (en_requests en1)\<rparr>,
                        if chs = [] then [] else [resp\<lparr>sr_choices := chs\<rparr>]))))"

fun get_response_from_stream_output ::
  "('st, 'e, 'x) llm \<Rightarrow> codec \<Rightarrow> delta_output list \<Rightarrow> ('st, 'e) mlc_engine \<Rightarrow>
     (('st, 'e) mlc_engine \<times> stream_response list) res" where
  "get_response_from_stream_output L C [] en = Inr (en, [])"
| "get_response_from_stream_output L C (d # ds) en =
     bindR (one_output L C d en) (\<lambda>(en1, rs).
     bindR (get_response_from_stream_output L C ds en1) (\<lambda>(en2, rs'). Inr (en2, rs @ rs')))"

section \<open>The callback\<close>

definition tool_call_entry :: "nat \<Rightarrow> string \<Rightarrow> json \<Rightarrow> json" where
  "tool_call_entry index u f =
     JObject (put ''function'' f (put ''type'' (JString ''function'')
       (put ''id'' (JString (''call_'' @ u)) (put ''index'' (JInt (word_of_nat index)) []))))"

fun put_tool_calls :: "(nat \<Rightarrow> string) \<Rightarrow> nat \<Rightarrow> nat \<Rightarrow> json list \<Rightarrow> json \<Rightarrow> json res" where
  "put_tool_calls uuid n index [] msg = Inr msg"
| "put_tool_calls uuid n index (f # fs) msg =
     bindR (json_push (tool_call_entry index (uuid n) f) (json_member ''tool_calls'' msg)) (\<lambda>calls.
     bindR (json_set ''tool_calls'' calls msg) (put_tool_calls uuid (Suc n) (Suc index) fs))"

definition finish_message :: "string \<Rightarrow> string \<Rightarrow> response_state \<Rightarrow> response_state res" where
  "finish_message role reason resp =
     bindR (json_set ''role'' (JString role) (rs_message resp)) (\<lambda>m.
     bindR (json_set ''content'' (JString [CHR 0x0A]) m) (\<lambda>m.
       Inr \<lparr>rs_message = m, rs_finish = Some reason\<rparr>))"

definition tool_message ::
  "codec \<Rightarrow> (nat \<Rightarrow> string) \<Rightarrow> nat \<Rightarrow> stream_choice \<Rightarrow> response_state \<Rightarrow> (nat \<times> response_state) res" where
  "tool_message C uuid n ch resp =
     (case sc_content ch of
        None \<Rightarrow> Inl (LibThrow ''bad_optional_access'')
      | Some text \<Rightarrow>
          (case json_parse C text of
             None \<Rightarrow> Inl (LibThrow ''json::parse_error'')
           | Some j \<Rightarrow>
               (let fs = (case j of JArray fs \<Rightarrow> fs | _ \<Rightarrow> [j]) in
                bindR (json_set ''role'' (JString (sc_role ch)) (rs_message resp)) (\<lambda>m.
                bindR (json_set ''content'' JNull m) (\<lambda>m.
                bindR (put_tool_calls uuid n 0 fs m) (\<lambda>m.
                  Inr (n + length fs, \<lparr>rs_message = m, rs_finish = Some ''tool_calls''\<rparr>)))))))"

definition text_message :: "output_mode \<Rightarrow> stream_choice \<Rightarrow> string \<Rightarrow> response_state \<Rightarrow> response_state res" where
  "text_message mode ch text resp =
     bindR (json_set ''role'' (JString (sc_role ch)) (rs_message resp)) (\<lambda>m.
     bindR (json_set ''content'' (JString text) m) (\<lambda>m.
     bindR (if mode = Reasoning_mode then json_set ''reasoning'' (JBool True) m else Inr m) (\<lambda>m.
       Inr (resp\<lparr>rs_message := m\<rparr>))))"

definition on_response ::
  "codec \<Rightarrow> (nat \<Rightarrow> string) \<Rightarrow> stream_response \<Rightarrow> ('st, 'e) mlc_engine \<Rightarrow> ('st, 'e) mlc_engine res" where
  "on_response C uuid r en =
     (case sr_choices r of
        [] \<Rightarrow> Inr en
      | ch # chs \<Rightarrow>
          (case map_of (en_responses en) (sr_id r) of
             None \<Rightarrow> Inl (LibThrow ''out_of_range'')
           | Some resp \<Rightarrow>
               (let store = (\<lambda>n resp'. Inr (en\<lparr>en_responses := put (sr_id r) resp' (en_responses en), en_uuids := n\<rparr>));
                    n = en_uuids en
                in case sc_finish ch of
                     Some Fr_stop \<Rightarrow> bindR (finish_message (sc_role ch) ''stop'' resp) (store n)
                   | Some Fr_length \<Rightarrow> bindR (finish_message (sc_role ch) ''length'' resp) (store n)
                   | Some Fr_error \<Rightarrow> bindR (finish_message (sc_role ch) ''error'' resp) (store n)
                   | Some Fr_tool_calls \<Rightarrow>
                       bindR (tool_message C uuid n ch resp) (\<lambda>(n', resp'). store n' resp')
                   | None \<Rightarrow>
                       (case sc_content ch of
                          None \<Rightarrow> Inr en
                        | Some text \<Rightarrow> bindR (text_message (en_mode en) ch text resp) (store n)))))"

fun on_responses ::
  "codec \<Rightarrow> (nat \<Rightarrow> string) \<Rightarrow> stream_response list \<Rightarrow> ('st, 'e) mlc_engine \<Rightarrow> ('st, 'e) mlc_engine res" where
  "on_responses C uuid [] en = Inr en"
| "on_responses C uuid (r # rs) en = bindR (on_response C uuid r en) (on_responses C uuid rs)"

definition engine_callback ::
  "('st, 'e, 'x) llm \<Rightarrow> codec \<Rightarrow> (nat \<Rightarrow> string) \<Rightarrow> delta_output list \<Rightarrow> ('st, 'e) mlc_engine \<Rightarrow>
     ('st, 'e) mlc_engine res" where
  "engine_callback L C uuid ds en =
     bindR (get_response_from_stream_output L C ds en) (\<lambda>(en1, rs). on_responses C uuid rs en1)"

fun engine_callbacks ::
  "('st, 'e, 'x) llm \<Rightarrow> codec \<Rightarrow> (nat \<Rightarrow> string) \<Rightarrow> delta_output list list \<Rightarrow> ('st, 'e) mlc_engine \<Rightarrow>
     ('st, 'e) mlc_engine res" where
  "engine_callbacks L C uuid [] en = Inr en"
| "engine_callbacks L C uuid (ds # dss) en = bindR (engine_callback L C uuid ds en) (engine_callbacks L C uuid dss)"

section \<open>A step\<close>

definition step_chat_completion ::
  "('st, 'e, 'x) llm \<Rightarrow> codec \<Rightarrow> (nat \<Rightarrow> string) \<Rightarrow> string \<Rightarrow> ('st, 'e) mlc_engine \<Rightarrow>
     (('st, 'e) mlc_engine \<times> response_state option) res" where
  "step_chat_completion L C uuid rid en =
     (let en1 = en\<lparr>en_responses := put rid \<lparr>rs_message = JNull, rs_finish = None\<rparr> (en_responses en)\<rparr>;
          (core, calls) = lm_step L (en_core en)
      in bindR (engine_callbacks L C uuid calls (en1\<lparr>en_core := core\<rparr>)) (\<lambda>en2.
         let gone = en2\<lparr>en_responses := del rid (en_responses en2)\<rparr> in
         if en_error en2 \<noteq> None then Inr (gone, None)
         else (case map_of (en_responses en2) rid of
                 None \<Rightarrow> Inl (LibThrow ''out_of_range'')
               | Some resp \<Rightarrow> Inr (gone, if rs_message resp = JNull then None else Some resp))))"

end
