(* ===== verification/LanguageModel.thy ===== *)
theory LanguageModel
  imports ChatEngine ModelCache
begin

text \<open>
  The component of a language model (\<open>vm/src/mlc_llm/language_model.cpp\<close>) with the constructor
  of its engine, the device it runs on (\<open>get_tvm_device\<close> of \<open>vm/src/mlc_llm/tvm_model.hpp\<close>) and
  the chat template's file. Its method \<open>infer\<close> is iterative: it starts a completion and then
  gives a piece of the answer at each step. A step is a loop that need not end, so it is a
  partial function.
\<close>

section \<open>Checking the messages\<close>

definition validate_message :: "string \<Rightarrow> val \<Rightarrow> string option res" where
  "validate_message ctx v =
     (case v of
        Map_t msg \<Rightarrow>
          (case map_of msg ''role'' of
             None \<Rightarrow> Inr (Some (range_error2 ctx ''role''))
           | Some r \<Rightarrow>
               (case r of
                  String_t s \<Rightarrow>
                    if s \<notin> {''system'', ''user'', ''assistant'', ''tool''} then
                      Inr (Some (value_error4 ctx ''role'' ''system | user | assistant | tool'' s))
                    else if map_of msg ''content'' = None \<and> map_of msg ''tool_calls'' = None then
                      Inr (Some ''Invalid msg schema'')
                    else if (case map_of msg ''content'' of None \<Rightarrow> False | Some c \<Rightarrow> \<not> (is_string c \<or> is_null c)) then
                      Inr (Some ''Invalid msg schema'')
                    else if (case map_of msg ''tool_calls'' of None \<Rightarrow> False | Some t \<Rightarrow> \<not> is_array t) then
                      bindR (map_at msg ''content'')
                        (\<lambda>c. Inr (Some (type_error4 ctx ''tool_calls'' ''string_t'' (get_type c))))
                    else Inr None
                | _ \<Rightarrow> Inr (Some (type_error4 ctx ''role'' ''string_t'' (get_type r)))))
      | _ \<Rightarrow> Inr (Some (type_error4 ctx ''messages.*'' ''map_t'' (get_type v))))"

fun validate_each :: "string \<Rightarrow> val list \<Rightarrow> string option res" where
  "validate_each ctx [] = Inr None"
| "validate_each ctx (v # vs) =
     bindR (validate_message ctx v) (\<lambda>e. case e of None \<Rightarrow> validate_each ctx vs | Some e \<Rightarrow> Inr (Some e))"

definition validate_language_model_messages :: "string \<Rightarrow> (string \<times> val) list \<Rightarrow> string option res" where
  "validate_language_model_messages ctx m =
     (case map_of m ''messages'' of
        None \<Rightarrow> Inr (Some (range_error2 ctx ''messages''))
      | Some v \<Rightarrow>
          (case v of
             Array_t vs \<Rightarrow> validate_each ctx vs
           | _ \<Rightarrow> Inr (Some (type_error4 ctx ''messages'' ''array_t'' (get_type v)))))"

section \<open>The inputs of the methods\<close>

definition parse_tools :: "codec \<Rightarrow> string \<Rightarrow> (string \<times> val) list \<Rightarrow> json or_error" where
  "parse_tools C ctx m =
     (case map_of m ''tools'' of
        None \<Rightarrow> Got JNull
      | Some v \<Rightarrow>
          (case v of
             String_t s \<Rightarrow>
               (case json_parse C s of
                  None \<Rightarrow> Failed (value_error1 (''['' @ ctx @ ''] Invalid JSON string in tools: '' @ s))
                | Some j \<Rightarrow> Got j)
           | Array_t vs \<Rightarrow> Got (to_json v)
           | _ \<Rightarrow> Failed (type_error4 ctx ''tools'' ''string_t | array_t'' (get_type v))))"

definition parse_flag :: "string \<Rightarrow> (string \<times> val) list \<Rightarrow> bool" where
  "parse_flag key m = (case map_of m key of Some (Bool_t b) \<Rightarrow> b | _ \<Rightarrow> False)"

text \<open>Messages and tools, as JSON documents.\<close>

definition parse_chat :: "codec \<Rightarrow> string \<Rightarrow> val \<Rightarrow> ((string \<times> val) list \<times> json \<times> json) or_error res" where
  "parse_chat C ctx v =
     (case v of
        Map_t m \<Rightarrow>
          bindR (validate_language_model_messages ctx m) (\<lambda>e.
          case e of
            Some e \<Rightarrow> Inr (Failed e)
          | None \<Rightarrow>
              bindR (map_at m ''messages'') (\<lambda>msgs.
                Inr (case parse_tools C ctx m of
                       Failed e \<Rightarrow> Failed e | Got tools \<Rightarrow> Got (m, to_json msgs, tools))))
      | _ \<Rightarrow> Inr (Failed (type_error4 ctx ''inputs'' ''map_t'' (get_type v))))"

section \<open>The component\<close>

datatype ('st, 'e) lm_obj = Engine_obj "('st, 'e) mlc_engine" | Template_obj chat_template | Flag_obj bool

fun as_engine :: "('st, 'e) lm_obj \<Rightarrow> ('st, 'e) mlc_engine option" where
  "as_engine (Engine_obj en) = Some en" | "as_engine _ = None"
fun as_template :: "('st, 'e) lm_obj \<Rightarrow> chat_template option" where
  "as_template (Template_obj t) = Some t" | "as_template _ = None"
fun as_flag :: "('st, 'e) lm_obj \<Rightarrow> bool option" where
  "as_flag (Flag_obj b) = Some b" | "as_flag _ = None"

type_synonym ('st, 'e) lm_objs = "('st, 'e) lm_obj objs"

text \<open>The first part of \<open>infer\<close>: start a completion and return its id.\<close>

definition infer_initialize ::
  "('st, 'e, 'x) llm \<Rightarrow> codec \<Rightarrow> (nat \<Rightarrow> string) \<Rightarrow> ('st, 'e) lm_objs \<Rightarrow> val option \<Rightarrow>
     (('st, 'e) lm_objs \<times> value_or_error) res" where
  "infer_initialize L C uuid os inputs = bindR (deref inputs) (\<lambda>v.
     bindR (parse_chat C ''TVM Language Model: infer'' v) (\<lambda>r.
     case r of
       Failed e \<Rightarrow> Inr (os, Failed e)
     | Got (m, messages, tools) \<Rightarrow>
         (let os1 = set_obj ''ignore_reasoning_messages'' (Flag_obj (parse_flag ''ignore_reasoning_messages'' m)) os in
          bindR (deref (get_obj as_template os1 ''template_engine'')) (\<lambda>t.
          bindR (apply_chat_template t messages tools (parse_flag ''enable_reasoning'' m) True) (\<lambda>prompt.
          bindR (deref (get_obj as_engine os1 ''engine'')) (\<lambda>en.
            let rid = uuid (en_uuids en);
                en1 = initialize_chat_completion L rid prompt (en\<lparr>en_uuids := Suc (en_uuids en)\<rparr>)
            in Inr (set_obj ''engine'' (Engine_obj en1) os1, Got (Some (String_t rid)))))))))"

definition dismiss_delta :: "bool \<Rightarrow> json \<Rightarrow> bool res" where
  "dismiss_delta ignore delta =
     bindR (if ignore then json_value json_bool delta ''reasoning'' False else Inr False) (\<lambda>reasoning.
     bindR (json_value json_string delta ''content'' []) (\<lambda>content.
       Inr (reasoning \<or> content = [] \<and> \<not> json_has delta ''tool_calls'')))"

text \<open>Step until there is something to tell; the result is a response or the engine's error.\<close>

partial_function (option) infer_loop ::
  "('st, 'e, 'x) llm \<Rightarrow> codec \<Rightarrow> (nat \<Rightarrow> string) \<Rightarrow> bool \<Rightarrow> string \<Rightarrow> ('st, 'e) mlc_engine \<Rightarrow>
     (('st, 'e) mlc_engine \<times> (string + response_state)) res option" where
  "infer_loop L C uuid ignore rid en =
     (case step_chat_completion L C uuid rid en of
        Inl f \<Rightarrow> Some (Inl f)
      | Inr (en1, out) \<Rightarrow>
          (case en_error en1 of
             Some err \<Rightarrow> Some (Inr (en1, Inl err))
           | None \<Rightarrow>
               (case out of
                  None \<Rightarrow> infer_loop L C uuid ignore rid en1
                | Some resp \<Rightarrow>
                    if rs_finish resp \<noteq> None then Some (Inr (en1, Inr resp))
                    else (case dismiss_delta ignore (rs_message resp) of
                            Inl f \<Rightarrow> Some (Inl f)
                          | Inr dismissed \<Rightarrow>
                              if dismissed then infer_loop L C uuid ignore rid en1
                              else Some (Inr (en1, Inr resp))))))"

definition infer_output :: "response_state \<Rightarrow> output_t res" where
  "infer_output resp =
     bindR (from_json (rs_message resp)) (\<lambda>v.
     bindR (deref (as_map v)) (\<lambda>message.
       Inr (Ok_output (Some (Map_t (put ''finish_reason''
              (case rs_finish resp of None \<Rightarrow> Null_t | Some r \<Rightarrow> String_t r) [(''message'', Map_t message)])))
            (rs_finish resp = Some ''stop''))))"

text \<open>The second part of \<open>infer\<close>: one piece of the answer. \<open>None\<close> means that it does not return.\<close>

definition infer_step ::
  "('st, 'e, 'x) llm \<Rightarrow> codec \<Rightarrow> (nat \<Rightarrow> string) \<Rightarrow> ('st, 'e) lm_objs \<Rightarrow> val option \<Rightarrow>
     (('st, 'e) lm_objs \<times> output_t) res option" where
  "infer_step L C uuid os state =
     (case bindR (deref state) (\<lambda>v.
           bindR (deref (get_obj as_flag os ''ignore_reasoning_messages'')) (\<lambda>ignore.
           bindR (deref (as_string v)) (\<lambda>rid.
           bindR (deref (get_obj as_engine os ''engine'')) (\<lambda>en. Inr (ignore, rid, en))))) of
        Inl f \<Rightarrow> Some (Inl f)
      | Inr (ignore, rid, en) \<Rightarrow>
          map_option (\<lambda>r. bindR r (\<lambda>(en1, out).
            let os1 = set_obj ''engine'' (Engine_obj en1) os in
            case out of
              Inl err \<Rightarrow> Inr (os1, Error_output err)
            | Inr resp \<Rightarrow> mapR_res (Pair os1) (infer_output resp)))
            (infer_loop L C uuid ignore rid en))"

definition apply_chat_template_method ::
  "codec \<Rightarrow> ('st, 'e) lm_objs \<Rightarrow> val option \<Rightarrow> (('st, 'e) lm_objs \<times> value_or_error) res" where
  "apply_chat_template_method C os inputs = bindR (deref inputs) (\<lambda>v.
     bindR (parse_chat C ''TVM Language Model: apply_chat_template'' v) (\<lambda>r.
     case r of
       Failed e \<Rightarrow> Inr (os, Failed e)
     | Got (m, messages, tools) \<Rightarrow>
         bindR (deref (get_obj as_template os ''template_engine'')) (\<lambda>t.
         bindR (apply_chat_template t messages tools (parse_flag ''enable_reasoning'' m) True) (\<lambda>prompt.
           Inr (os, Got (Some (Map_t [(''prompt'', String_t prompt)])))))))"

section \<open>Making a component\<close>

definition optional_text :: "string \<Rightarrow> string \<Rightarrow> string \<Rightarrow> (string \<times> val) list \<Rightarrow> string or_error" where
  "optional_text ctx key dflt m =
     (case map_of m key of
        None \<Rightarrow> Got dflt
      | Some v \<Rightarrow>
          (case v of String_t s \<Rightarrow> Got s
           | _ \<Rightarrow> Failed (type_error4 ctx key ''string_t'' (get_type v))))"

definition parse_mode :: "(string \<times> val) list \<Rightarrow> string or_error" where
  "parse_mode m =
     (case optional_text ''TVM Language Model: create'' ''mode'' ''interactive'' m of
        Failed e \<Rightarrow> Failed e
      | Got s \<Rightarrow>
          if s \<in> {''local'', ''interactive'', ''server''} then Got s
          else Failed (value_error4 ''TVM Language Model: create'' ''mode'' ''local | interactive | server'' s))"

text \<open>The number of the device, cut to 32 bits.\<close>

definition parse_device :: "(string \<times> val) list \<Rightarrow> u32 or_error" where
  "parse_device m =
     (case map_of m ''device'' of
        None \<Rightarrow> Got 0
      | Some v \<Rightarrow>
          (case v of
             Int_t i \<Rightarrow> Got (ucast i)
           | Uint_t n \<Rightarrow> Got (ucast n)
           | _ \<Rightarrow> Failed (type_error4 ''TVM Language Model: create'' ''device'' ''int_t | uint_t'' (get_type v))))"

definition get_tvm_device :: "(u32 \<Rightarrow> bool) \<Rightarrow> u32 \<Rightarrow> u32 option" where
  "get_tvm_device exist device_id =
     (if exist device_id then Some device_id else if exist 0 then Some 0 else None)"

definition parse_create :: "val \<Rightarrow> (string \<times> string \<times> string \<times> u32) or_error" where
  "parse_create v =
     (case v of
        Map_t m \<Rightarrow>
          (case required_text ''TVM Language Model: create'' ''model'' m of
             Failed e \<Rightarrow> Failed e
           | Got model \<Rightarrow>
               (case optional_text ''TVM Language Model: create'' ''quantization'' ''q4f16_1'' m of
                  Failed e \<Rightarrow> Failed e
                | Got q \<Rightarrow>
                    (case parse_mode m of
                       Failed e \<Rightarrow> Failed e
                     | Got mode \<Rightarrow>
                         (case parse_device m of Failed e \<Rightarrow> Failed e | Got d \<Rightarrow> Got (model, q, mode, d)))))
      | _ \<Rightarrow> Failed (type_error4 ''TVM Language Model: create'' ''inputs'' ''map_t'' (get_type v)))"

text \<open>
  What the constructor of the engine asks of the library: the engine for a model path, a
  library, a mode and a device, and the conversation template of a model, which can be invalid.
\<close>

record 'e engine_lib =
  el_device_name :: string
  el_create :: "string \<Rightarrow> string \<Rightarrow> string \<Rightarrow> u32 \<Rightarrow> 'e res"
  el_conversation :: "string \<Rightarrow> string + (string list \<times> u32 list)"
  el_template :: "string \<Rightarrow> string \<Rightarrow> string \<Rightarrow> (json \<Rightarrow> json option \<Rightarrow> bool \<Rightarrow> json option \<Rightarrow> string res) res"
  el_exist :: "u32 \<Rightarrow> bool"

text \<open>A download that failed is a \<open>runtime_error\<close>, which the caller catches: here a \<open>Failed\<close>.\<close>

definition mlc_engine_new ::
  "'e engine_lib \<Rightarrow> host \<Rightarrow> net \<Rightarrow> string \<Rightarrow> string \<Rightarrow> u32 \<Rightarrow> string \<Rightarrow> files \<Rightarrow>
     (files \<times> (('st, 'e) mlc_engine \<times> string) or_error) res" where
  "mlc_engine_new E H N model q device mode fs =
     bindR (download_model H N model q (el_device_name E) fs) (\<lambda>(fs1, r).
       if \<not> dr_success r then mapR_res (\<lambda>e. (fs1, Failed e)) (opt_value (dr_error r))
       else
         bindR (opt_value (dr_path r)) (\<lambda>path.
         bindR (opt_value (dr_lib r)) (\<lambda>lib.
         bindR (el_create E path lib mode device) (\<lambda>core.
           let en = \<lparr>en_core = core, en_template = None, en_mode = Text_mode, en_tool_tokens = [],
                 en_stop_strs = [], en_stop_ids = [], en_requests = [], en_responses = [], en_error = None, en_uuids = 0\<rparr>
           in Inr (fs1, Got (case el_conversation E path of
                 Inl err \<Rightarrow> (en\<lparr>en_error := Some err\<rparr>, path)
               | Inr (strs, ids) \<Rightarrow> (en\<lparr>en_stop_strs := strs, en_stop_ids := ids\<rparr>, path)))))))"

definition load_bytes_from_file :: "host \<Rightarrow> string \<Rightarrow> files \<Rightarrow> string res" where
  "load_bytes_from_file H p fs =
     (case node_of (h_cwd H) p fs of
        None \<Rightarrow> Inl (LibThrow (''Cannot open '' @ p))
      | Some Dir \<Rightarrow> Inl (LibThrow ''length_error'')
      | Some (File s) \<Rightarrow> Inr s)"

definition make_from_config_file ::
  "codec \<Rightarrow> 'e engine_lib \<Rightarrow> host \<Rightarrow> string \<Rightarrow> files \<Rightarrow> chat_template res" where
  "make_from_config_file C E H p fs =
     bindR (load_bytes_from_file H p fs) (\<lambda>s.
       case json_parse C s of
         None \<Rightarrow> Inl (LibThrow ''json::parse_error'')
       | Some cfg \<Rightarrow>
           bindR (bindR (json_at cfg ''template_file'') json_string) (\<lambda>name.
           bindR (load_bytes_from_file H (replace_filename p name) fs) (\<lambda>content.
           bindR (bindR (json_at cfg ''bos_token'') json_string) (\<lambda>bos.
           bindR (bindR (json_at cfg ''eos_token'') json_string) (\<lambda>eos.
           bindR (json_value json_string cfg ''botc_token'' []) (\<lambda>botc.
           bindR (json_value json_string cfg ''eotc_token'' []) (\<lambda>eotc.
           bindR (el_template E content bos eos) (\<lambda>apply.
             Inr \<lparr>ct_apply = apply, ct_botc = botc, ct_eotc = eotc\<rparr>))))))))"

definition create_tvm_language_model_component ::
  "codec \<Rightarrow> 'e engine_lib \<Rightarrow> host \<Rightarrow> net \<Rightarrow> val option \<Rightarrow> files \<Rightarrow> (files \<times> ('st, 'e) lm_objs or_error) res" where
  "create_tvm_language_model_component C E H N inputs fs = bindR (deref inputs) (\<lambda>v.
     case parse_create v of
       Failed e \<Rightarrow> Inr (fs, Failed e)
     | Got (model, q, mode, d) \<Rightarrow>
         (case get_tvm_device (el_exist E) d of
            None \<Rightarrow> Inr (fs, Failed (runtime_error1 ''No supported device is detected for your system.''))
          | Some device \<Rightarrow>
              bindR (mlc_engine_new E H N model q device mode fs) (\<lambda>(fs1, r).
              case r of
                Failed e \<Rightarrow> Inr (fs1, Failed e)
              | Got (en, path) \<Rightarrow>
                  (case en_error en of
                     Some err \<Rightarrow> Inr (fs1, Failed err)
                   | None \<Rightarrow>
                       bindR (make_from_config_file C E H (path_join path ''chat-template-config.json'') fs1) (\<lambda>t.
                         Inr (fs1, Got (set_obj ''template_engine'' (Template_obj t)
                           (set_obj ''engine'' (Engine_obj (en\<lparr>en_template := Some t\<rparr>)) []))))))))"

end
