(* ===== verification/ModelProperties.thy ===== *)
theory ModelProperties
  imports LanguageModel
begin

text \<open>
  Properties of the language model: what is taken out of the stream of texts, when a step of
  \<open>infer\<close> returns, and what an error of the engine does.
\<close>

section \<open>The stream as a machine\<close>

text \<open>
  The state of the machine is the mode and the collected tokens; it reads one text at a time and
  may tell something: a text, or a tool call.
\<close>

definition react ::
  "codec \<Rightarrow> chat_template \<Rightarrow> output_mode \<times> string list \<Rightarrow> string \<Rightarrow>
     (output_mode \<times> string list) \<times> (string \<times> finish_reason option) list" where
  "react C t = (\<lambda>(m, tk) c.
     if c = ct_botc t then ((Tool_call_mode, tk), [])
     else if c = ct_eotc t then
       ((Text_mode, []), case get_json_str_if_valid C tk of None \<Rightarrow> [] | Some s \<Rightarrow> [(s, Some Fr_tool_calls)])
     else if m = Tool_call_mode then ((m, tk @ [c]), [])
     else if c = [] then ((m, tk), [])
     else if c = ''<think>'' then ((Reasoning_mode, tk), [])
     else if c = ''</think>'' then ((Text_mode, tk), [])
     else ((m, tk), [(c, None)]))"

fun reacts ::
  "codec \<Rightarrow> chat_template \<Rightarrow> output_mode \<times> string list \<Rightarrow> string list \<Rightarrow>
     (output_mode \<times> string list) \<times> (string \<times> finish_reason option) list" where
  "reacts C t s [] = (s, [])"
| "reacts C t s (c # cs) = (let (s1, o1) = react C t s c; (s2, o2) = reacts C t s1 cs in (s2, o1 @ o2))"

lemma reacts_append:
  "reacts C t s (cs @ ds) = (let (s1, o1) = reacts C t s cs; (s2, o2) = reacts C t s1 ds in (s2, o1 @ o2))"
  by (induction cs arbitrary: s) (auto simp: Let_def split: prod.splits)

text \<open>One piece of a completion with one choice, and the response that tells something.\<close>

definition piece :: "string \<Rightarrow> u32 list \<Rightarrow> delta_output" where
  "piece rid ts = \<lparr>do_request = rid, do_usage = None, do_finish = [None], do_tokens = [ts]\<rparr>"

definition told :: "string \<Rightarrow> string \<Rightarrow> string \<times> finish_reason option \<Rightarrow> stream_response" where
  "told rid model x = \<lparr>sr_id = rid, sr_model = model, sr_usage = None,
     sr_choices = [\<lparr>sc_index = 0, sc_finish = snd x, sc_role = ''assistant'', sc_content = Some (fst x)\<rparr>]\<rparr>"

fun texts :: "('st, 'e, 'x) llm \<Rightarrow> 'st \<Rightarrow> u32 list list \<Rightarrow> string list" where
  "texts L st [] = []"
| "texts L st (ts # tss) = snd (lm_put L st ts) # texts L (fst (lm_put L st ts)) tss"

definition at_stream ::
  "chat_template \<Rightarrow> string \<Rightarrow> string \<Rightarrow> 'st \<Rightarrow> output_mode \<times> string list \<Rightarrow> ('st, 'e) mlc_engine \<Rightarrow> bool" where
  "at_stream t rid model st s en \<longleftrightarrow>
     en_template en = Some t \<and> map_of (en_requests en) rid = Some \<lparr>rq_model = model, rq_streamers = [st]\<rparr> \<and>
     (en_mode en, en_tool_tokens en) = s"

lemma one_piece:
  assumes "at_stream t rid model st s en"
  shows "\<exists>en'. one_output L C (piece rid ts) en =
      Inr (en', map (told rid model) (snd (react C t s (snd (lm_put L st ts))))) \<and>
    at_stream t rid model (fst (lm_put L st ts)) (fst (react C t s (snd (lm_put L st ts)))) en'"
proof -
  obtain st' c where p: "lm_put L st ts = (st', c)" by fastforce
  let ?ch = "\<lparr>sc_index = 0, sc_finish = None, sc_role = [], sc_content = None\<rparr> :: stream_choice"
  have "\<exists>p. put_content C c en ?ch = Inr p" using assms by (simp add: put_content_def at_stream_def)
  then obtain en1 ch where pc: "put_content C c en ?ch = Inr (en1, ch)" by auto
  have run: "one_output L C (piece rid ts) en = Inr
      (en1\<lparr>en_requests := put rid \<lparr>rq_model = model, rq_streamers = [st']\<rparr> (en_requests en1)\<rparr>,
       if sc_content ch = None \<and> sc_finish ch = None then []
       else [\<lparr>sr_id = rid, sr_model = model, sr_usage = None, sr_choices = [ch\<lparr>sc_role := ''assistant''\<rparr>]\<rparr>])"
    using assms p pc by (auto simp: one_output_def piece_def at_stream_def stream_text_def finish_of_def Let_def)
  have "at_stream t rid model st' (fst (react C t s c))
      (en1\<lparr>en_requests := put rid \<lparr>rq_model = model, rq_streamers = [st']\<rparr> (en_requests en1)\<rparr>)"
    using assms pc
    by (auto simp: at_stream_def put_content_def react_def is_botc_token_def is_eotc_token_def split: if_splits)
  moreover have "(if sc_content ch = None \<and> sc_finish ch = None then []
       else [\<lparr>sr_id = rid, sr_model = model, sr_usage = None, sr_choices = [ch\<lparr>sc_role := ''assistant''\<rparr>]\<rparr>]) =
      map (told rid model) (snd (react C t s c))"
    using assms pc
    by (auto simp: at_stream_def put_content_def react_def is_botc_token_def is_eotc_token_def told_def
        split: if_splits option.splits)
  ultimately show ?thesis using run p by auto
qed

lemma stream_reacts:
  assumes "at_stream t rid model st s en"
  shows "\<exists>en'. get_response_from_stream_output L C (map (piece rid) tss) en =
      Inr (en', map (told rid model) (snd (reacts C t s (texts L st tss)))) \<and>
    (en_mode en', en_tool_tokens en') = fst (reacts C t s (texts L st tss))"
  using assms
proof (induction tss arbitrary: en st s)
  case Nil
  then show ?case by (auto simp: at_stream_def)
next
  case (Cons ts tss)
  obtain en1 where 1: "one_output L C (piece rid ts) en =
      Inr (en1, map (told rid model) (snd (react C t s (snd (lm_put L st ts)))))"
    "at_stream t rid model (fst (lm_put L st ts)) (fst (react C t s (snd (lm_put L st ts)))) en1"
    using one_piece [OF Cons.prems] by blast
  obtain en2 where 2: "get_response_from_stream_output L C (map (piece rid) tss) en1 =
      Inr (en2, map (told rid model) (snd (reacts C t (fst (react C t s (snd (lm_put L st ts))))
        (texts L (fst (lm_put L st ts)) tss))))"
    "(en_mode en2, en_tool_tokens en2) = fst (reacts C t (fst (react C t s (snd (lm_put L st ts))))
        (texts L (fst (lm_put L st ts)) tss))"
    using Cons.IH [OF 1(2)] by blast
  from 1 2 show ?case by (auto simp: Let_def split: prod.split)
qed

section \<open>Tool calls\<close>

lemma reacts_plain:
  "\<forall>c \<in> set cs. c \<notin> {[], ct_botc t, ct_eotc t, ''<think>'', ''</think>''} \<Longrightarrow> m \<noteq> Tool_call_mode \<Longrightarrow>
     reacts C t (m, tk) cs = ((m, tk), map (\<lambda>c. (c, None)) cs)"
  by (induction cs) (auto simp: react_def Let_def)

lemma reacts_inside:
  "\<forall>c \<in> set cs. c \<notin> {ct_botc t, ct_eotc t} \<Longrightarrow>
     reacts C t (Tool_call_mode, tk) cs = ((Tool_call_mode, tk @ cs), [])"
  by (induction cs arbitrary: tk) (auto simp: react_def Let_def)

text \<open>
  C27. A tool call is taken out of the text. The texts of a completion are some plain ones, the
  marker that begins a tool call, the texts of the call, the marker that ends it, and plain ones
  again. Then what is told is the plain texts before, unchanged and in order, the tool call as one
  piece of JSON if its texts make a JSON document, and the plain texts after it; no marker and no
  part of a call is told as text.
\<close>

theorem tool_call_taken_out:
  assumes "at_stream t rid model st (Text_mode, []) en" and "ct_botc t \<noteq> ct_eotc t"
    and "texts L st tss = pre @ [ct_botc t] @ inner @ [ct_eotc t] @ post"
    and "\<forall>c \<in> set (pre @ post). c \<notin> {[], ct_botc t, ct_eotc t, ''<think>'', ''</think>''}"
    and "\<forall>c \<in> set inner. c \<notin> {ct_botc t, ct_eotc t}"
  shows "\<exists>en'. get_response_from_stream_output L C (map (piece rid) tss) en =
      Inr (en', map (\<lambda>c. told rid model (c, None)) pre @
        (case get_json_str_if_valid C inner of None \<Rightarrow> [] | Some s \<Rightarrow> [told rid model (s, Some Fr_tool_calls)]) @
        map (\<lambda>c. told rid model (c, None)) post) \<and>
    en_mode en' = Text_mode \<and> en_tool_tokens en' = []"
proof -
  have "reacts C t (Text_mode, []) (texts L st tss) =
      ((Text_mode, []), map (\<lambda>c. (c, None)) pre @
        (case get_json_str_if_valid C inner of None \<Rightarrow> [] | Some s \<Rightarrow> [(s, Some Fr_tool_calls)]) @
        map (\<lambda>c. (c, None)) post)"
    unfolding assms(3) using assms(2,4,5)
    by (simp add: reacts_append reacts_plain reacts_inside react_def Let_def)
  with stream_reacts [OF assms(1), of L C tss] show ?thesis
    by (auto simp: comp_def split: option.splits)
qed

text \<open>
  A library for examples: the text of a token is its character, and what the engine does at each
  step is written down in its state.
\<close>

definition demo_llm :: "(unit, delta_output list list list, unit) llm" where
  "demo_llm = \<lparr>lm_streamer = (), lm_put = (\<lambda>st ts. (st, map (\<lambda>t. char_of (unat t)) ts)), lm_finish = (\<lambda>st. (st, [])),
     lm_step = (\<lambda>e. case e of [] \<Rightarrow> ([], []) | ds # e' \<Rightarrow> (e', ds)), lm_add = (\<lambda>e rid inputs g. e),
     lm_request = \<lparr>q_n = 1, q_stream = True, q_model = None, q_stop = None, q_temperature = None, q_top_p = None,
       q_frequency_penalty = None, q_presence_penalty = None, q_logprobs = (), q_top_logprobs = (),
       q_logit_bias = None, q_seed = None, q_max_tokens = None, q_response_format = None, q_debug_config = None\<rparr>,
     lm_defaults = \<lparr>g_n = 1, g_temperature = (), g_top_p = (), g_frequency_penalty = (), g_presence_penalty = (),
       g_logprobs = (), g_top_logprobs = (), g_logit_bias = (), g_seed = (), g_max_tokens = (), g_stop_strs = [],
       g_stop_ids = [], g_response_format = (), g_debug_config = ()\<rparr>,
     lm_random = (), lm_format = (), lm_debug = (), lm_validate = (\<lambda>g. None), lm_usage_error = (\<lambda>u. [])\<rparr>"

definition demo_template :: chat_template where
  "demo_template = \<lparr>ct_apply = (\<lambda>ms ts g ctx. Inr ''prompt''), ct_botc = ''<'', ct_eotc = ''>''\<rparr>"

definition demo_codec :: codec where
  "demo_codec = \<lparr>cbor_out = (\<lambda>j. []), cbor_in = (\<lambda>bs. None), json_dump = (\<lambda>j. None),
     json_parse = (\<lambda>s. if s = ''{}'' then Some (JObject []) else None)\<rparr>"

definition demo_engine :: "delta_output list list list \<Rightarrow> (unit, delta_output list list list) mlc_engine" where
  "demo_engine e = \<lparr>en_core = e, en_template = Some demo_template, en_mode = Text_mode, en_tool_tokens = [],
     en_stop_strs = [], en_stop_ids = [], en_requests = [(''r'', \<lparr>rq_model = ''m'', rq_streamers = [()]\<rparr>)],
     en_responses = [], en_error = None, en_uuids = 0\<rparr>"

lemma demo_at: "at_stream demo_template ''r'' ''m'' () (Text_mode, []) (demo_engine e)"
  by (simp add: at_stream_def demo_engine_def)

lemma tool_call_taken_out_witness:
  "\<exists>en'. get_response_from_stream_output demo_llm demo_codec
      (map (piece ''r'') [[104, 105], [60], [123], [125, 32], [62], [33]]) (demo_engine []) =
    Inr (en', [told ''r'' ''m'' (''hi'', None), told ''r'' ''m'' (''{}'', Some Fr_tool_calls),
               told ''r'' ''m'' (''!'', None)])"
proof -
  have tx: "texts demo_llm () [[104, 105], [60], [123], [125, 32], [62], [33]] =
      [''hi''] @ [ct_botc demo_template] @ [''{'', ''} ''] @ [ct_eotc demo_template] @ [''!'']"
    by code_simp
  have js: "get_json_str_if_valid demo_codec [''{'', ''} ''] = Some ''{}''" by code_simp
  have "ct_botc demo_template \<noteq> ct_eotc demo_template" by (simp add: demo_template_def)
  from tool_call_taken_out [OF demo_at this tx, of demo_codec "[]"] js
  show ?thesis by (auto simp: demo_template_def)
qed

text \<open>
  C30. A completion that is cut off within a tool call swallows the next one. The mode belongs to
  the engine, not to the request, and starting a completion does not reset it. So if the last
  completion ended within a tool call, nothing of the new one is told, unless the marker that ends
  a tool call comes. A template without markers has empty ones: then no text can end the call.
\<close>

theorem tool_mode_swallows:
  assumes "en_mode en = Tool_call_mode" and "en_template en = Some t"
    and "lm_validate L (make_gen_config L ((lm_request L)\<lparr>q_n := 1, q_stream := True\<rparr>) (en_stop_strs en) (en_stop_ids en)) = None"
    and "\<forall>c \<in> set (texts L (lm_streamer L) tss). c = ct_botc t \<or> c \<noteq> ct_eotc t"
  shows "\<exists>en'. get_response_from_stream_output L C (map (piece rid) tss) (initialize_chat_completion L rid prompt en) =
      Inr (en', []) \<and> en_mode en' = Tool_call_mode"
proof -
  let ?q = "(lm_request L)\<lparr>q_n := 1, q_stream := True\<rparr>"
  have "sint (1 :: u32) = 1" by simp
  then have at: "at_stream t rid (value_or (q_model ?q) rid) (lm_streamer L) (Tool_call_mode, en_tool_tokens en)
      (initialize_chat_completion L rid prompt en)"
    using assms(1-3) by (simp add: initialize_chat_completion_def at_stream_def make_gen_config_def Let_def)
  have "\<exists>tk'. reacts C t (Tool_call_mode, tk) cs = ((Tool_call_mode, tk'), [])"
    if "\<forall>c \<in> set cs. c = ct_botc t \<or> c \<noteq> ct_eotc t" for tk cs
    using that
  proof (induction cs arbitrary: tk)
    case (Cons c cs)
    then show ?case by (cases "c = ct_botc t") (auto simp: react_def Let_def)
  qed simp
  with assms(4) obtain tk' where "reacts C t (Tool_call_mode, en_tool_tokens en) (texts L (lm_streamer L) tss) =
      ((Tool_call_mode, tk'), [])" by blast
  with stream_reacts [OF at, of L C tss] show ?thesis by auto
qed

lemma tool_mode_swallows_witness:
  "\<exists>en'. get_response_from_stream_output demo_llm demo_codec (map (piece ''s'') [[104, 105], [33]])
      (initialize_chat_completion demo_llm ''s'' ''prompt'' ((demo_engine [])\<lparr>en_mode := Tool_call_mode\<rparr>)) =
    Inr (en', []) \<and> en_mode en' = Tool_call_mode"
proof (rule tool_mode_swallows)
  show "\<forall>c \<in> set (texts demo_llm (lm_streamer demo_llm) [[104, 105], [33]]).
      c = ct_botc demo_template \<or> c \<noteq> ct_eotc demo_template" by code_simp
qed (simp_all add: demo_engine_def demo_llm_def)

section \<open>The loop of a step\<close>

text \<open>One round: what the step says, and whether the loop goes on.\<close>

definition goes_on ::
  "('st, 'e, 'x) llm \<Rightarrow> codec \<Rightarrow> (nat \<Rightarrow> string) \<Rightarrow> bool \<Rightarrow> string \<Rightarrow>
     ('st, 'e) mlc_engine \<Rightarrow> ('st, 'e) mlc_engine \<Rightarrow> bool" where
  "goes_on L C uuid ignore rid en en1 \<longleftrightarrow>
     (\<exists>out. step_chat_completion L C uuid rid en = Inr (en1, out) \<and> en_error en1 = None \<and>
        (\<forall>resp. out = Some resp \<longrightarrow> rs_finish resp = None \<and> dismiss_delta ignore (rs_message resp) = Inr True))"

inductive rounds ::
  "('st, 'e, 'x) llm \<Rightarrow> codec \<Rightarrow> (nat \<Rightarrow> string) \<Rightarrow> bool \<Rightarrow> string \<Rightarrow> ('st, 'e) mlc_engine \<Rightarrow>
     (('st, 'e) mlc_engine \<times> (string + response_state)) res \<Rightarrow> bool"
  for L :: "('st, 'e, 'x) llm" and C uuid ignore rid where
  fault: "step_chat_completion L C uuid rid en = Inl f \<Longrightarrow> rounds L C uuid ignore rid en (Inl f)"
| engine_error: "step_chat_completion L C uuid rid en = Inr (en1, out) \<Longrightarrow> en_error en1 = Some err \<Longrightarrow>
    rounds L C uuid ignore rid en (Inr (en1, Inl err))"
| finished: "step_chat_completion L C uuid rid en = Inr (en1, Some resp) \<Longrightarrow> en_error en1 = None \<Longrightarrow>
    rs_finish resp \<noteq> None \<Longrightarrow> rounds L C uuid ignore rid en (Inr (en1, Inr resp))"
| bad_delta: "step_chat_completion L C uuid rid en = Inr (en1, Some resp) \<Longrightarrow> en_error en1 = None \<Longrightarrow>
    rs_finish resp = None \<Longrightarrow> dismiss_delta ignore (rs_message resp) = Inl f \<Longrightarrow>
    rounds L C uuid ignore rid en (Inl f)"
| told_delta: "step_chat_completion L C uuid rid en = Inr (en1, Some resp) \<Longrightarrow> en_error en1 = None \<Longrightarrow>
    rs_finish resp = None \<Longrightarrow> dismiss_delta ignore (rs_message resp) = Inr False \<Longrightarrow>
    rounds L C uuid ignore rid en (Inr (en1, Inr resp))"
| again: "goes_on L C uuid ignore rid en en1 \<Longrightarrow> rounds L C uuid ignore rid en1 r \<Longrightarrow>
    rounds L C uuid ignore rid en r"

lemma infer_loop_rounds: "infer_loop L C uuid ignore rid en = Some r \<Longrightarrow> rounds L C uuid ignore rid en r"
proof (induction rule: infer_loop.raw_induct [rotated, consumes 1, case_names 1])
  case (1 loop L C uuid ignore rid en r)
  show ?case
  proof (cases "step_chat_completion L C uuid rid en")
    case (Inl f)
    with 1(2) show ?thesis by (auto intro: rounds.fault)
  next
    case (Inr p)
    obtain en1 out where p: "p = (en1, out)" by fastforce
    show ?thesis
    proof (cases "en_error en1")
      case (Some err)
      with 1(2) Inr p show ?thesis by (auto intro: rounds.engine_error)
    next
      case None
      note ok = None
      show ?thesis
      proof (cases out)
        case None
        then have "goes_on L C uuid ignore rid en en1" using Inr p ok by (auto simp: goes_on_def)
        moreover have "loop L C uuid ignore rid en1 = Some r" using 1(2) Inr p ok None by simp
        ultimately show ?thesis using 1(1) by (blast intro: rounds.again)
      next
        case (Some resp)
        note st = Inr [unfolded p Some] ok
        show ?thesis
        proof (cases "rs_finish resp")
          case None
          show ?thesis
          proof (cases "dismiss_delta ignore (rs_message resp)")
            case (Inl f)
            with 1(2) st None show ?thesis by (auto intro: rounds.bad_delta)
          next
            case (Inr b)
            show ?thesis
            proof (cases b)
              case True
              then have "goes_on L C uuid ignore rid en en1" using st None Inr by (auto simp: goes_on_def)
              moreover have "loop L C uuid ignore rid en1 = Some r" using 1(2) st None Inr True by simp
              ultimately show ?thesis using 1(1) by (blast intro: rounds.again)
            next
              case False
              with 1(2) st None Inr show ?thesis by (auto intro: rounds.told_delta)
            qed
          qed
        next
          case (Some reason)
          with 1(2) st show ?thesis by (auto intro: rounds.finished)
        qed
      qed
    qed
  qed
qed

lemma rounds_infer_loop: "rounds L C uuid ignore rid en r \<Longrightarrow> infer_loop L C uuid ignore rid en = Some r"
proof (induction rule: rounds.induct)
  case (again en en1 r)
  then obtain out where out: "step_chat_completion L C uuid rid en = Inr (en1, out)" "en_error en1 = None"
    "\<forall>resp. out = Some resp \<longrightarrow> rs_finish resp = None \<and> dismiss_delta ignore (rs_message resp) = Inr True"
    by (auto simp: goes_on_def)
  with again show ?case by (subst infer_loop.simps) (cases out; simp)
qed (subst infer_loop.simps, simp)+

lemma infer_loop_exact: "infer_loop L C uuid ignore rid en = Some r \<longleftrightarrow> rounds L C uuid ignore rid en r"
  using infer_loop_rounds rounds_infer_loop by blast

text \<open>When the library has nothing more to say, the loop does not end.\<close>

definition quiet :: "('st, 'e, 'x) llm \<Rightarrow> 'e \<Rightarrow> bool" where
  "quiet L e \<longleftrightarrow> (\<forall>n. snd (lm_step L (((\<lambda>e. fst (lm_step L e)) ^^ n) e)) = [])"

lemma quiet_step: "quiet L e \<Longrightarrow> lm_step L e = (e', calls) \<Longrightarrow> calls = [] \<and> quiet L e'"
proof -
  assume q: "quiet L e" and s: "lm_step L e = (e', calls)"
  have "calls = []" using q s unfolding quiet_def by (metis funpow_0 snd_conv)
  moreover have "((\<lambda>e. fst (lm_step L e)) ^^ n) e' = ((\<lambda>e. fst (lm_step L e)) ^^ Suc n) e" for n
    by (simp only: funpow_Suc_right comp_def) (simp add: s)
  then have "quiet L e'" using q unfolding quiet_def by metis
  ultimately show ?thesis by blast
qed

lemma quiet_no_step:
  assumes "quiet L (en_core en)" and "en_error en = None"
  shows "\<exists>en1. step_chat_completion L C uuid rid en = Inr (en1, None) \<and> quiet L (en_core en1) \<and> en_error en1 = None"
proof -
  obtain e' calls where s: "lm_step L (en_core en) = (e', calls)" by fastforce
  with quiet_step [OF assms(1)] have "calls = []" "quiet L e'" by blast+
  with s assms(2) show ?thesis by (simp add: step_chat_completion_def)
qed

lemma quiet_no_rounds: "rounds L C uuid ignore rid en r \<Longrightarrow> quiet L (en_core en) \<Longrightarrow> en_error en = None \<Longrightarrow> False"
proof (induction rule: rounds.induct)
  case (again en en1 r)
  with quiet_no_step [of L en C uuid rid] show ?case by (auto simp: goes_on_def)
qed (use quiet_no_step [where L = L and C = C and uuid = uuid and rid = rid] in \<open>fastforce+\<close>)

text \<open>
  C29. An answer that is cut off at its maximal length never ends. Only the reason \<open>stop\<close> marks
  the last output; after any other one, \<open>length\<close> and \<open>error\<close> included, the operator is stepped
  again. If the library then has nothing more to say, this step does not return.
\<close>

theorem cut_off_never_ends:
  assumes "infer_step L C uuid os (Some (String_t rid)) = Some (Inr (os1, Ok_output (Some (Map_t m)) fin))"
    and "map_of m ''finish_reason'' = Some (String_t reason)" and "reason \<noteq> ''stop''"
    and "get_obj as_engine os1 ''engine'' = Some en1" and "en_error en1 = None" and "quiet L (en_core en1)"
  shows "fin = False \<and> infer_step L C uuid os1 (Some (String_t rid)) = None"
proof -
  obtain ignore en where obj: "get_obj as_flag os ''ignore_reasoning_messages'' = Some ignore"
    "get_obj as_engine os ''engine'' = Some en"
    using assms(1)
    by (cases "get_obj as_flag os ''ignore_reasoning_messages''"; cases "get_obj as_engine os ''engine''")
      (auto simp: infer_step_def)
  obtain en2 res where res: "(case res of Inl err \<Rightarrow> Inr (set_obj ''engine'' (Engine_obj en2) os, Error_output err)
      | Inr resp \<Rightarrow> mapR_res (Pair (set_obj ''engine'' (Engine_obj en2) os)) (infer_output resp)) =
      Inr (os1, Ok_output (Some (Map_t m)) fin)"
    using assms(1) obj by (auto simp: infer_step_def bindR_eq_Inr Let_def)
  then obtain resp where out: "infer_output resp = Inr (Ok_output (Some (Map_t m)) fin)"
    "os1 = set_obj ''engine'' (Engine_obj en2) os"
    by (cases res) (auto simp: mapR_res_def bindR_eq_Inr)
  have "fin = (rs_finish resp = Some ''stop'')" "rs_finish resp = Some reason"
    using out(1) assms(2) by (auto simp: infer_output_def bindR_eq_Inr split: option.splits)
  moreover have "infer_loop L C uuid ignore rid en1 = None"
    using quiet_no_rounds [OF infer_loop_rounds assms(6,5)] by (cases "infer_loop L C uuid ignore rid en1") auto
  moreover have "get_obj as_flag os1 ''ignore_reasoning_messages'' = Some ignore"
    using obj(1) by (simp add: out(2) get_obj_def set_obj_def)
  ultimately show ?thesis using assms(3,4) by (simp add: infer_step_def)
qed

definition cut_off :: "delta_output list list list" where
  "cut_off = [[[\<lparr>do_request = ''r'', do_usage = None, do_finish = [Some ''length''], do_tokens = [[]]\<rparr>]]]"

lemma demo_step:
  "step_chat_completion demo_llm demo_codec (\<lambda>n. ''u'') ''r'' (demo_engine cut_off) =
     Inr (demo_engine [], Some \<lparr>rs_message = JObject [(''content'', JString [CHR 0x0A]), (''role'', JString ''assistant'')],
       rs_finish = Some ''length''\<rparr>)"
  by (simp add: step_chat_completion_def demo_engine_def demo_llm_def cut_off_def engine_callback_def one_output_def
      stream_text_def finish_of_def put_content_def is_botc_token_def is_eotc_token_def demo_template_def
      on_response_def finish_message_def json_set_def del_def Let_def)

lemma demo_quiet: "quiet demo_llm []"
proof -
  have "((\<lambda>e. fst (lm_step demo_llm e)) ^^ n) [] = []" for n
    by (induction n) (simp_all add: demo_llm_def)
  then show ?thesis by (simp add: quiet_def) (simp add: demo_llm_def)
qed

lemma cut_off_never_ends_witness:
  "infer_step demo_llm demo_codec (\<lambda>n. ''u'')
     [(''engine'', Engine_obj (demo_engine [])), (''ignore_reasoning_messages'', Flag_obj False)]
     (Some (String_t ''r'')) = None"
proof -
  let ?os = "[(''engine'', Engine_obj (demo_engine cut_off)), (''ignore_reasoning_messages'', Flag_obj False)]"
  let ?os1 = "[(''engine'', Engine_obj (demo_engine [])), (''ignore_reasoning_messages'', Flag_obj False)]"
  let ?m = "[(''finish_reason'', String_t ''length''),
    (''message'', Map_t [(''content'', String_t [CHR 0x0A]), (''role'', String_t ''assistant'')])]"
  have "infer_loop demo_llm demo_codec (\<lambda>n. ''u'') False ''r'' (demo_engine cut_off) = Some (Inr (demo_engine [],
      Inr \<lparr>rs_message = JObject [(''content'', JString [CHR 0x0A]), (''role'', JString ''assistant'')],
           rs_finish = Some ''length''\<rparr>))"
    by (subst infer_loop.simps) (simp add: demo_step, simp add: demo_engine_def)
  then have step: "infer_step demo_llm demo_codec (\<lambda>n. ''u'') ?os (Some (String_t ''r'')) =
      Some (Inr (?os1, Ok_output (Some (Map_t ?m)) False))"
    by (simp add: infer_step_def get_obj_def set_obj_def infer_output_def put_all_def)
  have en: "get_obj as_engine ?os1 ''engine'' = Some (demo_engine [])" by (simp add: get_obj_def)
  have "en_error (demo_engine []) = None" "quiet demo_llm (en_core (demo_engine []))"
    using demo_quiet by (simp_all add: demo_engine_def)
  from cut_off_never_ends [OF step _ _ en this] show ?thesis by simp
qed

section \<open>Errors of the engine\<close>

lemma put_content_error:
  "put_content C c en ch = Inr (en1, ch1) \<Longrightarrow> en_error en1 = en_error en"
  by (auto simp: put_content_def bindR_eq_Inr split: if_splits)

lemma choices_loop_error:
  "choices_loop L C i outs sts en = Inr (sts', en1, chs) \<Longrightarrow> en_error en1 = en_error en"
proof (induction L C i outs sts en arbitrary: sts' chs en1 rule: choices_loop.induct)
  case (1 L C i f tokens outs st sts en)
  obtain st' c where t: "stream_text L st tokens (f \<noteq> None) = (st', c)" by fastforce
  obtain en2 ch sts2 en3 chs2 where r:
    "put_content C c en \<lparr>sc_index = word_of_nat i, sc_finish = finish_of f, sc_role = [], sc_content = None\<rparr> = Inr (en2, ch)"
    "choices_loop L C (Suc i) outs sts en2 = Inr (sts2, en3, chs2)" "en1 = en3"
    using "1.prems" t by (auto simp: bindR_eq_Inr)
  have "en_error en3 = en_error en2" by (rule "1.IH" [OF refl t [symmetric] r(1) refl r(2)])
  with put_content_error [OF r(1)] r(3) show ?case by simp
qed auto

lemma one_output_error:
  assumes "one_output L C d en = Inr (en1, rs)" and "en_error en \<noteq> None" shows "en_error en1 \<noteq> None"
proof (cases "map_of (en_requests en) (do_request d)")
  case None
  with assms show ?thesis by (simp add: one_output_def)
next
  case (Some rq)
  show ?thesis
  proof (cases "do_usage d")
    case None
    with assms Some obtain sts en2 chs where
      "choices_loop L C 0 (zip (do_finish d) (do_tokens d)) (rq_streamers rq) en = Inr (sts, en2, chs)"
      "en_error en1 = en_error en2"
      by (auto simp: one_output_def Let_def bindR_eq_Inr split: if_splits)
    with choices_loop_error assms(2) show ?thesis by metis
  next
    case u: (Some u)
    with assms Some show ?thesis by (auto simp: one_output_def Let_def split: if_splits)
  qed
qed

lemma get_response_error:
  "get_response_from_stream_output L C ds en = Inr (en1, rs) \<Longrightarrow> en_error en \<noteq> None \<Longrightarrow> en_error en1 \<noteq> None"
proof (induction ds arbitrary: en rs)
  case (Cons d ds)
  then obtain en2 rs1 rs2 where "one_output L C d en = Inr (en2, rs1)"
    "get_response_from_stream_output L C ds en2 = Inr (en1, rs2)"
    by (auto simp: bindR_eq_Inr)
  with Cons one_output_error show ?case by blast
qed simp

lemma on_response_error: "on_response C uuid r en = Inr en1 \<Longrightarrow> en_error en1 = en_error en"
  by (auto simp: on_response_def Let_def bindR_eq_Inr split: list.splits option.splits finish_reason.splits)

lemma on_responses_error: "on_responses C uuid rs en = Inr en1 \<Longrightarrow> en_error en1 = en_error en"
  by (induction rs arbitrary: en) (auto simp: bindR_eq_Inr dest!: on_response_error)

lemma engine_callbacks_error:
  "engine_callbacks L C uuid dss en = Inr en1 \<Longrightarrow> en_error en \<noteq> None \<Longrightarrow> en_error en1 \<noteq> None"
proof (induction dss arbitrary: en)
  case (Cons ds dss)
  then obtain en2 en3 rs where "get_response_from_stream_output L C ds en = Inr (en2, rs)"
    "on_responses C uuid rs en2 = Inr en3" "engine_callbacks L C uuid dss en3 = Inr en1"
    by (auto simp: engine_callback_def bindR_eq_Inr)
  with Cons get_response_error on_responses_error show ?case by metis
qed simp

text \<open>
  An error of the engine is final: nothing clears it. Starting another completion does not,
  and every step from then on returns an error at once, so the component is of no use any more.
\<close>

lemma engine_error_final:
  assumes "en_error en \<noteq> None"
  shows "en_error (initialize_chat_completion L rid prompt en) \<noteq> None \<and>
    (case infer_loop L C uuid ignore rid en of
       None \<Rightarrow> False
     | Some (Inl f) \<Rightarrow> True
     | Some (Inr (en1, r)) \<Rightarrow> en_error en1 \<noteq> None \<and> (\<exists>err. r = Inl err))"
proof
  show "en_error (initialize_chat_completion L rid prompt en) \<noteq> None"
    using assms by (auto simp: initialize_chat_completion_def Let_def split: option.split)
  show "case infer_loop L C uuid ignore rid en of None \<Rightarrow> False | Some (Inl f) \<Rightarrow> True
     | Some (Inr (en1, r)) \<Rightarrow> en_error en1 \<noteq> None \<and> (\<exists>err. r = Inl err)"
  proof (cases "step_chat_completion L C uuid rid en")
    case (Inl f)
    then show ?thesis by (subst infer_loop.simps) simp
  next
    case (Inr p)
    obtain en1 out where p: "p = (en1, out)" by fastforce
    obtain core calls where s: "lm_step L (en_core en) = (core, calls)" by fastforce
    have "en_error en1 \<noteq> None"
      using Inr p s assms
      by (auto simp: step_chat_completion_def Let_def bindR_eq_Inr dest!: engine_callbacks_error split: if_splits)
    then obtain err where "en_error en1 = Some err" by blast
    with Inr p show ?thesis by (subst infer_loop.simps) simp
  qed
qed

lemma engine_error_final_witness:
  "\<exists>en1. infer_loop demo_llm demo_codec (\<lambda>n. ''u'') False ''r'' ((demo_engine [])\<lparr>en_error := Some ''bad''\<rparr>) =
     Some (Inr (en1, Inl ''bad'')) \<and> en_error en1 \<noteq> None"
proof -
  let ?en = "(demo_engine [])\<lparr>en_error := Some ''bad''\<rparr>"
  have st: "step_chat_completion demo_llm demo_codec (\<lambda>n. ''u'') ''r'' ?en = Inr (?en, None)"
    by (simp add: step_chat_completion_def demo_engine_def demo_llm_def del_def)
  have run: "infer_loop demo_llm demo_codec (\<lambda>n. ''u'') False ''r'' ?en = Some (Inr (?en, Inl ''bad''))"
    by (subst infer_loop.simps) (simp add: st)
  have "en_error ?en \<noteq> None" by simp
  from engine_error_final [OF this, of demo_llm "''r''" "''p''" demo_codec "\<lambda>n. ''u''" False] run
  show ?thesis by simp
qed

end
