(* ===== verification/NdArray.thy ===== *)
theory NdArray
  imports Values StringUtil
begin

text \<open>
  Half precision numbers and the printing of tensors (\<open>vm/src/ndarray_util.cpp\<close>): the conversion to
  single precision, on bits, and the texts that the two functions write.
\<close>

definition float16_to_float32 :: "u16 \<Rightarrow> u32" where
  "float16_to_float32 h =
     (let h_sign = h AND 0x8000; h_exp = h AND 0x7C00; h_mant = h AND 0x03FF;
          f_sign = push_bit 16 (ucast h_sign)
      in if h_exp = 0 then
           if h_mant = 0 then f_sign
           else (let mant = f32_div (int_to_float (uint h_mant)) 0x44800000; val = f32_ldexp mant (- 14)
                 in f_sign OR val)
         else if h_exp = 0x7C00 then f_sign OR 0x7F800000 OR push_bit 13 (ucast h_mant)
         else (let f_exp = push_bit 23 (drop_bit 10 (ucast h_exp) + 112); f_mant = push_bit 13 (ucast h_mant)
               in f_sign OR f_exp OR f_mant))"

section \<open>The fields of a half precision number\<close>

lemma and_push_mask: "w AND push_bit k (mask j) = push_bit k (take_bit j (drop_bit k w))" for w :: "'a::len word"
  by (rule bit_word_eqI) (auto simp: bit_simps)

lemma half_fields:
  fixes h :: u16
  defines "n \<equiv> unat h"
  shows "unat (h AND 0x8000) = n div 2 ^ 15 * 2 ^ 15" and "unat (h AND 0x7C00) = n div 2 ^ 10 mod 2 ^ 5 * 2 ^ 10"
    and "unat (h AND 0x03FF) = n mod 2 ^ 10"
proof -
  have n: "n < 2 ^ 16" using unsigned_less [of h] by (simp add: n_def)
  have masks: "(0x8000 :: u16) = push_bit 15 (mask 1)" "(0x7C00 :: u16) = push_bit 10 (mask 5)"
    "(0x03FF :: u16) = push_bit 0 (mask 10)" by (simp_all add: mask_eq_exp_minus_1 push_bit_eq_mult)
  have shift: "unat (push_bit k (take_bit j (drop_bit k h))) = n div 2 ^ k mod 2 ^ j * 2 ^ k" if "j + k \<le> 16" for j k
  proof -
    have "n div 2 ^ k mod 2 ^ j < 2 ^ j" by simp
    then have "n div 2 ^ k mod 2 ^ j * 2 ^ k < 2 ^ j * 2 ^ k" by (intro mult_strict_right_mono) simp_all
    also have "\<dots> = 2 ^ (j + k)" by (simp add: power_add)
    also have "\<dots> \<le> 2 ^ 16" using that by (intro power_increasing) simp_all
    finally show ?thesis
      unfolding unsigned_push_bit_eq unsigned_take_bit_eq unsigned_drop_bit_eq
      by (simp add: take_bit_eq_mod push_bit_eq_mult drop_bit_eq_div n_def)
  qed
  show "unat (h AND 0x8000) = n div 2 ^ 15 * 2 ^ 15"
    unfolding masks and_push_mask by (subst shift) (use n in simp_all)
  show "unat (h AND 0x7C00) = n div 2 ^ 10 mod 2 ^ 5 * 2 ^ 10"
    unfolding masks and_push_mask by (subst shift) simp_all
  show "unat (h AND 0x03FF) = n mod 2 ^ 10"
    unfolding masks and_push_mask by (subst shift) simp_all
qed

text \<open>Putting fields together that lie one above the other.\<close>

lemma unat_or_fields:
  fixes a b :: u32
  assumes "unat a = q * 2 ^ k" and "unat b < 2 ^ k"
  shows "unat (a OR b) = unat a + unat b"
proof -
  have "take_bit k (unat a) = 0" by (simp add: assms(1) take_bit_eq_mod)
  then have low: "\<not> bit (unat a) n" if "n < k" for n using that by (metis bit_take_bit_iff bit_0_eq bot_apply bot_bool_def)
  have "take_bit k (unat b) = unat b" using assms(2) by (rule take_bit_nat_eq_self)
  then have high: "\<not> bit (unat b) n" if "k \<le> n" for n using that by (metis bit_take_bit_iff not_le)
  have "unat a + unat b = unat a OR unat b" by (rule disjunctive_add) (metis low high not_le)
  then show ?thesis by (simp add: unsigned_or_eq)
qed

section \<open>The conversion is the one of the standard\<close>

lemma f32_of_nat:
  assumes "m < 2 ^ 24"
  shows "\<exists>y < fp_inf 23 8. int_to_float (int m) = word_of_nat y \<and> fp_mag 23 y = m * 2 ^ 149"
proof -
  have u: "fp_unit 23 8 = 149" by (simp add: fp_unit_def)
  let ?y = "fp_round 23 8 (m * 2 ^ 149) 1"
  have "?y < fp_inf 23 8" "fp_mag 23 ?y = m * 2 ^ 149"
    using fp_round_same [of 1 m 23 149 8] assms by simp_all
  then show ?thesis by (intro exI [of _ ?y]) (simp add: int_to_float_def fp_of_int_def fp_signed_def u)
qed

lemma f32_word_fields:
  assumes "y < fp_inf 23 8"
  shows "unat (word_of_nat y :: u32) = y" and "fp_abs 23 8 y = y" and "\<not> fp_neg 23 8 y"
    and "\<not> is_fp_nan 23 8 y" and "\<not> is_fp_inf 23 8 y"
proof -
  have y: "y < 2 ^ 31" using assms by (simp add: fp_inf_def)
  then show "unat (word_of_nat y :: u32) = y" by (simp add: unat_of_nat)
  show a: "fp_abs 23 8 y = y" "\<not> fp_neg 23 8 y" using y by (simp_all add: fp_abs_def fp_neg_def)
  show "\<not> is_fp_nan 23 8 y" "\<not> is_fp_inf 23 8 y" using assms by (simp_all add: is_fp_nan_def is_fp_inf_def a)
qed

text \<open>A subnormal number: the division by 1024 and the scaling are exact.\<close>

lemma subnormal_half:
  assumes "0 < m" and "m < 2 ^ 10"
  shows "\<exists>y < fp_inf 23 8. f32_ldexp (f32_div (int_to_float (int m)) 0x44800000) (- 14) = word_of_nat y \<and>
    fp_mag 23 y = m * 2 ^ 125"
proof -
  have u: "fp_unit 23 8 = 149" by (simp add: fp_unit_def)
  obtain a where a: "a < fp_inf 23 8" "int_to_float (int m) = word_of_nat a" "fp_mag 23 a = m * 2 ^ 149"
    using f32_of_nat [of m] assms by auto
  note fa = f32_word_fields [OF a(1)]
  have k: "(0x44800000 :: nat) < fp_inf 23 8" by (simp add: fp_inf_def)
  note fk = f32_word_fields [OF k]
  have mk: "fp_mag 23 0x44800000 = 2 ^ 159"
  proof -
    have "fp_mag 23 (137 * 2 ^ 23 + 0) = (2 ^ 23 + 0) * 2 ^ 136" by (subst fp_mag_fields) simp_all
    then show ?thesis by (simp flip: power_add)
  qed
  have w: "(0x44800000 :: u32) = word_of_nat 0x44800000" by simp
  let ?b = "fp_round 23 8 (m * 2 ^ 149 * 2 ^ 149) (2 ^ 159)"
  have eq: "m * 2 ^ 149 * 2 ^ 149 = m * 2 ^ 139 * (2 ^ 159 :: nat)" by (simp only: mult.assoc flip: power_add) simp
  have b: "?b < fp_inf 23 8" "fp_mag 23 ?b = m * 2 ^ 139"
    using fp_round_same [of "2 ^ 159" m 23 139 8 "m * 2 ^ 149 * 2 ^ 149"] assms eq by simp_all
  note fb = f32_word_fields [OF b(1)]
  have "fp_div 23 8 a 0x44800000 = ?b"
    by (simp only: fp_div_def fa fk a(3) mk u Let_def) (simp add: fp_signed_def)
  then have div: "f32_div (int_to_float (int m)) 0x44800000 = word_of_nat ?b"
    unfolding f32_div_def a(2) w fa(1) fk(1) by simp
  let ?y = "fp_round 23 8 (m * 2 ^ 139) (2 ^ 14)"
  have eq': "m * 2 ^ 139 = m * 2 ^ 125 * (2 ^ 14 :: nat)" by (simp only: mult.assoc flip: power_add) simp
  have y: "?y < fp_inf 23 8" "fp_mag 23 ?y = m * 2 ^ 125"
    using fp_round_same [of "2 ^ 14" m 23 125 8 "m * 2 ^ 139"] assms eq' by simp_all
  have ld: "fp_ldexp 23 8 ?b (- 14) = ?y"
    by (simp only: fp_ldexp_def fb b(2)) (simp add: fp_signed_def)
  show ?thesis unfolding div f32_ldexp_def fb(1) ld by (intro exI [of _ ?y] conjI y refl)
qed

lemma unat_shifted:
  fixes w :: u16
  assumes "unat w * 2 ^ k < 2 ^ 32"
  shows "unat (push_bit k (ucast w :: u32)) = unat w * 2 ^ k"
proof -
  have "unat (ucast w :: u32) = unat w" by (simp add: unsigned_ucast_eq take_bit_nat_eq_self less_le_trans [OF unsigned_less])
  then show ?thesis
    using assms unfolding unsigned_push_bit_eq by (simp add: push_bit_eq_mult take_bit_nat_eq_self)
qed

text \<open>The cases of the conversion: a number that fits, and the bits of a normal one.\<close>

lemma half_convert:
  assumes "fp_abs 10 5 n = e * 2 ^ 10 + m" and "e < 31" and "m < 2 ^ 10"
    and "y < fp_inf 23 8" and "fp_mag 23 y = fp_mag 10 (e * 2 ^ 10 + m) * 2 ^ 125"
  shows "fp_convert 10 5 23 8 n = fp_signed 23 8 (fp_neg 10 5 n) y"
proof -
  have u: "fp_unit 23 8 = 149" "fp_unit 10 5 = 24" by (simp_all add: fp_unit_def)
  have "e * 2 ^ 10 + m < fp_inf 10 5" using assms(2,3) by (simp add: fp_inf_def)
  then have c: "\<not> is_fp_nan 10 5 n" "\<not> is_fp_inf 10 5 n" by (simp_all add: is_fp_nan_def is_fp_inf_def assms(1))
  have "fp_mag 10 (e * 2 ^ 10 + m) * 2 ^ 149 = fp_mag 23 y * 2 ^ 24"
    unfolding assms(5) by (simp only: mult.assoc flip: power_add) simp
  moreover have "fp_round 23 8 (fp_mag 23 y * 2 ^ 24) (2 ^ 24) = y" by (rule fp_round_exact [OF _ assms(4)]) simp
  ultimately have "fp_round 23 8 (fp_mag 10 (e * 2 ^ 10 + m) * 2 ^ 149) (2 ^ 24) = y" by (simp only:)
  with c show ?thesis by (simp add: fp_convert_def assms(1) u)
qed

lemma half_normal_mag:
  assumes "e \<noteq> 0" and "m < 2 ^ 10"
  shows "fp_mag 23 ((e + 112) * 2 ^ 23 + m * 2 ^ 13) = fp_mag 10 (e * 2 ^ 10 + m) * 2 ^ 125"
proof -
  have f: "m * 2 ^ 13 < 2 ^ 23" using assms(2) by simp
  have "e + 112 - 1 = (e - 1) + 112" using assms(1) by simp
  then have "fp_mag 23 ((e + 112) * 2 ^ 23 + m * 2 ^ 13) = (2 ^ 23 + m * 2 ^ 13) * 2 ^ ((e - 1) + 112)"
    by (simp only: fp_mag_fields [OF f]) simp
  also have "\<dots> = (2 ^ 10 + m) * 2 ^ (e - 1) * 2 ^ 125" by (simp add: power_add algebra_simps)
  also have "\<dots> = fp_mag 10 (e * 2 ^ 10 + m) * 2 ^ 125" using assms(1) by (simp only: fp_mag_fields [OF assms(2)]) simp
  finally show ?thesis .
qed

lemma half_normal_bits:
  fixes h :: u16
  assumes "unat (h AND 0x7C00) = e * 2 ^ 10" and "unat (h AND 0x03FF) = m" and "e < 31" and "m < 2 ^ 10"
  shows "unat (push_bit 23 (drop_bit 10 (ucast (h AND 0x7C00)) + 112) OR push_bit 13 (ucast (h AND 0x03FF)) :: u32) =
    (e + 112) * 2 ^ 23 + m * 2 ^ 13"
proof -
  let ?e = "push_bit 23 (drop_bit 10 (ucast (h AND 0x7C00)) + 112) :: u32" and ?m = "push_bit 13 (ucast (h AND 0x03FF)) :: u32"
  have mm: "unat ?m = m * 2 ^ 13" using unat_shifted [of "h AND 0x03FF" 13] assms(4) by (simp add: assms(2))
  have "unat (drop_bit 10 (ucast (h AND 0x7C00)) :: u32) = e"
    using unat_shifted [of "h AND 0x7C00" 0] assms(3) unfolding unsigned_drop_bit_eq
    by (simp add: assms(1) drop_bit_eq_div take_bit_nat_eq_self)
  then have "unat (drop_bit 10 (ucast (h AND 0x7C00)) + 112 :: u32) = e + 112"
    using assms(3) by (simp add: unat_word_ariths)
  then have ee: "unat ?e = (e + 112) * 2 ^ 23"
    using assms(3) unfolding unsigned_push_bit_eq by (simp add: push_bit_eq_mult take_bit_nat_eq_self)
  show ?thesis using unat_or_fields [OF ee, of ?m] assms(4) by (simp add: ee mm)
qed

lemma float16_exact:
  assumes "\<not> is_fp_nan 10 5 (unat h)"
  shows "unat (float16_to_float32 h) = fp_convert 10 5 23 8 (unat h)"
proof -
  define n s e m where "n = unat h" and "s = n div 2 ^ 15" and "e = n div 2 ^ 10 mod 2 ^ 5" and "m = n mod 2 ^ 10"
  have n: "n < 2 ^ 16" using unsigned_less [of h] by (simp add: n_def)
  have s: "s < 2" using n by (simp add: s_def)
  have e: "e < 2 ^ 5" and m: "m < 2 ^ 10" by (simp_all add: e_def m_def)
  have abs: "fp_abs 10 5 n = e * 2 ^ 10 + m"
    unfolding fp_abs_def e_def m_def by (simp add: mod_mult2_eq [of n "2 ^ 10" "2 ^ 5", simplified])
  have neg: "fp_neg 10 5 n \<longleftrightarrow> s = 1" using s by (auto simp: fp_neg_def s_def less_2_cases_iff)
  have nan: "e = 31 \<longrightarrow> m = 0" using assms by (auto simp: is_fp_nan_def fp_inf_def abs simp flip: n_def)
  have fields: "unat (h AND 0x8000) = s * 2 ^ 15" "unat (h AND 0x7C00) = e * 2 ^ 10" "unat (h AND 0x03FF) = m"
    using half_fields [of h] by (simp_all only: n_def s_def e_def m_def)
  have zero: "h AND 0x7C00 = 0 \<longleftrightarrow> e = 0" "h AND 0x7C00 = 0x7C00 \<longleftrightarrow> e = 31" "h AND 0x03FF = 0 \<longleftrightarrow> m = 0"
    using fields by (simp_all add: word_unat_eq_iff)
  let ?sign = "push_bit 16 (ucast (h AND 0x8000)) :: u32"
  have sign: "unat ?sign = s * 2 ^ 31"
    using s unat_shifted [of "h AND 0x8000" 16] by (simp add: fields)
  have glued: "unat (?sign OR b) = fp_signed 23 8 (fp_neg 10 5 n) (unat b)" if "unat b < 2 ^ 31" for b
    using unat_or_fields [OF sign that] s by (auto simp: sign fp_signed_def neg less_2_cases_iff)
  have conv: "fp_convert 10 5 23 8 n = fp_signed 23 8 (fp_neg 10 5 n) y"
    if "e \<noteq> 31" "y < fp_inf 23 8" "fp_mag 23 y = fp_mag 10 (e * 2 ^ 10 + m) * 2 ^ 125" for y
    by (rule half_convert [OF abs _ m that(2,3)]) (use that(1) e in simp)
  consider "e = 31" "m = 0" | "e = 0" "m = 0" | "e = 0" "m \<noteq> 0" | "e \<noteq> 0" "e \<noteq> 31" using nan by blast
  then have "unat (float16_to_float32 h) = fp_convert 10 5 23 8 n"
  proof cases
    case 1
    then have "h AND 0x03FF = 0" "h AND 0x7C00 \<noteq> 0" "h AND 0x7C00 = 0x7C00" using zero by auto
    then have "float16_to_float32 h = ?sign OR 0x7F800000"
      unfolding float16_to_float32_def Let_def by simp
    moreover have "is_fp_inf 10 5 n" "\<not> is_fp_nan 10 5 n" using 1 by (simp_all add: is_fp_inf_def is_fp_nan_def abs fp_inf_def)
    ultimately show ?thesis using glued [of "0x7F800000"] by (simp add: fp_convert_def) (simp add: fp_inf_def)
  next
    case 2
    then have "float16_to_float32 h = ?sign OR 0" using zero by (simp add: float16_to_float32_def)
    moreover have "fp_convert 10 5 23 8 n = fp_signed 23 8 (fp_neg 10 5 n) 0"
      by (rule conv) (use 2 in \<open>simp_all add: fp_inf_def fp_mag_def\<close>)
    ultimately show ?thesis using glued [of 0] by simp
  next
    case 3
    obtain y where y: "y < fp_inf 23 8" "f32_ldexp (f32_div (int_to_float (int m)) 0x44800000) (- 14) = word_of_nat y"
      "fp_mag 23 y = m * 2 ^ 125"
      using subnormal_half [of m] 3 m by blast
    have "uint (h AND 0x03FF) = int m" using fields(3) uint_nat [of "h AND 0x03FF"] by simp
    then have "float16_to_float32 h = ?sign OR word_of_nat y"
      using 3 zero y(2) unfolding float16_to_float32_def Let_def by simp
    moreover have "fp_mag 10 m = m" using fp_mag_fields [of m 10 0] m by simp
    then have "fp_convert 10 5 23 8 n = fp_signed 23 8 (fp_neg 10 5 n) y"
      using conv [OF _ y(1)] 3 y(3) by simp
    moreover have "y < 2 ^ 31" using y(1) by (simp add: fp_inf_def)
    ultimately show ?thesis using glued [of "word_of_nat y"] f32_word_fields(1) [OF y(1)] by simp
  next
    case 4
    then have e': "e < 31" using e by simp
    let ?b = "push_bit 23 (drop_bit 10 (ucast (h AND 0x7C00)) + 112) OR push_bit 13 (ucast (h AND 0x03FF)) :: u32"
    note both = half_normal_bits [OF fields(2,3) e' m] and mag = half_normal_mag [OF 4(1) m]
    have lt: "(e + 112) * 2 ^ 23 + m * 2 ^ 13 < fp_inf 23 8" using e' m by (simp add: fp_inf_def)
    have r: "float16_to_float32 h = ?sign OR ?b"
      using 4 zero unfolding float16_to_float32_def Let_def by simp
    have "unat ?b < 2 ^ 31" unfolding both using lt by (simp add: fp_inf_def)
    then show ?thesis unfolding r conv [OF 4(2) lt mag] by (simp only: glued both)
  qed
  then show ?thesis by (simp only: n_def)
qed

text \<open>What is no number stays none.\<close>

lemma float16_nan:
  assumes "is_fp_nan 10 5 (unat h)"
  shows "is_fp_nan 23 8 (unat (float16_to_float32 h))"
proof -
  define n s e m where "n = unat h" and "s = n div 2 ^ 15" and "e = n div 2 ^ 10 mod 2 ^ 5" and "m = n mod 2 ^ 10"
  have n: "n < 2 ^ 16" using unsigned_less [of h] by (simp add: n_def)
  have s: "s < 2" using n by (simp add: s_def)
  have e: "e < 2 ^ 5" and m: "m < 2 ^ 10" by (simp_all add: e_def m_def)
  have "fp_abs 10 5 n = e * 2 ^ 10 + m"
    unfolding fp_abs_def e_def m_def by (simp add: mod_mult2_eq [of n "2 ^ 10" "2 ^ 5", simplified])
  then have "31 * 2 ^ 10 < e * 2 ^ 10 + m" using assms by (simp add: is_fp_nan_def fp_inf_def flip: n_def)
  then have big: "31 * 1024 < e * 1024 + m" by simp
  have "\<not> e \<le> 30" using big m by auto
  then have em: "e = 31" "0 < m" using e big by auto
  have fields: "unat (h AND 0x8000) = s * 2 ^ 15" "unat (h AND 0x7C00) = e * 2 ^ 10" "unat (h AND 0x03FF) = m"
    using half_fields [of h] by (simp_all only: n_def s_def e_def m_def)
  have exp: "h AND 0x7C00 = 0x7C00" using fields em by (simp add: word_unat_eq_iff)
  let ?sign = "push_bit 16 (ucast (h AND 0x8000)) :: u32" and ?m = "push_bit 13 (ucast (h AND 0x03FF)) :: u32"
  have sign: "unat ?sign = s * 2 ^ 31"
    using s unat_shifted [of "h AND 0x8000" 16] by (simp add: fields)
  have mm: "unat ?m = m * 2 ^ 13" using unat_shifted [of "h AND 0x03FF" 13] m by (simp add: fields)
  have inf: "unat (0x7F800000 :: u32) = 255 * 2 ^ 23" by simp
  have low: "unat (0x7F800000 OR ?m) = 255 * 2 ^ 23 + m * 2 ^ 13"
    using unat_or_fields [OF inf, of ?m] m by (simp add: mm)
  have "float16_to_float32 h = ?sign OR (0x7F800000 OR ?m)"
    unfolding float16_to_float32_def Let_def exp by (simp add: or.assoc)
  moreover have "unat (?sign OR (0x7F800000 OR ?m)) = s * 2 ^ 31 + (255 * 2 ^ 23 + m * 2 ^ 13)"
    using unat_or_fields [OF sign, of "0x7F800000 OR ?m"] m by (simp add: sign low)
  ultimately show ?thesis using m em(2) by (simp add: is_fp_nan_def fp_abs_def fp_inf_def)
qed

section \<open>Printing\<close>

text \<open>
  A number with four digits after the point, as \<open>std::fixed\<close> and \<open>std::setprecision(4)\<close> have it: the
  nearest such decimal, ties to the even one.
\<close>

definition four_digits :: "nat \<Rightarrow> string" where
  "four_digits k = (let s = show_nat k in replicate (4 - length s) (CHR ''0'') @ s)"

definition show_fixed :: "u32 \<Rightarrow> string" where
  "show_fixed w =
     (let n = unat w; k = half_even (fp_mag 23 (fp_abs 23 8 n) * 10000) (2 ^ fp_unit 23 8)
      in (if fp_neg 23 8 n then ''-'' else []) @
         (if is_fp_nan 23 8 n then ''nan'' else if is_fp_inf 23 8 n then ''inf''
          else show_nat (k div 10000) @ ''.'' @ four_digits (k mod 10000)))"

definition print_val :: "u32 \<Rightarrow> string" where
  "print_val w = (let s = show_fixed w in replicate (8 - length s) (CHR '' '') @ s)"

text \<open>The element \<open>data[i]\<close> of the bytes, by the type of the tensor.\<close>

definition single_at :: "byte list \<Rightarrow> nat \<Rightarrow> u32 res" where
  "single_at bs i = mapR_res fst (get_u32 (drop (4 * i) bs))"

definition half_at :: "byte list \<Rightarrow> nat \<Rightarrow> u32 res" where
  "half_at bs i = mapR_res (\<lambda>r. float16_to_float32 (fst r)) (get_u16 (drop (2 * i) bs))"

text \<open>At most ten elements of a row of \<open>n\<close>.\<close>

definition print_row :: "(nat \<Rightarrow> u32 res) \<Rightarrow> nat \<Rightarrow> nat \<Rightarrow> string res" where
  "print_row at off n =
     bindR (mapR (\<lambda>j. bindR (at ((off + j) mod 2 ^ 64)) (\<lambda>w. Inr (print_val w @ (if j + 1 < n then '', '' else []))))
       [0..<min 10 n]) (\<lambda>ss.
     Inr (''['' @ concat ss @ (if n > 10 then '' ...'' else []) @ '']'' @ nl))"

definition print_elements :: "(nat \<Rightarrow> u32 res) \<Rightarrow> u64 list \<Rightarrow> string res" where
  "print_elements at shape =
     (case shape of
        [d] \<Rightarrow> print_row at 0 (unat d)
      | [rows, cols] \<Rightarrow>
          bindR (mapR (\<lambda>i. print_row at (i * unat cols) (unat cols)) [0..<min (unat rows) 10]) (\<lambda>ss.
            Inr (concat ss @ (if unat rows > 10 then ''...'' @ nl else [])))
      | _ \<Rightarrow> Inr [])"

text \<open>What \<open>print_ndarray\<close> writes.\<close>

definition print_ndarray :: "ndarray \<Rightarrow> string res" where
  "print_ndarray a =
     (let t = nd_dtype a;
          head = ''ndarray of shape ('' @ join_dims (nd_shape a) @ (if length (nd_shape a) = 1 then '','' else []) @ ''), dtype=''
      in if dt_code t = 2 \<and> dt_bits t = 32 then
           mapR_res (\<lambda>s. head @ ''float32'' @ nl @ s) (print_elements (single_at (nd_data a)) (nd_shape a))
         else if dt_code t = 2 \<and> dt_bits t = 16 then
           mapR_res (\<lambda>s. head @ ''float16'' @ nl @ s) (print_elements (half_at (nd_data a)) (nd_shape a))
         else Inr (head @ ''unsupported (code='' @ show_nat (unat (dt_code t)) @ '', bits='' @
                show_nat (unat (dt_bits t)) @ '')'' @ nl))"

text \<open>A tensor of DLPack; \<open>dlt_mem\<close> is the memory from its pointer on.\<close>

record dl_tensor =
  dlt_cpu :: bool
  dlt_shape :: "u64 list"
  dlt_dtype :: dl_data_type
  dlt_offset :: u64
  dlt_mem :: "byte list"

definition print_some :: "(nat \<Rightarrow> u32 res) \<Rightarrow> u64 \<Rightarrow> string res" where
  "print_some at n =
     bindR (mapR (\<lambda>i. bindR (at i) (\<lambda>w. Inr (show_fixed w @ '' ''))) [0..<nat (min (sint n) 10)]) (\<lambda>ss.
       Inr (concat ss @ (if unat n > 10 then ''...'' else []) @ nl))"

text \<open>What \<open>print_dl_tensor\<close> writes to the standard output and to the standard error.\<close>

definition print_dl_tensor :: "dl_tensor \<Rightarrow> (string \<times> string) res" where
  "print_dl_tensor t =
     (if \<not> dlt_cpu t then Inr ([], ''Only CPU tensors are supported.'' @ nl)
      else
        (let n = foldl (*) 1 (dlt_shape t); ty = dlt_dtype t; mem = drop (unat (dlt_offset t)) (dlt_mem t);
             head = ''DLTensor of shape ('' @ join '', '' (map show_i64 (dlt_shape t)) @
               (if length (dlt_shape t) = 1 then '','' else []) @ ''), dtype=''
         in if dt_code ty = 2 \<and> dt_bits ty = 32 then
              mapR_res (\<lambda>s. (head @ ''float32'' @ nl @ s, [])) (print_some (single_at mem) n)
            else if dt_code ty = 2 \<and> dt_bits ty = 16 then
              mapR_res (\<lambda>s. (head @ ''float16'' @ nl @ s, [])) (print_some (half_at mem) n)
            else Inr (head, ''Unsupported dtype: code='' @ show_nat (unat (dt_code ty)) @ '' bits='' @
                   show_nat (unat (dt_bits ty)) @ nl)))"

end
