(* ===== verification/TvmModel.thy ===== *)
theory TvmModel
  imports LanguageModel NdArray
begin

text \<open>
  A model of the TVM runtime (\<open>vm/src/mlc_llm/tvm_model.cpp\<close>, \<open>vm/src/mlc_llm/tvm_model.hpp\<close>):
  its constructor downloads the model, opens its library, reads the metadata and then the
  files with the parameters, each of which goes into a cache of the runtime by its name. The
  runtime is a library: the record \<open>tvm\<close> holds the functions of it that the code calls. An array
  of the runtime is a shape, a type and bytes, as in \<open>ndarray\<close>; a dimension is a signed number of
  64 bits, kept as a word.
\<close>

section \<open>The metadata of the parameters\<close>

record param_record =
  pr_name :: string
  pr_dtype :: dl_data_type
  pr_shape :: "u64 list"
  pr_format :: string
  pr_nbytes :: u64
  pr_offset :: u64

record file_record =
  fr_path :: string
  fr_format :: string
  fr_nbytes :: u64
  fr_records :: "param_record list"

text \<open>A number as an \<open>int64_t\<close>: a double is cut towards zero.\<close>

definition double_to_int64 :: "u64 \<Rightarrow> u64 res" where
  "double_to_int64 d =
     (let n = unat d; e = n div 2 ^ 52 mod 2048; m = n mod 2 ^ 52;
          v = int (if e < 1075 then (2 ^ 52 + m) div 2 ^ (1075 - e) else (2 ^ 52 + m) * 2 ^ (e - 1075));
          i = (if n div 2 ^ 63 = 1 then - v else v)
      in if e < 1023 then Inr 0
         else if e \<le> 1086 \<and> in_i64 i then Inr (word_of_int i)
         else Inl (UB ''floating point number out of the range of int64_t''))"

definition json_int64 :: "json \<Rightarrow> u64 res" where
  "json_int64 j =
     (case j of JInt i \<Rightarrow> Inr i | JUint n \<Rightarrow> Inr n | JFloat d \<Rightarrow> double_to_int64 d
      | _ \<Rightarrow> Inl (LibThrow ''json::type_error''))"

text \<open>The runtime.\<close>

record ('m, 'v, 'c, 'p) tvm =
  tl_device_name :: string
  tl_exist :: "u32 \<Rightarrow> bool"
  tl_dtype :: "string \<Rightarrow> dl_data_type res"
  tl_void :: dl_data_type
  tl_open :: "string \<Rightarrow> 'm option res"
  tl_loader :: "'m \<Rightarrow> 'v res option"
  tl_initialize :: "'v \<Rightarrow> u32 \<Rightarrow> 'v res"
  tl_metadata :: "'v \<Rightarrow> string res"
  tl_load :: "u32 \<Rightarrow> param_record \<Rightarrow> string \<Rightarrow> string + ndarray"
  tl_update :: "string \<Rightarrow> ndarray \<Rightarrow> bool \<Rightarrow> 'c \<Rightarrow> 'c"
  tl_params_by_name :: "string list \<Rightarrow> 'c \<Rightarrow> 'p res"
  tl_function :: "'v \<Rightarrow> string \<Rightarrow> (ndarray \<Rightarrow> ndarray \<Rightarrow> 'p \<Rightarrow> ndarray res) option"
  tl_empty :: "u64 list \<Rightarrow> dl_data_type \<Rightarrow> u32 option \<Rightarrow> ndarray res"
  tl_copy_from :: "ndarray \<Rightarrow> ndarray \<Rightarrow> ndarray res"
  tl_copy_to_bytes :: "ndarray \<Rightarrow> u64 \<Rightarrow> byte list res"

definition param_record_from_json :: "('m, 'v, 'c, 'p) tvm \<Rightarrow> json \<Rightarrow> param_record res" where
  "param_record_from_json T j =
     bindR (bindR (json_at j ''name'') json_string) (\<lambda>name.
     bindR (if json_has j ''dtype'' then bindR (bindR (json_at j ''dtype'') json_string) (tl_dtype T)
            else Inr (tl_void T)) (\<lambda>dtype.
     bindR (bindR (json_at j ''format'') json_string) (\<lambda>format.
     bindR (bindR (json_at j ''nbytes'') json_int64) (\<lambda>nbytes.
     bindR (bindR (json_at j ''byteOffset'') json_int64) (\<lambda>offset.
     bindR (if json_has j ''shape'' then bindR (bindR (json_at j ''shape'') json_list) (mapR json_int64)
            else Inr []) (\<lambda>shape.
       Inr \<lparr>pr_name = name, pr_dtype = dtype, pr_shape = shape, pr_format = format, pr_nbytes = nbytes,
         pr_offset = offset\<rparr>))))))"

definition file_record_from_json :: "('m, 'v, 'c, 'p) tvm \<Rightarrow> json \<Rightarrow> file_record res" where
  "file_record_from_json T j =
     bindR (bindR (json_at j ''dataPath'') json_string) (\<lambda>path.
     bindR (bindR (json_at j ''format'') json_string) (\<lambda>format.
     bindR (bindR (json_at j ''nbytes'') json_int64) (\<lambda>nbytes.
     bindR (if json_has j ''records''
            then bindR (bindR (json_at j ''records'') json_list) (mapR (param_record_from_json T))
            else Inr []) (\<lambda>records.
       Inr \<lparr>fr_path = path, fr_format = format, fr_nbytes = nbytes, fr_records = records\<rparr>))))"

definition cache_metadata_from_json :: "('m, 'v, 'c, 'p) tvm \<Rightarrow> json \<Rightarrow> file_record list res" where
  "cache_metadata_from_json T j =
     (if json_has j ''records''
      then bindR (bindR (json_at j ''records'') json_list) (mapR (file_record_from_json T))
      else Inr [])"

definition parse_or_throw :: "codec \<Rightarrow> string \<Rightarrow> json res" where
  "parse_or_throw C s =
     (case json_parse C s of None \<Rightarrow> Inl (LibThrow ''json::parse_error'') | Some j \<Rightarrow> Inr j)"

definition load_ndarray_cache_metadata ::
  "('m, 'v, 'c, 'p) tvm \<Rightarrow> codec \<Rightarrow> string \<Rightarrow> file_record list res" where
  "load_ndarray_cache_metadata T C s = bindR (parse_or_throw C s) (cache_metadata_from_json T)"

section \<open>The parameters\<close>

text \<open>One file: each parameter in it is made into an array and put into the cache.\<close>

fun load_records ::
  "('m, 'v, 'c, 'p) tvm \<Rightarrow> u32 \<Rightarrow> string \<Rightarrow> param_record list \<Rightarrow> 'c \<Rightarrow> 'c res" where
  "load_records T device s [] c = Inr c"
| "load_records T device s (r # rs) c =
     (case tl_load T device r s of
        Inl e \<Rightarrow> Inl (LibThrow (''ValueError: Error when loading parameters for '' @ pr_name r @ '': '' @ e))
      | Inr a \<Rightarrow> load_records T device s rs (tl_update T (pr_name r) a True c))"

definition load_ndarray_cache_shard ::
  "('m, 'v, 'c, 'p) tvm \<Rightarrow> u32 \<Rightarrow> file_record list \<Rightarrow> nat \<Rightarrow> string \<Rightarrow> 'c \<Rightarrow> 'c res" where
  "load_ndarray_cache_shard T device frs i s c =
     (if length frs \<le> i then Inl (UB ''index past the end of the vector'')
      else if fr_format (frs ! i) \<noteq> ''raw-shard'' then
        Inl (LibThrow ''ValueError: Only `raw-shard` format is supported'')
      else if fr_nbytes (frs ! i) \<noteq> word_of_nat (length s) then
        Inl (LibThrow ''ValueError: Encountered an corrupted parameter shard.'')
      else load_records T device s (fr_records (frs ! i)) c)"

text \<open>The number in the name of a file with parameters, \<open>params_shard_(\d+)\.bin\<close>.\<close>

definition shard_number :: "string \<Rightarrow> string option" where
  "shard_number name =
     (let ds = take (length name - 17) (drop 13 name)
      in if prefix ''params_shard_'' name \<and> suffix ''.bin'' name \<and> ds \<noteq> [] \<and> list_all is_digit ds
         then Some ds else None)"

definition stoi :: "string \<Rightarrow> nat res" where
  "stoi ds = (if read_nat ds < 2 ^ 31 then Inr (read_nat ds) else Inl (LibThrow ''stoi''))"

fun load_shards ::
  "('m, 'v, 'c, 'p) tvm \<Rightarrow> host \<Rightarrow> files \<Rightarrow> u32 \<Rightarrow> file_record list \<Rightarrow> string \<Rightarrow> string list \<Rightarrow> 'c \<Rightarrow> 'c res" where
  "load_shards T H fs device frs dir [] c = Inr c"
| "load_shards T H fs device frs dir (name # names) c =
     (case shard_number name of
        None \<Rightarrow> load_shards T H fs device frs dir names c
      | Some ds \<Rightarrow>
          bindR (stoi ds) (\<lambda>i.
          bindR (load_bytes_from_file H (path_join dir name) fs) (\<lambda>s.
          bindR (load_ndarray_cache_shard T device frs i s c) (\<lambda>c1.
            load_shards T H fs device frs dir names c1))))"

text \<open>What a loop over a document runs through: a document that is no container is its own element.\<close>

definition json_elements :: "json \<Rightarrow> json list" where
  "json_elements j =
     (case j of JArray js \<Rightarrow> js | JObject m \<Rightarrow> map snd m | JNull \<Rightarrow> [] | _ \<Rightarrow> [j])"

text \<open>\<open>j[key]\<close> on a document that must not be changed.\<close>

definition const_member :: "json \<Rightarrow> string \<Rightarrow> json res" where
  "const_member j key =
     (case j of
        JObject m \<Rightarrow> (case map_of m key of None \<Rightarrow> Inl (UB ''member that is not there'') | Some x \<Rightarrow> Inr x)
      | _ \<Rightarrow> Inl (LibThrow ''json::type_error''))"

definition load_params_from_cache :: "('m, 'v, 'c, 'p) tvm \<Rightarrow> json \<Rightarrow> 'c \<Rightarrow> 'p res" where
  "load_params_from_cache T metadata c =
     bindR (const_member metadata ''params'') (\<lambda>params.
     bindR (mapR (\<lambda>param. bindR (const_member param ''name'') json_string) (json_elements params)) (\<lambda>names.
       tl_params_by_name T names c))"

section \<open>The constructor\<close>

record ('v, 'p) tvm_model =
  tm_name :: string
  tm_quantization :: string
  tm_device :: u32
  tm_path :: string
  tm_module :: 'v
  tm_metadata :: json
  tm_cache_metadata :: "file_record list"
  tm_params :: 'p

definition open_module :: "('m, 'v, 'c, 'p) tvm \<Rightarrow> string \<Rightarrow> u32 \<Rightarrow> 'v res" where
  "open_module T lib device =
     bindR (tl_open T lib) (\<lambda>m.
     case m of
       None \<Rightarrow> Inl (LibThrow ''Failed to load system'')
     | Some executable \<Rightarrow>
         (case tl_loader T executable of
            None \<Rightarrow> Inl (LibThrow ''Failed to get executable loader'')
          | Some loaded \<Rightarrow> bindR loaded (\<lambda>vm. tl_initialize T vm device)))"

definition read_model ::
  "('m, 'v, 'c, 'p) tvm \<Rightarrow> codec \<Rightarrow> host \<Rightarrow> string \<Rightarrow> string \<Rightarrow> u32 \<Rightarrow> string \<Rightarrow> string \<Rightarrow> files \<Rightarrow> 'c \<Rightarrow>
     ('c \<times> ('v, 'p) tvm_model) res" where
  "read_model T C H model q device path lib fs c =
     bindR (open_module T lib device) (\<lambda>vm.
     bindR (bindR (tl_metadata T vm) (parse_or_throw C)) (\<lambda>metadata.
     bindR (bindR (load_bytes_from_file H (path_join path ''ndarray-cache.json'') fs)
       (load_ndarray_cache_metadata T C)) (\<lambda>frs.
     bindR (if node_of (h_cwd H) path fs = Some Dir then Inr (dir_names (place (h_cwd H) path) fs)
            else Inl (LibThrow ''filesystem_error'')) (\<lambda>names.
     bindR (load_shards T H fs device frs path names c) (\<lambda>c1.
     bindR (load_params_from_cache T metadata c1) (\<lambda>params.
       Inr (c1, \<lparr>tm_name = model, tm_quantization = q, tm_device = device, tm_path = path, tm_module = vm,
         tm_metadata = metadata, tm_cache_metadata = frs, tm_params = params\<rparr>)))))))"

text \<open>
  A download that failed is a \<open>runtime_error\<close>, which the caller catches: here a \<open>Failed\<close>. (\<open>uname\<close>
  failing would be caught too; the model lets it through.) The cache of the runtime is global:
  it outlives the model and is shared by all of them.
\<close>

definition tvm_model_new ::
  "('m, 'v, 'c, 'p) tvm \<Rightarrow> codec \<Rightarrow> host \<Rightarrow> net \<Rightarrow> string \<Rightarrow> string \<Rightarrow> u32 \<Rightarrow> files \<times> 'c \<Rightarrow>
     ((files \<times> 'c) \<times> ('v, 'p) tvm_model or_error) res" where
  "tvm_model_new T C H N model q device = (\<lambda>(fs, c).
     bindR (download_model H N model q (tl_device_name T) fs) (\<lambda>(fs1, r).
       if \<not> dr_success r then mapR_res (\<lambda>e. ((fs1, c), Failed e)) (opt_value (dr_error r))
       else
         bindR (opt_value (dr_path r)) (\<lambda>path.
         bindR (opt_value (dr_lib r)) (\<lambda>lib.
         bindR (read_model T C H model q device path lib fs1 c) (\<lambda>(c1, m).
           Inr ((fs1, c1), Got m))))))"

text \<open>The module is there once the constructor has returned, so \<open>get_module\<close> does not throw.\<close>

definition get_vm_function ::
  "('m, 'v, 'c, 'p) tvm \<Rightarrow> ('v, 'p) tvm_model \<Rightarrow> string \<Rightarrow> (ndarray \<Rightarrow> ndarray \<Rightarrow> 'p \<Rightarrow> ndarray res) option" where
  "get_vm_function T m fname = tl_function T (tm_module m) fname"

section \<open>Arrays of the runtime as values\<close>

text \<open>
  The number of elements is folded from an \<open>int\<close> 1, so it is cut to 32 bits and read as a signed
  number before it is multiplied with the size of an element.
\<close>

definition tvm_nbytes :: "ndarray \<Rightarrow> u64" where
  "tvm_nbytes a = scast (foldl (\<lambda>n d. n * ucast d) (1 :: u32) (nd_shape a)) * itemsize a"

definition ndarray_from_tvm :: "('m, 'v, 'c, 'p) tvm \<Rightarrow> ndarray \<Rightarrow> ndarray res" where
  "ndarray_from_tvm T a =
     (if 2 ^ 63 \<le> unat (tvm_nbytes a) then Inl (LibThrow ''length_error'')
      else bindR (tl_copy_to_bytes T a (tvm_nbytes a)) (\<lambda>bytes.
             Inr (make_ndarray (nd_shape a) (nd_dtype a) bytes)))"

end
