(* ===== verification/EmbeddingModel.thy ===== *)
theory EmbeddingModel
  imports TvmModel
begin

text \<open>
  The component of an embedding model (\<open>vm/src/mlc_llm/embedding_model.cpp\<close>): the tokenizer, the
  model, which runs one function of the runtime over the tokens, and the two methods \<open>tokenize\<close>
  and \<open>infer\<close>. The tokenizer is a library: the record \<open>tokens_lib\<close> holds its functions.
\<close>

section \<open>The tokenizer\<close>

record 't tokens_lib =
  tk_new :: "string \<Rightarrow> 't"
  tk_encode :: "'t \<Rightarrow> string \<Rightarrow> bool \<Rightarrow> u32 list"
  tk_decode :: "'t \<Rightarrow> u32 list \<Rightarrow> bool \<Rightarrow> 't"
  tk_decode_str :: "'t \<Rightarrow> string"

definition tokenizer_new :: "'t tokens_lib \<Rightarrow> host \<Rightarrow> string \<Rightarrow> files \<Rightarrow> 't res" where
  "tokenizer_new K H p fs = bindR (load_bytes_from_file H p fs) (\<lambda>s. Inr (tk_new K s))"

definition tokenizer_encode :: "'t tokens_lib \<Rightarrow> 't \<Rightarrow> string \<Rightarrow> u32 list" where
  "tokenizer_encode K h text = tk_encode K h text True"

definition tokenizer_decode :: "'t tokens_lib \<Rightarrow> 't \<Rightarrow> u32 list \<Rightarrow> bool \<Rightarrow> 't \<times> string" where
  "tokenizer_decode K h ids skip_special_tokens =
     (let h1 = tk_decode K h ids skip_special_tokens in (h1, tk_decode_str K h1))"

section \<open>The model\<close>

text \<open>Types of arrays: \<open>kDLInt\<close> is 0 and \<open>kDLFloat\<close> is 2.\<close>

definition dl_i32 :: dl_data_type where "dl_i32 = \<lparr>dt_code = 0, dt_bits = 32, dt_lanes = 1\<rparr>"
definition dl_f32 :: dl_data_type where "dl_f32 = \<lparr>dt_code = 2, dt_bits = 32, dt_lanes = 1\<rparr>"

record ('v, 'p) embedding_model =
  em_engine :: "('v, 'p) tvm_model"
  em_prefill :: "(ndarray \<Rightarrow> ndarray \<Rightarrow> 'p \<Rightarrow> ndarray res) option"

definition embedding_model_new ::
  "('m, 'v, 'c, 'p) tvm \<Rightarrow> codec \<Rightarrow> host \<Rightarrow> net \<Rightarrow> string \<Rightarrow> string \<Rightarrow> u32 \<Rightarrow> files \<times> 'c \<Rightarrow>
     ((files \<times> 'c) \<times> ('v, 'p) embedding_model or_error) res" where
  "embedding_model_new T C H N model q device st =
     bindR (tvm_model_new T C H N model q device st) (\<lambda>(st1, r).
       Inr (st1, case r of
         Failed e \<Rightarrow> Failed e
       | Got m \<Rightarrow> Got \<lparr>em_engine = m, em_prefill = get_vm_function T m ''prefill''\<rparr>))"

text \<open>\<open>from_size\<close>: a product of signed 64-bit numbers.\<close>

fun reduce_int64 :: "int \<Rightarrow> u64 list \<Rightarrow> int res" where
  "reduce_int64 acc [] = Inr acc"
| "reduce_int64 acc (d # ds) =
     (if in_i64 (acc * sint d) then reduce_int64 (acc * sint d) ds
      else Inl (UB ''signed integer overflow''))"

text \<open>
  The loops run over \<open>to_size\<close> as an unsigned number: they read as many numbers from the bytes of
  the one array and write them to the front of the other.
\<close>

definition postprocess_embedding_ndarray :: "ndarray \<Rightarrow> ndarray \<Rightarrow> ndarray res" where
  "postprocess_embedding_ndarray src dst =
     (let sb = dt_bits (nd_dtype src) in
      if \<not> (dt_code (nd_dtype src) = 2 \<and> (sb = 16 \<or> sb = 32)) then Inl (Throw runtime_error0)
      else if \<not> (dt_code (nd_dtype dst) = 2 \<and> dt_bits (nd_dtype dst) = 32 \<and> length (nd_shape dst) = 1)
      then Inl (Throw runtime_error0)
      else
        bindR (reduce_int64 1 (nd_shape src)) (\<lambda>from_size.
        let to_size = nd_shape dst ! 0 in
        if from_size < sint to_size then
          Inl (Throw ''size of input NDArray is too small to fill output NDArray.'')
        else
          bindR (if sb = 16
                 then bindR (get_many (unat to_size) get_u16 (nd_data src)) (\<lambda>(hs, _). Inr (map float16_to_float32 hs))
                 else bindR (get_many (unat to_size) get_u32 (nd_data src)) (\<lambda>(fs, _). Inr fs)) (\<lambda>fs.
          if length (nd_data dst) < 4 * unat to_size then Inl (UB ''write past the end of the buffer'')
          else Inr (dst\<lparr>nd_data := concat (map put_u32 fs) @ drop (4 * unat to_size) (nd_data dst)\<rparr>))))"

text \<open>The loop that fills an array with numbers; the bound is signed and compared as unsigned.\<close>

definition fill_ints :: "u32 \<Rightarrow> u32 list \<Rightarrow> ndarray \<Rightarrow> ndarray res" where
  "fill_ints tokens_length xs a =
     (let n = unat (scast tokens_length :: u64) in
      if length (nd_data a) < 4 * n then Inl (UB ''write past the end of the buffer'')
      else if length xs < n then Inl (LibThrow ''out_of_range'')
      else Inr (a\<lparr>nd_data := concat (map put_u32 (take n xs)) @ drop (4 * n) (nd_data a)\<rparr>))"

definition embedding_infer ::
  "('m, 'v, 'c, 'p) tvm \<Rightarrow> ('v, 'p) embedding_model \<Rightarrow> u32 list \<Rightarrow> ndarray res" where
  "embedding_infer T em tokens =
     (let tokens_length = word_of_nat (length tokens) :: u32; shape = [1, scast tokens_length];
          device = Some (tm_device (em_engine em))
      in bindR (tl_empty T shape dl_i32 None) (\<lambda>input0.
         bindR (tl_empty T shape dl_i32 None) (\<lambda>mask0.
         bindR (fill_ints tokens_length tokens input0) (\<lambda>input_cpu.
         bindR (fill_ints tokens_length (replicate (length tokens) 1) mask0) (\<lambda>mask_cpu.
         bindR (bindR (tl_empty T shape dl_i32 device) (\<lambda>a. tl_copy_from T a input_cpu)) (\<lambda>input_gpu.
         bindR (bindR (tl_empty T shape dl_i32 device) (\<lambda>a. tl_copy_from T a mask_cpu)) (\<lambda>mask_gpu.
         bindR (deref (em_prefill em)) (\<lambda>prefill.
         bindR (prefill input_gpu mask_gpu (tm_params (em_engine em))) (\<lambda>logits_gpu.
         bindR (bindR (tl_empty T (nd_shape logits_gpu) (nd_dtype logits_gpu) None)
           (\<lambda>a. tl_copy_from T a logits_gpu)) (\<lambda>logits.
         bindR (if nd_shape logits = [] then Inl (LibThrow ''IndexError'') else Inr (List.last (nd_shape logits))) (\<lambda>d.
         bindR (tl_empty T [d] dl_f32 None) (\<lambda>out.
           postprocess_embedding_ndarray logits out))))))))))))"

section \<open>The component\<close>

datatype ('v, 'p, 't) emb_obj = Embedding_obj "('v, 'p) embedding_model" | Tokenizer_obj 't

fun as_embedding :: "('v, 'p, 't) emb_obj \<Rightarrow> ('v, 'p) embedding_model option" where
  "as_embedding (Embedding_obj em) = Some em" | "as_embedding _ = None"
fun as_tokenizer :: "('v, 'p, 't) emb_obj \<Rightarrow> 't option" where
  "as_tokenizer (Tokenizer_obj t) = Some t" | "as_tokenizer _ = None"

type_synonym ('v, 'p, 't) emb_objs = "('v, 'p, 't) emb_obj objs"

definition embedding_infer_method ::
  "('m, 'v, 'c, 'p) tvm \<Rightarrow> 't tokens_lib \<Rightarrow> ('v, 'p, 't) emb_objs \<Rightarrow> val option \<Rightarrow>
     (('v, 'p, 't) emb_objs \<times> value_or_error) res" where
  "embedding_infer_method T K os inputs = bindR (deref inputs) (\<lambda>v.
     case v of
       Map_t m \<Rightarrow>
         (case map_of m ''prompt'' of
            None \<Rightarrow> Inr (os, Failed (range_error2 ''TVM Embedding Model: infer'' ''prompt''))
          | Some p \<Rightarrow>
              (case p of
                 String_t prompt \<Rightarrow>
                   bindR (deref (get_obj as_tokenizer os ''tokenizer'')) (\<lambda>t.
                   bindR (deref (get_obj as_embedding os ''embedding_model'')) (\<lambda>em.
                   bindR (embedding_infer T em (tokenizer_encode K t prompt)) (\<lambda>embedding.
                   bindR (ndarray_from_tvm T embedding) (\<lambda>a.
                     Inr (os, Got (Some (Map_t [(''embedding'', Ndarray_t a)])))))))
               | _ \<Rightarrow> Inr (os, Failed (type_error4 ''TVM Embedding Model: infer'' ''prompt'' ''string_t'' (get_type p)))))
     | _ \<Rightarrow> Inr (os, Failed (type_error4 ''TVM Embedding Model: infer'' ''inputs'' ''map_t'' (get_type v))))"

text \<open>The message about a prompt of the wrong type looks for its type under a name that is misspelt.\<close>

definition embedding_tokenize_method ::
  "'t tokens_lib \<Rightarrow> ('v, 'p, 't) emb_objs \<Rightarrow> val option \<Rightarrow> (('v, 'p, 't) emb_objs \<times> value_or_error) res" where
  "embedding_tokenize_method K os inputs = bindR (deref inputs) (\<lambda>v.
     case v of
       Map_t m \<Rightarrow>
         (case map_of m ''prompt'' of
            None \<Rightarrow> Inr (os, Failed ''Input prompt not specified'')
          | Some p \<Rightarrow>
              (case p of
                 String_t prompt \<Rightarrow>
                   bindR (deref (get_obj as_tokenizer os ''tokenizer'')) (\<lambda>t.
                     Inr (os, Got (Some (Map_t [(''tokens'',
                       Array_t (map (\<lambda>i. Int_t (scast i)) (tokenizer_encode K t prompt)))]))))
               | _ \<Rightarrow>
                   bindR (map_at m ''prmopt'') (\<lambda>x.
                     Inr (os, Failed (type_error4 ''TVM Embedding Model: infer'' ''prompt'' ''string_t'' (get_type x))))))
     | _ \<Rightarrow> Inr (os, Failed (type_error4 ''TVM Embedding Model: infer'' ''inputs'' ''map_t'' (get_type v))))"

text \<open>Of the quantization it is the model whose type is looked at.\<close>

definition parse_quantization :: "(string \<times> val) list \<Rightarrow> string or_error res" where
  "parse_quantization m =
     (if map_contains m ''quantization'' then
        bindR (map_at m ''model'') (\<lambda>v.
          if is_string v then bindR (map_get as_string m ''quantization'') (\<lambda>q. Inr (Got q))
          else Inr (Failed (type_error4 ''TVM Embedding Model: create'' ''quantization'' ''string_t'' (get_type v))))
      else Inr (Got ''q4f16_1''))"

definition parse_embedding_create :: "val \<Rightarrow> (string \<times> string \<times> u32) or_error res" where
  "parse_embedding_create v =
     (case v of
        Map_t m \<Rightarrow>
          (case optional_text ''TVM Embedding Model: create'' ''model'' ''BAAI/bge-m3'' m of
             Failed e \<Rightarrow> Inr (Failed e)
           | Got model \<Rightarrow>
               bindR (parse_quantization m) (\<lambda>r.
               Inr (case r of
                      Failed e \<Rightarrow> Failed e
                    | Got q \<Rightarrow> (case parse_device m of Failed e \<Rightarrow> Failed e | Got d \<Rightarrow> Got (model, q, d)))))
      | _ \<Rightarrow> Inr (Failed (type_error4 ''TVM Embedding Model: create'' ''inputs'' ''map_t'' (get_type v))))"

definition create_tvm_embedding_model_component ::
  "('m, 'v, 'c, 'p) tvm \<Rightarrow> 't tokens_lib \<Rightarrow> codec \<Rightarrow> host \<Rightarrow> net \<Rightarrow> val option \<Rightarrow> files \<times> 'c \<Rightarrow>
     ((files \<times> 'c) \<times> ('v, 'p, 't) emb_obj component_t or_error) res" where
  "create_tvm_embedding_model_component T K C H N inputs st = bindR (deref inputs) (\<lambda>v.
     bindR (parse_embedding_create v) (\<lambda>r.
     case r of
       Failed e \<Rightarrow> Inr (st, Failed e)
     | Got (model, q, d) \<Rightarrow>
         (case get_tvm_device (tl_exist T) d of
            None \<Rightarrow> Inr (st, Failed (runtime_error1 ''No supported device is detected for your system.''))
          | Some device \<Rightarrow>
              bindR (embedding_model_new T C H N model q device st) (\<lambda>(st1, r).
              case r of
                Failed e \<Rightarrow> Inr (st1, Failed e)
              | Got em \<Rightarrow>
                  bindR (tokenizer_new K H (path_join (tm_path (em_engine em)) ''tokenizer.json'') (fst st1)) (\<lambda>t.
                    let c = make_component
                      [(''infer'', make_method (Instant_method (embedding_infer_method T K))),
                       (''tokenize'', make_method (Instant_method (embedding_tokenize_method K)))]
                    in Inr (st1, Got (c\<lparr>objs := set_obj ''tokenizer'' (Tokenizer_obj t)
                      (set_obj ''embedding_model'' (Embedding_obj em) (objs c))\<rparr>)))))))"

end
