(* ===== verification/TensorProperties.thy ===== *)
theory TensorProperties
  imports EmbeddingModel
begin

text \<open>
  Properties of tensors and the models of the TVM runtime: the conversion from half precision,
  what an embedding is made of, that the files with the parameters are whole, and what is wrong
  with the checks of the inputs. \<open>tvm_ok\<close> says what the runtime's documentation promises.
\<close>

section \<open>What the runtime promises\<close>

text \<open>An array has as many bytes as its shape and its type say.\<close>

definition whole :: "ndarray \<Rightarrow> bool" where
  "whole a \<longleftrightarrow> length (nd_data a) = prod_list (map unat (nd_shape a)) * unat (itemsize a)"

text \<open>
  \<open>Empty\<close> gives a whole array of the shape and type asked for, \<open>CopyFrom\<close> copies the bytes of an
  array of the same size, and \<open>CopyToBytes\<close> copies them out when their number is right. For the
  cache, \<open>look\<close> is what it holds under a name: an update that overrides changes just its name.
\<close>

definition tvm_ok :: "('m, 'v, 'c, 'p) tvm \<Rightarrow> bool" where
  "tvm_ok T \<longleftrightarrow>
     (\<forall>shape t dev. prod_list (map unat shape) < 2 ^ 31 \<longrightarrow>
        (\<exists>a. tl_empty T shape t dev = Inr a \<and> nd_shape a = shape \<and> nd_dtype a = t \<and> whole a)) \<and>
     (\<forall>dst src. length (nd_data dst) = length (nd_data src) \<longrightarrow>
        tl_copy_from T dst src = Inr (dst\<lparr>nd_data := nd_data src\<rparr>)) \<and>
     (\<forall>a n. unat n = length (nd_data a) \<longrightarrow> tl_copy_to_bytes T a n = Inr (nd_data a))"

definition cache_ok :: "('m, 'v, 'c, 'p) tvm \<Rightarrow> ('c \<Rightarrow> string \<rightharpoonup> ndarray) \<Rightarrow> bool" where
  "cache_ok T look \<longleftrightarrow> (\<forall>name a c. look (tl_update T name a True c) = (look c)(name \<mapsto> a))"

text \<open>Arrays of numbers: half precision, single precision, integers.\<close>

definition dl_f16 :: dl_data_type where "dl_f16 = \<lparr>dt_code = 2, dt_bits = 16, dt_lanes = 1\<rparr>"

fun float_array :: "u64 list \<Rightarrow> u16 list + u32 list \<Rightarrow> ndarray" where
  "float_array shape (Inl hs) = make_ndarray shape dl_f16 (concat (map put_u16 hs))"
| "float_array shape (Inr fs) = make_ndarray shape dl_f32 (concat (map put_u32 fs))"

fun single_values :: "u16 list + u32 list \<Rightarrow> u32 list" where
  "single_values (Inl hs) = map float16_to_float32 hs"
| "single_values (Inr fs) = fs"

definition int_array :: "u32 list \<Rightarrow> ndarray" where
  "int_array xs = make_ndarray [1, word_of_nat (length xs)] dl_i32 (concat (map put_u32 xs))"

section \<open>Sizes\<close>

lemma itemsize_simps [simp]:
  "itemsize (make_ndarray s dl_f16 bs) = 2" "itemsize (make_ndarray s dl_f32 bs) = 4"
  "itemsize (make_ndarray s dl_i32 bs) = 4"
  by (simp_all add: itemsize_def make_ndarray_def dl_f16_def dl_f32_def dl_i32_def)

lemma dl_sel [simp]:
  "dt_code dl_f16 = 2" "dt_bits dl_f16 = 16" "dt_code dl_f32 = 2" "dt_bits dl_f32 = 32"
  by (simp_all add: dl_f16_def dl_f32_def)

lemma itemsize_dtype: "nd_dtype a = nd_dtype b \<Longrightarrow> itemsize a = itemsize b"
  by (simp add: itemsize_def)

lemma make_ndarray_sel [simp]:
  "nd_shape (make_ndarray s t bs) = s" "nd_dtype (make_ndarray s t bs) = t" "nd_data (make_ndarray s t bs) = bs"
  by (simp_all add: make_ndarray_def)

lemma float_array_shape [simp]: "nd_shape (float_array s xs) = s"
  by (cases xs) simp_all

lemma whole_float_array:
  "whole (float_array s xs) \<longleftrightarrow> prod_list (map unat s) = length (single_values xs)"
  by (cases xs) (auto simp: whole_def fmt16.length_enc_many fmt32.length_enc_many)

lemma whole_same: "whole a \<Longrightarrow> nd_shape a = nd_shape b \<Longrightarrow> nd_dtype a = nd_dtype b \<Longrightarrow> whole b \<longleftrightarrow>
    length (nd_data b) = length (nd_data a)"
  by (simp add: whole_def itemsize_dtype [of a b])

lemma ndarray_eqI: "nd_shape a = s \<Longrightarrow> nd_dtype a = t \<Longrightarrow> nd_data a = bs \<Longrightarrow> a = make_ndarray s t bs"
  by (simp add: make_ndarray_def)

text \<open>Products of dimensions that stay small are computed without overflow.\<close>

lemma prod_list_factor:
  fixes xs :: "nat list"
  assumes "x \<in> set xs" and "0 < prod_list xs" shows "x \<le> prod_list xs"
  using assms
proof (induction xs)
  case (Cons a xs)
  then show ?case using mult_le_mono [of 1 a x "prod_list xs"] by auto
qed simp

lemma sint_small:
  fixes w :: "'a::len word"
  assumes "unat w < 2 ^ (LENGTH('a) - 1)" shows "sint w = int (unat w)"
proof -
  have "int (unat w) < int (2 ^ (LENGTH('a) - 1))" using assms by (simp only: of_nat_less_iff)
  then have "signed_take_bit (LENGTH('a) - 1) (int (unat w)) = int (unat w)"
    by (intro signed_take_bit_int_eq_self) (rule order_trans [of _ 0], simp_all)
  then show ?thesis unfolding sint_uint uint_nat One_nat_def .
qed

lemma reduce_int64_small:
  assumes "0 < n * prod_list (map unat ds)" and "n * prod_list (map unat ds) < 2 ^ 31"
  shows "reduce_int64 (int n) ds = Inr (int (n * prod_list (map unat ds)))"
  using assms
proof (induction ds arbitrary: n)
  case (Cons d ds)
  let ?q = "prod_list (map unat ds)"
  have q: "0 < ?q" "0 < n" "0 < unat d" using Cons.prems by auto
  then have le: "n * unat d \<le> n * unat d * ?q" "unat d \<le> n * unat d" by simp_all
  have "n * unat d * ?q < 2 ^ 31" using Cons.prems by (simp add: mult.assoc)
  with le have lt: "n * unat d < 2 ^ 31" "unat d < 2 ^ 31" by linarith+
  then have "sint d = int (unat d)" by (intro sint_small) simp_all
  then have s: "int n * sint d = int (n * unat d)" by simp
  have "in_i64 (int (n * unat d))" using lt(1) by (simp add: in_i64_def flip: of_nat_mult)
  then show ?case using Cons.IH [of "n * unat d"] Cons.prems by (simp add: s mult.assoc del: of_nat_mult)
qed simp

section \<open>Embeddings\<close>

lemma postprocess_float_array:
  assumes w: "prod_list (map unat s) = length (single_values xs)" and d: "d \<in> set s"
    and pos: "0 < length (single_values xs)" and small: "length (single_values xs) < 2 ^ 31"
    and dst: "nd_shape dst = [d]" "nd_dtype dst = dl_f32" "whole dst"
  shows "postprocess_embedding_ndarray (float_array s xs) dst =
    Inr (float_array [d] (Inr (take (unat d) (single_values xs))))"
proof -
  have r: "reduce_int64 1 s = Inr (int (length (single_values xs)))"
    using reduce_int64_small [of 1 s] pos small by (simp add: w)
  have le: "unat d \<le> length (single_values xs)"
    using prod_list_factor [of "unat d" "map unat s"] d pos by (simp add: w)
  then have sd: "sint d = int (unat d)" using small by (intro sint_small) simp
  have len: "length (nd_data dst) = 4 * unat d"
    using dst by (simp add: whole_def itemsize_dtype [of dst "make_ndarray [d] dl_f32 []"])
  have fit: "\<not> int (length (single_values xs)) < sint d" unfolding sd of_nat_less_iff using le by (simp only: not_less)
  have upd: "dst\<lparr>nd_data := bs\<rparr> = make_ndarray [d] dl_f32 bs" for bs using dst by (intro ndarray_eqI) simp_all
  show ?thesis
  proof (cases xs)
    case (Inl hs)
    obtain rest where "get_many (unat d) get_u16 (concat (map put_u16 hs)) = Inr (take (unat d) hs, rest)"
      using fmt16.get_many_take [of "unat d" hs "[]"] le Inl by auto
    then show ?thesis
      using fit r by (simp add: postprocess_embedding_ndarray_def Inl dst len upd take_map)
  next
    case (Inr fs)
    obtain rest where "get_many (unat d) get_u32 (concat (map put_u32 fs)) = Inr (take (unat d) fs, rest)"
      using fmt32.get_many_take [of "unat d" fs "[]"] le Inr by auto
    then show ?thesis
      using fit r by (simp add: postprocess_embedding_ndarray_def Inr dst len upd)
  qed
qed

lemma fill_ints_whole:
  assumes "length xs < 2 ^ 31" and "nd_shape a = [1, word_of_nat (length xs)]" and "nd_dtype a = dl_i32" and "whole a"
  shows "fill_ints (word_of_nat (length xs)) xs a = Inr (int_array xs)"
proof -
  have u: "unat (word_of_nat (length xs) :: u32) = length xs" "unat (word_of_nat (length xs) :: u64) = length xs"
    using assms(1) by (simp_all add: unat_of_nat)
  have s: "scast (word_of_nat (length xs) :: u32) = (word_of_nat (length xs) :: u64)"
    using sint_small [of "word_of_nat (length xs) :: u32"] assms(1) u by (simp add: scast_eq)
  have len: "length (nd_data a) = 4 * length xs"
    using assms(2-4) by (simp add: whole_def itemsize_dtype [of a "make_ndarray [] dl_i32 []"] u)
  have upd: "a\<lparr>nd_data := bs\<rparr> = make_ndarray [1, word_of_nat (length xs)] dl_i32 bs" for bs
    using assms by (intro ndarray_eqI) simp_all
  show ?thesis by (simp add: fill_ints_def s u len upd int_array_def)
qed

section \<open>Copying a tensor out of the runtime\<close>

lemma count_words: "foldl (\<lambda>n d. n * ucast d) (word_of_nat k :: u32) ds = word_of_nat (k * prod_list (map unat ds))"
proof (induction ds arbitrary: k)
  case (Cons d ds)
  have "(ucast d :: u32) = word_of_nat (unat d)" by simp
  then have "(word_of_nat k :: u32) * ucast d = word_of_nat (k * unat d)" by (simp only: of_nat_mult)
  then show ?case using Cons.IH [of "k * unat d"] by (simp only: foldl_Cons list.map prod_list.Cons mult.assoc)
qed simp

lemma itemsize_small: "unat (itemsize a) < 2 ^ 22"
proof -
  let ?b = "unat (dt_bits (nd_dtype a))" and ?l = "unat (dt_lanes (nd_dtype a))"
  have "?b \<le> 255" "?l \<le> 65535"
    using unsigned_less [of "dt_bits (nd_dtype a)", where 'a = nat] unsigned_less [of "dt_lanes (nd_dtype a)", where 'a = nat]
    by simp_all
  then have "?b * ?l \<le> 255 * 65535" by (rule mult_le_mono)
  then have "(?b * ?l + 7) div 8 < 2 ^ 22" by simp
  then show ?thesis unfolding itemsize_def
    by (subst unat_of_nat) (rule order.strict_trans1 [OF mod_less_eq_dividend])
qed

lemma tvm_nbytes_int:
  "tvm_nbytes a = word_of_int (sint (word_of_nat (prod_list (map unat (nd_shape a))) :: u32) * int (unat (itemsize a)))"
proof -
  have "foldl (\<lambda>n d. n * ucast d) (1 :: u32) (nd_shape a) = word_of_nat (prod_list (map unat (nd_shape a)))"
    using count_words [of 1 "nd_shape a"] by (simp only: of_nat_1 mult_1)
  moreover have "itemsize a = word_of_int (int (unat (itemsize a)))" by simp
  ultimately show ?thesis unfolding tvm_nbytes_def by (simp only: scast_eq of_int_mult)
qed

lemma tvm_nbytes_small:
  assumes "prod_list (map unat (nd_shape a)) < 2 ^ 31"
  shows "unat (tvm_nbytes a) = prod_list (map unat (nd_shape a)) * unat (itemsize a)"
proof -
  let ?n = "prod_list (map unat (nd_shape a))" and ?i = "unat (itemsize a)"
  have n: "unat (word_of_nat ?n :: u32) = ?n" using assms by (simp add: unat_of_nat)
  then have "sint (word_of_nat ?n :: u32) = int ?n" using sint_small [of "word_of_nat ?n :: u32"] assms by simp
  then have "tvm_nbytes a = word_of_nat (?n * ?i)" unfolding tvm_nbytes_int by simp
  moreover have "?n * ?i \<le> 2 ^ 31 * 2 ^ 22" using assms itemsize_small [of a] by (intro mult_le_mono) simp_all
  then have "?n * ?i < 2 ^ 64" by simp
  then have "unat (word_of_nat (?n * ?i) :: u64) = ?n * ?i" unfolding unat_of_nat by simp
  ultimately show ?thesis by (simp only:)
qed

lemma from_tvm_whole:
  assumes "tvm_ok T" and "whole a" and "prod_list (map unat (nd_shape a)) < 2 ^ 31"
  shows "ndarray_from_tvm T a = Inr a"
proof -
  have n: "unat (tvm_nbytes a) = length (nd_data a)"
    using tvm_nbytes_small [OF assms(3)] assms(2) by (simp add: whole_def)
  have "prod_list (map unat (nd_shape a)) * unat (itemsize a) \<le> 2 ^ 31 * 2 ^ 22"
    using assms(3) itemsize_small [of a] by (intro mult_le_mono) simp_all
  then have "\<not> 2 ^ 63 \<le> unat (tvm_nbytes a)" using tvm_nbytes_small [OF assms(3)] by simp
  moreover have "tl_copy_to_bytes T a (tvm_nbytes a) = Inr (nd_data a)" using assms(1) n by (simp add: tvm_ok_def)
  ultimately show ?thesis by (simp add: ndarray_from_tvm_def make_ndarray_def)
qed

lemma negative_word:
  assumes "0 < k" and "k \<le> 2 ^ 63" shows "2 ^ 63 \<le> unat (word_of_int (- int k) :: u64)"
proof -
  have "uint (word_of_int (- int k) :: u64) = - int k mod 2 ^ 64" unfolding unsigned_of_int take_bit_eq_mod by simp
  also have "\<dots> = 2 ^ 64 - int k" using assms by (simp add: zmod_zminus1_eq_if)
  finally have u: "uint (word_of_int (- int k) :: u64) = 2 ^ 64 - int k" .
  have "int k \<le> 2 ^ 63" using assms(2) by (simp flip: of_nat_le_iff)
  then have "int (2 ^ 63) \<le> uint (word_of_int (- int k) :: u64)" unfolding u by simp
  then show ?thesis unfolding uint_nat by (simp only: of_nat_le_iff)
qed

lemma from_tvm_huge:
  assumes "2 ^ 31 \<le> prod_list (map unat (nd_shape a))" and "prod_list (map unat (nd_shape a)) < 2 ^ 32"
    and "0 < unat (itemsize a)"
  shows "ndarray_from_tvm T a = Inl (LibThrow ''length_error'')"
proof -
  let ?n = "prod_list (map unat (nd_shape a))" and ?i = "unat (itemsize a)"
  have n: "uint (word_of_nat ?n :: u32) = int ?n" using assms(2) by (simp add: unsigned_of_nat take_bit_nat_eq_self)
  have "sint (word_of_nat ?n :: u32) = int ?n - 2 ^ 32"
  proof -
    have "?n div 2 ^ 31 = 1" using assms by (intro div_nat_eqI) simp_all
    then have "int ?n div 2 ^ 31 = 1" by (metis of_nat_1 of_nat_numeral of_nat_power zdiv_int)
    then have "bit (int ?n) 31" by (simp add: bit_iff_odd)
    moreover have "take_bit 32 (int ?n) = int ?n" using assms(2) by (intro take_bit_int_eq_self) simp_all
    ultimately have "signed_take_bit 31 (int ?n) = int ?n - 2 ^ 32" by (simp add: signed_take_bit_eq_take_bit_minus)
    then show ?thesis by (simp add: sint_uint n)
  qed
  then have w: "tvm_nbytes a = word_of_int ((int ?n - 2 ^ 32) * int ?i)" unfolding tvm_nbytes_int by simp
  let ?k = "(2 ^ 32 - ?n) * ?i"
  have k: "0 < ?k" "?k \<le> 2 ^ 31 * 2 ^ 22"
    using assms itemsize_small [of a] by (simp, intro mult_le_mono, simp_all)
  have "(int ?n - 2 ^ 32) * int ?i = - int ?k" using assms(2) by (simp add: of_nat_diff algebra_simps)
  then have "2 ^ 63 \<le> unat (tvm_nbytes a)"
    unfolding w by (simp only:) (rule negative_word [OF k(1) order_trans [OF k(2)]], simp)
  then show ?thesis by (simp add: ndarray_from_tvm_def)
qed

section \<open>The whole inference\<close>

lemma empty_int_array:
  assumes "tvm_ok T" and "n < 2 ^ 31"
  shows "\<exists>a. tl_empty T [1, word_of_nat n] dl_i32 dev = Inr a \<and> nd_shape a = [1, word_of_nat n] \<and>
    nd_dtype a = dl_i32 \<and> whole a"
proof -
  have "prod_list (map unat [1, word_of_nat n :: u64]) < 2 ^ 31" using assms(2) by (simp add: unat_of_nat)
  with assms(1) show ?thesis unfolding tvm_ok_def by blast
qed

lemma copied:
  assumes "tvm_ok T" and "tl_empty T (nd_shape a) (nd_dtype a) dev = Inr b"
    and "whole a" and "prod_list (map unat (nd_shape a)) < 2 ^ 31"
  shows "tl_copy_from T b a = Inr a"
proof -
  have "\<exists>x. tl_empty T (nd_shape a) (nd_dtype a) dev = Inr x \<and> nd_shape x = nd_shape a \<and> nd_dtype x = nd_dtype a \<and> whole x"
    using assms(1,4) unfolding tvm_ok_def by blast
  with assms(2) have b: "nd_shape b = nd_shape a" "nd_dtype b = nd_dtype a" "whole b" by auto
  then have "length (nd_data b) = length (nd_data a)" using whole_same [of a b] assms(3) by simp
  then have "tl_copy_from T b a = Inr (b\<lparr>nd_data := nd_data a\<rparr>)" using assms(1) unfolding tvm_ok_def by blast
  moreover have "b\<lparr>nd_data := nd_data a\<rparr> = a" using b by simp
  ultimately show ?thesis by simp
qed

lemma whole_int_array: "length xs < 2 ^ 31 \<Longrightarrow> whole (int_array xs) \<and> prod_list (map unat (nd_shape (int_array xs))) < 2 ^ 31"
  by (simp add: whole_def int_array_def fmt32.length_enc_many unat_of_nat)

lemma embedding_infer_result:
  assumes T: "tvm_ok T" and n: "length tokens < 2 ^ 31" and f: "em_prefill em = Some prefill"
    and run: "prefill (int_array tokens) (int_array (replicate (length tokens) 1)) (tm_params (em_engine em)) =
      Inr (float_array (s @ [d]) xs)"
    and w: "prod_list (map unat (s @ [d])) = length (single_values xs)"
    and pos: "0 < length (single_values xs)" and small: "length (single_values xs) < 2 ^ 31"
  shows "embedding_infer T em tokens = Inr (float_array [d] (Inr (take (unat d) (single_values xs))))"
proof -
  let ?n = "word_of_nat (length tokens) :: u64" and ?dev = "Some (tm_device (em_engine em))"
  let ?ones = "replicate (length tokens) 1 :: u32 list" and ?logits = "float_array (s @ [d]) xs"
  have sc: "scast (word_of_nat (length tokens) :: u32) = ?n"
    using sint_small [of "word_of_nat (length tokens) :: u32"] n by (simp add: scast_eq unat_of_nat)
  obtain a where a: "tl_empty T [1, ?n] dl_i32 None = Inr a" "nd_shape a = [1, ?n]" "nd_dtype a = dl_i32" "whole a"
    using empty_int_array [OF T n] by blast
  obtain b where b: "tl_empty T [1, ?n] dl_i32 ?dev = Inr b" using empty_int_array [OF T n] by blast
  have fill: "fill_ints (word_of_nat (length tokens)) tokens a = Inr (int_array tokens)"
    "fill_ints (word_of_nat (length tokens)) ?ones a = Inr (int_array ?ones)"
    using fill_ints_whole [of tokens a] fill_ints_whole [of ?ones a] a n by simp_all
  have gpu: "tl_copy_from T b (int_array xs) = Inr (int_array xs)" if "length xs = length tokens" for xs
    using copied [OF T, of "int_array xs" ?dev b] whole_int_array [of xs] n that b by (simp add: int_array_def)
  have lw: "whole ?logits" "prod_list (map unat (nd_shape ?logits)) < 2 ^ 31"
    using w small by (simp_all only: whole_float_array float_array_shape)
  obtain l where l: "tl_empty T (nd_shape ?logits) (nd_dtype ?logits) None = Inr l"
    using T lw(2) unfolding tvm_ok_def by blast
  have cpu: "tl_copy_from T l ?logits = Inr ?logits" by (rule copied [OF T l lw])
  have "unat d \<le> length (single_values xs)"
    using prod_list_factor [of "unat d" "map unat (s @ [d])"] pos by (simp only: w) simp
  then have "prod_list (map unat [d]) < 2 ^ 31" using small by simp
  then obtain out where out: "tl_empty T [d] dl_f32 None = Inr out" "nd_shape out = [d]" "nd_dtype out = dl_f32" "whole out"
    using T unfolding tvm_ok_def by blast
  have post: "postprocess_embedding_ndarray ?logits out = Inr (float_array [d] (Inr (take (unat d) (single_values xs))))"
    using postprocess_float_array [OF w _ pos small out(2-4)] by simp
  show ?thesis
    unfolding embedding_infer_def Let_def sc a(1) b bindR_simps fill gpu [OF refl] gpu [OF length_replicate] f deref_simps
      run l cpu by (simp add: out(1) post)
qed

section \<open>A runtime that keeps its promises\<close>

text \<open>
  An example of a runtime: its cache is a list of entries, a parameter is cut out of its file,
  and the model has one function, which answers with a fixed array of two halves, 1 and 2.
\<close>

definition blank :: "u64 list \<Rightarrow> dl_data_type \<Rightarrow> ndarray" where
  "blank shape t =
     (let a = make_ndarray shape t []
      in a\<lparr>nd_data := replicate (prod_list (map unat shape) * unat (itemsize a)) 0\<rparr>)"

definition sample_tvm :: "(unit, unit, (string \<times> ndarray) list, ndarray list) tvm" where
  "sample_tvm = \<lparr>tl_device_name = ''cpu'', tl_exist = (\<lambda>d. d = 0), tl_dtype = (\<lambda>_. Inr dl_f16),
     tl_void = \<lparr>dt_code = 3, dt_bits = 0, dt_lanes = 0\<rparr>, tl_open = (\<lambda>_. Inr (Some ())),
     tl_loader = (\<lambda>_. Some (Inr ())), tl_initialize = (\<lambda>_ _. Inr ()), tl_metadata = (\<lambda>_. Inr ''m''),
     tl_load = (\<lambda>_ r s. if unat (pr_offset r) + unat (pr_nbytes r) \<le> length s
       then Inr (make_ndarray (pr_shape r) (pr_dtype r)
         (bytes_of_string (take (unat (pr_nbytes r)) (drop (unat (pr_offset r)) s))))
       else Inl ''out of the file''),
     tl_update = (\<lambda>name a b c. (name, a) # c),
     tl_params_by_name = (\<lambda>names c. mapR (\<lambda>name. case map_of c name of None \<Rightarrow> Inl (LibThrow ''no parameter'')
       | Some a \<Rightarrow> Inr a) names),
     tl_function = (\<lambda>_ name. if name = ''prefill'' then Some (\<lambda>_ _ _. Inr (float_array [1, 1, 2] (Inl [0x3C00, 0x4000])))
       else None),
     tl_empty = (\<lambda>shape t dev. Inr (blank shape t)),
     tl_copy_from = (\<lambda>dst src. if length (nd_data dst) = length (nd_data src) then Inr (dst\<lparr>nd_data := nd_data src\<rparr>)
       else Inl (LibThrow ''size mismatch'')),
     tl_copy_to_bytes = (\<lambda>a n. if unat n = length (nd_data a) then Inr (nd_data a) else Inl (LibThrow ''size mismatch''))\<rparr>"

definition sample_tokens :: "unit tokens_lib" where
  "sample_tokens = \<lparr>tk_new = (\<lambda>_. ()), tk_encode = (\<lambda>_ s _. map (\<lambda>c. word_of_nat (of_char c)) s),
     tk_decode = (\<lambda>h _ _. h), tk_decode_str = (\<lambda>_. [])\<rparr>"

lemma sample_tvm_ok: "tvm_ok sample_tvm"
  by (simp add: tvm_ok_def sample_tvm_def blank_def Let_def whole_def itemsize_def make_ndarray_def)

lemma sample_cache_ok: "cache_ok sample_tvm map_of"
  by (simp add: cache_ok_def sample_tvm_def)

section \<open>Loading the parameters\<close>

lemma load_records_look:
  assumes "cache_ok T look" and "load_records T device s rs c = Inr c1"
  shows "n \<notin> pr_name ` set rs \<Longrightarrow> look c1 n = look c n"
    and "distinct (map pr_name rs) \<Longrightarrow> r \<in> set rs \<Longrightarrow>
      \<exists>a. tl_load T device r s = Inr a \<and> look c1 (pr_name r) = Some a"
proof -
  have other: "n \<notin> pr_name ` set rs \<Longrightarrow> look c1 n = look c n" if "load_records T device s rs c = Inr c1" for n rs c
    using that assms(1) by (induction rs arbitrary: c) (auto simp: cache_ok_def split: sum.splits)
  show "n \<notin> pr_name ` set rs \<Longrightarrow> look c1 n = look c n" by (rule other [OF assms(2)])
  show "distinct (map pr_name rs) \<Longrightarrow> r \<in> set rs \<Longrightarrow>
      \<exists>a. tl_load T device r s = Inr a \<and> look c1 (pr_name r) = Some a"
    using assms
  proof (induction rs arbitrary: c)
    case (Cons r' rs)
    then obtain a where a: "tl_load T device r' s = Inr a" "load_records T device s rs (tl_update T (pr_name r') a True c) = Inr c1"
      by (auto split: sum.splits)
    show ?case
    proof (cases "r = r'")
      case True
      have "look c1 (pr_name r') = look (tl_update T (pr_name r') a True c) (pr_name r')"
        using other [OF a(2)] Cons.prems(1) by simp
      then show ?thesis using a Cons.prems(3) True by (simp add: cache_ok_def)
    next
      case False
      with Cons a show ?thesis by auto
    qed
  qed simp
qed

text \<open>The parameters of different files have different names.\<close>

lemma distinct_concat_nth:
  assumes "distinct (concat xss)" and "i < length xss"
  shows "distinct (xss ! i)" and "j < length xss \<Longrightarrow> i \<noteq> j \<Longrightarrow> set (xss ! i) \<inter> set (xss ! j) = {}"
proof -
  show "distinct (xss ! i)" using assms by (simp add: distinct_concat_iff)
  assume j: "j < length xss" and ne: "i \<noteq> j"
  have apart: "set (xss ! m) \<inter> set (xss ! n) = {}" if "m < n" "n < length xss" for m n
  proof -
    have "xss = take n xss @ drop n xss" by simp
    then have "distinct (concat (take n xss) @ concat (drop n xss))" using assms(1) by (metis concat_append)
    moreover have "set (xss ! m) \<subseteq> set (concat (take n xss))" using that by (force simp: in_set_conv_nth)
    moreover have "set (xss ! n) \<subseteq> set (concat (drop n xss))" using that(2) by (simp flip: Cons_nth_drop_Suc)
    ultimately show ?thesis by auto
  qed
  show "set (xss ! i) \<inter> set (xss ! j) = {}"
    using apart [of i j] apart [of j i] assms(2) j ne by (cases "i < j") auto
qed

lemma shard_names:
  assumes "distinct (map pr_name (concat (map fr_records frs)))" and "i < length frs"
  shows "distinct (map pr_name (fr_records (frs ! i)))"
    and "j < length frs \<Longrightarrow> i \<noteq> j \<Longrightarrow> r \<in> set (fr_records (frs ! i)) \<Longrightarrow> pr_name r \<notin> pr_name ` set (fr_records (frs ! j))"
proof -
  let ?names = "map (\<lambda>fr. map pr_name (fr_records fr)) frs"
  have d: "distinct (concat ?names)" "i < length ?names" using assms by (simp_all add: map_concat comp_def)
  from distinct_concat_nth(1) [OF d] assms(2) show "distinct (map pr_name (fr_records (frs ! i)))" by simp
  show "pr_name r \<notin> pr_name ` set (fr_records (frs ! j))"
    if "j < length frs" "i \<noteq> j" "r \<in> set (fr_records (frs ! i))"
    using distinct_concat_nth(2) [OF d, of j] that assms(2) by auto
qed

text \<open>A file with parameters is in order: it is listed, of the size that is listed, and all of it is in the cache.\<close>

definition shard_loaded ::
  "('m, 'v, 'c, 'p) tvm \<Rightarrow> u32 \<Rightarrow> file_record list \<Rightarrow> (string \<rightharpoonup> ndarray) \<Rightarrow> nat \<Rightarrow> string \<Rightarrow> bool" where
  "shard_loaded T device frs cache i s \<longleftrightarrow>
     i < length frs \<and> fr_format (frs ! i) = ''raw-shard'' \<and> fr_nbytes (frs ! i) = word_of_nat (length s) \<and>
     (\<forall>r \<in> set (fr_records (frs ! i)). \<exists>a. tl_load T device r s = Inr a \<and> cache (pr_name r) = Some a)"

lemma load_shard:
  assumes "cache_ok T look" and "load_ndarray_cache_shard T device frs i s c = Inr c1"
    and "distinct (map pr_name (concat (map fr_records frs)))"
  shows "shard_loaded T device frs (look c1) i s" and "i < length frs"
    and "n \<notin> pr_name ` set (fr_records (frs ! i)) \<Longrightarrow> look c1 n = look c n"
proof -
  have l: "i < length frs" "fr_format (frs ! i) = ''raw-shard''" "fr_nbytes (frs ! i) = word_of_nat (length s)"
    "load_records T device s (fr_records (frs ! i)) c = Inr c1"
    using assms(2) by (auto simp: load_ndarray_cache_shard_def split: if_splits)
  have "distinct (map pr_name (fr_records (frs ! i)))" by (rule shard_names(1) [OF assms(3) l(1)])
  with load_records_look [OF assms(1) l(4)] l show "shard_loaded T device frs (look c1) i s" "i < length frs"
    "n \<notin> pr_name ` set (fr_records (frs ! i)) \<Longrightarrow> look c1 n = look c n"
    by (simp_all add: shard_loaded_def)
qed

lemma load_shards_all:
  assumes "cache_ok T look" and "load_shards T H fs device frs dir names c = Inr c1"
    and "distinct (map pr_name (concat (map fr_records frs)))"
    and "distinct (map read_nat (List.map_filter shard_number names))"
  shows "\<forall>name \<in> set names. \<forall>ds. shard_number name = Some ds \<longrightarrow>
      (\<exists>s. load_bytes_from_file H (path_join dir name) fs = Inr s \<and> shard_loaded T device frs (look c1) (read_nat ds) s)"
    and "i < length frs \<Longrightarrow> i \<notin> read_nat ` set (List.map_filter shard_number names) \<Longrightarrow>
      r \<in> set (fr_records (frs ! i)) \<Longrightarrow> look c1 (pr_name r) = look c (pr_name r)"
  using assms(2,4)
proof (induction names arbitrary: c i r)
  case (Cons name names)
  { case 1
    show ?case
    proof (cases "shard_number name")
      case None
      with Cons.IH(1) 1 show ?thesis by (auto simp: List.map_filter_simps)
    next
      case (Some ds)
      with 1 obtain i s c2 where l: "stoi ds = Inr i" "load_bytes_from_file H (path_join dir name) fs = Inr s"
        "load_ndarray_cache_shard T device frs i s c = Inr c2" "load_shards T H fs device frs dir names c2 = Inr c1"
        by (auto simp: bindR_eq_Inr)
      have i: "i = read_nat ds" using l(1) by (auto simp: stoi_def split: if_splits)
      note sh = load_shard [OF assms(1) l(3) assms(3)]
      have dist: "distinct (map read_nat (List.map_filter shard_number names))"
        "i \<notin> read_nat ` set (List.map_filter shard_number names)"
        using 1(2) Some by (simp_all add: List.map_filter_simps i)
      have "look c1 (pr_name r) = look c2 (pr_name r)" if "r \<in> set (fr_records (frs ! i))" for r
        using Cons.IH(2) [OF sh(2) dist(2) that l(4) dist(1)] .
      then have "shard_loaded T device frs (look c1) i s" using sh(1) by (simp add: shard_loaded_def)
      with Cons.IH(1) [OF l(4) dist(1)] l(2) Some i show ?thesis by auto
    qed
  next
    case 2
    show ?case
    proof (cases "shard_number name")
      case None
      with Cons.IH(2) 2 show ?thesis by (auto simp: List.map_filter_simps)
    next
      case (Some ds)
      with 2 obtain k s c2 where l: "stoi ds = Inr k" "load_ndarray_cache_shard T device frs k s c = Inr c2"
        "load_shards T H fs device frs dir names c2 = Inr c1"
        by (auto simp: bindR_eq_Inr)
      have k: "k = read_nat ds" using l(1) by (auto simp: stoi_def split: if_splits)
      note sh = load_shard [OF assms(1) l(2) assms(3)]
      have "i \<noteq> k" "distinct (map read_nat (List.map_filter shard_number names))"
        "i \<notin> read_nat ` set (List.map_filter shard_number names)"
        using 2 Some by (auto simp: List.map_filter_simps k)
      then show ?thesis
        using Cons.IH(2) [OF _ _ _ l(3)] sh(3) [OF shard_names(2) [OF assms(3)]] sh(2) 2 by simp
    qed
  }
qed simp_all

section \<open>Properties\<close>

text \<open>
  C16. Half precision numbers are converted exactly: a number that is finite or infinite becomes the
  single precision number that the standard's conversion gives, which needs no rounding, and a NaN
  stays a NaN.
\<close>

theorem half_to_single:
  "if is_fp_nan 10 5 (unat h) then is_fp_nan 23 8 (unat (float16_to_float32 h))
   else unat (float16_to_float32 h) = fp_convert 10 5 23 8 (unat h)"
  by (simp add: float16_exact float16_nan)



text \<open>
  C14. \<open>infer\<close> answers a prompt with a tensor of one dimension: the first \<open>d\<close> values, converted to single
  precision, of what the model computes for the tokens of the prompt and a mask of ones, where \<open>d\<close> is
  the last dimension of that result; so the embedding is the row of the first token.
\<close>

theorem embedding_of_prompt:
  assumes "tvm_ok T" and "map_of m ''prompt'' = Some (String_t prompt)"
    and "get_obj as_tokenizer os ''tokenizer'' = Some t" and "get_obj as_embedding os ''embedding_model'' = Some em"
    and "tokens = tokenizer_encode K t prompt" and "length tokens < 2 ^ 31" and "em_prefill em = Some prefill"
    and "prefill (int_array tokens) (int_array (replicate (length tokens) 1)) (tm_params (em_engine em)) =
      Inr (float_array (s @ [d]) xs)"
    and "prod_list (map unat (s @ [d])) = length (single_values xs)"
    and "0 < length (single_values xs)" and "length (single_values xs) < 2 ^ 31"
  shows "embedding_infer_method T K os (Some (Map_t m)) =
    Inr (os, Got (Some (Map_t [(''embedding'',
      Ndarray_t (float_array [d] (Inr (take (unat d) (single_values xs)))))])))"
proof -
  have d: "unat d \<le> length (single_values xs)"
    using prod_list_factor [of "unat d" "map unat (s @ [d])"] assms(10) by (simp only: assms(9)) simp
  have "embedding_infer T em tokens = Inr (float_array [d] (Inr (take (unat d) (single_values xs))))"
    by (rule embedding_infer_result [OF assms(1,6,7,8,9,10,11)])
  moreover have "ndarray_from_tvm T (float_array [d] (Inr (take (unat d) (single_values xs)))) =
      Inr (float_array [d] (Inr (take (unat d) (single_values xs))))"
    by (rule from_tvm_whole [OF assms(1)]) (use d assms(11) in \<open>simp_all only: whole_float_array float_array_shape\<close>, simp_all)
  ultimately show ?thesis using assms(2-5) by (simp add: embedding_infer_method_def)
qed

definition sample_embedder :: "(unit, ndarray list) embedding_model" where
  "sample_embedder = \<lparr>em_engine = \<lparr>tm_name = ''e'', tm_quantization = ''q4f16_1'', tm_device = 0, tm_path = ''/m'',
       tm_module = (), tm_metadata = JNull, tm_cache_metadata = [], tm_params = []\<rparr>,
     em_prefill = tl_function sample_tvm () ''prefill''\<rparr>"

theorem embedding_of_prompt_witness:
  "embedding_infer_method sample_tvm sample_tokens
     [(''embedding_model'', Embedding_obj sample_embedder), (''tokenizer'', Tokenizer_obj ())]
     (Some (Map_t [(''prompt'', String_t ''ab'')])) =
   Inr ([(''embedding_model'', Embedding_obj sample_embedder), (''tokenizer'', Tokenizer_obj ())],
     Got (Some (Map_t [(''embedding'', Ndarray_t (float_array [2] (Inr [0x3F800000, 0x40000000])))])))"
proof -
  have h: "float16_to_float32 0x3C00 = 0x3F800000" "float16_to_float32 0x4000 = 0x40000000"
    by (simp_all add: float16_to_float32_def)
  show ?thesis
    using embedding_of_prompt [OF sample_tvm_ok, of "[(''prompt'', String_t ''ab'')]" "''ab''"
      "[(''embedding_model'', Embedding_obj sample_embedder), (''tokenizer'', Tokenizer_obj ())]" "()" sample_embedder
      "tokenizer_encode sample_tokens () ''ab''" sample_tokens
      "\<lambda>_ _ _. Inr (float_array [1, 1, 2] (Inl [0x3C00, 0x4000]))" "[1, 1]" 2 "Inl [0x3C00, 0x4000]"]
    by (simp add: get_obj_def sample_embedder_def sample_tvm_def tokenizer_encode_def sample_tokens_def h)
qed

text \<open>
  C15. When a model has been read, every file with parameters in its directory was listed and had the
  size that is listed, and each of its parameters is in the cache as it was cut out of that file. So
  a file that was cut short is never used.
\<close>

theorem parameters_loaded:
  assumes "cache_ok T look" and "read_model T C H model q device path lib fs c = Inr (c1, m)"
    and "distinct (map pr_name (concat (map fr_records (tm_cache_metadata m))))"
    and "names = dir_names (place (h_cwd H) path) fs"
    and "distinct (map read_nat (List.map_filter shard_number names))"
    and "name \<in> set names" and "shard_number name = Some ds"
  shows "\<exists>s. load_bytes_from_file H (path_join path name) fs = Inr s \<and>
    shard_loaded T device (tm_cache_metadata m) (look c1) (read_nat ds) s"
proof -
  have "load_shards T H fs device (tm_cache_metadata m) path names c = Inr c1"
    using assms(2) by (auto simp: read_model_def bindR_eq_Inr assms(4) split: if_splits)
  from load_shards_all(1) [OF assms(1) this assms(3,5)] assms(6,7) show ?thesis by blast
qed

definition sample_metadata :: json where
  "sample_metadata = JObject [(''params'', JArray [JObject [(''name'', JString ''w'')]])]"

definition sample_cache_metadata :: json where
  "sample_cache_metadata = JObject [(''records'', JArray [JObject
     [(''dataPath'', JString ''params_shard_0.bin''), (''format'', JString ''raw-shard''), (''nbytes'', JUint 4),
      (''records'', JArray [JObject [(''byteOffset'', JUint 0), (''dtype'', JString ''float16''),
        (''format'', JString ''raw''), (''name'', JString ''w''), (''nbytes'', JUint 4), (''shape'', JArray [JUint 2])]])]])]"

definition sample_texts :: codec where
  "sample_texts = \<lparr>cbor_out = (\<lambda>_. []), cbor_in = (\<lambda>_. None), json_dump = (\<lambda>_. None),
     json_parse = (\<lambda>s. if s = ''m'' then Some sample_metadata else if s = ''c'' then Some sample_cache_metadata else None)\<rparr>"

definition sample_machine :: host where
  "sample_machine = \<lparr>h_env = (\<lambda>_. None), h_cwd = ''/'', h_uname = None, h_sha1 = (\<lambda>_. []), h_json_read = (\<lambda>_. Inl [])\<rparr>"

definition sample_files :: files where
  "sample_files = [([''m''], Dir), ([''m'', ''ndarray-cache.json''], File ''c''), ([''m'', ''params_shard_0.bin''], File ''abcd'')]"

definition sample_model :: "(unit, ndarray list) tvm_model" where
  "sample_model = \<lparr>tm_name = ''e'', tm_quantization = ''q'', tm_device = 0, tm_path = ''/m'', tm_module = (),
     tm_metadata = sample_metadata,
     tm_cache_metadata = [\<lparr>fr_path = ''params_shard_0.bin'', fr_format = ''raw-shard'', fr_nbytes = 4,
       fr_records = [\<lparr>pr_name = ''w'', pr_dtype = dl_f16, pr_shape = [2], pr_format = ''raw'', pr_nbytes = 4, pr_offset = 0\<rparr>]\<rparr>],
     tm_params = [make_ndarray [2] dl_f16 (bytes_of_string ''abcd'')]\<rparr>"

lemma sample_file_texts:
  "load_bytes_from_file sample_machine (path_join ''/m'' ''ndarray-cache.json'') sample_files = Inr ''c''"
  "load_bytes_from_file sample_machine (path_join ''/m'' ''params_shard_0.bin'') sample_files = Inr ''abcd''"
  "node_of (h_cwd sample_machine) ''/m'' sample_files = Some Dir"
  "dir_names (place (h_cwd sample_machine) ''/m'') sample_files = [''ndarray-cache.json'', ''params_shard_0.bin'']"
  by code_simp+

lemma sample_shard_numbers:
  "shard_number ''ndarray-cache.json'' = None" "shard_number ''params_shard_0.bin'' = Some ''0''" "read_nat ''0'' = 0"
  by code_simp+

lemma sample_cache_metadata_read:
  "load_ndarray_cache_metadata sample_tvm sample_texts ''c'' = Inr (tm_cache_metadata sample_model)"
  by (simp add: load_ndarray_cache_metadata_def sample_texts_def sample_cache_metadata_def parse_or_throw_def
      cache_metadata_from_json_def file_record_from_json_def param_record_from_json_def json_int64_def sample_tvm_def
      sample_model_def)

lemma sample_parameters:
  "load_shards sample_tvm sample_machine sample_files 0 (tm_cache_metadata sample_model) ''/m''
     [''ndarray-cache.json'', ''params_shard_0.bin''] [] = Inr [(''w'', make_ndarray [2] dl_f16 (bytes_of_string ''abcd''))]"
  by (simp add: sample_shard_numbers stoi_def sample_file_texts load_ndarray_cache_shard_def sample_model_def)
    (simp add: sample_tvm_def)

lemma sample_reading:
  "read_model sample_tvm sample_texts sample_machine ''e'' ''q'' 0 ''/m'' ''/l'' sample_files [] =
    Inr ([(''w'', make_ndarray [2] dl_f16 (bytes_of_string ''abcd''))], sample_model)"
proof -
  have "open_module sample_tvm ''/l'' 0 = Inr ()" by (simp add: open_module_def sample_tvm_def)
  moreover have "bindR (tl_metadata sample_tvm ()) (parse_or_throw sample_texts) = Inr sample_metadata"
    by (simp add: sample_tvm_def parse_or_throw_def sample_texts_def)
  moreover have "load_params_from_cache sample_tvm sample_metadata [(''w'', make_ndarray [2] dl_f16 (bytes_of_string ''abcd''))] =
      Inr (tm_params sample_model)"
    by (simp add: load_params_from_cache_def const_member_def sample_metadata_def json_elements_def sample_tvm_def sample_model_def)
  ultimately show ?thesis
    unfolding read_model_def by (simp add: sample_file_texts sample_cache_metadata_read sample_parameters del: load_shards.simps) (simp add: sample_model_def)
qed

theorem parameters_loaded_witness:
  "\<exists>s. load_bytes_from_file sample_machine (path_join ''/m'' ''params_shard_0.bin'') sample_files = Inr s \<and>
     shard_loaded sample_tvm 0 (tm_cache_metadata sample_model)
       (map_of [(''w'', make_ndarray [2] dl_f16 (bytes_of_string ''abcd''))]) (read_nat ''0'') s"
  by (rule parameters_loaded [OF sample_cache_ok sample_reading _ refl])
    (simp_all add: sample_model_def sample_file_texts sample_shard_numbers List.map_filter_simps)

text \<open>
  The check of the quantization looks at the model: when a quantization is given but no model, making
  the component throws; when it is no string, it dereferences a null pointer.
\<close>

lemma quantization_check_fails:
  assumes "map_of m ''quantization'' = Some q"
    and "map_of m ''model'' = None \<or> (\<exists>s. map_of m ''model'' = Some (String_t s)) \<and> \<not> is_string q"
  shows "create_tvm_embedding_model_component T K C H N (Some (Map_t m)) st =
    Inl (if map_of m ''model'' = None then Throw ''key not exists: model'' else UB ''null pointer dereference'')"
proof -
  have "as_string q = None" if "\<not> is_string q" using that by (cases q) simp_all
  with assms show ?thesis
    by (auto simp: create_tvm_embedding_model_component_def parse_embedding_create_def optional_text_def
        parse_quantization_def map_contains_def map_at_def map_get_def map_at_as_def)
qed

theorem quantization_check_fails_witness:
  "create_tvm_embedding_model_component sample_tvm sample_tokens sample_texts sample_machine
     \<lparr>n_get = \<lambda>_ _. Inl [], n_stream = \<lambda>_ _. \<lparr>t_chunks = [], t_interrupt = None, t_end = Inl [], t_cancel = []\<rparr>\<rparr>
     (Some (Map_t [(''quantization'', String_t ''q4f16_1'')])) (sample_files, []) = Inl (Throw ''key not exists: model'')"
  by (subst quantization_check_fails) simp_all

text \<open>A prompt of the wrong type: the error message cannot be made.\<close>

lemma tokenize_check_throws:
  assumes "map_of m ''prompt'' = Some p" and "\<not> is_string p" and "map_of m ''prmopt'' = None"
  shows "embedding_tokenize_method K os (Some (Map_t m)) = Inl (Throw ''key not exists: prmopt'')"
  using assms by (cases p) (simp_all add: embedding_tokenize_method_def map_at_def)

end
