(* ===== verification/PyBinding.thy ===== *)
theory PyBinding
  imports BrokerClient
begin

text \<open>
  The Python module (\<open>bindings/python/csrc\<close>): how Python objects become values and values become
  Python objects (\<open>py_value_converters.hpp\<close>), and the methods of its \<open>BrokerClient\<close>
  (\<open>binding.cpp\<close>). Starting and joining the threads of the broker and the VM is left out.
\<close>

section \<open>Python objects\<close>

text \<open>
  The objects that the conversions know. A string is its UTF-8 text. \<open>PyOther\<close> is an object of another
  class, without conversions to numbers or truth values. An array is what the buffer protocol tells
  of it: shape, strides, the format and the size of an element, and the memory from its first
  element on.
\<close>

record py_buffer =
  pb_shape :: "u64 list"
  pb_strides :: "nat list"
  pb_format :: string
  pb_itemsize :: nat
  pb_mem :: "byte list"

datatype py =
    PyNone
  | PyBool bool
  | PyInt int
  | PyFloat u64
  | PyStr string
  | PyBytes "byte list"
  | PyList "py list"
  | PyDict "(py \<times> py) list"
  | PyArray py_buffer
  | PyOther

text \<open>Well-formed UTF-8, as Python checks it: no overlong forms, no surrogates, nothing above \<open>10FFFF\<close>.\<close>

definition tail_byte :: "nat \<Rightarrow> bool" where
  "tail_byte b \<longleftrightarrow> 0x80 \<le> b \<and> b \<le> 0xBF"

fun utf8_bytes :: "nat list \<Rightarrow> bool" where
  "utf8_bytes [] = True"
| "utf8_bytes (a # bs) =
     (if a < 0x80 then utf8_bytes bs
      else if 0xC2 \<le> a \<and> a \<le> 0xDF then
        (case bs of b # cs \<Rightarrow> tail_byte b \<and> utf8_bytes cs | _ \<Rightarrow> False)
      else if 0xE0 \<le> a \<and> a \<le> 0xEF then
        (case bs of
           b # c # ds \<Rightarrow> tail_byte b \<and> tail_byte c \<and> (a = 0xE0 \<longrightarrow> 0xA0 \<le> b) \<and> (a = 0xED \<longrightarrow> b \<le> 0x9F) \<and> utf8_bytes ds
         | _ \<Rightarrow> False)
      else if 0xF0 \<le> a \<and> a \<le> 0xF4 then
        (case bs of
           b # c # d # es \<Rightarrow> tail_byte b \<and> tail_byte c \<and> tail_byte d \<and> (a = 0xF0 \<longrightarrow> 0x90 \<le> b) \<and>
             (a = 0xF4 \<longrightarrow> b \<le> 0x8F) \<and> utf8_bytes es
         | _ \<Rightarrow> False)
      else False)"

definition utf8_ok :: "string \<Rightarrow> bool" where
  "utf8_ok s = utf8_bytes (map of_char s)"

section \<open>Types of arrays\<close>

definition dl_type :: "byte \<Rightarrow> byte \<Rightarrow> dl_data_type" where
  "dl_type code bits = \<lparr>dt_code = code, dt_bits = bits, dt_lanes = 1\<rparr>"

text \<open>The formats of \<open>py::format_descriptor\<close>; \<open>kDLInt\<close>, \<open>kDLUInt\<close> and \<open>kDLFloat\<close> are 0, 1 and 2.\<close>

definition dtype_of_format :: "string \<Rightarrow> dl_data_type option" where
  "dtype_of_format f =
     (if f = ''b'' then Some (dl_type 0 8) else if f = ''h'' then Some (dl_type 0 16)
      else if f = ''i'' then Some (dl_type 0 32) else if f = ''q'' then Some (dl_type 0 64)
      else if f = ''B'' then Some (dl_type 1 8) else if f = ''H'' then Some (dl_type 1 16)
      else if f = ''I'' then Some (dl_type 1 32) else if f = ''Q'' then Some (dl_type 1 64)
      else if f = ''f'' then Some (dl_type 2 32) else if f = ''d'' then Some (dl_type 2 64)
      else None)"

definition format_of_dtype :: "dl_data_type \<Rightarrow> string res" where
  "format_of_dtype t =
     (if dt_code t = 0 then
        (if dt_bits t = 8 then Inr ''b'' else if dt_bits t = 16 then Inr ''h'' else if dt_bits t = 32 then Inr ''i''
         else if dt_bits t = 64 then Inr ''q'' else Inl (LibThrow ''Unsupported int bits''))
      else if dt_code t = 1 then
        (if dt_bits t = 8 then Inr ''B'' else if dt_bits t = 16 then Inr ''H'' else if dt_bits t = 32 then Inr ''I''
         else if dt_bits t = 64 then Inr ''Q'' else Inl (LibThrow ''Unsupported uint bits''))
      else if dt_code t = 2 then
        (if dt_bits t = 32 then Inr ''f'' else if dt_bits t = 64 then Inr ''d''
         else Inl (LibThrow ''Unsupported float bits''))
      else Inl (LibThrow ''Unsupported dtype code''))"

section \<open>From Python\<close>

text \<open>An array is copied as one block from its first element on; its strides are not looked at.\<close>

definition load_array :: "py_buffer \<Rightarrow> val res" where
  "load_array b =
     (case dtype_of_format (pb_format b) of
        None \<Rightarrow> Inl (Throw ''Unsupported numpy dtype for ndarray_t'')
      | Some t \<Rightarrow>
          (let n = prod_list (map unat (pb_shape b)) * pb_itemsize b in
           if length (pb_mem b) < n then Inl (UB ''read past the end of the array'')
           else Inr (Ndarray_t (make_ndarray (pb_shape b) t (take n (pb_mem b))))))"

text \<open>\<open>cast<std::string>\<close> takes strings and bytes; a conversion that does not apply throws in \<open>py::cast\<close>.\<close>

definition py_string :: "py \<Rightarrow> string res" where
  "py_string p =
     (case p of PyStr s \<Rightarrow> Inr s | PyBytes bs \<Rightarrow> Inr (string_of_bytes bs) | _ \<Rightarrow> Inl (LibThrow ''cast_error''))"

definition must_cast :: "val option \<Rightarrow> val res" where
  "must_cast r = (case r of None \<Rightarrow> Inl (LibThrow ''cast_error'') | Some v \<Rightarrow> Inr v)"

fun py_load :: "py \<Rightarrow> val option res" where
  "py_load PyNone = Inr (Some Null_t)"
| "py_load (PyBool b) = Inr (Some (Bool_t b))"
| "py_load (PyInt i) = (if in_i64 i then Inr (Some (Int_t (word_of_int i))) else Inl (LibThrow ''cast_error''))"
| "py_load (PyFloat d) = Inr (Some (Double_t d))"
| "py_load (PyStr s) = Inr (Some (String_t s))"
| "py_load (PyBytes bs) = Inr (Some (Bytes_t bs))"
| "py_load (PyList xs) = mapR_res (\<lambda>vs. Some (Array_t vs)) (mapR (\<lambda>x. bindR (py_load x) must_cast) xs)"
| "py_load (PyDict es) =
     mapR_res (\<lambda>m. Some (Map_t (put_all m)))
       (mapR (\<lambda>e. bindR (bindR (py_load (snd e)) must_cast) (\<lambda>v. bindR (py_string (fst e)) (\<lambda>k. Inr (k, v)))) es)"
| "py_load (PyArray b) = mapR_res Some (load_array b)"
| "py_load PyOther = Inr None"

section \<open>To Python\<close>

definition py_str :: "string \<Rightarrow> py res" where
  "py_str s = (if utf8_ok s then Inr (PyStr s) else Inl (LibThrow ''UnicodeDecodeError''))"

text \<open>The strides of an array whose elements lie one after the other, the last index fastest.\<close>

fun c_strides :: "nat \<Rightarrow> u64 list \<Rightarrow> nat list" where
  "c_strides n [] = []"
| "c_strides n (d # ds) = prod_list (map unat ds) * n # c_strides n ds"

text \<open>The new array copies the elements that its shape and strides ask for.\<close>

definition cast_array :: "ndarray \<Rightarrow> py res" where
  "cast_array a =
     bindR (format_of_dtype (nd_dtype a)) (\<lambda>f.
     let size = unat (dt_bits (nd_dtype a)) div 8; n = prod_list (map unat (nd_shape a)) * size in
     if length (nd_data a) < n then Inl (UB ''read past the end of the data'')
     else Inr (PyArray \<lparr>pb_shape = nd_shape a, pb_strides = c_strides size (nd_shape a), pb_format = f,
       pb_itemsize = size, pb_mem = take n (nd_data a)\<rparr>))"

fun py_cast :: "val \<Rightarrow> py res" where
  "py_cast Null_t = Inr PyNone"
| "py_cast (Bool_t b) = Inr (PyBool b)"
| "py_cast (Int_t i) = Inr (PyInt (sint i))"
| "py_cast (Uint_t n) = Inr (PyInt (uint n))"
| "py_cast (Float_t f) = Inr (PyFloat (float_to_double f))"
| "py_cast (Double_t d) = Inr (PyFloat d)"
| "py_cast (String_t s) = py_str s"
| "py_cast (Bytes_t bs) = Inr (PyBytes bs)"
| "py_cast (Array_t vs) = mapR_res PyList (mapR py_cast vs)"
| "py_cast (Map_t m) =
     mapR_res PyDict (mapR (\<lambda>e. bindR (py_cast (snd e)) (\<lambda>p. bindR (py_str (fst e)) (\<lambda>k. Inr (k, p)))) m)"
| "py_cast (Ndarray_t a) = cast_array a"

section \<open>The client\<close>

definition py_arg :: "py list \<Rightarrow> nat \<Rightarrow> py res" where
  "py_arg args i = (if i < length args then Inr (args ! i) else Inl (LibThrow ''IndexError''))"

definition string_arg :: "py list \<Rightarrow> nat \<Rightarrow> string res" where
  "string_arg args i = bindR (py_arg args i) py_string"

definition value_arg :: "py list \<Rightarrow> nat \<Rightarrow> val res" where
  "value_arg args i = bindR (py_arg args i) (\<lambda>p. bindR (py_load p) must_cast)"

text \<open>\<open>cast<bool>\<close> and \<open>cast<uint32_t>\<close>. (An array with one element would be converted, too.)\<close>

definition bool_arg :: "py list \<Rightarrow> nat \<Rightarrow> bool res" where
  "bool_arg args i = bindR (py_arg args i) (\<lambda>p.
     case p of
       PyBool b \<Rightarrow> Inr b
     | PyNone \<Rightarrow> Inr False
     | PyInt n \<Rightarrow> Inr (n \<noteq> 0)
     | PyFloat d \<Rightarrow> Inr (d \<noteq> 0 \<and> d \<noteq> push_bit 63 1)
     | _ \<Rightarrow> Inl (LibThrow ''cast_error''))"

definition u32_arg :: "py list \<Rightarrow> nat \<Rightarrow> u32 res" where
  "u32_arg args i = bindR (py_arg args i) (\<lambda>p.
     case p of
       PyBool b \<Rightarrow> Inr (of_bool b)
     | PyInt n \<Rightarrow> if 0 \<le> n \<and> n < 2 ^ 32 then Inr (word_of_int n) else Inl (LibThrow ''cast_error'')
     | _ \<Rightarrow> Inl (LibThrow ''cast_error''))"

text \<open>Another type of packet than the two runs off the end of a function that returns a \<open>bool\<close>.\<close>

definition send_type1 :: "codec \<Rightarrow> client_t \<Rightarrow> py list \<Rightarrow> world \<Rightarrow> (world \<times> bool) res" where
  "send_type1 C c args w =
     (if length args \<noteq> 2 then Inl (LibThrow ''Expected 2 arguments'')
      else
        bindR (string_arg args 0) (\<lambda>tx.
        bindR (string_arg args 1) (\<lambda>pt.
          if pt = ''connect'' then client_send C c (conn_packet connect tx) w
          else if pt = ''disconnect'' then client_send C c (conn_packet disconnect tx) w
          else Inl (UB ''no return value''))))"

text \<open>
  The packet of \<open>send_type2\<close> (in \<open>js_broker_client.hpp\<close> it is the same), read with the functions for an
  argument that is a text and for one that is a value. What is neither \<open>subscribe\<close> nor \<open>unsubscribe\<close> is \<open>execute\<close>, however it is spelt.\<close>

definition ptype_arg :: "string \<Rightarrow> packet_type" where
  "ptype_arg s = (if s = ''subscribe'' then subscribe else if s = ''unsubscribe'' then unsubscribe else execute)"

definition type2_packet :: "(nat \<Rightarrow> string res) \<Rightarrow> (nat \<Rightarrow> val res) \<Rightarrow> packet_t option res" where
  "type2_packet str inp =
     bindR (str 0) (\<lambda>tx.
     bindR (str 1) (\<lambda>pt.
     bindR (str 2) (\<lambda>it.
     let t = ptype_arg pt in
     if it = ''call_function'' then
       bindR (str 3) (\<lambda>fname.
         if t = execute then bindR (inp 4) (\<lambda>v. Inr (Some (call_function_packet t tx fname (Some v))))
         else Inr (Some (call_function_packet t tx fname None)))
     else if it = ''define_component'' then
       bindR (str 3) (\<lambda>ctname.
         if t = execute then
           bindR (str 4) (\<lambda>cname.
           bindR (inp 5) (\<lambda>v. Inr (Some (define_component_packet t tx ctname cname (Some v)))))
         else Inr (Some (define_component_packet t tx ctname [] None)))
     else if it = ''delete_component'' then
       bindR (str 3) (\<lambda>cname. Inr (Some (delete_component_packet t tx cname)))
     else if it = ''call_method'' then
       bindR (str 3) (\<lambda>cname.
       bindR (str 4) (\<lambda>fname.
         if t = execute then bindR (inp 5) (\<lambda>v. Inr (Some (call_method_packet t tx cname fname (Some v))))
         else Inr (Some (call_method_packet t tx cname fname None))))
     else Inr None)))"

definition send_type2 :: "codec \<Rightarrow> client_t \<Rightarrow> py list \<Rightarrow> world \<Rightarrow> (world \<times> bool) res" where
  "send_type2 C c args w =
     bindR (type2_packet (string_arg args) (value_arg args)) (\<lambda>p. case p of None \<Rightarrow> Inr (w, False) | Some p \<Rightarrow> client_send C c p w)"

definition send_type3 :: "codec \<Rightarrow> client_t \<Rightarrow> py list \<Rightarrow> world \<Rightarrow> (world \<times> bool) res" where
  "send_type3 C c args w =
     bindR (string_arg args 0) (\<lambda>tx.
     bindR (string_arg args 1) (\<lambda>pt.
     bindR (bool_arg args 2) (\<lambda>status.
     bindR (u32_arg args 3) (\<lambda>seqno.
       if status then
         bindR (bool_arg args 4) (\<lambda>fin.
         bindR (value_arg args 5) (\<lambda>out.
           client_send C c (respond_execute_ok_packet tx (ucast seqno) fin out) w))
       else
         bindR (string_arg args 4) (\<lambda>reason.
           client_send C c (respond_execute_err_packet tx (ucast seqno) reason) w)))))"

definition packet_type_to_string :: "packet_type \<Rightarrow> string res" where
  "packet_type_to_string pt =
     (case pt of
        connect \<Rightarrow> Inr ''connect'' | disconnect \<Rightarrow> Inr ''disconnect'' | subscribe \<Rightarrow> Inr ''subscribe''
      | unsubscribe \<Rightarrow> Inr ''unsubscribe'' | execute \<Rightarrow> Inr ''execute'' | respond \<Rightarrow> Inr ''respond''
      | respond_execute \<Rightarrow> Inr ''respond_execute'' | other_ptype _ \<Rightarrow> Inl (Throw ''invalid packet type''))"

definition instruction_type_to_string :: "instruction_type \<Rightarrow> string res" where
  "instruction_type_to_string it =
     (case it of
        call_function \<Rightarrow> Inr ''call_function'' | define_component \<Rightarrow> Inr ''define_component''
      | delete_component \<Rightarrow> Inr ''delete_component'' | call_method \<Rightarrow> Inr ''call_method''
      | other_itype _ \<Rightarrow> Inl (Throw ''invalid instruction type''))"

text \<open>The packet as a dictionary; a packet without headers or body has null pointers in it.\<close>

definition packet_to_py :: "packet_t \<Rightarrow> py res" where
  "packet_to_py p =
     bindR (packet_type_to_string (ptype p)) (\<lambda>pt.
     bindR (case itype p of None \<Rightarrow> Inr Null_t
            | Some it \<Rightarrow> mapR_res String_t (instruction_type_to_string it)) (\<lambda>it.
     bindR (deref (headers p)) (\<lambda>h.
     bindR (deref (body p)) (\<lambda>b.
       py_cast (Map_t (put ''body'' (Map_t b) (put ''headers'' (Array_t h)
         (put ''instruction_type'' it (put ''packet_type'' (String_t pt) [])))))))))"

definition py_listen :: "codec \<Rightarrow> client_t \<Rightarrow> world \<Rightarrow> (world \<times> py) res" where
  "py_listen C c w =
     bindR (client_listen C c False w) (\<lambda>(w1, p).
       case p of None \<Rightarrow> Inr (w1, PyNone) | Some p \<Rightarrow> mapR_res (Pair w1) (packet_to_py p))"

end
