(* ===== verification/JsBinding.thy ===== *)
theory JsBinding
  imports PyBinding
begin

text \<open>
  The Node module (\<open>bindings/js-node/csrc\<close>): the class \<open>NDArray\<close> (\<open>js_ndarray.hpp\<close>), how JavaScript
  values become values and back (\<open>js_value_converters.hpp\<close>), and the class \<open>BrokerClient\<close>
  (\<open>js_broker_client.hpp\<close>). A JavaScript exception is \<open>LibThrow\<close>; where the code returns a null pointer
  with such an exception pending, the result is \<open>None\<close>. A typed array refers to a buffer that
  others may change; the model has the contents at the moment of the call.
\<close>

section \<open>JavaScript values\<close>

datatype ta_type =
    Int8_array | Uint8_array | Uint8_clamped_array | Int16_array | Uint16_array | Int32_array | Uint32_array
  | Float32_array | Float64_array | Bigint64_array | Biguint64_array

text \<open>A view of some elements of a buffer.\<close>

record js_typed =
  ta_type :: ta_type
  ta_buffer :: "byte list"
  ta_offset :: nat
  ta_length :: nat

fun ta_size :: "ta_type \<Rightarrow> nat" where
  "ta_size Int8_array = 1" | "ta_size Uint8_array = 1" | "ta_size Uint8_clamped_array = 1"
| "ta_size Int16_array = 2" | "ta_size Uint16_array = 2"
| "ta_size Int32_array = 4" | "ta_size Uint32_array = 4" | "ta_size Float32_array = 4"
| "ta_size Float64_array = 8" | "ta_size Bigint64_array = 8" | "ta_size Biguint64_array = 8"

record js_ndarray =
  jn_shape :: "u64 list"
  jn_dtype :: string
  jn_data :: js_typed

text \<open>A number is the bits of a \<open>double\<close>; \<open>JsOther\<close> is a function, a promise or a symbol.\<close>

datatype js =
    JsUndefined
  | JsNull
  | JsBool bool
  | JsNumber u64
  | JsBigInt int
  | JsString string
  | JsArrayBuffer "byte list"
  | JsTypedArray js_typed
  | JsArray "js list"
  | JsNdarray js_ndarray
  | JsObject "(string \<times> js) list"
  | JsOther

text \<open>
  What the engine does: \<open>je_text\<close> is the text that a new string has, since broken UTF-8 is replaced,
  and the other two are its conversions of numbers to integers.
\<close>

record js_engine =
  je_text :: "string \<Rightarrow> string"
  je_int64 :: "u64 \<Rightarrow> u64"
  je_uint32 :: "u64 \<Rightarrow> u32"

definition int_to_double :: "int \<Rightarrow> u64" where
  "int_to_double i = word_of_nat (fp_of_int 52 11 i)"

text \<open>\<open>std::trunc(val) == val\<close>, which holds of infinities too.\<close>

definition double_whole :: "u64 \<Rightarrow> bool" where
  "double_whole d \<longleftrightarrow> \<not> is_fp_nan 52 11 (unat d) \<and>
     (is_fp_inf 52 11 (unat d) \<or> 2 ^ 1074 dvd fp_mag 52 (fp_abs 52 11 (unat d)))"

definition show_int :: "int \<Rightarrow> string" where
  "show_int i = (if i < 0 then CHR ''-'' # show_nat (nat (- i)) else show_nat (nat i))"

section \<open>Tensors\<close>

definition ta_of_dtype :: "string \<Rightarrow> ta_type option" where
  "ta_of_dtype s =
     (if s = ''int8'' then Some Int8_array else if s = ''int16'' then Some Int16_array
      else if s = ''int32'' then Some Int32_array else if s = ''int64'' then Some Bigint64_array
      else if s = ''uint8'' then Some Uint8_array else if s = ''uint16'' then Some Uint16_array
      else if s = ''uint32'' then Some Uint32_array else if s = ''uint64'' then Some Biguint64_array
      else if s = ''float32'' then Some Float32_array else if s = ''float64'' then Some Float64_array
      else None)"

definition check_dtype_match :: "string \<Rightarrow> js_typed \<Rightarrow> bool" where
  "check_dtype_match dtype t \<longleftrightarrow> ta_of_dtype dtype = Some (ta_type t)"

definition dtype_bytes :: "string \<Rightarrow> nat" where
  "dtype_bytes s =
     (if s \<in> {''int8'', ''uint8''} then 1 else if s \<in> {''int16'', ''uint16''} then 2
      else if s \<in> {''float32'', ''int32'', ''uint32''} then 4
      else if s \<in> {''float64'', ''int64'', ''uint64''} then 8 else 0)"

definition dtype_code :: "string \<Rightarrow> byte res" where
  "dtype_code s =
     (if s \<in> {''int8'', ''int16'', ''int32'', ''int64''} then Inr 0
      else if s \<in> {''uint8'', ''uint16'', ''uint32'', ''uint64''} then Inr 1
      else if s \<in> {''float32'', ''float64''} then Inr 2
      else Inl (LibThrow (''unknown dtype: '' @ s)))"

text \<open>
  The number of elements, folded from the \<open>double\<close> 1: each product is made in 64 bits and then
  rounded to a \<open>double\<close>, whose conversion back is undefined when it is too large.
\<close>

definition round_to_double :: "nat \<Rightarrow> nat" where
  "round_to_double n =
     (if n < 2 ^ 53 then n else let s = 2 ^ (msb_pos n - 52) in half_even n s * s)"

fun count_elements :: "nat \<Rightarrow> u64 list \<Rightarrow> nat res" where
  "count_elements acc [] = Inr acc"
| "count_elements acc (d # ds) =
     (if 2 ^ 64 \<le> acc then Inl (UB ''floating point number out of the range of size_t'')
      else count_elements (round_to_double (acc * unat d mod 2 ^ 64)) ds)"

definition tensor_bytes :: "u64 list \<Rightarrow> string \<Rightarrow> nat res" where
  "tensor_bytes shape dtype =
     bindR (count_elements 1 shape) (\<lambda>n.
       if 2 ^ 64 \<le> n * dtype_bytes dtype then Inl (UB ''floating point number out of the range of size_t'')
       else Inr (n * dtype_bytes dtype))"

text \<open>\<open>Has\<close> and \<open>Get\<close> on the argument.\<close>

definition js_get :: "js \<Rightarrow> string \<Rightarrow> js option res" where
  "js_get j key =
     (case j of JsUndefined \<Rightarrow> Inl (LibThrow ''object expected'') | JsNull \<Rightarrow> Inl (LibThrow ''object expected'')
      | JsObject es \<Rightarrow> Inr (map_of es key) | _ \<Rightarrow> Inr None)"

definition js_int64 :: "js_engine \<Rightarrow> js \<Rightarrow> u64 res" where
  "js_int64 E j = (case j of JsNumber d \<Rightarrow> Inr (je_int64 E d) | _ \<Rightarrow> Inl (LibThrow ''A number was expected''))"

definition js_ndarray_new :: "js_engine \<Rightarrow> js list \<Rightarrow> js_ndarray res" where
  "js_ndarray_new E args =
     (case args of
        [] \<Rightarrow> Inl (LibThrow ''Expected a single object argument with shape, dtype, and data'')
      | arg # _ \<Rightarrow>
          bindR (js_get arg ''shape'') (\<lambda>sh.
          case sh of
            Some (JsArray dims) \<Rightarrow>
              bindR (mapR (js_int64 E) dims) (\<lambda>shape.
              bindR (js_get arg ''dtype'') (\<lambda>dt.
              case dt of
                Some (JsString dtype) \<Rightarrow>
                  bindR (js_get arg ''data'') (\<lambda>da.
                  case da of
                    Some (JsTypedArray t) \<Rightarrow>
                      if \<not> check_dtype_match dtype t then
                        Inl (LibThrow ''Data type does not match to provided dtype'')
                      else if dtype_bytes dtype = 0 then Inl (LibThrow (''Unsupported dtype: '' @ dtype))
                      else
                        bindR (tensor_bytes shape dtype) (\<lambda>n.
                          if ta_length t * ta_size (ta_type t) \<noteq> n then
                            Inl (LibThrow ''Data buffer size doesn't match shape and dtype'')
                          else Inr \<lparr>jn_shape = shape, jn_dtype = dtype, jn_data = t\<rparr>)
                  | _ \<Rightarrow> Inl (LibThrow ''object must have a data TypedArray''))
              | _ \<Rightarrow> Inl (LibThrow ''object must have a dtype string'')))
          | _ \<Rightarrow> Inl (LibThrow ''object must have a shape array'')))"

text \<open>The whole buffer is copied, not only what the view shows.\<close>

definition to_ailoy_ndarray :: "js_ndarray \<Rightarrow> ndarray res" where
  "to_ailoy_ndarray n =
     bindR (dtype_code (jn_dtype n)) (\<lambda>code.
       Inr (make_ndarray (jn_shape n) (dl_type code (word_of_nat (dtype_bytes (jn_dtype n) * 8))) (ta_buffer (jn_data n))))"

definition js_get_shape :: "js_ndarray \<Rightarrow> js" where
  "js_get_shape n = JsArray (map (\<lambda>d. JsNumber (int_to_double (uint d))) (jn_shape n))"

definition js_get_dtype :: "js_engine \<Rightarrow> js_ndarray \<Rightarrow> js" where
  "js_get_dtype E n = JsString (je_text E (jn_dtype n))"

definition js_get_data :: "js_ndarray \<Rightarrow> js" where
  "js_get_data n = JsTypedArray (jn_data n)"

section \<open>From JavaScript\<close>

definition dtype_of_ta :: "ta_type \<Rightarrow> dl_data_type option" where
  "dtype_of_ta t =
     (case t of
        Int8_array \<Rightarrow> Some (dl_type 0 8) | Uint8_array \<Rightarrow> Some (dl_type 1 8)
      | Int16_array \<Rightarrow> Some (dl_type 0 16) | Uint16_array \<Rightarrow> Some (dl_type 1 16)
      | Int32_array \<Rightarrow> Some (dl_type 0 32) | Uint32_array \<Rightarrow> Some (dl_type 1 32)
      | Float32_array \<Rightarrow> Some (dl_type 2 32) | Float64_array \<Rightarrow> Some (dl_type 2 64)
      | Bigint64_array \<Rightarrow> Some (dl_type 0 64) | Biguint64_array \<Rightarrow> Some (dl_type 1 64)
      | Uint8_clamped_array \<Rightarrow> None)"

definition number_value :: "js_engine \<Rightarrow> u64 \<Rightarrow> val" where
  "number_value E d = (if double_whole d then Int_t (je_int64 E d) else Double_t d)"

text \<open>
  The elements are converted in order. When one of them is a null pointer, with an exception pending,
  the next access to the array or the object throws; after the last one there is none, and the
  null pointer stays in the value.
\<close>

fun all_there :: "'a option res list \<Rightarrow> 'a list option res" where
  "all_there [] = Inr (Some [])"
| "all_there (r # rs) = bindR r (\<lambda>x.
     case x of
       None \<Rightarrow> if rs = [] then Inr None else Inl (LibThrow ''pending exception'')
     | Some y \<Rightarrow> mapR_res (map_option ((#) y)) (all_there rs))"

fun from_napi_value :: "js_engine \<Rightarrow> js \<Rightarrow> val option res" where
  "from_napi_value E JsUndefined = Inr (Some Null_t)"
| "from_napi_value E JsNull = Inr (Some Null_t)"
| "from_napi_value E (JsBool b) = Inr (Some (Bool_t b))"
| "from_napi_value E (JsNumber d) = Inr (Some (number_value E d))"
| "from_napi_value E (JsBigInt i) =
     Inr (Some (if in_i64 i then Int_t (word_of_int i) else String_t (show_int i)))"
| "from_napi_value E (JsString s) = Inr (Some (String_t s))"
| "from_napi_value E (JsArrayBuffer bs) = Inr (Some (Bytes_t bs))"
| "from_napi_value E (JsTypedArray t) =
     Inr (map_option (\<lambda>ty. Ndarray_t (make_ndarray [word_of_nat (ta_length t)] ty (ta_buffer t))) (dtype_of_ta (ta_type t)))"
| "from_napi_value E (JsArray xs) =
     mapR_res (map_option Array_t) (all_there (map (from_napi_value E) xs))"
| "from_napi_value E (JsNdarray n) = mapR_res (\<lambda>a. Some (Ndarray_t a)) (to_ailoy_ndarray n)"
| "from_napi_value E (JsObject es) =
     mapR_res (map_option (\<lambda>m. Map_t (put_all m)))
       (all_there (map (\<lambda>e. mapR_res (map_option (Pair (fst e))) (from_napi_value E (snd e))) es))"
| "from_napi_value E JsOther = Inr None"

section \<open>To JavaScript\<close>

definition dtype_name :: "dl_data_type \<Rightarrow> (string \<times> ta_type) res" where
  "dtype_name t =
     (if dt_code t = 0 then
        (if dt_bits t = 8 then Inr (''int8'', Int8_array) else if dt_bits t = 16 then Inr (''int16'', Int16_array)
         else if dt_bits t = 32 then Inr (''int32'', Int32_array)
         else if dt_bits t = 64 then Inr (''int64'', Bigint64_array) else Inl (LibThrow ''unsupported int bits''))
      else if dt_code t = 1 then
        (if dt_bits t = 8 then Inr (''uint8'', Uint8_array) else if dt_bits t = 16 then Inr (''uint16'', Uint16_array)
         else if dt_bits t = 32 then Inr (''uint32'', Uint32_array)
         else if dt_bits t = 64 then Inr (''uint64'', Biguint64_array) else Inl (LibThrow ''unsupported uint bits''))
      else if dt_code t = 2 then
        (if dt_bits t = 32 then Inr (''float32'', Float32_array)
         else if dt_bits t = 64 then Inr (''float64'', Float64_array) else Inl (LibThrow ''unsupported float bits''))
      else Inl (LibThrow ''Unsupported dtype code''))"

definition ndarray_to_js :: "js_engine \<Rightarrow> ndarray \<Rightarrow> js res" where
  "ndarray_to_js E a =
     bindR (dtype_name (nd_dtype a)) (\<lambda>(name, ty).
     let n = unat (foldl (*) 1 (nd_shape a)) in
     if length (nd_data a) < n * ta_size ty then Inl (LibThrow ''Invalid typed array length'')
     else
       mapR_res JsNdarray (js_ndarray_new E
         [JsObject [(''shape'', JsArray (map (\<lambda>d. JsNumber (int_to_double (uint d))) (nd_shape a))),
            (''dtype'', JsString (je_text E name)),
            (''data'', JsTypedArray \<lparr>ta_type = ty, ta_buffer = nd_data a, ta_offset = 0, ta_length = n\<rparr>)]]))"

fun to_napi_value :: "js_engine \<Rightarrow> val \<Rightarrow> js res" where
  "to_napi_value E Null_t = Inr JsNull"
| "to_napi_value E (String_t s) = Inr (JsString (je_text E s))"
| "to_napi_value E (Bool_t b) = Inr (JsBool b)"
| "to_napi_value E (Int_t i) = Inr (JsNumber (int_to_double (sint i)))"
| "to_napi_value E (Uint_t n) = Inr (JsNumber (int_to_double (uint n)))"
| "to_napi_value E (Float_t f) = Inr (JsNumber (float_to_double f))"
| "to_napi_value E (Double_t d) = Inr (JsNumber d)"
| "to_napi_value E (Bytes_t bs) = Inr (JsString (je_text E (string_of_bytes bs)))"
| "to_napi_value E (Array_t vs) = mapR_res JsArray (mapR (to_napi_value E) vs)"
| "to_napi_value E (Map_t m) =
     mapR_res (\<lambda>es. JsObject (put_all es)) (mapR (\<lambda>e. mapR_res (Pair (je_text E (fst e))) (to_napi_value E (snd e))) m)"
| "to_napi_value E (Ndarray_t a) = ndarray_to_js E a"

section \<open>The client\<close>

text \<open>An argument that is missing is \<open>undefined\<close>.\<close>

definition js_arg :: "js list \<Rightarrow> nat \<Rightarrow> js" where
  "js_arg args i = (if i < length args then args ! i else JsUndefined)"

definition js_string_arg :: "js list \<Rightarrow> nat \<Rightarrow> string res" where
  "js_string_arg args i = (case js_arg args i of JsString s \<Rightarrow> Inr s | _ \<Rightarrow> Inl (LibThrow ''A string was expected''))"

definition js_bool_arg :: "js list \<Rightarrow> nat \<Rightarrow> bool res" where
  "js_bool_arg args i = (case js_arg args i of JsBool b \<Rightarrow> Inr b | _ \<Rightarrow> Inl (LibThrow ''A boolean was expected''))"

definition js_uint32_arg :: "js_engine \<Rightarrow> js list \<Rightarrow> nat \<Rightarrow> u32 res" where
  "js_uint32_arg E args i =
     (case js_arg args i of JsNumber d \<Rightarrow> Inr (je_uint32 E d) | _ \<Rightarrow> Inl (LibThrow ''A number was expected''))"

text \<open>A value that could not be converted is put into the packet as a null pointer, and written.\<close>

definition js_value_arg :: "js_engine \<Rightarrow> js list \<Rightarrow> nat \<Rightarrow> val res" where
  "js_value_arg E args i = bindR (from_napi_value E (js_arg args i)) deref"

definition js_send_type1 :: "codec \<Rightarrow> client_t \<Rightarrow> js list \<Rightarrow> world \<Rightarrow> (world \<times> js) res" where
  "js_send_type1 C c args w =
     bindR (js_string_arg args 0) (\<lambda>tx.
     bindR (js_string_arg args 1) (\<lambda>pt.
       if pt = ''connect'' then mapR_res (map_prod id JsBool) (client_send C c (conn_packet connect tx) w)
       else if pt = ''disconnect'' then mapR_res (map_prod id JsBool) (client_send C c (conn_packet disconnect tx) w)
       else Inl (LibThrow (''Unknown packet type '' @ pt))))"

text \<open>For an unknown type of instruction the result is never set.\<close>

definition js_send_type2 :: "js_engine \<Rightarrow> codec \<Rightarrow> client_t \<Rightarrow> js list \<Rightarrow> world \<Rightarrow> (world \<times> js) res" where
  "js_send_type2 E C c args w =
     bindR (type2_packet (js_string_arg args) (js_value_arg E args)) (\<lambda>p.
       case p of
         None \<Rightarrow> Inl (UB ''uninitialized variable'')
       | Some p \<Rightarrow> mapR_res (map_prod id JsBool) (client_send C c p w))"

definition js_send_type3 :: "js_engine \<Rightarrow> codec \<Rightarrow> client_t \<Rightarrow> js list \<Rightarrow> world \<Rightarrow> (world \<times> js) res" where
  "js_send_type3 E C c args w =
     bindR (js_string_arg args 0) (\<lambda>tx.
     bindR (js_string_arg args 1) (\<lambda>pt.
     bindR (js_bool_arg args 2) (\<lambda>status.
     bindR (js_uint32_arg E args 3) (\<lambda>seqno.
       mapR_res (map_prod id JsBool)
         (if status then
            bindR (js_bool_arg args 4) (\<lambda>fin.
            bindR (js_value_arg E args 5) (\<lambda>out.
              client_send C c (respond_execute_ok_packet tx (ucast seqno) fin out) w))
          else
            bindR (js_string_arg args 4) (\<lambda>reason.
              client_send C c (respond_execute_err_packet tx (ucast seqno) reason) w))))))"

definition js_packet_type_to_string :: "packet_type \<Rightarrow> string res" where
  "js_packet_type_to_string pt =
     (if pt = connect then Inr ''connect'' else if pt = disconnect then Inr ''disconnect''
      else if pt = subscribe then Inr ''subscribe'' else if pt = unsubscribe then Inr ''unsubscribe''
      else if pt = execute then Inr ''execute'' else if pt = respond then Inr ''respond''
      else if pt = respond_execute then Inr ''respond_execute'' else Inl (Throw ''invalid packet type''))"

definition js_instruction_type_to_string :: "instruction_type \<Rightarrow> string res" where
  "js_instruction_type_to_string it =
     (if it = call_function then Inr ''call_function'' else if it = define_component then Inr ''define_component''
      else if it = delete_component then Inr ''delete_component'' else if it = call_method then Inr ''call_method''
      else Inl (Throw ''invalid instruction type''))"

text \<open>The names are those of the Python module.\<close>

lemma js_type_names:
  "js_packet_type_to_string pt = packet_type_to_string pt"
  "js_instruction_type_to_string it = instruction_type_to_string it"
  by (cases pt; simp add: js_packet_type_to_string_def packet_type_to_string_def)
    (cases it; simp add: js_instruction_type_to_string_def instruction_type_to_string_def)

definition packet_to_js :: "js_engine \<Rightarrow> packet_t \<Rightarrow> js res" where
  "packet_to_js E p =
     bindR (js_packet_type_to_string (ptype p)) (\<lambda>pt.
     bindR (case itype p of None \<Rightarrow> Inr []
            | Some it \<Rightarrow> mapR_res (\<lambda>s. [(''instruction_type'', String_t s)]) (js_instruction_type_to_string it)) (\<lambda>it.
     bindR (deref (headers p)) (\<lambda>h.
     bindR (deref (body p)) (\<lambda>b.
       to_napi_value E (Map_t (put ''body'' (Map_t b) (put ''headers'' (Array_t h)
         (put ''packet_type'' (String_t pt) it))))))))"

text \<open>
  The worker of \<open>listen\<close>: \<open>Execute\<close> runs in a thread of the pool, and what it throws rejects the promise; what
  \<open>OnOK\<close> throws is caught by nobody, and the promise stays as it is.
\<close>

datatype listen_end = Resolves world js | Rejects fault | Escapes fault

definition js_listen :: "js_engine \<Rightarrow> codec \<Rightarrow> client_t \<Rightarrow> world \<Rightarrow> listen_end" where
  "js_listen E C c w =
     (case client_listen C c False w of
        Inl (UB m) \<Rightarrow> Escapes (UB m)
      | Inl e \<Rightarrow> Rejects e
      | Inr (w1, None) \<Rightarrow> Resolves w1 JsNull
      | Inr (w1, Some p) \<Rightarrow> (case packet_to_js E p of Inl e \<Rightarrow> Escapes e | Inr j \<Rightarrow> Resolves w1 j))"

text \<open>The constructor of the client; without an argument the url is \<open>inproc://\<close>.\<close>

definition js_client_url :: "js list \<Rightarrow> string res" where
  "js_client_url args = (if args = [] then Inr ''inproc://'' else js_string_arg args 0)"

definition js_client_new :: "js list \<Rightarrow> world \<Rightarrow> (world \<times> client_t \<times> dialing) res" where
  "js_client_new args w = mapR_res (\<lambda>url. client_dial url None w) (js_client_url args)"

text \<open>A result with a tensor that typed arrays can not hold never settles the promise.\<close>

lemma unconvertible_result_escapes:
  "client_listen C c False w = Inr (w1, Some p) \<Longrightarrow> packet_to_js E p = Inl e \<Longrightarrow> js_listen E C c w = Escapes e"
  by (simp add: js_listen_def)

end
