(* ===== verification/BindingProperties.thy ===== *)
theory BindingProperties
  imports JsBinding Samples
begin

text \<open>
  Properties of the conversions between values and the objects of the languages that the program is
  bound to, and a call from Python on its way through client, broker and VM.
\<close>

section \<open>Values through Python\<close>

text \<open>
  What can go to Python and come back: numbers that fit in a signed word, texts in UTF-8, tensors of a
  type that has a format, as large as their shape says.
\<close>

definition py_tensor :: "ndarray \<Rightarrow> bool" where
  "py_tensor a \<longleftrightarrow> dt_lanes (nd_dtype a) = 1 \<and> (\<exists>f. format_of_dtype (nd_dtype a) = Inr f) \<and>
     length (nd_data a) = prod_list (map unat (nd_shape a)) * (unat (dt_bits (nd_dtype a)) div 8)"

fun py_ok :: "val \<Rightarrow> bool" where
  "py_ok (Uint_t n) = (unat n < 2 ^ 63)"
| "py_ok (String_t s) = utf8_ok s"
| "py_ok (Array_t vs) = (\<forall>v \<in> set vs. py_ok v)"
| "py_ok (Map_t m) = (dict_ok m \<and> (\<forall>e \<in> set m. utf8_ok (fst e) \<and> py_ok (snd e)))"
| "py_ok (Ndarray_t a) = py_tensor a"
| "py_ok _ = True"

fun py_back :: "val \<Rightarrow> val" where
  "py_back (Uint_t n) = Int_t n"
| "py_back (Float_t f) = Double_t (float_to_double f)"
| "py_back (Array_t vs) = Array_t (map py_back vs)"
| "py_back (Map_t m) = Map_t (map (\<lambda>e. (fst e, py_back (snd e))) m)"
| "py_back v = v"

lemma dtype_of_format_simps [simp]:
  "dtype_of_format ''b'' = Some (dl_type 0 8)" "dtype_of_format ''h'' = Some (dl_type 0 16)"
  "dtype_of_format ''i'' = Some (dl_type 0 32)" "dtype_of_format ''q'' = Some (dl_type 0 64)"
  "dtype_of_format ''B'' = Some (dl_type 1 8)" "dtype_of_format ''H'' = Some (dl_type 1 16)"
  "dtype_of_format ''I'' = Some (dl_type 1 32)" "dtype_of_format ''Q'' = Some (dl_type 1 64)"
  "dtype_of_format ''f'' = Some (dl_type 2 32)" "dtype_of_format ''d'' = Some (dl_type 2 64)"
  by (simp_all add: dtype_of_format_def)

lemma dl_type_eq: "dl_type c b = t \<longleftrightarrow> dt_code t = c \<and> dt_bits t = b \<and> dt_lanes t = 1"
  by (cases t) (auto simp: dl_type_def)

lemma dtype_of_format_of:
  assumes "format_of_dtype t = Inr f" and "dt_lanes t = 1"
  shows "dtype_of_format f = Some t"
  using assms unfolding format_of_dtype_def by (auto simp: dl_type_eq split: if_split_asm)

lemma tensor_through_python: "py_tensor a \<Longrightarrow> bindR (cast_array a) py_load = Inr (Some (Ndarray_t a))"
  by (auto simp: py_tensor_def cast_array_def Let_def load_array_def dtype_of_format_of make_ndarray_def)

lemma value_through_python: "py_ok v \<Longrightarrow> \<exists>p. py_cast v = Inr p \<and> py_load p = Inr (Some (py_back v))"
proof (induction v rule: py_ok.induct)
  case (1 n)
  have "int (unat n) < int (2 ^ 63)" using 1 by (simp only: of_nat_less_iff py_ok.simps)
  then have "uint n < 2 ^ 63" by simp
  moreover have "0 \<le> uint n" by simp
  ultimately have "in_i64 (uint n)" unfolding in_i64_def by linarith
  then show ?case by simp
next
  case (2 s)
  then show ?case by (simp add: py_str_def)
next
  case (3 vs)
  then obtain g where g: "\<And>v. v \<in> set vs \<Longrightarrow> py_cast v = Inr (g v) \<and> py_load (g v) = Inr (Some (py_back v))"
    by (simp, metis)
  have "mapR py_cast vs = Inr (map g vs)" by (rule mapR_Inr) (simp add: g)
  moreover have "mapR (\<lambda>x. bindR (py_load x) must_cast) (map g vs) = Inr (map py_back vs)"
    using g by (induction vs) (auto simp: must_cast_def)
  ultimately show ?case by simp
next
  case (4 m)
  then obtain g where g: "\<And>e. e \<in> set m \<Longrightarrow> py_cast (snd e) = Inr (g e) \<and> py_load (g e) = Inr (Some (py_back (snd e)))"
    by (simp, metis)
  let ?ps = "map (\<lambda>e. (PyStr (fst e), g e)) m"
  have "mapR (\<lambda>e. bindR (py_cast (snd e)) (\<lambda>p. bindR (py_str (fst e)) (\<lambda>k. Inr (k, p)))) m = Inr ?ps"
    by (rule mapR_Inr) (use g 4 in \<open>simp add: py_str_def\<close>)
  moreover have "mapR (\<lambda>e. bindR (bindR (py_load (snd e)) must_cast) (\<lambda>v. bindR (py_string (fst e)) (\<lambda>k. Inr (k, v)))) ?ps =
      Inr (map (\<lambda>e. (fst e, py_back (snd e))) m)"
    using g by (induction m) (auto simp: must_cast_def py_string_def)
  moreover have "put_all (map (\<lambda>e. (fst e, py_back (snd e))) m) = map (\<lambda>e. (fst e, py_back (snd e))) m"
    using 4 by (intro put_all_dict) (simp add: dict_ok_map_values)
  ultimately show ?case by simp
next
  case (5 a)
  then show ?case using tensor_through_python [of a] by (auto simp: bindR_eq_Inr)
qed (simp_all add: in_i64_sint)

text \<open>
  C20. A value survives its way through Python, up to what Python does not tell apart: an unsigned number
  comes back as a signed one, and a \<open>float_t\<close> as the \<open>double_t\<close> of the same number. The number
  must fit in a signed word, the texts must be UTF-8, and a tensor must have a type that NumPy has
  and as many bytes as its shape says.
\<close>

theorem python_roundtrip:
  assumes "py_ok v"
  shows "bindR (py_cast v) py_load = Inr (Some (py_back v))"
  using value_through_python [OF assms] by auto

theorem python_roundtrip_witness:
  "bindR (py_cast (Map_t [(''a'', Uint_t 5), (''b'', Array_t [String_t ''x'', Ndarray_t (make_ndarray [2] (dl_type 1 8) [7, 8])])]))
     py_load =
   Inr (Some (Map_t [(''a'', Int_t 5), (''b'', Array_t [String_t ''x'', Ndarray_t (make_ndarray [2] (dl_type 1 8) [7, 8])])]))"
proof -
  have "utf8_ok ''x''" "utf8_ok ''a''" "utf8_ok ''b''" by code_simp+
  then show ?thesis
    using python_roundtrip [of "Map_t [(''a'', Uint_t 5), (''b'', Array_t [String_t ''x'',
      Ndarray_t (make_ndarray [2] (dl_type 1 8) [7, 8])])]"]
    by (simp add: dict_ok_def py_tensor_def make_ndarray_def dl_type_def format_of_dtype_def del: py_cast.simps py_load.simps)
qed

section \<open>Arrays\<close>

text \<open>The elements of an array in order, the last index fastest, as the strides place them in memory.\<close>

fun array_elements :: "nat \<Rightarrow> u64 list \<Rightarrow> nat list \<Rightarrow> nat \<Rightarrow> byte list \<Rightarrow> byte list" where
  "array_elements n (d # ds) (s # ss) off mem = concat (map (\<lambda>i. array_elements n ds ss (off + i * s) mem) [0..<unat d])"
| "array_elements n ds ss off mem = take n (drop off mem)"

lemma upt_two: "[0..<2] = [0, 1 :: nat]"
  by (simp add: upt_rec)

lemma concat_blocks: "concat (map (\<lambda>i. take k (drop (off + i * k) xs)) [0..<n]) = take (n * k) (drop off xs)"
proof (induction n)
  case (Suc n)
  have "take (n * k) (drop off xs) @ take k (drop (n * k) (drop off xs)) = take (n * k + k) (drop off xs)"
    by (simp add: take_add)
  with Suc show ?case by (simp add: add.commute add.left_commute)
qed simp

lemma contiguous_elements:
  "array_elements n ds (c_strides n ds) off mem = take (prod_list (map unat ds) * n) (drop off mem)"
proof (induction ds arbitrary: off)
  case (Cons d ds)
  have "array_elements n (d # ds) (c_strides n (d # ds)) off mem =
      concat (map (\<lambda>i. take (prod_list (map unat ds) * n) (drop (off + i * (prod_list (map unat ds) * n)) mem)) [0..<unat d])"
    by (simp add: Cons.IH)
  also have "\<dots> = take (unat d * (prod_list (map unat ds) * n)) (drop off mem)" by (rule concat_blocks)
  finally show ?case by (simp add: mult.assoc)
qed simp

text \<open>
  An array that comes from Python becomes a tensor with its elements in order when its elements lie
  one after the other in memory. (Otherwise it does not: the memory is copied as it lies.)
\<close>

lemma contiguous_array_loaded:
  assumes "pb_strides b = c_strides (pb_itemsize b) (pb_shape b)"
    and "prod_list (map unat (pb_shape b)) * pb_itemsize b \<le> length (pb_mem b)"
    and "dtype_of_format (pb_format b) = Some t"
  shows "py_load (PyArray b) = Inr (Some (Ndarray_t (make_ndarray (pb_shape b) t
    (array_elements (pb_itemsize b) (pb_shape b) (pb_strides b) 0 (pb_mem b)))))"
  using assms(2,3) by (simp add: load_array_def Let_def assms(1) contiguous_elements)

theorem contiguous_array_loaded_witness:
  "py_load (PyArray \<lparr>pb_shape = [2, 2], pb_strides = [2, 1], pb_format = ''B'', pb_itemsize = 1, pb_mem = [1, 2, 3, 4]\<rparr>) =
   Inr (Some (Ndarray_t (make_ndarray [2, 2] (dl_type 1 8) [1, 2, 3, 4])))"
  using contiguous_array_loaded [of "\<lparr>pb_shape = [2, 2], pb_strides = [2, 1], pb_format = ''B'', pb_itemsize = 1,
    pb_mem = [1, 2, 3, 4]\<rparr>" "dl_type 1 8"]
  by (simp add: upt_two)

text \<open>The transposed array has the same memory, and is loaded as if it were not transposed.\<close>

lemma transposed_array_misread:
  fixes b :: py_buffer
  defines "b \<equiv> \<lparr>pb_shape = [2, 2], pb_strides = [1, 2], pb_format = ''B'', pb_itemsize = 1, pb_mem = [1, 2, 3, 4]\<rparr>"
  shows "array_elements 1 (pb_shape b) (pb_strides b) 0 (pb_mem b) = [1, 3, 2, 4]"
    and "py_load (PyArray b) = Inr (Some (Ndarray_t (make_ndarray [2, 2] (dl_type 1 8) [1, 2, 3, 4])))"
  by (simp_all add: b_def upt_two load_array_def Let_def)

section \<open>A call from Python\<close>

lemma type2_call:
  "type2_packet (string_arg args) (value_arg args) = Inr (Some (call_function_packet execute tx f (Some x)))"
  if "args = [PyStr tx, PyStr ''execute'', PyStr ''call_function'', PyStr f, arg]" and "py_load arg = Inr (Some x)"
  using that by (simp add: type2_packet_def string_arg_def value_arg_def py_arg_def py_string_def ptype_arg_def must_cast_def)

lemma result_to_py:
  assumes "utf8_ok tx" and "py_cast (wire y) = Inr q"
  shows "packet_to_py (wire_packet False (respond_execute_ok_packet tx 0 True y)) = Inr (PyDict
    [(PyStr ''body'', PyDict [(PyStr ''out'', q), (PyStr ''status'', PyBool True)]),
     (PyStr ''headers'', PyList [PyStr tx, PyInt 0, PyBool True]),
     (PyStr ''instruction_type'', PyNone), (PyStr ''packet_type'', PyStr ''respond_execute'')])"
proof -
  have "utf8_ok ''body''" "utf8_ok ''out''" "utf8_ok ''status''" "utf8_ok ''headers''" "utf8_ok ''instruction_type''"
    "utf8_ok ''packet_type''" "utf8_ok ''respond_execute''" by code_simp+
  with assms show ?thesis
    by (simp add: packet_to_py_def packet_type_to_string_def wire_packet_def wire_map_def builder_defs py_str_def)
qed

text \<open>
  C18. A Python program calls a function and gets its result. Client, broker and VM are as in the round trip of
  a call; the program sends the five arguments of the call, the last of which converts to the value \<open>x\<close>.
  The VM runs the operator on \<open>x\<close>, and what the program's client receives is the dictionary with the
  transaction in its headers and the operator's output, as a Python object, in its body.
\<close>

theorem python_call_answered:
  assumes "broker_inv b w" and "map_of (b_sockets b) na = Some a" and "map_of (b_sockets b) ns = Some s"
    and "map_of (b_subs b) (''0/'' @ f) = Some s"
    and "peered k a w" and "peered a k w" and "peered s v w" and "peered v s w"
    and "distinct [k, a, s, v]" and "k \<notin> set (b_refs b)" and "v \<notin> set (b_refs b)"
    and "box k w = []" and "box a w = []" and "box s w = []" and "box v w = []"
    and "c_socket kc = k" and "c_socket (vm_client vm) = v"
    and "call = call_function_packet execute tx f (Some x)"
    and "packet_ok call" and "packet_fits C call" and "packet_faithful C call"
    and "result = respond_execute_ok_packet tx 0 True y"
    and "packet_ok result" and "packet_fits C result" and "packet_faithful C result"
    and "map_of (vm_operators vm) f = Some op" and "op_initialize op (Some (wire x)) = Inr (op1, None)"
    and "op_step op1 = Inr (op2, Ok_output (Some y) True)"
    and "utf8_ok tx" and "py_load arg = Inr (Some x)" and "py_cast (wire y) = Inr q"
  shows "\<exists>w1 b1 w2 w3 p w4 vm' b2 w5 w6 r.
    send_type2 C kc [PyStr tx, PyStr ''execute'', PyStr ''call_function'', PyStr f, arg] w = Inr (w1, True) \<and>
    broker_recv C b a w1 = Inr (b1, w2) \<and>
    client_recv C (vm_client vm) False w2 = Inr (w3, Some p) \<and>
    vm_handle C uuid p vm w3 = Some (Inr (vm', w4)) \<and>
    broker_recv C b1 s w4 = Inr (b2, w5) \<and>
    client_recv C kc False w5 = Inr (w6, Some r) \<and>
    packet_to_py r = Inr (PyDict
      [(PyStr ''body'', PyDict [(PyStr ''out'', q), (PyStr ''status'', PyBool True)]),
       (PyStr ''headers'', PyList [PyStr tx, PyInt 0, PyBool True]),
       (PyStr ''instruction_type'', PyNone), (PyStr ''packet_type'', PyStr ''respond_execute'')])"
  using call_and_result [OF assms(1-28), of uuid] type2_call [OF refl assms(30), of tx f]
    result_to_py [OF assms(29,31)] assms(18,22)
  unfolding send_type2_def by (simp add: assms(18,22)) blast

definition python_packet :: packet_t where
  "python_packet = call_function_packet execute ''t'' ''f'' (Some (Int_t 7))"

definition python_codec :: codec where
  "python_codec = table_codec
     [header_json python_packet, body_json python_packet, header_json sample_result, body_json sample_result]"

lemma python_packets:
  "packet_ok python_packet" "packet_fits python_codec p"
  "packet_faithful python_codec python_packet" "packet_faithful python_codec sample_result"
  by (auto simp: packet_ok_def python_packet_def builder_defs in_body_def has_itype_def dict_ok_def packet_fits_def
      packet_faithful_def python_codec_def intro!: table_codec_faithful)

theorem python_call_answered_witness:
  "let kc = \<lparr>c_socket = 0, c_monitor = 8, external_monitor = False\<rparr> in
   \<exists>w1 b1 w2 w3 p w4 vm' b2 w5 w6 r.
     send_type2 python_codec kc [PyStr ''t'', PyStr ''execute'', PyStr ''call_function'', PyStr ''f'', PyInt 7] sample_world =
       Inr (w1, True) \<and>
     broker_recv python_codec sample_broker 2 w1 = Inr (b1, w2) \<and>
     client_recv python_codec (vm_client sample_vm) False w2 = Inr (w3, Some p) \<and>
     vm_handle python_codec (\<lambda>i. ''u'') p sample_vm w3 = Some (Inr (vm', w4)) \<and>
     broker_recv python_codec b1 3 w4 = Inr (b2, w5) \<and>
     client_recv python_codec kc False w5 = Inr (w6, Some r) \<and>
     packet_to_py r = Inr (PyDict
       [(PyStr ''body'', PyDict [(PyStr ''out'', PyInt 7), (PyStr ''status'', PyBool True)]),
        (PyStr ''headers'', PyList [PyStr ''t'', PyInt 0, PyBool True]),
        (PyStr ''instruction_type'', PyNone), (PyStr ''packet_type'', PyStr ''respond_execute'')])"
proof -
  let ?op1 = "sample_op\<lparr>op_in := Some (Uint_t 7)\<rparr>" and ?op2 = "sample_op\<lparr>op_in := None\<rparr>"
  have "op_initialize sample_op (Some (wire (Int_t 7))) = Inr (?op1, None)"
    "op_step ?op1 = Inr (?op2, Ok_output (Some (Uint_t 7)) True)"
    by (simp_all add: sample_op_def make_operator_def op_initialize_def operator_initialize_def op_step_def
        instant_step_def operator_reset_input_def)
  moreover have "map_of (b_sockets sample_broker) ''2'' = Some 2" "map_of (b_sockets sample_broker) ''3'' = Some 3"
    "map_of (b_subs sample_broker) (''0/'' @ ''f'') = Some 3" "b_refs sample_broker = [2, 3, 3]"
    by (simp_all add: sample_broker_def b_refs_def)
  moreover have "map_of (vm_operators sample_vm) ''f'' = Some sample_op" "c_socket (vm_client sample_vm) = Suc 0"
    by (simp_all add: sample_vm_def)
  moreover have "utf8_ok ''t''" "py_load (PyInt 7) = Inr (Some (Int_t 7))" "py_cast (wire (Uint_t 7)) = Inr (PyInt 7)"
    by code_simp+
  ultimately show ?thesis
    unfolding Let_def
    by (intro python_call_answered [where k = 0 and a = 2 and s = 3 and v = "Suc 0" and f = "''f''" and x = "Int_t 7"
          and tx = "''t''" and y = "Uint_t 7" and na = "''2''" and ns = "''3''" and op = sample_op and ?op1.0 = ?op1
          and ?op2.0 = ?op2 and call = python_packet and result = sample_result])
      (simp_all add: sample_inv sample_peers sample_names python_packets python_packet_def [symmetric]
        sample_result_def [symmetric] del: py_load.simps py_cast.simps wire.simps)
qed

section \<open>Numbers in JavaScript\<close>

lemma double_of_int:
  assumes "\<bar>i\<bar> < 2 ^ 53"
  shows "fp_value 52 11 (unat (int_to_double i)) = i * 2 ^ 1074" and "double_whole (int_to_double i)"
    and "fp_finite 52 11 (unat (int_to_double i))"
proof -
  let ?y = "fp_round 52 11 (nat \<bar>i\<bar> * 2 ^ 1074) 1"
  have y: "?y < fp_inf 52 11" "fp_mag 52 ?y = nat \<bar>i\<bar> * 2 ^ 1074"
    using fp_round_same [of 1 "nat \<bar>i\<bar>" 52 1074 11] assms by simp_all
  then have less: "?y < 2 ^ 63" using fp_inf_less [of 52 11] by simp
  have u: "fp_unit 52 11 = 1074" by (simp add: fp_unit_def)
  have w: "unat (int_to_double i) = fp_signed 52 11 (i < 0) ?y"
  proof -
    have "?y < 2 ^ (52 + 11)" using less by (simp only: add_numeral_left numeral_plus_numeral add_num_simps)
    then have "fp_signed 52 11 (i < 0) ?y < 2 ^ Suc (52 + 11)" by (rule fp_signed_less)
    then have "fp_signed 52 11 (i < 0) ?y < 2 ^ LENGTH(64)" by simp
    then show ?thesis unfolding int_to_double_def fp_of_int_def u unat_of_nat by (rule mod_less)
  qed
  have f: "fp_abs 52 11 (fp_signed 52 11 (i < 0) ?y) = ?y" "fp_neg 52 11 (fp_signed 52 11 (i < 0) ?y) \<longleftrightarrow> i < 0"
    using fp_signed_fields [of ?y 52 11 "i < 0"] less by simp_all
  show "fp_value 52 11 (unat (int_to_double i)) = i * 2 ^ 1074"
    unfolding w fp_value_def f y(2) by simp
  show "double_whole (int_to_double i)"
    unfolding double_whole_def w is_fp_nan_def is_fp_inf_def f y(2) using y(1) by simp
  show "fp_finite 52 11 (unat (int_to_double i))" unfolding fp_finite_def w f by (rule y(1))
qed

section \<open>Tensors in JavaScript\<close>

definition tensor_types :: "(string \<times> ta_type \<times> byte \<times> byte) list" where
  "tensor_types =
     [(''int8'', Int8_array, 0, 8), (''int16'', Int16_array, 0, 16), (''int32'', Int32_array, 0, 32),
      (''int64'', Bigint64_array, 0, 64), (''uint8'', Uint8_array, 1, 8), (''uint16'', Uint16_array, 1, 16),
      (''uint32'', Uint32_array, 1, 32), (''uint64'', Biguint64_array, 1, 64), (''float32'', Float32_array, 2, 32),
      (''float64'', Float64_array, 2, 64)]"

lemma tensor_types_facts:
  "list_all (\<lambda>(name, ty, code, bits). ta_of_dtype name = Some ty \<and> dtype_bytes name = ta_size ty \<and>
     dtype_code name = Inr code \<and> word_of_nat (dtype_bytes name * 8) = bits \<and> 0 < ta_size ty \<and> utf8_ok name) tensor_types"
  by code_simp

lemma dtype_name_type: "dtype_name t = Inr (name, ty) \<Longrightarrow> (name, ty, dt_code t, dt_bits t) \<in> set tensor_types"
  unfolding dtype_name_def tensor_types_def by (simp split: if_split_asm)

lemma dtype_name_facts:
  assumes "dtype_name t = Inr (name, ty)"
  shows "check_dtype_match name \<lparr>ta_type = ty, ta_buffer = bs, ta_offset = k, ta_length = n\<rparr>"
    and "dtype_bytes name = ta_size ty" and "0 < ta_size ty" and "utf8_ok name"
    and "dt_lanes t = 1 \<Longrightarrow> \<exists>code. dtype_code name = Inr code \<and> dl_type code (word_of_nat (dtype_bytes name * 8)) = t"
  using dtype_name_type [OF assms] tensor_types_facts
  by (auto simp: list_all_iff check_dtype_match_def dl_type_eq)

lemma count_small:
  assumes "0 < n * prod_list (map unat ds)" and "n * prod_list (map unat ds) < 2 ^ 53"
  shows "count_elements n ds = Inr (n * prod_list (map unat ds))"
    and "foldl (*) (word_of_nat n) ds = (word_of_nat (n * prod_list (map unat ds)) :: u64)"
proof -
  show "count_elements n ds = Inr (n * prod_list (map unat ds))" using assms
  proof (induction ds arbitrary: n)
    case (Cons d ds)
    let ?q = "prod_list (map unat ds)"
    have q: "0 < ?q" "0 < unat d" "n * unat d * ?q < 2 ^ 53" using Cons.prems by (auto simp: mult.assoc)
    then have "n * unat d < 2 ^ 53" by (metis le_less_trans mult_le_mono2 mult.right_neutral Suc_leI One_nat_def)
    moreover from this have "n < 2 ^ 53" using q(2) by (metis le_less_trans mult_le_mono2 mult.right_neutral Suc_leI One_nat_def)
    ultimately show ?case using Cons.IH [of "n * unat d"] Cons.prems by (simp add: round_to_double_def mult.assoc)
  qed simp
  show "foldl (*) (word_of_nat n) ds = (word_of_nat (n * prod_list (map unat ds)) :: u64)"
  proof (induction ds arbitrary: n)
    case (Cons d ds)
    have "(word_of_nat n :: u64) * d = word_of_nat (n * unat d)" by simp
    then show ?case using Cons.IH [of "n * unat d"] by (simp only: foldl_Cons list.map prod_list.Cons mult.assoc)
  qed simp
qed

section \<open>Values through JavaScript\<close>

text \<open>What the engine promises: good UTF-8 is kept, and whole numbers are converted exactly.\<close>

definition js_engine_ok :: "js_engine \<Rightarrow> bool" where
  "js_engine_ok E \<longleftrightarrow> (\<forall>s. utf8_ok s \<longrightarrow> je_text E s = s) \<and>
     (\<forall>i. \<bar>i\<bar> < 2 ^ 53 \<longrightarrow> je_int64 E (int_to_double i) = word_of_int i)"

definition js_tensor :: "ndarray \<Rightarrow> bool" where
  "js_tensor a \<longleftrightarrow> dt_lanes (nd_dtype a) = 1 \<and> (\<exists>name ty. dtype_name (nd_dtype a) = Inr (name, ty) \<and>
     length (nd_data a) = prod_list (map unat (nd_shape a)) * ta_size ty) \<and>
     (\<forall>d \<in> set (nd_shape a). unat d < 2 ^ 53) \<and>
     0 < prod_list (map unat (nd_shape a)) \<and> prod_list (map unat (nd_shape a)) < 2 ^ 53"

fun js_ok :: "val \<Rightarrow> bool" where
  "js_ok (Int_t i) = (\<bar>sint i\<bar> < 2 ^ 53)"
| "js_ok (Uint_t n) = (unat n < 2 ^ 53)"
| "js_ok (String_t s) = utf8_ok s"
| "js_ok (Bytes_t bs) = utf8_ok (string_of_bytes bs)"
| "js_ok (Array_t vs) = (\<forall>v \<in> set vs. js_ok v)"
| "js_ok (Map_t m) = (dict_ok m \<and> (\<forall>e \<in> set m. utf8_ok (fst e) \<and> js_ok (snd e)))"
| "js_ok (Ndarray_t a) = js_tensor a"
| "js_ok _ = True"

fun js_back :: "js_engine \<Rightarrow> val \<Rightarrow> val" where
  "js_back E (Uint_t n) = Int_t n"
| "js_back E (Float_t f) = number_value E (float_to_double f)"
| "js_back E (Double_t d) = number_value E d"
| "js_back E (Bytes_t bs) = String_t (string_of_bytes bs)"
| "js_back E (Array_t vs) = Array_t (map (js_back E) vs)"
| "js_back E (Map_t m) = Map_t (map (\<lambda>e. (fst e, js_back E (snd e))) m)"
| "js_back E v = v"

lemma whole_number:
  assumes "js_engine_ok E" and "\<bar>i\<bar> < 2 ^ 53"
  shows "number_value E (int_to_double i) = Int_t (word_of_int i)" and "je_int64 E (int_to_double i) = word_of_int i"
  using assms double_of_int(2) by (simp_all add: number_value_def js_engine_ok_def)

lemma small_uint: "unat (n :: u64) < 2 ^ 53 \<Longrightarrow> \<bar>uint n\<bar> < 2 ^ 53"
proof -
  assume "unat n < 2 ^ 53"
  then have "int (unat n) < int (2 ^ 53)" by (simp only: of_nat_less_iff)
  then show ?thesis by simp
qed

lemma tensor_through_js:
  assumes E: "js_engine_ok E" and a: "js_tensor a"
  shows "bindR (ndarray_to_js E a) (from_napi_value E) = Inr (Some (Ndarray_t a))"
proof -
  let ?n = "prod_list (map unat (nd_shape a))"
  obtain name ty where t: "dtype_name (nd_dtype a) = Inr (name, ty)" "length (nd_data a) = ?n * ta_size ty"
    and r: "dt_lanes (nd_dtype a) = 1" "\<forall>d \<in> set (nd_shape a). unat d < 2 ^ 53" "0 < ?n" "?n < 2 ^ 53"
    using a by (auto simp: js_tensor_def)
  note f = dtype_name_facts [OF t(1)]
  obtain code where code: "dtype_code name = Inr code" "dl_type code (word_of_nat (dtype_bytes name * 8)) = nd_dtype a"
    using f(5) [OF r(1)] by blast
  have same: "je_text E name = name" using E f(4) by (simp add: js_engine_ok_def)
  have c: "count_elements 1 (nd_shape a) = Inr ?n" "foldl (*) 1 (nd_shape a) = (word_of_nat ?n :: u64)"
    using count_small [of 1 "nd_shape a"] r(3,4) by simp_all
  have n: "unat (foldl (*) 1 (nd_shape a) :: u64) = ?n"
  proof -
    have "?n < 2 ^ LENGTH(64)" using r(4) by simp
    then show ?thesis unfolding c(2) unat_of_nat by (rule mod_less)
  qed
  have "ta_size ty \<le> 8" by (cases ty) simp_all
  then have "?n * ta_size ty \<le> 2 ^ 53 * 8" using r(4) by (intro mult_le_mono) simp_all
  then have "tensor_bytes (nd_shape a) name = Inr (?n * ta_size ty)"
    by (simp add: tensor_bytes_def c(1) [unfolded One_nat_def] f(2))
  moreover have "mapR (js_int64 E) (map (\<lambda>d. JsNumber (int_to_double (uint d))) ds) = Inr ds"
    if "\<forall>d \<in> set ds. unat d < 2 ^ 53" for ds
    using that whole_number(2) [OF E small_uint] by (induction ds) (auto simp: js_int64_def)
  note this [OF r(2)]
  ultimately have "ndarray_to_js E a = Inr (JsNdarray \<lparr>jn_shape = nd_shape a, jn_dtype = name,
      jn_data = \<lparr>ta_type = ty, ta_buffer = nd_data a, ta_offset = 0, ta_length = ?n\<rparr>\<rparr>)"
    using f(1-3) t by (simp add: ndarray_to_js_def Let_def n same js_ndarray_new_def js_get_def)
  then show ?thesis by (simp add: to_ailoy_ndarray_def code(1) code(2) [simplified] make_ndarray_def)
qed

lemma all_there_Some: "all_there (map (\<lambda>x. Inr (Some x)) xs) = Inr (Some xs)"
  by (induction xs) simp_all

lemma value_through_js:
  "js_engine_ok E \<Longrightarrow> js_ok v \<Longrightarrow> \<exists>j. to_napi_value E v = Inr j \<and> from_napi_value E j = Inr (Some (js_back E v))"
proof (induction v rule: js_ok.induct)
  case (2 n)
  then show ?case using whole_number(1) [OF _ small_uint] by simp
next
  case (5 vs)
  then obtain g where g: "\<And>v. v \<in> set vs \<Longrightarrow> to_napi_value E v = Inr (g v) \<and> from_napi_value E (g v) = Inr (Some (js_back E v))"
    by (simp, metis)
  have "mapR (to_napi_value E) vs = Inr (map g vs)" by (rule mapR_Inr) (simp add: g)
  moreover have "map (from_napi_value E) (map g vs) = map (\<lambda>x. Inr (Some x)) (map (js_back E) vs)" using g by simp
  ultimately show ?case by (simp add: all_there_Some del: map_map)
next
  case (6 m)
  then obtain g where g: "\<And>e. e \<in> set m \<Longrightarrow> to_napi_value E (snd e) = Inr (g e) \<and> from_napi_value E (g e) = Inr (Some (js_back E (snd e)))"
    by (simp, metis)
  let ?js = "map (\<lambda>e. (fst e, g e)) m" and ?vs = "map (\<lambda>e. (fst e, js_back E (snd e))) m"
  have "mapR (\<lambda>e. mapR_res (Pair (je_text E (fst e))) (to_napi_value E (snd e))) m = Inr ?js"
    by (rule mapR_Inr) (use g 6 in \<open>simp add: js_engine_ok_def\<close>)
  moreover have "put_all ?js = ?js" "put_all ?vs = ?vs"
    using 6 by (auto intro!: put_all_dict simp: dict_ok_def comp_def)
  moreover have "map (\<lambda>e. mapR_res (map_option (Pair (fst e))) (from_napi_value E (snd e))) ?js = map (\<lambda>x. Inr (Some x)) ?vs"
    using g by simp
  ultimately show ?case by (simp add: all_there_Some del: map_map)
next
  case (7 a)
  then show ?case using tensor_through_js [of E a] by (auto simp: bindR_eq_Inr)
qed (auto simp: whole_number js_engine_ok_def)


definition sample_engine :: js_engine where
  "sample_engine = \<lparr>je_text = (\<lambda>s. if utf8_ok s then s else ''?''),
     je_int64 = (\<lambda>d. if fp_finite 52 11 (unat d) then word_of_int (fp_value 52 11 (unat d) div 2 ^ 1074) else 0),
     je_uint32 = (\<lambda>d. if fp_finite 52 11 (unat d) then word_of_int (fp_value 52 11 (unat d) div 2 ^ 1074) else 0)\<rparr>"

lemma sample_engine_ok: "js_engine_ok sample_engine"
  by (simp add: js_engine_ok_def sample_engine_def double_of_int(1,3))


text \<open>A view of a part of a buffer is read as the whole buffer.\<close>

lemma partial_view_misread:
  "from_napi_value E (JsTypedArray \<lparr>ta_type = Uint8_array, ta_buffer = [1, 2, 3, 4], ta_offset = 2, ta_length = 2\<rparr>) =
     Inr (Some (Ndarray_t (make_ndarray [2] (dl_type 1 8) [1, 2, 3, 4])))"
  by (simp add: dtype_of_ta_def)

text \<open>A function as the argument of a call is a null pointer in the packet.\<close>

lemma function_argument_crashes:
  "js_send_type2 E C c [JsString tx, JsString ''execute'', JsString ''call_function'', JsString f, JsOther] w =
     Inl (UB ''null pointer dereference'')"
  by (simp add: js_send_type2_def type2_packet_def js_string_arg_def js_value_arg_def js_arg_def ptype_arg_def)

end
