(* ===== verification/Rely.thy ===== *)
theory Rely
  imports VmLife BrokerSystem
begin

text \<open>
  What one thread may rely on while others run: the queues of its monitors only grow at the end, and what is
  added is no \<open>stop\<close> signal. The operations of sockets, broker and VM keep this for all monitors but
  the one that they wait on.
\<close>

section \<open>Queues that only grow\<close>

definition keeps :: "addr set \<Rightarrow> world \<Rightarrow> world \<Rightarrow> bool" where
  "keeps M w w' \<longleftrightarrow> next_addr w \<le> next_addr w' \<and>
     (\<forall>m \<in> M. \<forall>q. monitors w m = Some q \<longrightarrow>
        (\<exists>r. monitors w' m = Some (q @ r) \<and> (\<forall>s \<in> set r. what s \<noteq> ''stop'')))"

lemma keepsI:
  assumes "next_addr w \<le> next_addr w'"
    and "\<And>m q. m \<in> M \<Longrightarrow> monitors w m = Some q \<Longrightarrow>
      \<exists>r. monitors w' m = Some (q @ r) \<and> (\<forall>s \<in> set r. what s \<noteq> ''stop'')"
  shows "keeps M w w'"
  using assms unfolding keeps_def by blast

lemma keepsD:
  assumes "keeps M w w'"
  shows "next_addr w \<le> next_addr w'"
    and "m \<in> M \<Longrightarrow> monitors w m = Some q \<Longrightarrow> \<exists>r. monitors w' m = Some (q @ r) \<and> (\<forall>s \<in> set r. what s \<noteq> ''stop'')"
  using assms unfolding keeps_def by blast+

lemma keeps_refl [simp]: "keeps M w w"
  by (simp add: keeps_def)

lemma keeps_trans [trans]:
  assumes "keeps M w1 w2" and "keeps M w2 w3" shows "keeps M w1 w3"
proof (rule keepsI)
  show "next_addr w1 \<le> next_addr w3" using keepsD(1) [OF assms(1)] keepsD(1) [OF assms(2)] by simp
  fix m q assume m: "m \<in> M" and "monitors w1 m = Some q"
  then obtain r where r: "monitors w2 m = Some (q @ r)" "\<forall>s \<in> set r. what s \<noteq> ''stop''"
    using keepsD(2) [OF assms(1)] by blast
  moreover obtain r' where "monitors w3 m = Some ((q @ r) @ r')" "\<forall>s \<in> set r'. what s \<noteq> ''stop''"
    using keepsD(2) [OF assms(2) m r(1)] by blast
  ultimately show "\<exists>r. monitors w3 m = Some (q @ r) \<and> (\<forall>s \<in> set r. what s \<noteq> ''stop'')"
    by (intro exI [of _ "r @ r'"]) auto
qed

lemma keeps_mono: "keeps N w w' \<Longrightarrow> M \<subseteq> N \<Longrightarrow> keeps M w w'"
  unfolding keeps_def by blast

lemma keeps_same: "monitors w' = monitors w \<Longrightarrow> next_addr w \<le> next_addr w' \<Longrightarrow> keeps M w w'"
  by (rule keepsI) auto

lemma keeps_notified:
  assumes "monitors w' = notify (monitors w) mon n ev" and "ev \<noteq> ''stop''" and "next_addr w \<le> next_addr w'"
  shows "keeps M w w'"
proof (rule keepsI [OF assms(3)])
  fix m q assume q: "monitors w m = Some q"
  then obtain q' where q': "monitors w' m = Some q'" by (metis assms(1) not_None_eq notify_dom)
  then have "q' = q @ (if mon = Some m then [\<lparr>who = n, what = ev\<rparr>] else [])"
    using notify_queue [of "monitors w" mon n ev m q'] q assms(1) by auto
  with q' assms(2) show "\<exists>r. monitors w' m = Some (q @ r) \<and> (\<forall>s \<in> set r. what s \<noteq> ''stop'')"
    by (intro exI [of _ "if mon = Some m then [\<lparr>who = n, what = ev\<rparr>] else []"]) auto
qed

text \<open>Waiting takes the first signal of one queue.\<close>

lemma keeps_wait:
  assumes "monitor_wait (monitors w) m = (ms, r)" and "m \<notin> M"
  shows "keeps M w (w\<lparr>monitors := ms\<rparr>)"
proof (rule keepsI)
  fix k q assume "k \<in> M" and "monitors w k = Some q"
  then show "\<exists>r. monitors (w\<lparr>monitors := ms\<rparr>) k = Some (q @ r) \<and> (\<forall>s \<in> set r. what s \<noteq> ''stop'')"
    using wait_frame(1) [OF assms(1), of k] assms(2) by (intro exI [of _ "[]"]) auto
qed simp

lemma wait_own:
  assumes "monitor_wait (monitors w) m = (ms, r)" and "monitors w m = Some q"
  shows "r = None \<Longrightarrow> q = [] \<and> ms m = Some []" and "r = Some s \<Longrightarrow> q = s # tl q \<and> ms m = Some (tl q)"
  using assms by (auto simp: monitor_wait_def split: list.splits)

text \<open>What a thread does that waits on the monitor \<open>m\<close>: the other queues are kept, its own stays alive.\<close>

definition keeps_but :: "addr \<Rightarrow> world \<Rightarrow> world \<Rightarrow> bool" where
  "keeps_but m w w' \<longleftrightarrow> keeps (- {m}) w w' \<and> (monitors w m \<noteq> None \<longrightarrow> monitors w' m \<noteq> None)"

lemma keeps_alive: "keeps M w w' \<Longrightarrow> m \<in> M \<Longrightarrow> monitors w m \<noteq> None \<Longrightarrow> monitors w' m \<noteq> None"
  using keepsD(2) by fastforce

lemma keeps_but_all: "keeps UNIV w w' \<Longrightarrow> keeps_but m w w'"
  using keeps_alive [of UNIV w w' m] by (auto simp: keeps_but_def intro: keeps_mono)

lemma keeps_but_wait:
  assumes "monitor_wait (monitors w) m = (ms, r)" and "keeps UNIV (w\<lparr>monitors := ms\<rparr>) w'"
  shows "keeps_but m w w'"
  unfolding keeps_but_def
  using keeps_trans [OF keeps_wait [OF assms(1)] keeps_mono [OF assms(2)], of "- {m}"]
    wait_frame(3) [OF assms(1), of m] keeps_alive [OF assms(2), of m] by simp

section \<open>Sockets\<close>

lemma keeps_socket_notify: "ev \<noteq> ''stop'' \<Longrightarrow> keeps M w (socket_notify a ev w)"
  by (cases "sockets w a") (auto simp: socket_notify_def intro: keeps_notified)

lemma keeps_send: "keeps M w (fst (send a m w))"
proof -
  have mail: "keeps M w (fst (socket_mail p m w))" for p
    by (rule keeps_same) (auto simp: socket_mail_def split: option.splits prod.splits)
  show ?thesis
    by (auto simp: send_def Let_def split_beta intro: mail keeps_trans [OF mail keeps_socket_notify]
        split: option.split)
qed

lemma keeps_recv: "keeps M w (fst (recv a w))"
  by (rule keeps_same) (auto simp: recv_def split: option.splits prod.splits)

lemma keeps_socket_new: "keeps M w (fst (socket_new w))"
  by (rule keeps_same) (auto simp: socket_new_def split_beta Let_def)

lemma keeps_socket_free: "keeps M w (socket_free a w)"
  by (rule keeps_same) (simp_all add: socket_free_def)

lemma keeps_set_monitor: "keeps M w (socket_set_monitor a m w)"
  by (rule keeps_same) (simp_all add: socket_set_monitor_def)

lemma keeps_request: "keeps M w (fst (request_accepting acc a w))"
  by (auto simp: request_accepting_def split_beta Let_def intro: keeps_notified split: option.split)

lemma keeps_connect_begin: "keeps M w (fst (connect_begin a url w))"
  using keeps_request [of M w _ a] by (auto simp: connect_begin_def split_beta intro: keeps_same split: option.split)

lemma keeps_connect_end: "keeps M w (fst (connect_end a url w))"
  by (rule keeps_same) (auto simp: connect_end_def)

lemma keeps_accept: "keeps M w (fst (accept acc w))"
proof (rule keeps_same)
  show "monitors (fst (accept acc w)) = monitors w"
    by (auto simp: accept_def split_beta Let_def socket_new_def split: option.splits)
  have "next_addr (attach a p v) = next_addr v" for a p v
    by (auto simp: attach_def split: option.splits)
  then show "next_addr w \<le> next_addr (fst (accept acc w))"
    by (auto simp: accept_def split_beta Let_def socket_new_def split: option.splits)
qed

lemma keeps_new_monitor: "new_monitor w = (w', m) \<Longrightarrow> m \<notin> M \<Longrightarrow> keeps M w w'"
  by (rule keepsI) (auto simp: new_monitor_def monitor_new_def)

section \<open>The broker\<close>

lemma keeps_one_send: "one_send w w' \<Longrightarrow> keeps M w w'"
  by (auto simp: one_send_def keeps_send)

lemma keeps_release: "keeps M w (release b b' w)"
  by (rule keeps_same) (simp_all add: release_def)

lemma keeps_broker_recv:
  assumes "broker_recv C b a w = Inr (b', w')" shows "keeps M w w' \<and> b_monitor b' = b_monitor b"
proof -
  obtain w2 where "one_send (fst (recv a w)) w2" "w' = w2 \<or> w' = release b b' w2" "b_monitor b' = b_monitor b"
    using broker_recv_frame [OF assms] by metis
  then show ?thesis
    using keeps_trans [OF keeps_recv keeps_one_send] keeps_trans [OF _ keeps_release] by blast
qed

lemma keeps_broker_accept:
  "keeps M w (snd (broker_accept b w)) \<and> b_monitor (fst (broker_accept b w)) = b_monitor b"
proof -
  obtain w1 r where a: "accept (b_acceptor b) w = (w1, r)" by fastforce
  then have "keeps M w w1" using keeps_accept [of M w "b_acceptor b"] by simp
  moreover have "keeps M w1 (release b b' (socket_set_monitor a m w1))" for a m b'
    by (rule keeps_trans [OF keeps_set_monitor keeps_release])
  ultimately show ?thesis
    using a by (auto simp: broker_accept_def Let_def intro: keeps_trans split: option.split)
qed

text \<open>A turn of the broker takes at most the first signal of its queue, and ends the loop only at a \<open>stop\<close>.\<close>

lemma broker_turn_running:
  assumes "broker_turn C b w = Inr (turn.Running b' w')"
  shows "\<exists>ms sig. monitor_wait (monitors w) (b_monitor b) = (ms, sig) \<and>
    keeps UNIV (w\<lparr>monitors := ms\<rparr>) w' \<and> b_monitor b' = b_monitor b"
proof -
  obtain ms sig where w: "monitor_wait (monitors w) (b_monitor b) = (ms, sig)" by fastforce
  have "keeps UNIV (w\<lparr>monitors := ms\<rparr>) w' \<and> b_monitor b' = b_monitor b"
    using assms w keeps_broker_accept [of UNIV "w\<lparr>monitors := ms\<rparr>" b] keeps_broker_recv
    by (auto simp: broker_turn_def Let_def split_beta bindR_eq_Inr split: option.splits if_splits)
  with w show ?thesis by blast
qed

lemma broker_turn_stopped:
  assumes "broker_turn C b w = Inr (Stopped n w')"
  shows "\<exists>ms s. monitor_wait (monitors w) (b_monitor b) = (ms, Some s) \<and> what s = ''stop'' \<and>
    w' = broker_shutdown b (w\<lparr>monitors := ms\<rparr>)"
  using assms
  by (cases "monitor_wait (monitors w) (b_monitor b)")
    (auto simp: broker_turn_def Let_def split_beta bindR_eq_Inr split: option.splits if_splits)

lemma keeps_shutdown: "keeps M w (broker_shutdown b w)"
  by (rule keeps_same) (auto simp: broker_shutdown_def acceptor_free_def release_def split: option.splits)

section \<open>The VM\<close>

lemma keeps_client_send: "client_send C c p w = Inr (w', ok) \<Longrightarrow> keeps UNIV w w'"
  by (auto simp: client_send_def send_bytes_def bindR_eq_Inr) (metis fst_conv keeps_send)

lemma keeps_client_recv: "client_recv C c skip w = Inr (w', r) \<Longrightarrow> keeps UNIV w w'"
  using keeps_recv [of UNIV w "c_socket c"]
  by (auto simp: client_recv_def split_beta bindR_eq_Inr split: option.splits)

lemma keeps_tell: "tell C c p w = Inr w' \<Longrightarrow> keeps UNIV w w'"
  by (auto simp: tell_def bindR_eq_Inr dest: keeps_client_send)

lemma keeps_tell_output: "tell_output C c tx i out w = Inr w' \<Longrightarrow> keeps UNIV w w'"
  by (cases out) (auto simp: tell_output_def bindR_eq_Inr dest: keeps_tell)

lemma keeps_tell_outputs: "tell_outputs C c tx i outs w = Inr w' \<Longrightarrow> keeps UNIV w w'"
  by (induction outs arbitrary: i w) (auto simp: bindR_eq_Inr intro: keeps_trans dest: keeps_tell_output)

lemma keeps_run_op: "run_op C c tx step i s w = Some (Inr (s', w')) \<Longrightarrow> keeps UNIV w w'"
  by (drule run_op_complete [OF _ refl]) (auto dest: keeps_tell_outputs)

lemma keeps_tell_expecting:
  "tell_expecting C ps vm w = Inr (vm', w') \<Longrightarrow> keeps UNIV w w' \<and> vm_client vm' = vm_client vm"
proof (induction ps arbitrary: vm w)
  case (Cons e ps)
  obtain tx p where e: "e = (tx, p)" by fastforce
  then obtain w1 where w1: "tell C (vm_client vm) p w = Inr w1"
    and rest: "tell_expecting C ps (vm\<lparr>vm_expected := insert tx (vm_expected vm), vm_uuids := Suc (vm_uuids vm)\<rparr>) w1 =
      Inr (vm', w')"
    using Cons.prems by (auto simp: bindR_eq_Inr)
  show ?case using keeps_trans [OF keeps_tell [OF w1]] Cons.IH [OF rest] by simp
qed simp

lemma keeps_refuse: "refuse C vm tx r w = Inr (vm', w') \<Longrightarrow> keeps UNIV w w' \<and> vm_client vm' = vm_client vm"
  by (auto simp: refuse_def bindR_eq_Inr dest: keeps_tell)

lemma keeps_send_all: "send_all ps vm w = (vm', w', ok) \<Longrightarrow> keeps UNIV w w' \<and> vm_client vm' = vm_client vm"
proof (induction ps arbitrary: vm w)
  case (Cons e ps)
  obtain tx m where e: "e = (tx, m)" by fastforce
  obtain w1 k where s: "send (c_socket (vm_client vm)) m w = (w1, k)" by fastforce
  then have "keeps UNIV w w1" using keeps_send [of UNIV w "c_socket (vm_client vm)" m] by simp
  with Cons e s show ?case
    by (cases k) (fastforce simp: send_bytes_def Let_def intro: keeps_trans)+
qed simp

lemma keeps_send_ignoring: "send_ignoring ps vm w = (vm', w') \<Longrightarrow> keeps UNIV w w' \<and> vm_client vm' = vm_client vm"
proof (induction ps arbitrary: vm w)
  case (Cons e ps)
  obtain tx m where e: "e = (tx, m)" by fastforce
  have "keeps UNIV w (fst (send_bytes (vm_client vm) (Some m) w))" by (simp add: send_bytes_def keeps_send)
  with Cons e show ?case by (fastforce intro: keeps_trans)
qed simp

text \<open>Every handler only sends, and the client stays the same.\<close>

lemma after_eq_Some: "after r f = Some (Inr y) \<longleftrightarrow> (\<exists>x. r = Some (Inr x) \<and> y = f x)"
  by (cases r; cases "the r") (auto simp: after_def)

lemma keeps_call_function:
  "handle_call_function C p vm w = Some (Inr (vm', w')) \<Longrightarrow> keeps UNIV w w' \<and> vm_client vm' = vm_client vm"
  unfolding handle_call_function_def
  by (auto simp: after_eq_Some dest!: keeps_refuse keeps_run_op split: option.splits if_splits sum.splits)

lemma keeps_call_method:
  "handle_call_method C p vm w = Some (Inr (vm', w')) \<Longrightarrow> keeps UNIV w w' \<and> vm_client vm' = vm_client vm"
  unfolding handle_call_method_def Let_def
  by (auto simp: after_eq_Some dest!: keeps_refuse keeps_run_op split: option.splits if_splits sum.splits)

lemma keeps_defined:
  assumes "bindR (tell_expecting C ps vm w) (\<lambda>(vm1, w1).
      bindR (tell C (vm_client vm1) (respond_execute_ok_packet tx 0 True (Map_t [])) w1)
        (\<lambda>w2. Inr (f vm1, w2))) = Inr (vm', w')"
    and "\<And>v. vm_client (f v) = vm_client v"
  shows "keeps UNIV w w' \<and> vm_client vm' = vm_client vm"
proof -
  obtain vm1 w1 where te: "tell_expecting C ps vm w = Inr (vm1, w1)"
    and an: "tell C (vm_client vm1) (respond_execute_ok_packet tx 0 True (Map_t [])) w1 = Inr w'" "vm' = f vm1"
    using assms(1) by (auto simp: bindR_eq_Inr)
  show ?thesis
    using keeps_tell_expecting [OF te] keeps_trans [OF _ keeps_tell [OF an(1)]] an(2) assms(2) by auto
qed

lemma keeps_define:
  assumes "handle_define_component C uuid p vm w = Inr (vm', w')"
  shows "keeps UNIV w w' \<and> vm_client vm' = vm_client vm"
proof -
  obtain h where h: "headers p = Some h" using assms by (auto simp: handle_define_component_def bindR_eq_Inr deref_eq_Inr)
  show ?thesis
  proof (cases "length h = 2")
    case True
    obtain tx ty where t: "array_get as_string h 0 = Inr tx" "array_get as_string h 1 = Inr ty"
      using assms h True by (auto simp: handle_define_component_def bindR_eq_Inr)
    show ?thesis
    proof (cases "map_of (vm_factories vm) ty")
      case None
      then show ?thesis using assms h True t by (auto simp: handle_define_component_def dest!: keeps_refuse)
    next
      case factory: (Some f)
      show ?thesis
      proof (cases "body p")
        case None
        then show ?thesis using assms h True t factory by (auto simp: handle_define_component_def dest!: keeps_refuse)
      next
        case b: (Some b)
        obtain n where n: "map_get as_string b ''name'' = Inr n"
          using assms h True t factory b by (auto simp: handle_define_component_def bindR_eq_Inr)
        show ?thesis
        proof (cases "map_of (vm_factories vm) n")
          case new: None
          obtain v r where r: "map_at b ''in'' = Inr v" "f (Some v) = Inr r"
            using assms h True t factory b n new by (auto simp: handle_define_component_def bindR_eq_Inr)
          then show ?thesis using assms h True t factory b n new
            by (cases r) (auto simp: handle_define_component_def dest!: keeps_refuse keeps_defined)
        qed (use assms h True t factory b n in \<open>auto simp: handle_define_component_def dest!: keeps_refuse\<close>)
      qed
    qed
  qed (use assms h in \<open>auto simp: handle_define_component_def\<close>)
qed

lemma keeps_delete:
  "handle_delete_component C uuid p vm w = Inr (vm', w') \<Longrightarrow> keeps UNIV w w' \<and> vm_client vm' = vm_client vm"
  unfolding handle_delete_component_def
  by (auto simp: bindR_eq_Inr dest!: keeps_refuse keeps_tell_expecting intro: keeps_trans [OF _ keeps_tell]
      split: option.splits if_splits)

lemma keeps_handle:
  "vm_handle C uuid p vm w = Some (Inr (vm', w')) \<Longrightarrow> keeps UNIV w w' \<and> vm_client vm' = vm_client vm"
  unfolding vm_handle_def
  by (auto simp: vm_respond_def bindR_eq_Inr mapR_res_def
      dest!: keeps_call_function keeps_call_method keeps_define keeps_delete
      split: option.splits if_splits instruction_type.splits sum.splits)

section \<open>A step of the VM\<close>

text \<open>
  A turn of the loop takes at most the first signal of the queue; it goes on exactly when that is no \<open>stop\<close>.
\<close>

lemma vm_turn_on:
  assumes "vm_turn C uuid vm w = Some (Inr (Vm_on vm' w'))"
    and "monitor_wait (monitors w) (c_monitor (vm_client vm)) = (ms, sig)"
  shows "keeps UNIV (w\<lparr>monitors := ms\<rparr>) w' \<and> vm_client vm' = vm_client vm \<and> (\<forall>s. sig = Some s \<longrightarrow> what s \<noteq> ''stop'')"
proof (cases sig)
  case None
  with assms show ?thesis by (simp add: vm_turn_def)
next
  case (Some s)
  let ?w = "w\<lparr>monitors := ms\<rparr>"
  have go: "what s \<noteq> ''stop''" using assms Some by (auto simp: vm_turn_def Let_def bindR_eq_Inr split_beta)
  show ?thesis
  proof (cases "what s = ''recv''")
    case True
    obtain w2 r where r: "client_recv C (vm_client vm) False ?w = Inr (w2, r)"
      using assms Some True by (cases "client_recv C (vm_client vm) False ?w") (auto simp: vm_turn_def)
    have k: "keeps UNIV ?w w2" by (rule keeps_client_recv [OF r])
    show ?thesis
    proof (cases r)
      case (Some p)
      then have "after (vm_handle C uuid p vm w2) (\<lambda>(vm1, w3). Vm_on vm1 w3) = Some (Inr (Vm_on vm' w'))"
        using assms \<open>sig = Some s\<close> True r by (simp add: vm_turn_def split: sum.splits)
      then have "keeps UNIV w2 w' \<and> vm_client vm' = vm_client vm"
        by (auto simp: after_eq_Some dest!: keeps_handle)
      with keeps_trans [OF k] go Some \<open>sig = Some s\<close> show ?thesis by blast
    qed (use assms Some True r k go in \<open>simp add: vm_turn_def\<close>)
  qed (use assms Some go in \<open>simp add: vm_turn_def\<close>)
qed

lemma vm_turn_off:
  assumes "vm_turn C uuid vm w = Some (Inr (Vm_off vm' w'))"
    and "monitor_wait (monitors w) (c_monitor (vm_client vm)) = (ms, sig)"
  shows "keeps UNIV (w\<lparr>monitors := ms\<rparr>) w' \<and> vm_client vm' = vm_client vm"
proof -
  obtain s where s: "sig = Some s" "what s = ''stop''"
    using assms by (cases sig) (auto simp: vm_turn_def Let_def after_eq_Some split: if_splits sum.splits option.splits)
  then obtain vm1 msgs where on: "on_stop C uuid vm = Inr (vm1, msgs)"
    and off: "send_ignoring msgs vm1 (w\<lparr>monitors := ms\<rparr>) = (vm', w')"
    using assms by (auto simp: vm_turn_def bindR_eq_Inr split_beta Let_def)
  have "vm_client vm1 = vm_client vm" using on by (auto simp: on_stop_def Let_def bindR_eq_Inr)
  with keeps_send_ignoring [OF off] show ?thesis by simp
qed

lemma keeps_answer:
  assumes "vm_answer C vm_id tx vm g w = (g', Inr (vm', w'))"
  shows "keeps_but (c_monitor (vm_client vm)) w w' \<and> vm' = vm"
proof -
  obtain ms sig where ms: "monitor_wait (monitors w) (c_monitor (vm_client vm)) = (ms, sig)" by fastforce
  with assms have sig: "sig \<noteq> None" by (simp add: vm_answer_def Let_def split: if_splits)
  obtain w1 p where p: "client_recv C (vm_client vm) False (w\<lparr>monitors := ms\<rparr>) = Inr (w1, Some p)"
    using assms ms sig
    by (cases "client_recv C (vm_client vm) False (w\<lparr>monitors := ms\<rparr>)") (auto simp: vm_answer_def split: option.splits)
  then have "vm' = vm" "w' = w1" using assms ms sig by (auto simp: vm_answer_def split_beta Let_def bindR_eq_Inr)
  then show ?thesis using keeps_but_wait [OF ms keeps_client_recv [OF p]] by simp
qed

lemma keeps_import: "vm_import C uuid vm_id mods vm g w = (g', Inr (vm', w')) \<Longrightarrow> keeps UNIV w w' \<and> vm_client vm' = vm_client vm"
proof (induction mods arbitrary: vm w)
  case (Cons md mods)
  from Cons.prems obtain vm1 msgs where on: "on_import_module C uuid md vm = Inr (vm1, msgs)"
    by (cases "on_import_module C uuid md vm") auto
  obtain vm2 w1 ok where s: "send_all msgs vm1 w = (vm2, w1, ok)" by (rule prod_cases3)
  with Cons.prems on have rest: "vm_import C uuid vm_id mods vm2 g w1 = (g', Inr (vm', w'))"
    by (cases ok) (auto simp: raise_exception_def)
  have "vm_client vm1 = vm_client vm" using on by (auto simp: on_import_module_def Let_def bindR_eq_Inr)
  with keeps_send_all [OF s] Cons.IH [OF rest] show ?case by (auto intro: keeps_trans)
qed simp

lemma keeps_squeeze:
  assumes "vm_squeeze C vm g w = Inr (Squeeze vm' g' w')"
  shows "keeps_but (c_monitor (vm_client vm)) w w' \<and> vm_client vm' = vm_client vm"
proof -
  obtain ms sig where ms: "monitor_wait (monitors w) (c_monitor (vm_client vm)) = (ms, sig)" by fastforce
  have one: "keeps_but (c_monitor (vm_client vm)) w (w\<lparr>monitors := ms\<rparr>)"
    by (rule keeps_but_wait [OF ms keeps_refl])
  have more: "client_recv C (vm_client vm) False (w\<lparr>monitors := ms\<rparr>) = Inr (w2, r) \<Longrightarrow>
      keeps_but (c_monitor (vm_client vm)) w w2" for w2 r
    by (rule keeps_but_wait [OF ms keeps_client_recv])
  show ?thesis
    using assms ms one by (auto simp: vm_squeeze_def bindR_eq_Inr Let_def dest!: more split: if_splits option.splits)
qed

lemma keeps_bye: "vm_bye C uuid vm_id vm g w = (g', Inr (vm', w')) \<Longrightarrow> keeps UNIV w w' \<and> vm_client vm' = vm_client vm"
  by (auto simp: vm_bye_def raise_exception_def dest: keeps_client_send split: sum.splits if_splits)

lemma keeps_end:
  assumes "vm_end C vm_id vm g w = (g', Inr w')" shows "keeps (- {c_monitor (vm_client vm)}) w w'"
proof -
  obtain ms sig where ms: "monitor_wait (monitors w) (c_monitor (vm_client vm)) = (ms, sig)" by fastforce
  with assms obtain w1 r where r: "client_recv C (vm_client vm) False (w\<lparr>monitors := ms\<rparr>) = Inr (w1, r)"
    and w': "w' = (socket_free (c_socket (vm_client vm)) w1)\<lparr>monitors := (monitors w1)(c_monitor (vm_client vm) := None)\<rparr>"
    by (auto simp: vm_end_def Let_def bindR_eq_Inr raise_exception_def split: if_splits)
  have "keeps (- {c_monitor (vm_client vm)}) w w1"
    using keeps_trans [OF keeps_wait [OF ms] keeps_mono [OF keeps_client_recv [OF r]]] by auto
  also have "keeps (- {c_monitor (vm_client vm)}) w1 w'"
    unfolding w' by (rule keepsI) (auto simp: socket_free_def)
  finally show ?thesis .
qed

fun phase_client :: "'o vm_phase \<Rightarrow> client_t option" where
  "phase_client (Greeting tx vm) = Some (vm_client vm)"
| "phase_client (Loading vm) = Some (vm_client vm)"
| "phase_client (Serving vm) = Some (vm_client vm)"
| "phase_client (Closing vm) = Some (vm_client vm)"
| "phase_client (Leaving vm) = Some (vm_client vm)"
| "phase_client (Ending vm) = Some (vm_client vm)"
| "phase_client Ended = None"
| "phase_client (Aborted e) = None"

text \<open>Whatever the phase, a step of the VM keeps the queues of all others, and its own until the client is destroyed.\<close>

lemma keeps_own_step:
  assumes "vm_own_step C uuid vm_id mods (g, w, ph) (g', w', ph')" and "phase_client ph = Some c"
  shows "keeps (- {c_monitor c}) w w'"
    and "phase_client ph' = None \<or> phase_client ph' = Some c \<and> (monitors w (c_monitor c) \<noteq> None \<longrightarrow> monitors w' (c_monitor c) \<noteq> None)"
proof -
  have turn: "keeps_but (c_monitor (vm_client vm)) w w' \<and> vm_client vm' = vm_client vm"
    if "vm_turn C uuid vm w = Some (Inr (Vm_on vm' w')) \<or> vm_turn C uuid vm w = Some (Inr (Vm_off vm' w'))" for vm vm'
  proof -
    obtain ms sig where ms: "monitor_wait (monitors w) (c_monitor (vm_client vm)) = (ms, sig)" by fastforce
    have "keeps UNIV (w\<lparr>monitors := ms\<rparr>) w' \<and> vm_client vm' = vm_client vm"
      using that vm_turn_on [OF _ ms] vm_turn_off [OF _ ms] by blast
    then show ?thesis using keeps_but_wait [OF ms] by blast
  qed
  have "keeps (- {c_monitor c}) w w' \<and> (phase_client ph' = None \<or> phase_client ph' = Some c \<and>
      (monitors w (c_monitor c) \<noteq> None \<longrightarrow> monitors w' (c_monitor c) \<noteq> None))"
    using assms(1)
  proof (cases rule: vm_own_step.cases)
    case (serve vm vm')
    then show ?thesis using turn assms(2) by (auto simp: keeps_but_def)
  next
    case (stopped vm vm')
    then show ?thesis using turn assms(2) by (auto simp: keeps_but_def)
  next
    case (squeezed vm vm')
    then have "w' = w \<and> vm' = vm" using assms(2)
      by (auto simp: vm_squeeze_def Let_def bindR_eq_Inr split: if_splits option.splits prod.splits)
    with squeezed assms(2) show ?thesis by auto
  next
    case (load vm vm')
    then show ?thesis using keeps_but_all assms(2) by (auto dest!: keeps_import simp: keeps_but_def)
  next
    case (bye vm vm')
    then show ?thesis using keeps_but_all assms(2) by (auto dest!: keeps_bye simp: keeps_but_def)
  qed (use assms(2) in \<open>auto simp: keeps_but_def dest!: keeps_answer keeps_squeeze keeps_end\<close>)
  then show "keeps (- {c_monitor c}) w w'"
    and "phase_client ph' = None \<or> phase_client ph' = Some c \<and> (monitors w (c_monitor c) \<noteq> None \<longrightarrow> monitors w' (c_monitor c) \<noteq> None)"
    by blast+
qed

section \<open>Beginnings\<close>

text \<open>A broker starts with a monitor of its own, in which nothing is.\<close>

lemma keeps_set_acceptor: "keeps M w (acceptor_set_monitor acc m w)"
proof -
  have f: "keeps M w (fold (\<lambda>e w. fst (request_accepting acc (snd e) w)) es w)" for es :: "(string \<times> addr) list" and w
    by (induction es arbitrary: w) (auto intro: keeps_trans [OF keeps_request])
  have on: "keeps M w (on_monitor_set acc w)" for w
    using f by (auto simp: on_monitor_set_def Let_def intro: keeps_trans [OF f keeps_same] split: option.split)
  show ?thesis
    unfolding acceptor_set_monitor_def by (rule keeps_trans [OF keeps_same on]) simp_all
qed

lemma broker_started:
  assumes "broker_start url w stops = Inr (b, w', stops')"
  shows "b_monitor b = next_addr w" and "next_addr w < next_addr w'" and "keeps (- {next_addr w}) w w'"
    and "\<exists>q. monitors w' (next_addr w) = Some q \<and> (\<forall>s \<in> set q. what s \<noteq> ''stop'')"
proof -
  obtain w1 m where m: "new_monitor w = (w1, m)" by fastforce
  then have w1: "m = next_addr w" "next_addr w1 = Suc (next_addr w)" "monitors w1 = (monitors w)(m \<mapsto> [])"
    by (auto simp: new_monitor_def monitor_new_def)
  obtain w2 acc where acc: "acceptor_new url w1 = (w2, Inr acc)"
    using assms m by (cases "acceptor_new url w1"; cases "snd (acceptor_new url w1)") (auto simp: broker_start_def)
  then have w2: "monitors w2 = monitors w1" "next_addr w1 \<le> next_addr w2"
    by (auto simp: acceptor_new_def Let_def split: prod.splits if_splits)
  let ?w3 = "acceptor_set_monitor acc m w2"
  have b: "b_monitor b = m" and w': "monitors w' = monitors ?w3" "next_addr w' = next_addr ?w3"
    using assms m acc by (auto simp: broker_start_def Let_def split_beta)
  have "keeps UNIV ?w3 w'" by (rule keeps_same) (use w' in simp_all)
  then have k: "keeps UNIV w2 w'" by (rule keeps_trans [OF keeps_set_acceptor])
  show "b_monitor b = next_addr w" by (simp add: b w1)
  show "next_addr w < next_addr w'" using keepsD(1) [OF k] w1 w2 by simp
  have "keeps (- {next_addr w}) w w2" by (rule keepsI) (use w1 w2 in auto)
  then show "keeps (- {next_addr w}) w w'" by (rule keeps_trans [OF _ keeps_mono [OF k]]) simp
  show "\<exists>q. monitors w' (next_addr w) = Some q \<and> (\<forall>s \<in> set q. what s \<noteq> ''stop'')"
    using keepsD(2) [OF k, of m "[]"] w1 w2 by auto
qed

lemma vm_begun:
  assumes "vm_begin url name g w = Inr (w', c, d)"
  shows "c_monitor c = next_addr w" and "next_addr w < next_addr w'" and "keeps (- {next_addr w}) w w'"
    and "monitors w' (next_addr w) \<noteq> None" and "map_of (vm_states g) (vm_id_of url name) = None"
proof -
  obtain w1 m where m: "new_monitor w = (w1, m)" by fastforce
  then have w1: "m = next_addr w" "next_addr w1 = Suc (next_addr w)" "monitors w1 = (monitors w)(m \<mapsto> [])"
    by (auto simp: new_monitor_def monitor_new_def)
  have dial: "client_dial url (Some m) w1 = (w', c, d)" and free: "map_of (vm_states g) (vm_id_of url name) = None"
    using assms m by (auto simp: vm_begin_def split: if_splits)
  then have k: "keeps UNIV w1 w'"
    using keeps_trans [OF keeps_socket_new [of UNIV w1] keeps_connect_begin [of UNIV "fst (socket_new w1)"]]
    by (auto simp: client_dial_def Let_def split_beta)
  show "c_monitor c = next_addr w" using dial w1 by (auto simp: client_dial_def Let_def split_beta)
  show "next_addr w < next_addr w'" using keepsD(1) [OF k] w1 by simp
  have "keeps (- {next_addr w}) w w1" by (rule keepsI) (use w1 in auto)
  then show "keeps (- {next_addr w}) w w'" by (rule keeps_trans [OF _ keeps_mono [OF k]]) simp
  show "monitors w' (next_addr w) \<noteq> None" using keeps_alive [OF k, of m] w1 by simp
  show "map_of (vm_states g) (vm_id_of url name) = None" by (rule free)
qed

lemma vm_helloed:
  assumes "vm_hello C uuid vm_id c ok i g w = (g', Inr (vm, w'))"
  shows "keeps UNIV w w'" and "vm_client vm = c"
    and "\<exists>st. vm_states g' = put vm_id st (vm_states g) \<and> n_monitor (stop_notifier st) = Some (c_monitor c)"
proof -
  let ?w1 = "socket_set_monitor (c_socket c) (c_monitor c) w"
  have ok: "client_dialed c ok w = Inr (c, ?w1)"
    using assms by (cases "client_dialed c ok w") (auto simp: vm_hello_def)
  obtain x j st k where n: "notify_new (next_id ?w1) = (x, j)" "stop_new j = (st, k)" by fastforce
  let ?st = "st\<lparr>stop_notifier := set_monitor (c_monitor c) (stop_notifier st)\<rparr>"
  obtain w3 where sent: "client_send C c (conn_packet connect (uuid i)) (?w1\<lparr>next_id := k\<rparr>) = Inr (w3, True)"
    and rest: "g' = g\<lparr>vm_states := put vm_id ?st (vm_states g)\<rparr>" "vm_client vm = c" "w' = w3"
    using assms ok n by (auto simp: vm_hello_def raise_exception_def split_beta Let_def split: sum.splits if_splits prod.splits)
  have "keeps UNIV ?w1 (?w1\<lparr>next_id := k\<rparr>)" by (rule keeps_same) simp_all
  then show "keeps UNIV w w'"
    using keeps_trans [OF keeps_trans [OF keeps_set_monitor] keeps_client_send [OF sent]] rest(3) by blast
  show "vm_client vm = c" by (rule rest)
  show "\<exists>st. vm_states g' = put vm_id st (vm_states g) \<and> n_monitor (stop_notifier st) = Some (c_monitor c)"
    using rest(1) by (intro exI [of _ ?st]) (simp add: set_monitor_def)
qed

text \<open>The table of VMs only loses entries in a step of a VM, and only when it fails.\<close>

lemma own_step_states:
  assumes "vm_own_step C uuid vm_id mods (g, w, ph) (g', w', ph')" and "\<not> aborted ph'"
  shows "vm_states g' = vm_states g"
  using assms(1)
proof (cases rule: vm_own_step.cases)
  case (squeeze vm vm')
  then show ?thesis using squeeze_keeps_states [of C vm g w] by fastforce
next
  case (squeezed vm vm')
  then show ?thesis using squeeze_keeps_states [of C vm g w] by fastforce
qed (use assms(2) in \<open>auto dest: answer_keeps import_keeps bye_keeps end_keeps\<close>)

definition fewer_names :: "string \<Rightarrow> vm_statics \<Rightarrow> vm_statics \<Rightarrow> bool" where
  "fewer_names vm_id g g' \<longleftrightarrow> vm_states g' = vm_states g \<or> vm_states g' = del vm_id (vm_states g)"

lemma raise_fewer: "raise_exception vm_id r g = (g', x) \<Longrightarrow> fewer_names vm_id g g'"
  by (auto simp: raise_exception_def fewer_names_def)

lemma same_fewer [simp]: "fewer_names vm_id g g"
  by (simp add: fewer_names_def)

lemma check_fewer: "vm_check_answer vm_id tx p g = (g', r) \<Longrightarrow> fewer_names vm_id g g'"
  unfolding vm_check_answer_def Let_def
  by (auto dest: raise_fewer split: if_splits sum.splits option.splits)

lemma answer_fewer:
  assumes "vm_answer C vm_id tx vm g w = (g', r)" shows "fewer_names vm_id g g'"
proof -
  obtain ms sig where ms: "monitor_wait (monitors w) (c_monitor (vm_client vm)) = (ms, sig)" by fastforce
  show ?thesis
    using assms ms
    by (auto simp: vm_answer_def Let_def split_beta intro: check_fewer [OF surjective_pairing] dest: raise_fewer
        split: if_splits sum.splits option.splits prod.splits)
qed

lemma import_fewer: "vm_import C uuid vm_id mods vm g w = (g', r) \<Longrightarrow> fewer_names vm_id g g'"
proof (induction mods arbitrary: vm w)
  case (Cons md mods)
  show ?case
  proof (cases "on_import_module C uuid md vm")
    case (Inr a)
    obtain vm1 msgs where a: "a = (vm1, msgs)" by fastforce
    obtain vm2 w1 ok where "send_all msgs vm1 w = (vm2, w1, ok)" by (rule prod_cases3)
    with Cons Inr a show ?thesis by (cases ok) (auto dest: raise_fewer)
  qed (use Cons.prems in auto)
qed simp

lemma bye_fewer: "vm_bye C uuid vm_id vm g w = (g', r) \<Longrightarrow> fewer_names vm_id g g'"
  by (auto simp: vm_bye_def dest: raise_fewer split: sum.splits if_splits)

lemma end_fewer: "vm_end C vm_id vm g w = (g', r) \<Longrightarrow> fewer_names vm_id g g'"
  by (auto simp: vm_end_def Let_def dest: raise_fewer split: prod.splits if_splits)

lemma own_step_fewer:
  assumes "vm_own_step C uuid vm_id mods (g, w, ph) (g', w', ph')" shows "fewer_names vm_id g g'"
  using assms
proof (cases rule: vm_own_step.cases)
  case (squeeze vm vm')
  then show ?thesis using squeeze_keeps_states [of C vm g w] by (fastforce simp: fewer_names_def)
next
  case (squeezed vm vm')
  then show ?thesis using squeeze_keeps_states [of C vm g w] by (fastforce simp: fewer_names_def)
qed (auto dest: answer_fewer import_fewer bye_fewer end_fewer)

lemma own_step_client: "vm_own_step C uuid vm_id mods (g, w, ph) (g', w', ph') \<Longrightarrow> \<exists>c. phase_client ph = Some c"
  by (erule vm_own_stepE) auto

end
