(* ===== verification/BindingThreads.thy ===== *)
theory BindingThreads
  imports Rely
begin

text \<open>
  The threads of the broker and the VM that a program in Python or JavaScript runs: \<open>start_threads\<close> and
  \<open>stop_threads\<close> (\<open>bindings/python/csrc/binding.cpp\<close>; those of \<open>bindings/js-node/csrc/binding.cpp\<close> differ
  only in how the url arrives). A thread executes the model of its function step by step, among the steps of the
  others. An exception that leaves the function of a thread ends the process.
\<close>

section \<open>The process\<close>

text \<open>
  The two static variables of type \<open>optional<thread>\<close>, each with the url its thread was started with: a thread whose
  function has returned can still be joined, one that has been joined not again.
\<close>

datatype 'r thread = No_thread | Thread_runs string 'r | Thread_returned string | Thread_joined string

fun joinable :: "'r thread \<Rightarrow> bool" where
  "joinable (Thread_runs u r) = True"
| "joinable (Thread_returned u) = True"
| "joinable _ = False"

datatype broker_run = Broker_begins | Broker_loops broker_t

datatype 'o vm_run = Vm_begins | Vm_dials client_t dialing | Vm_runs "'o vm_phase"

text \<open>Where the caller of the two functions is; \<open>Main_sleeps\<close> is the wait of 100 ms at the end of \<open>start_threads\<close>.\<close>

datatype main_at = Main_free | Main_spawns string | Main_sleeps string | Joins_vm string | Joins_broker string

record 'o process =
  p_world :: world
  p_statics :: vm_statics
  p_stops :: "(string \<times> stop_t) list"
  p_broker :: "broker_run thread"
  p_vm :: "'o vm_run thread"
  p_main :: main_at

datatype 'o outcome = Goes "'o process" | Throws fault "'o process" | Dies fault

definition default_vm :: string where "default_vm = ''default_vm''"

text \<open>
  The functions of the threads have captured the url and the array of modules by reference: they can be read while
  the call of \<open>start_threads\<close> is there.
\<close>

definition frame_live :: "'o process \<Rightarrow> bool" where
  "frame_live p \<longleftrightarrow> (case p_main p of Main_spawns u \<Rightarrow> True | Main_sleeps u \<Rightarrow> True | _ \<Rightarrow> False)"

definition dangling :: fault where "dangling = UB ''reference to a variable that is gone''"

definition terminate :: fault where "terminate = LibThrow ''terminate''"

section \<open>The caller\<close>

text \<open>Assigning to a thread that can be joined ends the process.\<close>

definition start_broker :: "string \<Rightarrow> 'o process \<Rightarrow> 'o outcome" where
  "start_broker url p =
     (if joinable (p_broker p) then Dies terminate
      else Goes (p\<lparr>p_broker := Thread_runs url Broker_begins, p_main := Main_spawns url\<rparr>))"

definition start_vm :: "string \<Rightarrow> 'o process \<Rightarrow> 'o outcome" where
  "start_vm url p =
     (if joinable (p_vm p) then Dies terminate
      else Goes (p\<lparr>p_vm := Thread_runs url Vm_begins, p_main := Main_sleeps url\<rparr>))"

text \<open>The second half of \<open>stop_threads\<close>, and the whole.\<close>

definition stop_broker :: "string \<Rightarrow> 'o process \<Rightarrow> 'o process" where
  "stop_broker url p =
     (if p_broker p = No_thread then p\<lparr>p_main := Main_free\<rparr>
      else (let (w, st) = broker_stop url (p_world p) (p_stops p)
            in p\<lparr>p_world := w, p_stops := st, p_main := Joins_broker url\<rparr>))"

definition stop_threads :: "string \<Rightarrow> 'o process \<Rightarrow> 'o process" where
  "stop_threads url p =
     (if p_vm p = No_thread then stop_broker url p
      else (let (g, w) = vm_stop url default_vm (p_statics p) (p_world p)
            in p\<lparr>p_statics := g, p_world := w, p_main := Joins_vm url\<rparr>))"

definition join_failed :: fault where "join_failed = LibThrow ''system_error''"

inductive main_step :: "'o process \<Rightarrow> 'o outcome \<Rightarrow> bool" where
  start: "p_main p = Main_free \<Longrightarrow> main_step p (start_broker url p)"
| spawn: "p_main p = Main_spawns url \<Longrightarrow> main_step p (start_vm url p)"
| wake: "p_main p = Main_sleeps url \<Longrightarrow> main_step p (Goes (p\<lparr>p_main := Main_free\<rparr>))"
| stop: "p_main p = Main_free \<Longrightarrow> main_step p (Goes (stop_threads url p))"
| join_vm: "p_main p = Joins_vm url \<Longrightarrow> p_vm p = Thread_returned u \<Longrightarrow>
    main_step p (Goes (stop_broker url (p\<lparr>p_vm := Thread_joined u\<rparr>)))"
| join_vm_again: "p_main p = Joins_vm url \<Longrightarrow> p_vm p = Thread_joined u \<Longrightarrow>
    main_step p (Throws join_failed (p\<lparr>p_main := Main_free\<rparr>))"
| join_broker: "p_main p = Joins_broker url \<Longrightarrow> p_broker p = Thread_returned u \<Longrightarrow>
    main_step p (Goes (p\<lparr>p_broker := Thread_joined u, p_main := Main_free\<rparr>))"
| join_broker_again: "p_main p = Joins_broker url \<Longrightarrow> p_broker p = Thread_joined u \<Longrightarrow>
    main_step p (Throws join_failed (p\<lparr>p_main := Main_free\<rparr>))"

inductive_cases main_stepE: "main_step p r"

section \<open>The two threads\<close>

definition broker_begin :: "string \<Rightarrow> 'o process \<Rightarrow> 'o outcome" where
  "broker_begin url p =
     (if \<not> frame_live p then Dies dangling
      else (case broker_start url (p_world p) (p_stops p) of
              Inl e \<Rightarrow> Dies e
            | Inr (b, w, st) \<Rightarrow>
                Goes (p\<lparr>p_world := w, p_stops := st, p_broker := Thread_runs url (Broker_loops b)\<rparr>)))"

definition broker_loop :: "codec \<Rightarrow> string \<Rightarrow> broker_t \<Rightarrow> 'o process \<Rightarrow> 'o outcome" where
  "broker_loop C url b p =
     (case broker_turn C b (p_world p) of
        Inl e \<Rightarrow> Dies e
      | Inr (turn.Running b' w) \<Rightarrow> Goes (p\<lparr>p_world := w, p_broker := Thread_runs url (Broker_loops b')\<rparr>)
      | Inr (Stopped n w) \<Rightarrow> Goes (p\<lparr>p_world := w, p_broker := Thread_returned url\<rparr>))"

inductive broker_step :: "codec \<Rightarrow> 'o process \<Rightarrow> 'o outcome \<Rightarrow> bool" for C :: codec where
  begins: "p_broker p = Thread_runs url Broker_begins \<Longrightarrow> broker_step C p (broker_begin url p)"
| loops: "p_broker p = Thread_runs url (Broker_loops b) \<Longrightarrow> broker_step C p (broker_loop C url b p)"

inductive_cases broker_stepE: "broker_step C p r"

definition vm_enter :: "string \<Rightarrow> 'o process \<Rightarrow> 'o outcome" where
  "vm_enter url p =
     (if \<not> frame_live p then Dies dangling
      else (case vm_begin url default_vm (p_statics p) (p_world p) of
              Inl e \<Rightarrow> Dies e
            | Inr (w, c, d) \<Rightarrow> Goes (p\<lparr>p_world := w, p_vm := Thread_runs url (Vm_dials c d)\<rparr>)))"

text \<open>The end of \<open>connect\<close>, and what follows it; \<open>i\<close> is the number of the next UUID.\<close>

definition vm_connect ::
  "codec \<Rightarrow> (nat \<Rightarrow> string) \<Rightarrow> nat \<Rightarrow> string \<Rightarrow> client_t \<Rightarrow> dialing \<Rightarrow> 'o process \<Rightarrow> 'o outcome" where
  "vm_connect C uuid i url c d p =
     (let (w, ok) = (case d of Dialed k \<Rightarrow> (p_world p, k) | Waiting \<Rightarrow> connect_end (c_socket c) url (p_world p)) in
      case vm_hello C uuid (vm_id_of url default_vm) c ok i (p_statics p) w of
        (g, Inl e) \<Rightarrow> Dies e
      | (g, Inr (vm, w')) \<Rightarrow>
          Goes (p\<lparr>p_statics := g, p_world := w', p_vm := Thread_runs url (Vm_runs (Greeting (uuid i) vm))\<rparr>))"

fun loading :: "'o vm_phase \<Rightarrow> bool" where
  "loading (Loading vm) = True"
| "loading _ = False"

text \<open>The modules are read from the array of the caller when they are imported.\<close>

inductive vm_step_of_thread ::
  "codec \<Rightarrow> (nat \<Rightarrow> string) \<Rightarrow> 'o module_t list \<Rightarrow> 'o process \<Rightarrow> 'o outcome \<Rightarrow> bool"
  for C :: codec and uuid :: "nat \<Rightarrow> string" and mods :: "'o module_t list" where
  begins: "p_vm p = Thread_runs url Vm_begins \<Longrightarrow> vm_step_of_thread C uuid mods p (vm_enter url p)"
| dials: "p_vm p = Thread_runs url (Vm_dials c d) \<Longrightarrow> vm_step_of_thread C uuid mods p (vm_connect C uuid i url c d p)"
| modules_gone: "p_vm p = Thread_runs url (Vm_runs ph) \<Longrightarrow> loading ph \<Longrightarrow> \<not> frame_live p \<Longrightarrow>
    vm_step_of_thread C uuid mods p (Dies dangling)"
| runs: "p_vm p = Thread_runs url (Vm_runs ph) \<Longrightarrow> loading ph \<longrightarrow> frame_live p \<Longrightarrow>
    vm_own_step C uuid (vm_id_of url default_vm) mods (p_statics p, p_world p, ph) (g, w, ph') \<Longrightarrow>
    vm_step_of_thread C uuid mods p (Goes (p\<lparr>p_statics := g, p_world := w, p_vm := Thread_runs url (Vm_runs ph')\<rparr>))"
| returns: "p_vm p = Thread_runs url (Vm_runs Ended) \<Longrightarrow>
    vm_step_of_thread C uuid mods p (Goes (p\<lparr>p_vm := Thread_returned url\<rparr>))"
| escapes: "p_vm p = Thread_runs url (Vm_runs (Aborted e)) \<Longrightarrow> vm_step_of_thread C uuid mods p (Dies e)"

inductive_cases vm_step_of_threadE: "vm_step_of_thread C uuid mods p r"

section \<open>All together\<close>

text \<open>
  Other threads, with clients of their own, may do anything that keeps the queues of the monitors of the two
  threads. (The operations of a client do.)
\<close>

fun vm_client_of :: "'o vm_run thread \<Rightarrow> client_t option" where
  "vm_client_of (Thread_runs u (Vm_dials c d)) = Some c"
| "vm_client_of (Thread_runs u (Vm_runs ph)) = phase_client ph"
| "vm_client_of _ = None"

fun broker_of :: "broker_run thread \<Rightarrow> broker_t option" where
  "broker_of (Thread_runs u (Broker_loops b)) = Some b"
| "broker_of _ = None"

definition thread_monitors :: "'o process \<Rightarrow> addr set" where
  "thread_monitors p = b_monitor ` set_option (broker_of (p_broker p)) \<union> c_monitor ` set_option (vm_client_of (p_vm p))"

inductive others_step :: "'o process \<Rightarrow> 'o outcome \<Rightarrow> bool" where
  "keeps (thread_monitors p) (p_world p) w \<Longrightarrow> others_step p (Goes (p\<lparr>p_world := w\<rparr>))"

definition process_step ::
  "codec \<Rightarrow> (nat \<Rightarrow> string) \<Rightarrow> 'o module_t list \<Rightarrow> 'o process \<Rightarrow> 'o outcome \<Rightarrow> bool" where
  "process_step C uuid mods p r \<longleftrightarrow>
     main_step p r \<or> broker_step C p r \<or> vm_step_of_thread C uuid mods p r \<or> others_step p r"

text \<open>The processes that are reached from the one in which nothing has been started.\<close>

inductive process_run ::
  "codec \<Rightarrow> (nat \<Rightarrow> string) \<Rightarrow> 'o module_t list \<Rightarrow> 'o process \<Rightarrow> 'o process \<Rightarrow> bool"
  for C :: codec and uuid :: "nat \<Rightarrow> string" and mods :: "'o module_t list" where
  same: "process_run C uuid mods p p"
| goes: "process_run C uuid mods p q \<Longrightarrow> process_step C uuid mods q (Goes r) \<Longrightarrow> process_run C uuid mods p r"
| throws: "process_run C uuid mods p q \<Longrightarrow> process_step C uuid mods q (Throws e r) \<Longrightarrow> process_run C uuid mods p r"

definition fresh_process :: "world \<Rightarrow> 'o process" where
  "fresh_process w =
     \<lparr>p_world = w, p_statics = \<lparr>vm_states = [], vm_retry = 0\<rparr>, p_stops = [], p_broker = No_thread, p_vm = No_thread,
      p_main = Main_free\<rparr>"

text \<open>Steps of the threads other than the caller, with the number of those of the VM.\<close>

inductive threads_run ::
  "codec \<Rightarrow> (nat \<Rightarrow> string) \<Rightarrow> 'o module_t list \<Rightarrow> nat \<Rightarrow> 'o process \<Rightarrow> 'o process \<Rightarrow> bool"
  for C :: codec and uuid :: "nat \<Rightarrow> string" and mods :: "'o module_t list" where
  none: "threads_run C uuid mods 0 p p"
| of_vm: "threads_run C uuid mods n p q \<Longrightarrow> vm_step_of_thread C uuid mods q (Goes r) \<Longrightarrow>
    threads_run C uuid mods (Suc n) p r"
| of_others: "threads_run C uuid mods n p q \<Longrightarrow> broker_step C q (Goes r) \<or> others_step q (Goes r) \<Longrightarrow>
    threads_run C uuid mods n p r"

end
