(* ===== verification/ThreadSamples.thy ===== *)
theory ThreadSamples
  imports BindingThreads Samples
begin

text \<open>
  A process that starts its threads, with a VM that imports no module, and stops them, step by step; the input of
  examples. What other threads and the broker's answers amount to is put in by steps of the others.
\<close>

section \<open>The worlds of the run\<close>

definition thread_codec :: codec where
  "thread_codec = table_codec [header_json (respond_ok_packet ''u''), body_json (respond_ok_packet ''u'')]"

definition thread_client :: client_t where
  "thread_client = \<lparr>c_socket = Suc 0, c_monitor = 0, external_monitor = True\<rparr>"

text \<open>Monitor 0 is the VM's, 10 the broker's; socket 1 is the VM's, with its mailbox, and 3 the other end.\<close>

definition thread_world :: "addr \<Rightarrow> monitors \<Rightarrow> msg list \<Rightarrow> world" where
  "thread_world n mons ms = \<lparr>next_id = 4, next_addr = n, monitors = mons,
     sockets = [Suc 0 \<mapsto> (sample_socket ''1'' (Some 0) 3 ''3'')\<lparr>my_mailbox := ms\<rparr>, 3 \<mapsto> sample_socket ''3'' None (Suc 0) ''1''],
     acceptors = Map.empty, dial_acceptors = [], dial_connections = []\<rparr>"

definition both :: "signal_t list \<Rightarrow> signal_t list \<Rightarrow> monitors" where
  "both q r = [0 \<mapsto> q, 10 \<mapsto> r]"

definition linked :: "world \<Rightarrow> bool" where
  "linked w \<longleftrightarrow> peered (Suc 0) 3 w \<and> box 3 w = [] \<and> sock_monitor 3 w = None"

lemma linked_world: "linked (thread_world n mons ms)" "linked (socket_set_monitor (Suc 0) 0 (thread_world n mons ms)\<lparr>next_id := k\<rparr>)"
  by (simp_all add: linked_def thread_world_def peered_def box_def sock_monitor_def sample_socket_def socket_set_monitor_def
      upd_socket_def set_monitor_def)

lemma linked_send:
  assumes "linked w" and "packet_ok p"
  shows "\<exists>w'. client_send C thread_client p w = Inr (w', True) \<and> monitors w' = monitors w"
proof -
  obtain bs where bs: "dump_packet C p = Inr bs" using dump_packet_ok [OF assms(2)] by blast
  have l: "peered (Suc 0) 3 w" "length (box 3 w) < mailbox_limit" using assms(1) by (simp_all add: linked_def mailbox_limit_def)
  then have "snd (send (Suc 0) bs w)" using send_peered(1) [OF l(1)] by simp
  moreover have "monitors (fst (send (Suc 0) bs w)) = monitors w"
    using assms(1) by (auto simp: linked_def peered_def sock_monitor_def send_def socket_mail_def socket_notify_def Let_def
        split: option.splits prod.splits)
  ultimately show ?thesis
    by (intro exI [of _ "fst (send (Suc 0) bs w)"]) (simp add: client_send_def bs send_bytes_def thread_client_def prod_eq_iff)
qed

section \<open>The run\<close>

abbreviation proc :: "world \<Rightarrow> vm_statics \<Rightarrow> (string \<times> stop_t) list \<Rightarrow> broker_run thread \<Rightarrow> val vm_run thread \<Rightarrow> main_at \<Rightarrow> val process"
  where "proc w g st b v m \<equiv>
  \<lparr>p_world = w, p_statics = g, p_stops = st, p_broker = b, p_vm = v, p_main = m\<rparr>"

abbreviation "sample_url \<equiv> ''url''"

definition reached :: "val process \<Rightarrow> bool" where
  "reached p \<longleftrightarrow> process_run thread_codec (\<lambda>i. ''u'') [] (fresh_process empty_world) p"

lemma reached_main: "reached p \<Longrightarrow> main_step p (Goes q) \<Longrightarrow> reached q"
  and reached_broker: "reached p \<Longrightarrow> broker_step thread_codec p (Goes q) \<Longrightarrow> reached q"
  and reached_vm: "reached p \<Longrightarrow> vm_step_of_thread thread_codec (\<lambda>i. ''u'') [] p (Goes q) \<Longrightarrow> reached q"
  and reached_others: "reached p \<Longrightarrow> others_step p (Goes q) \<Longrightarrow> reached q"
  unfolding reached_def by (auto intro: process_run.goes simp: process_step_def)

text \<open>The others may replace the world by one whose queues are longer.\<close>

lemma reached_world:
  assumes "reached p" and "\<And>M. keeps M (p_world p) w" shows "reached (p\<lparr>p_world := w\<rparr>)"
  by (rule reached_others [OF assms(1)]) (rule others_step.intros [OF assms(2)])

lemma reached_jump:
  assumes "reached (proc w g st b v m)" and "monitors w = both q r"
    and "\<forall>s \<in> set (q' @ r'). what s \<noteq> ''stop''"
  shows "reached (proc (thread_world (next_addr w) (both (q @ q') (r @ r')) ms) g st b v m)"
proof -
  have "keeps M w (thread_world (next_addr w) (both (q @ q') (r @ r')) ms)" for M
    by (rule keepsI) (use assms(2,3) in \<open>auto simp: thread_world_def both_def split: if_splits\<close>)
  then show ?thesis using reached_world [OF assms(1)] by simp
qed

definition started :: "val process" where
  "started = proc empty_world \<lparr>vm_states = [], vm_retry = 0\<rparr> [] (Thread_runs sample_url Broker_begins) (Thread_runs sample_url Vm_begins) (Main_sleeps sample_url)"

lemma reached_started: "reached started"
proof -
  let ?p = "fresh_process empty_world :: val process"
  have "reached ?p" by (simp add: reached_def process_run.same)
  moreover have "main_step ?p (start_broker sample_url ?p)" by (rule main_step.start) (simp add: fresh_process_def)
  moreover obtain q where q: "start_broker sample_url ?p = Goes q" "q = ?p\<lparr>p_broker := Thread_runs sample_url Broker_begins, p_main := Main_spawns sample_url\<rparr>"
    by (simp add: start_broker_def fresh_process_def)
  ultimately have "reached q" using reached_main [of ?p q] by simp
  moreover have "main_step q (start_vm sample_url q)" by (rule main_step.spawn) (simp add: q(2))
  moreover have "start_vm sample_url q = Goes started" by (simp add: start_vm_def q(2) fresh_process_def started_def)
  ultimately show ?thesis using reached_main [of q started] by simp
qed

definition thread_broker :: broker_t where
  "thread_broker = \<lparr>b_monitor = 10, b_acceptor = 11, b_sockets = [], b_subs = [], b_txs = []\<rparr>"

lemma reached_dialing:
  "\<exists>n st sn. map_of st sample_url = Some sn \<and> n_monitor (stop_notifier sn) = Some 10 \<and>
     reached (proc (thread_world n (both [] []) []) \<lparr>vm_states = [], vm_retry = 0\<rparr> st
       (Thread_runs sample_url (Broker_loops thread_broker)) (Thread_runs sample_url (Vm_dials thread_client Waiting)) (Main_sleeps sample_url))"
proof -
  obtain w where w: "vm_begin sample_url default_vm \<lparr>vm_states = [], vm_retry = 0\<rparr> empty_world = Inr (w, thread_client, Waiting)"
    "monitors w = [0 \<mapsto> []]" "next_addr w = 2"
    by (simp add: vm_begin_def empty_world_def new_monitor_def monitor_new_def client_dial_def socket_new_def
        connect_begin_def notify_new_def new_name_def thread_client_def Let_def)
  let ?p = "proc w \<lparr>vm_states = [], vm_retry = 0\<rparr> [] (Thread_runs sample_url Broker_begins) (Thread_runs sample_url (Vm_dials thread_client Waiting)) (Main_sleeps sample_url)"
  have "vm_step_of_thread thread_codec (\<lambda>i. ''u'') [] started (vm_enter sample_url started)"
    by (rule vm_step_of_thread.begins) (simp add: started_def)
  moreover have "vm_enter sample_url started = Goes ?p" by (simp add: vm_enter_def started_def frame_live_def w(1))
  ultimately have "reached ?p" using reached_vm [OF reached_started, of ?p] by simp
  moreover let ?w = "thread_world 10 [0 \<mapsto> []] []"
  have "keeps M w ?w" for M by (rule keepsI) (auto simp: w(2,3) thread_world_def split: if_splits)
  ultimately have r: "reached (?p\<lparr>p_world := ?w\<rparr>)" using reached_world [of ?p ?w] by simp
  obtain w' st sn where b: "broker_start sample_url ?w [] = Inr (thread_broker, w', st)"
    and st: "monitors w' = both [] []" "map_of st sample_url = Some sn" "n_monitor (stop_notifier sn) = Some 10"
    by (simp add: broker_start_def thread_world_def new_monitor_def monitor_new_def acceptor_new_def
      notify_new_def new_name_def acceptor_set_monitor_def on_monitor_set_def set_monitor_def
      upd_acceptor_def stop_new_def thread_broker_def both_def Let_def)
  let ?q = "proc w' \<lparr>vm_states = [], vm_retry = 0\<rparr> st (Thread_runs sample_url (Broker_loops thread_broker)) (Thread_runs sample_url (Vm_dials thread_client Waiting)) (Main_sleeps sample_url)"
  have "broker_step thread_codec (?p\<lparr>p_world := ?w\<rparr>) (broker_begin sample_url (?p\<lparr>p_world := ?w\<rparr>))"
    by (rule broker_step.begins) simp
  moreover have "broker_begin sample_url (?p\<lparr>p_world := ?w\<rparr>) = Goes ?q" by (simp add: broker_begin_def frame_live_def b)
  ultimately have "reached ?q" using reached_broker [OF r, of ?q] by simp
  from reached_jump [OF this st(1), of "[]" "[]" "[]"] st(2,3) show ?thesis by auto
qed

section \<open>The phases of the VM\<close>

definition entry_of :: "string \<Rightarrow> addr \<Rightarrow> (string \<times> stop_t) list \<Rightarrow> bool" where
  "entry_of k m t \<longleftrightarrow> (\<exists>sn. map_of t k = Some sn \<and> n_monitor (stop_notifier sn) = Some m)"

definition seen :: "val vm_phase \<Rightarrow> main_at \<Rightarrow> signal_t list \<Rightarrow> signal_t list \<Rightarrow> world \<Rightarrow> val process \<Rightarrow> bool" where
  "seen ph m q r w p \<longleftrightarrow> (\<exists>g st. entry_of (vm_id_of sample_url default_vm) 0 (vm_states g) \<and> entry_of sample_url 10 st \<and>
     monitors w = both q r \<and> reached p \<and>
     p = proc w g st (Thread_runs sample_url (Broker_loops thread_broker)) (Thread_runs sample_url (Vm_runs ph)) m)"

lemma seen_jump:
  assumes "seen ph m q r w p" and "\<forall>s \<in> set (q' @ r'). what s \<noteq> ''stop''"
  shows "\<exists>n. seen ph m (q @ q') (r @ r') (thread_world n (both (q @ q') (r @ r')) ms)
    (p\<lparr>p_world := thread_world n (both (q @ q') (r @ r')) ms\<rparr>)"
proof -
  obtain g st where s: "entry_of (vm_id_of sample_url default_vm) 0 (vm_states g)" "entry_of sample_url 10 st" "monitors w = both q r"
    "reached p" "p = proc w g st (Thread_runs sample_url (Broker_loops thread_broker)) (Thread_runs sample_url (Vm_runs ph)) m"
    using assms(1) unfolding seen_def by blast
  have "reached (proc (thread_world (next_addr w) (both (q @ q') (r @ r')) ms) g st (Thread_runs sample_url (Broker_loops thread_broker))
      (Thread_runs sample_url (Vm_runs ph)) m)"
    using reached_jump [OF _ s(3) assms(2)] s(4,5) by simp
  then show ?thesis using s(1,2,5) by (intro exI [of _ "next_addr w"]) (auto simp: seen_def thread_world_def)
qed

lemma seen_own:
  assumes "seen ph m q r w p" and "loading ph \<longrightarrow> m = Main_sleeps sample_url"
    and "vm_own_step thread_codec (\<lambda>i. ''u'') (vm_id_of sample_url default_vm) [] (p_statics p, w, ph) (p_statics p, w', ph')"
    and "monitors w' = both q' r'"
  shows "seen ph' m q' r' w' (p\<lparr>p_world := w', p_vm := Thread_runs sample_url (Vm_runs ph')\<rparr>)"
proof -
  obtain g st where s: "entry_of (vm_id_of sample_url default_vm) 0 (vm_states g)" "entry_of sample_url 10 st"
    "reached p" "p = proc w g st (Thread_runs sample_url (Broker_loops thread_broker)) (Thread_runs sample_url (Vm_runs ph)) m"
    using assms(1) unfolding seen_def by blast
  have "vm_step_of_thread thread_codec (\<lambda>i. ''u'') [] p
      (Goes (p\<lparr>p_statics := g, p_world := w', p_vm := Thread_runs sample_url (Vm_runs ph')\<rparr>))"
    by (rule vm_step_of_thread.runs) (use s(4) assms(2,3) in \<open>auto simp: frame_live_def\<close>)
  from reached_vm [OF s(3) this] s(1,2,4) assms(4) show ?thesis by (simp add: seen_def)
qed

lemma seen_main:
  assumes "seen ph m q r w p" and "main_step p (Goes (p\<lparr>p_main := m'\<rparr>))"
  shows "seen ph m' q r w (p\<lparr>p_main := m'\<rparr>)"
  using assms reached_main [OF _ assms(2)] by (auto simp: seen_def)

definition thread_vm :: "val vm_t" where
  "thread_vm = \<lparr>vm_client = thread_client, vm_factories = [], vm_components = [], vm_operators = [], vm_expected = {},
     vm_uuids = Suc 0\<rparr>"

lemma own_monitor [simp]: "c_monitor thread_client = 0" "c_socket thread_client = Suc 0" "vm_client thread_vm = thread_client"
  by (simp_all add: thread_client_def thread_vm_def)

lemma both_wait [simp]: "monitor_wait (both (s # q) r) 0 = (both q r, Some s)"
  "monitor_wait (both q (s # r)) 10 = (both q r, Some s)"
  by (auto simp: monitor_wait_def both_def fun_eq_iff)

lemma conn_ok: "t = connect \<or> t = disconnect \<Longrightarrow> packet_ok (conn_packet t ''u'')"
  by (auto simp: packet_ok_def conn_packet_def new_packet_def has_itype_def dict_ok_def)

lemma seen_greeting: "\<exists>w p. seen (Greeting ''u'' thread_vm) (Main_sleeps sample_url) [] [] w p"
proof -
  obtain n st where st: "entry_of sample_url 10 st" and
    r: "reached (proc (thread_world n (both [] []) []) \<lparr>vm_states = [], vm_retry = 0\<rparr> st
       (Thread_runs sample_url (Broker_loops thread_broker)) (Thread_runs sample_url (Vm_dials thread_client Waiting)) (Main_sleeps sample_url))"
    (is "reached ?p") using reached_dialing unfolding entry_of_def by blast
  let ?w = "thread_world n (both [] []) []"
  obtain k sn w where h: "vm_hello thread_codec (\<lambda>i. ''u'') (vm_id_of sample_url default_vm) thread_client True 0
      \<lparr>vm_states = [], vm_retry = 0\<rparr> ?w = (\<lparr>vm_states = [(vm_id_of sample_url default_vm, sn)], vm_retry = 0\<rparr>, Inr (thread_vm, w))"
    and w: "monitors w = both [] []" "n_monitor (stop_notifier sn) = Some 0"
  proof -
    let ?k = "snd (stop_new (snd (notify_new (next_id ?w))))"
    let ?sn = "(fst (stop_new (snd (notify_new (next_id ?w)))))"
    obtain w' where "client_send thread_codec thread_client (conn_packet connect ''u'')
        (socket_set_monitor (Suc 0) 0 ?w\<lparr>next_id := ?k\<rparr>) = Inr (w', True)"
      and "monitors w' = both [] []"
      using linked_send [OF linked_world(2) [where n = n and mons = "both [] []" and ms = "[]" and k = ?k] conn_ok [of connect], of thread_codec]
      by (auto simp: socket_set_monitor_def upd_socket_def thread_world_def)
    then show ?thesis
      by (intro that [of "?sn\<lparr>stop_notifier := set_monitor 0 (stop_notifier ?sn)\<rparr>" w'])
        (simp_all add: vm_hello_def client_dialed_def thread_vm_def Let_def split_beta set_monitor_def)
  qed
  let ?q = "proc w \<lparr>vm_states = [(vm_id_of sample_url default_vm, sn)], vm_retry = 0\<rparr> st
       (Thread_runs sample_url (Broker_loops thread_broker)) (Thread_runs sample_url (Vm_runs (Greeting ''u'' thread_vm))) (Main_sleeps sample_url)"
  have "vm_step_of_thread thread_codec (\<lambda>i. ''u'') [] ?p (vm_connect thread_codec (\<lambda>i. ''u'') 0 sample_url thread_client Waiting ?p)"
    by (rule vm_step_of_thread.dials) simp
  moreover have "vm_connect thread_codec (\<lambda>i. ''u'') 0 sample_url thread_client Waiting ?p = Goes ?q"
    using h by (simp add: vm_connect_def connect_end_def thread_world_def)
  ultimately have "reached ?q" using reached_vm [OF r, of ?q] by simp
  moreover have "entry_of (vm_id_of sample_url default_vm) 0 [(vm_id_of sample_url default_vm, sn)]" using w(2) by (simp add: entry_of_def)
  ultimately have "seen (Greeting ''u'' thread_vm) (Main_sleeps sample_url) [] [] w ?q" using st w(1) by (simp add: seen_def)
  then show ?thesis by blast
qed

definition recv_signal :: signal_t where "recv_signal = \<lparr>who = ''1'', what = ''recv''\<rparr>"

lemma thread_answer:
  "\<exists>ms. (\<forall>n. \<exists>w'. monitors w' = both [] [] \<and>
     vm_answer thread_codec (vm_id_of sample_url default_vm) ''u'' thread_vm g (thread_world n (both [recv_signal] []) ms) =
       (g, Inr (thread_vm, w')))"
proof -
  let ?p = "respond_ok_packet ''u''"
  have ok: "packet_ok ?p" by (simp add: packet_ok_def builder_defs has_itype_def dict_ok_def)
  have fit: "packet_fits thread_codec ?p" by (simp add: packet_fits_def thread_codec_def)
  have fth: "packet_faithful thread_codec ?p"
    by (auto simp: packet_faithful_def thread_codec_def intro!: table_codec_faithful)
  obtain bs where bs: "load_packet thread_codec bs False = Inr (wire_packet False ?p)"
    using dumped [OF ok fit fth] by metis
  have b: "body (wire_packet False ?p) = Some [(''status'', Bool_t True)]" "ptype (wire_packet False ?p) = respond"
    by (simp_all add: wire_packet_def wire_map_def respond_ok_packet_def new_packet_def)
  have "get_tx_id (wire_packet False ?p) = Inr ''u''" by (simp add: tx_id_wire)
  with b have chk: "vm_check_answer (vm_id_of sample_url default_vm) ''u'' (wire_packet False ?p) g = (g, Inr ())"
    by (simp add: vm_check_answer_def map_at_as_def map_at_def)
  have "\<exists>w'. monitors w' = both [] [] \<and>
     vm_answer thread_codec (vm_id_of sample_url default_vm) ''u'' thread_vm g (thread_world n (both [recv_signal] []) [bs]) =
       (g, Inr (thread_vm, w'))" for n
  proof -
    let ?w = "thread_world n (both [recv_signal] []) [bs]\<lparr>monitors := both [] []\<rparr>"
    have "box (c_socket thread_client) ?w = bs # []" by (simp add: box_def thread_world_def)
    then obtain w where w: "client_recv thread_codec thread_client False ?w = Inr (w, Some (wire_packet False ?p))"
      "w = fst (recv (c_socket thread_client) ?w)" by (rule client_recv_one [OF _ bs])
    then have "monitors w = both [] []" by (simp add: recv_simps)
    moreover have "monitors (thread_world n (both [recv_signal] []) [bs]) = both [recv_signal] []"
      by (simp add: thread_world_def)
    ultimately show ?thesis using w(1) by (simp add: vm_answer_def chk Let_def)
  qed
  then show ?thesis by blast
qed

lemma seen_serving: "\<exists>w p. seen (Serving thread_vm) Main_free [] [] w p"
proof -
  obtain w0 p0 where s0: "seen (Greeting ''u'' thread_vm) (Main_sleeps sample_url) [] [] w0 p0" using seen_greeting by blast
  obtain ms where ms: "\<And>n. \<exists>w'. monitors w' = both [] [] \<and>
     vm_answer thread_codec (vm_id_of sample_url default_vm) ''u'' thread_vm (p_statics p0) (thread_world n (both [recv_signal] []) ms) =
       (p_statics p0, Inr (thread_vm, w'))" using thread_answer by blast
  obtain n where s1: "seen (Greeting ''u'' thread_vm) (Main_sleeps sample_url) [recv_signal] []
      (thread_world n (both [recv_signal] []) ms) (p0\<lparr>p_world := thread_world n (both [recv_signal] []) ms\<rparr>)"
    (is "seen _ _ _ _ ?w1 ?p1") using seen_jump [OF s0, of "[recv_signal]" "[]" ms] by (auto simp: recv_signal_def)
  obtain w2 where w2: "monitors w2 = both [] []" "vm_answer thread_codec (vm_id_of sample_url default_vm) ''u'' thread_vm (p_statics ?p1) ?w1 =
       (p_statics ?p1, Inr (thread_vm, w2))" using ms [of n] by auto
  obtain p2 where s2: "seen (Loading thread_vm) (Main_sleeps sample_url) [] [] w2 p2"
    using seen_own [OF s1 _ vm_own_step.answer [OF w2(2)] w2(1)] by auto
  have "vm_import thread_codec (\<lambda>i. ''u'') (vm_id_of sample_url default_vm) [] thread_vm (p_statics p2) w2 = (p_statics p2, Inr (thread_vm, w2))"
    by simp
  then obtain p3 where s3: "seen (Serving thread_vm) (Main_sleeps sample_url) [] [] w2 p3"
    using seen_own [OF s2 _ vm_own_step.load w2(1)] by auto
  then have "p_main p3 = Main_sleeps sample_url" by (auto simp: seen_def)
  then show ?thesis using seen_main [OF s3 main_step.wake] by blast
qed

section \<open>The stop\<close>

lemma seen_stop:
  assumes "seen (Serving vm) Main_free [] [] w p"
  shows "\<exists>s w. what s = ''stop'' \<and> seen (Serving vm) (Joins_vm sample_url) [s] [] w (stop_threads sample_url p)"
proof -
  obtain g st sn where s: "map_of (vm_states g) (vm_id_of sample_url default_vm) = Some sn" "n_monitor (stop_notifier sn) = Some 0"
    "entry_of sample_url 10 st" "monitors w = both [] []" "reached p"
    "p = proc w g st (Thread_runs sample_url (Broker_loops thread_broker)) (Thread_runs sample_url (Vm_runs (Serving vm))) Main_free"
    using assms unfolding seen_def entry_of_def by blast
  obtain sn' ms' where n: "stop_stop sn (monitors w) = (sn', ms')" by fastforce
  let ?s = "\<lparr>who = myname (stop_notifier sn), what = ''stop''\<rparr>"
  have "ms' = (both [] [])(0 \<mapsto> [?s])" and m: "n_monitor (stop_notifier sn') = Some 0"
    using n s(2) by (auto simp: stop_stop_def notify_def s(4) both_def)
  then have ms: "ms' = both [?s] []" "n_monitor (stop_notifier sn') = Some 0" by (simp_all add: both_def fun_upd_twist)
  have "vm_stop sample_url default_vm g w =
      (g\<lparr>vm_states := put (vm_id_of sample_url default_vm) sn' (vm_states g)\<rparr>, w\<lparr>monitors := ms'\<rparr>)"
    using s(1) n by (simp add: vm_stop_def)
  then have "stop_threads sample_url p = p\<lparr>p_statics := g\<lparr>vm_states := put (vm_id_of sample_url default_vm) sn' (vm_states g)\<rparr>,
      p_world := w\<lparr>monitors := ms'\<rparr>, p_main := Joins_vm sample_url\<rparr>"
    by (simp add: stop_threads_def s(6))
  moreover have "reached (stop_threads sample_url p)" by (rule reached_main [OF s(5) main_step.stop]) (simp add: s(6))
  ultimately show ?thesis using s(3,6) ms
    by (intro exI [of _ ?s] exI [of _ "w\<lparr>monitors := ms'\<rparr>"]) (auto simp: seen_def entry_of_def)
qed

lemma seen_leaving: "\<exists>w p. seen (Leaving thread_vm) (Joins_vm sample_url) [] [] w p"
proof -
  obtain w0 p0 where s0: "seen (Serving thread_vm) Main_free [] [] w0 p0" using seen_serving by blast
  obtain s w1 where s: "what s = ''stop''" and s1: "seen (Serving thread_vm) (Joins_vm sample_url) [s] [] w1 (stop_threads sample_url p0)"
    using seen_stop [OF s0] by blast
  then have m: "monitors w1 = both [s] []" by (auto simp: seen_def)
  have "vm_turn thread_codec (\<lambda>i. ''u'') thread_vm w1 = Some (Inr (Vm_off thread_vm (w1\<lparr>monitors := both [] []\<rparr>)))"
    using m s by (simp add: vm_turn_def on_stop_def stop_packets_def Let_def) (simp add: thread_vm_def)
  then obtain p2 where s2: "seen (Closing thread_vm) (Joins_vm sample_url) [] [] (w1\<lparr>monitors := both [] []\<rparr>) p2"
    using seen_own [OF s1 _ vm_own_step.stopped, of thread_vm "w1\<lparr>monitors := both [] []\<rparr>" "[]" "[]"] by auto
  have "vm_squeeze thread_codec thread_vm (p_statics p2) (w1\<lparr>monitors := both [] []\<rparr>) =
      Inr (Squeezed thread_vm (p_statics p2) (w1\<lparr>monitors := both [] []\<rparr>))"
    by (simp add: vm_squeeze_def thread_vm_def)
  from seen_own [OF s2 _ vm_own_step.squeezed [OF this], of "[]" "[]"] show ?thesis by auto
qed

lemma seen_ending: "\<exists>vm w p. vm_client vm = thread_client \<and> box (Suc 0) w = [] \<and> seen (Ending vm) (Joins_vm sample_url) [recv_signal] [] w p"
proof -
  obtain w0 p0 where s0: "seen (Leaving thread_vm) (Joins_vm sample_url) [] [] w0 p0" using seen_leaving by blast
  obtain n where s1: "seen (Leaving thread_vm) (Joins_vm sample_url) [] []
      (thread_world n (both [] []) []) (p0\<lparr>p_world := thread_world n (both [] []) []\<rparr>)"
    (is "seen _ _ _ _ ?w1 ?p1") using seen_jump [OF s0, of "[]" "[]" "[]"] by auto
  obtain w2 where w2: "client_send thread_codec thread_client (conn_packet disconnect ''u'') ?w1 = Inr (w2, True)" "monitors w2 = both [] []"
    using linked_send [OF linked_world(1) [of n "both [] []" "[]"] conn_ok [of disconnect], of thread_codec]
    by (auto simp: thread_world_def)
  let ?vm = "thread_vm\<lparr>vm_uuids := Suc (vm_uuids thread_vm)\<rparr>"
  have "vm_bye thread_codec (\<lambda>i. ''u'') (vm_id_of sample_url default_vm) thread_vm (p_statics ?p1) ?w1 = (p_statics ?p1, Inr (?vm, w2))"
    by (simp add: vm_bye_def w2(1))
  then obtain p2 where s2: "seen (Ending ?vm) (Joins_vm sample_url) [] [] w2 p2"
    using seen_own [OF s1 _ vm_own_step.bye w2(2)] by auto
  obtain m w3 p3 where "seen (Ending ?vm) (Joins_vm sample_url) [recv_signal] [] w3 p3" "w3 = thread_world m (both [recv_signal] []) []"
    using seen_jump [OF s2, of "[recv_signal]" "[]" "[]"] by (auto simp: recv_signal_def)
  moreover have "box (Suc 0) (thread_world m (both [recv_signal] []) []) = []" by (simp add: box_def thread_world_def sample_socket_def)
  ultimately show ?thesis by (intro exI [of _ ?vm] exI [of _ w3] exI [of _ p3]) simp
qed

text \<open>The thread of the VM has returned, and both are joined; the name stays in the table.\<close>

lemma reached_returned:
  "\<exists>w g st. monitors w 10 = Some [] \<and> entry_of sample_url 10 st \<and>
     reached (proc w g st (Thread_runs sample_url (Broker_loops thread_broker)) (Thread_returned sample_url) (Joins_vm sample_url))"
proof -
  obtain vm w p where vm: "vm_client vm = thread_client" and e: "box (Suc 0) w = []"
    and s: "seen (Ending vm) (Joins_vm sample_url) [recv_signal] [] w p" using seen_ending by blast
  obtain g st where q: "entry_of sample_url 10 st" "monitors w = both [recv_signal] []" "reached p"
    "p = proc w g st (Thread_runs sample_url (Broker_loops thread_broker)) (Thread_runs sample_url (Vm_runs (Ending vm))) (Joins_vm sample_url)"
    using s unfolding seen_def by blast
  have b: "box (Suc 0) (w\<lparr>monitors := both [] []\<rparr>) = []" using e by (simp add: box_def)
  obtain w' where w': "client_recv thread_codec thread_client False (w\<lparr>monitors := both [] []\<rparr>) = Inr (w', None)" "monitors w' = both [] []"
  proof -
    let ?r = "recv (Suc 0) (w\<lparr>monitors := both [] []\<rparr>)"
    have "snd ?r = None" "monitors (fst ?r) = both [] []" by (simp_all add: recv_simps b)
    then show ?thesis by (intro that [of "fst ?r"]) (simp_all add: client_recv_def prod_eq_iff split: prod.splits)
  qed
  let ?w = "(socket_free (Suc 0) w')\<lparr>monitors := (both [] [])(0 := None)\<rparr>"
  have "vm_end thread_codec (vm_id_of sample_url default_vm) vm g w = (g, Inr ?w)"
    using w' vm q(2) by (simp add: vm_end_def Let_def)
  then have "vm_step_of_thread thread_codec (\<lambda>i. ''u'') [] p (Goes (p\<lparr>p_statics := g, p_world := ?w, p_vm := Thread_runs sample_url (Vm_runs Ended)\<rparr>))"
    by (intro vm_step_of_thread.runs vm_own_step.finish) (use q(4) in \<open>auto intro!: vm_own_step.finish\<close>)
  from reached_vm [OF q(3) this] have "reached (proc ?w g st (Thread_runs sample_url (Broker_loops thread_broker)) (Thread_runs sample_url (Vm_runs Ended)) (Joins_vm sample_url))"
    by (simp add: q(4))
  from reached_vm [OF this vm_step_of_thread.returns] have "reached (proc ?w g st (Thread_runs sample_url (Broker_loops thread_broker)) (Thread_returned sample_url) (Joins_vm sample_url))"
    by simp
  moreover have "monitors ?w 10 = Some []" by (simp add: both_def)
  ultimately show ?thesis using q(1) by blast
qed

section \<open>The second start\<close>

abbreviation thread_run :: "val process \<Rightarrow> val process \<Rightarrow> bool" where
  "thread_run \<equiv> process_run thread_codec (\<lambda>i. ''u'') []"

lemma thread_run_step:
  "thread_run p q \<Longrightarrow> main_step q (Goes r) \<or> broker_step thread_codec q (Goes r) \<Longrightarrow> thread_run p r"
  by (rule process_run.goes) (auto simp: process_step_def)

lemma restarted:
  "\<exists>p q. reached p \<and> p_vm p = Thread_returned sample_url \<and> thread_run p q \<and> p_vm q = Thread_runs sample_url Vm_begins"
proof -
  obtain w g st sn where m: "monitors w 10 = Some []" and st: "map_of st sample_url = Some sn" "n_monitor (stop_notifier sn) = Some 10"
    and p: "reached (proc w g st (Thread_runs sample_url (Broker_loops thread_broker)) (Thread_returned sample_url) (Joins_vm sample_url))"
    (is "reached ?p") using reached_returned unfolding entry_of_def by blast
  obtain sn' ms' where n: "stop_stop sn (monitors w) = (sn', ms')" by fastforce
  then have q: "ms' 10 = Some [\<lparr>who = myname (stop_notifier sn), what = ''stop''\<rparr>]"
    using m st(2) by (auto simp: stop_stop_def notify_def)
  let ?w = "w\<lparr>monitors := ms'\<rparr>"
  let ?b = "Thread_runs sample_url (Broker_loops thread_broker)"
  let ?p1 = "proc ?w g (put sample_url sn' st) ?b (Thread_joined sample_url) (Joins_broker sample_url)"
  have "main_step ?p (Goes (stop_broker sample_url (?p\<lparr>p_vm := Thread_joined sample_url\<rparr>)))" by (rule main_step.join_vm) simp_all
  moreover have "stop_broker sample_url (?p\<lparr>p_vm := Thread_joined sample_url\<rparr>) = ?p1"
    by (simp add: stop_broker_def broker_stop_def st(1) n)
  ultimately have "main_step ?p (Goes ?p1)" by simp
  then have "thread_run ?p ?p1" using thread_run_step [OF process_run.same] by blast
  moreover obtain w2 where "broker_turn thread_codec thread_broker ?w = Inr (Stopped 0 w2)"
    using q by (simp add: broker_turn_def monitor_wait_def thread_broker_def)
  then have "broker_loop thread_codec sample_url thread_broker ?p1 = Goes (?p1\<lparr>p_world := w2, p_broker := Thread_returned sample_url\<rparr>)"
    by (simp add: broker_loop_def)
  then have "broker_step thread_codec ?p1 (Goes (?p1\<lparr>p_world := w2, p_broker := Thread_returned sample_url\<rparr>))"
    using broker_step.loops [of ?p1 sample_url thread_broker thread_codec] by simp
  ultimately have "thread_run ?p (?p1\<lparr>p_world := w2, p_broker := Thread_returned sample_url\<rparr>)" (is "thread_run _ ?p2")
    using thread_run_step by blast
  moreover have "main_step ?p2 (Goes (?p2\<lparr>p_broker := Thread_joined sample_url, p_main := Main_free\<rparr>))"
    by (rule main_step.join_broker) simp_all
  ultimately have "thread_run ?p (?p2\<lparr>p_broker := Thread_joined sample_url, p_main := Main_free\<rparr>)" (is "thread_run _ ?p3")
    using thread_run_step by blast
  moreover have "main_step ?p3 (Goes (?p3\<lparr>p_broker := Thread_runs sample_url Broker_begins, p_main := Main_spawns sample_url\<rparr>))"
    using main_step.start [of ?p3 sample_url] by (simp add: start_broker_def)
  ultimately have "thread_run ?p (?p3\<lparr>p_broker := Thread_runs sample_url Broker_begins, p_main := Main_spawns sample_url\<rparr>)" (is "thread_run _ ?p4")
    using thread_run_step by blast
  moreover have "main_step ?p4 (Goes (?p4\<lparr>p_vm := Thread_runs sample_url Vm_begins, p_main := Main_sleeps sample_url\<rparr>))"
    using main_step.spawn [of ?p4 sample_url] by (simp add: start_vm_def)
  ultimately have "thread_run ?p (?p4\<lparr>p_vm := Thread_runs sample_url Vm_begins, p_main := Main_sleeps sample_url\<rparr>)" (is "thread_run _ ?p5")
    using thread_run_step by blast
  then show ?thesis using p by (intro exI [of _ ?p] exI [of _ ?p5]) simp
qed

end
