(* ===== verification/ThreadProperties.thy ===== *)
theory ThreadProperties
  imports ThreadSamples
begin

text \<open>
  Properties of the threads that the bindings start: the broker is there as long as the VM, a stop reaches a VM
  that serves, and a process can not start its threads a second time.
\<close>

section \<open>Stop signals\<close>

definition stop_free :: "addr \<Rightarrow> world \<Rightarrow> bool" where
  "stop_free m w \<longleftrightarrow> (\<forall>q. monitors w m = Some q \<longrightarrow> (\<forall>s \<in> set q. what s \<noteq> ''stop''))"

lemma stop_free_keeps:
  assumes "keeps M w w'" and "m \<in> M" and "monitors w m \<noteq> None" and "stop_free m w"
  shows "stop_free m w'"
proof -
  obtain q where q: "monitors w m = Some q" using assms(3) by blast
  obtain r where "monitors w' m = Some (q @ r)" "\<forall>s \<in> set r. what s \<noteq> ''stop''"
    using keepsD(2) [OF assms(1,2) q] by blast
  with q assms(4) show ?thesis by (auto simp: stop_free_def)
qed

text \<open>The monitor that an entry of the table of VMs notifies.\<close>

definition entry_monitor :: "vm_statics \<Rightarrow> string \<Rightarrow> addr option" where
  "entry_monitor g vid = Option.bind (map_of (vm_states g) vid) (\<lambda>st. n_monitor (stop_notifier st))"

lemma entry_monitor_same: "vm_states g' = vm_states g \<Longrightarrow> entry_monitor g' = entry_monitor g"
  by (simp add: entry_monitor_def fun_eq_iff)

text \<open>What \<open>vm_stop\<close> and \<open>broker_stop\<close> do to the queues.\<close>

lemma stop_stop_effect:
  assumes "stop_stop st ms = (st', ms')"
  shows "n_monitor (stop_notifier st) \<noteq> Some m \<Longrightarrow> ms' m = ms m"
    and "n_monitor (stop_notifier st) = Some m \<Longrightarrow> ms m = Some q \<Longrightarrow> \<exists>s. ms' m = Some (q @ [s]) \<and> what s = ''stop''"
    and "n_monitor (stop_notifier st') = n_monitor (stop_notifier st)"
    and "ms' k = None \<longleftrightarrow> ms k = None"
  using assms by (auto simp: stop_stop_def notify_at)

lemma vm_stop_effect:
  assumes "vm_stop url name g w = (g', w')"
  shows "next_addr w' = next_addr w" and "monitors w' k = None \<longleftrightarrow> monitors w k = None"
    and "entry_monitor g (vm_id_of url name) \<noteq> Some m \<Longrightarrow> monitors w' m = monitors w m"
    and "entry_monitor g (vm_id_of url name) = Some m \<Longrightarrow> monitors w m = Some q \<Longrightarrow>
      \<exists>s. monitors w' m = Some (q @ [s]) \<and> what s = ''stop''"
    and "entry_monitor g' = entry_monitor g"
    and "map_of (vm_states g') vid = None \<longleftrightarrow> map_of (vm_states g) vid = None"
proof -
  have "next_addr w' = next_addr w \<and> (monitors w' k = None \<longleftrightarrow> monitors w k = None) \<and>
    (entry_monitor g (vm_id_of url name) \<noteq> Some m \<longrightarrow> monitors w' m = monitors w m) \<and>
    (entry_monitor g (vm_id_of url name) = Some m \<longrightarrow> monitors w m = Some q \<longrightarrow>
      (\<exists>s. monitors w' m = Some (q @ [s]) \<and> what s = ''stop'')) \<and>
    entry_monitor g' = entry_monitor g \<and> (map_of (vm_states g') vid = None \<longleftrightarrow> map_of (vm_states g) vid = None)"
  proof (cases "map_of (vm_states g) (vm_id_of url name)")
    case None
    with assms show ?thesis by (simp add: vm_stop_def entry_monitor_def)
  next
    case (Some st)
    obtain st' ms' where st: "stop_stop st (monitors w) = (st', ms')" by fastforce
    with assms Some have "g' = g\<lparr>vm_states := put (vm_id_of url name) st' (vm_states g)\<rparr>" "w' = w\<lparr>monitors := ms'\<rparr>"
      by (simp_all add: vm_stop_def)
    with Some stop_stop_effect [OF st] show ?thesis by (auto simp: entry_monitor_def fun_eq_iff)
  qed
  then show "next_addr w' = next_addr w" and "monitors w' k = None \<longleftrightarrow> monitors w k = None"
    and "entry_monitor g (vm_id_of url name) \<noteq> Some m \<Longrightarrow> monitors w' m = monitors w m"
    and "entry_monitor g (vm_id_of url name) = Some m \<Longrightarrow> monitors w m = Some q \<Longrightarrow>
      \<exists>s. monitors w' m = Some (q @ [s]) \<and> what s = ''stop''"
    and "entry_monitor g' = entry_monitor g"
    and "map_of (vm_states g') vid = None \<longleftrightarrow> map_of (vm_states g) vid = None"
    by blast+
qed

lemma broker_stop_effect:
  assumes "broker_stop url w stops = (w', stops')"
  shows "next_addr w' = next_addr w" and "monitors w' k = None \<longleftrightarrow> monitors w k = None"
proof -
  have "next_addr w' = next_addr w \<and> (monitors w' k = None \<longleftrightarrow> monitors w k = None)"
  proof (cases "map_of stops url")
    case (Some st)
    obtain st' ms' where st: "stop_stop st (monitors w) = (st', ms')" by fastforce
    with assms Some have "w' = w\<lparr>monitors := ms'\<rparr>" by (auto simp: broker_stop_def)
    with stop_stop_effect(4) [OF st] show ?thesis by simp
  qed (use assms in \<open>simp add: broker_stop_def\<close>)
  then show "next_addr w' = next_addr w" and "monitors w' k = None \<longleftrightarrow> monitors w k = None" by blast+
qed

section \<open>The invariant\<close>

fun runs_at_all :: "'r thread \<Rightarrow> bool" where
  "runs_at_all (Thread_runs u r) = True"
| "runs_at_all _ = False"

lemma runs_at_all_iff: "runs_at_all t \<longleftrightarrow> (\<exists>u r. t = Thread_runs u r)"
  by (cases t) auto

definition broker_monitor :: "'o process \<Rightarrow> addr option" where
  "broker_monitor p = map_option b_monitor (broker_of (p_broker p))"

definition vm_monitor :: "'o process \<Rightarrow> addr option" where
  "vm_monitor p = map_option c_monitor (vm_client_of (p_vm p))"

definition live :: "'o process \<Rightarrow> addr \<Rightarrow> bool" where
  "live p m \<longleftrightarrow> m < next_addr (p_world p) \<and> monitors (p_world p) m \<noteq> None"

text \<open>The monitors that the process knows are apart: that of the broker, that of the VM, and those in the table of VMs.\<close>

definition apart :: "'o process \<Rightarrow> bool" where
  "apart p \<longleftrightarrow>
     (\<forall>m. broker_monitor p = Some m \<longrightarrow> live p m) \<and>
     (\<forall>m. vm_monitor p = Some m \<longrightarrow> live p m \<and> broker_monitor p \<noteq> Some m) \<and>
     (\<forall>vid m. entry_monitor (p_statics p) vid = Some m \<longrightarrow> m < next_addr (p_world p) \<and> broker_monitor p \<noteq> Some m)"

text \<open>While the VM runs, or is about to be started, the broker runs and has no stop signal.\<close>

definition needs_broker :: "'o process \<Rightarrow> bool" where
  "needs_broker p \<longleftrightarrow> runs_at_all (p_vm p) \<or> (\<exists>u. p_main p = Main_spawns u)"

definition broker_safe :: "'o process \<Rightarrow> bool" where
  "broker_safe p \<longleftrightarrow>
     (needs_broker p \<longrightarrow> runs_at_all (p_broker p) \<and> (\<forall>m. broker_monitor p = Some m \<longrightarrow> stop_free m (p_world p))) \<and>
     (\<forall>u. p_main p = Joins_broker u \<longrightarrow> \<not> runs_at_all (p_vm p))"

text \<open>A VM that has registered is in the table, with its monitor; one that has ended is still there.\<close>

definition named :: "vm_statics \<Rightarrow> string \<Rightarrow> bool" where
  "named g u \<longleftrightarrow> map_of (vm_states g) (vm_id_of u default_vm) \<noteq> None"

fun registered :: "vm_statics \<Rightarrow> 'o vm_run thread \<Rightarrow> bool" where
  "registered g (Thread_runs u (Vm_runs ph)) =
     (\<not> aborted ph \<longrightarrow> named g u \<and>
       (\<forall>c. phase_client ph = Some c \<longrightarrow> entry_monitor g (vm_id_of u default_vm) = Some (c_monitor c)))"
| "registered g (Thread_returned u) = named g u"
| "registered g (Thread_joined u) = named g u"
| "registered g _ = True"

lemma registered_same:
  assumes "registered g t" and "entry_monitor g' = entry_monitor g" and "\<And>u. named g' u = named g u"
  shows "registered g' t"
  using assms by (cases "(g', t)" rule: registered.cases) auto

definition process_inv :: "'o process \<Rightarrow> bool" where
  "process_inv p \<longleftrightarrow> apart p \<and> broker_safe p \<and> registered (p_statics p) (p_vm p)"

lemma fresh_inv: "process_inv (fresh_process w)"
  by (simp add: process_inv_def apart_def broker_safe_def fresh_process_def needs_broker_def
      broker_monitor_def vm_monitor_def entry_monitor_def)

lemma thread_monitors_iff: "m \<in> thread_monitors p \<longleftrightarrow> broker_monitor p = Some m \<or> vm_monitor p = Some m"
  by (cases "broker_of (p_broker p)"; cases "vm_client_of (p_vm p)")
    (auto simp: thread_monitors_def broker_monitor_def vm_monitor_def)

text \<open>A step keeps the monitors apart when it makes no new ones and those that are used stay alive.\<close>

lemma apart_frame:
  assumes "apart p" and "next_addr (p_world p) \<le> next_addr (p_world q)"
    and "broker_monitor q = None \<or> broker_monitor q = broker_monitor p"
    and "vm_monitor q = None \<or> vm_monitor q = vm_monitor p"
    and "\<And>vid m. entry_monitor (p_statics q) vid = Some m \<Longrightarrow> entry_monitor (p_statics p) vid = Some m \<or> vm_monitor p = Some m"
    and "\<And>m. m \<in> thread_monitors q \<Longrightarrow> monitors (p_world p) m \<noteq> None \<Longrightarrow> monitors (p_world q) m \<noteq> None"
  shows "apart q"
proof -
  have l: "live q m" if "live p m" "m \<in> thread_monitors q" for m
    using that assms(2,6) by (auto simp: live_def)
  have "live q m" if "broker_monitor q = Some m" for m
    by (rule l) (use that assms(1,3) in \<open>auto simp: apart_def thread_monitors_iff\<close>)
  moreover have "live q m \<and> broker_monitor q \<noteq> Some m" if "vm_monitor q = Some m" for m
    using that assms(1,3,4) l [of m] by (auto simp: apart_def thread_monitors_iff)
  moreover have "m < next_addr (p_world q) \<and> broker_monitor q \<noteq> Some m" if "entry_monitor (p_statics q) vid = Some m" for vid m
  proof -
    have "m < next_addr (p_world p) \<and> broker_monitor p \<noteq> Some m"
      using assms(5) [OF that] assms(1) by (auto simp: apart_def live_def)
    with assms(2,3) show ?thesis by auto
  qed
  ultimately show ?thesis by (simp add: apart_def)
qed

lemma process_invD:
  assumes "process_inv p"
  shows "apart p" and "broker_safe p" and "registered (p_statics p) (p_vm p)"
    and "broker_monitor p = Some m \<Longrightarrow> monitors (p_world p) m \<noteq> None"
  using assms by (auto simp: process_inv_def apart_def live_def)

lemma others_inv:
  assumes "process_inv p" and "others_step p (Goes q)" shows "process_inv q"
proof -
  obtain w where w: "keeps (thread_monitors p) (p_world p) w" "q = p\<lparr>p_world := w\<rparr>"
    using assms(2) by (auto elim: others_step.cases)
  have "thread_monitors q = thread_monitors p" by (simp add: w(2) thread_monitors_def)
  then have "apart q"
    using keepsD(1) [OF w(1)] keeps_alive [OF w(1)]
    by (intro apart_frame [OF process_invD(1) [OF assms(1)]]) (auto simp: w(2) broker_monitor_def vm_monitor_def)
  moreover have "stop_free m w" if "broker_monitor p = Some m" "stop_free m (p_world p)" for m
    by (rule stop_free_keeps [OF w(1) _ _ that(2)]) (use that(1) process_invD(4) [OF assms(1)] in \<open>auto simp: thread_monitors_iff\<close>)
  then have "broker_safe q"
    using process_invD(2) [OF assms(1)] by (auto simp: w(2) broker_safe_def needs_broker_def broker_monitor_def)
  moreover have "registered (p_statics q) (p_vm q)" using process_invD(3) [OF assms(1)] by (simp add: w(2))
  ultimately show ?thesis by (simp add: process_inv_def)
qed

section \<open>The caller keeps it\<close>

text \<open>Where only the caller and what its threads are called change, the monitors stay apart.\<close>

lemma apart_same_world:
  assumes "apart p" and "p_world q = p_world p" and "p_statics q = p_statics p"
    and "broker_monitor q = None \<or> broker_monitor q = broker_monitor p" and "vm_monitor q = None \<or> vm_monitor q = vm_monitor p"
  shows "apart q"
  by (rule apart_frame [OF assms(1)]) (use assms(2-) in auto)

lemma stop_broker_inv:
  assumes "process_inv p" and "\<not> runs_at_all (p_vm p)"
  shows "process_inv (stop_broker url p)"
proof (cases "p_broker p = No_thread")
  case True
  then show ?thesis
    using assms apart_same_world [of p "p\<lparr>p_main := Main_free\<rparr>"]
    by (auto simp: process_inv_def stop_broker_def broker_safe_def needs_broker_def broker_monitor_def vm_monitor_def)
next
  case False
  obtain w st where w: "broker_stop url (p_world p) (p_stops p) = (w, st)" by fastforce
  let ?q = "p\<lparr>p_world := w, p_stops := st, p_main := Joins_broker url\<rparr>"
  have "apart ?q"
    by (rule apart_frame [OF process_invD(1) [OF assms(1)]])
      (use broker_stop_effect [OF w] in \<open>auto simp: broker_monitor_def vm_monitor_def\<close>)
  then show ?thesis
    using assms False w
    by (auto simp: process_inv_def stop_broker_def broker_safe_def needs_broker_def)
qed

lemma stop_vm_inv:
  assumes "process_inv p" and "p_main p = Main_free"
    and "vm_stop url default_vm (p_statics p) (p_world p) = (g, w)"
  shows "process_inv (p\<lparr>p_statics := g, p_world := w, p_main := Joins_vm url\<rparr>)" (is "process_inv ?q")
proof -
  note e = vm_stop_effect [OF assms(3)]
  have "apart ?q"
    by (rule apart_frame [OF process_invD(1) [OF assms(1)]]) (use e(1,2,5) in \<open>auto simp: broker_monitor_def vm_monitor_def\<close>)
  moreover have "monitors w m = monitors (p_world p) m" if "broker_monitor p = Some m" for m
    by (rule e(3)) (use process_invD(1) [OF assms(1)] that in \<open>auto simp: apart_def\<close>)
  then have "broker_safe ?q"
    using process_invD(2) [OF assms(1)] assms(2)
    by (auto simp: broker_safe_def needs_broker_def broker_monitor_def stop_free_def)
  moreover have "registered g (p_vm p)"
    by (rule registered_same [OF process_invD(3) [OF assms(1)]]) (simp_all add: e(5,6) named_def)
  ultimately show ?thesis by (simp add: process_inv_def)
qed

lemmas inv_defs = process_inv_def broker_safe_def needs_broker_def

lemma main_inv:
  assumes "process_inv p" and "main_step p r" and "r = Goes q \<or> r = Throws e q" shows "process_inv q"
  using assms(2)
proof (cases rule: main_step.cases)
  case (start url)
  then have q: "q = p\<lparr>p_broker := Thread_runs url Broker_begins, p_main := Main_spawns url\<rparr>" and nj: "\<not> joinable (p_broker p)"
    using assms(3) by (auto simp: start_broker_def split: if_splits)
  have "apart q" by (rule apart_same_world [OF process_invD(1) [OF assms(1)]]) (auto simp: q broker_monitor_def vm_monitor_def)
  then show ?thesis using assms(1) by (simp add: inv_defs q broker_monitor_def)
next
  case (spawn url)
  then have q: "q = p\<lparr>p_vm := Thread_runs url Vm_begins, p_main := Main_sleeps url\<rparr>"
    using assms(3) by (auto simp: start_vm_def split: if_splits)
  have "apart q" by (rule apart_same_world [OF process_invD(1) [OF assms(1)]]) (auto simp: q broker_monitor_def vm_monitor_def)
  then show ?thesis using assms(1) spawn by (simp add: inv_defs q broker_monitor_def)
next
  case (wake url)
  then have q: "q = p\<lparr>p_main := Main_free\<rparr>" using assms(3) by auto
  have "apart q" by (rule apart_same_world [OF process_invD(1) [OF assms(1)]]) (auto simp: q broker_monitor_def vm_monitor_def)
  then show ?thesis using assms(1) by (simp add: inv_defs q broker_monitor_def)
next
  case (stop url)
  then have q: "q = stop_threads url p" using assms(3) by auto
  show ?thesis
  proof (cases "p_vm p = No_thread")
    case True
    then show ?thesis using stop_broker_inv [OF assms(1)] by (simp add: q stop_threads_def)
  next
    case False
    then show ?thesis using stop(2) stop_vm_inv [OF assms(1)] by (simp add: q stop_threads_def split_beta)
  qed
next
  case (join_vm url u)
  let ?p = "p\<lparr>p_vm := Thread_joined u\<rparr>"
  have "apart ?p" by (rule apart_same_world [OF process_invD(1) [OF assms(1)]]) (auto simp: broker_monitor_def vm_monitor_def)
  then have "process_inv ?p" using assms(1) join_vm by (simp add: inv_defs broker_monitor_def)
  then show ?thesis using stop_broker_inv [of ?p url] join_vm assms(3) by auto
next
  case (join_vm_again url u)
  then have q: "q = p\<lparr>p_main := Main_free\<rparr>" using assms(3) by auto
  have "apart q" by (rule apart_same_world [OF process_invD(1) [OF assms(1)]]) (auto simp: q broker_monitor_def vm_monitor_def)
  then show ?thesis using assms(1) by (simp add: inv_defs q broker_monitor_def)
next
  case (join_broker url u)
  then have q: "q = p\<lparr>p_broker := Thread_joined u, p_main := Main_free\<rparr>" using assms(3) by auto
  have "apart q" by (rule apart_same_world [OF process_invD(1) [OF assms(1)]]) (auto simp: q broker_monitor_def vm_monitor_def)
  then show ?thesis using assms(1) join_broker by (simp add: inv_defs q broker_monitor_def)
next
  case (join_broker_again url u)
  then have q: "q = p\<lparr>p_main := Main_free\<rparr>" using assms(3) by auto
  have "apart q" by (rule apart_same_world [OF process_invD(1) [OF assms(1)]]) (auto simp: q broker_monitor_def vm_monitor_def)
  then show ?thesis using assms(1) by (simp add: inv_defs q broker_monitor_def)
qed

section \<open>The threads keep it\<close>

lemma broker_begin_inv:
  assumes "process_inv p" and "p_broker p = Thread_runs url Broker_begins" and "broker_begin url p = Goes q"
  shows "process_inv q"
proof -
  obtain b w st where s: "broker_start url (p_world p) (p_stops p) = Inr (b, w, st)"
    and q: "q = p\<lparr>p_world := w, p_stops := st, p_broker := Thread_runs url (Broker_loops b)\<rparr>"
    using assms(3) by (cases "broker_start url (p_world p) (p_stops p)") (auto simp: broker_begin_def split: if_splits)
  note b = broker_started [OF s]
  have m: "broker_monitor q = Some (next_addr (p_world p))" "vm_monitor q = vm_monitor p" "p_world q = w"
    "p_statics q = p_statics p" "p_vm q = p_vm p" "p_main q = p_main p" "runs_at_all (p_broker q)"
    by (simp_all add: q broker_monitor_def vm_monitor_def b(1))
  note a = process_invD(1) [OF assms(1), unfolded apart_def]
  have old: "live q k \<and> k \<noteq> next_addr (p_world p)" if "live p k" for k
    using that b(2) keeps_alive [OF b(3), of k] by (auto simp: live_def m(3))
  have new: "live q (next_addr (p_world p))" using b(2,4) by (auto simp: live_def m(3))
  have "apart q"
    unfolding apart_def m(1,2,4) using a old new b(2) by (auto simp: m(3)) fastforce+
  moreover have "stop_free (next_addr (p_world p)) w" using b(4) by (auto simp: stop_free_def)
  then have "broker_safe q"
    using process_invD(2) [OF assms(1)] by (simp add: broker_safe_def needs_broker_def m)
  ultimately show ?thesis using process_invD(3) [OF assms(1)] by (simp add: process_inv_def m)
qed

lemma stop_free_wait:
  assumes "monitor_wait (monitors w) m = (ms, sig)" and "keeps UNIV (w\<lparr>monitors := ms\<rparr>) w'"
    and "monitors w m \<noteq> None" and "stop_free m w"
  shows "stop_free m w'" and "sig = Some s \<Longrightarrow> what s \<noteq> ''stop''"
proof -
  obtain q where q: "monitors w m = Some q" using assms(3) by blast
  have "stop_free m (w\<lparr>monitors := ms\<rparr>)"
    using wait_frame(1) [OF assms(1), of m] q assms(4) by (cases q) (auto simp: stop_free_def split: if_splits)
  then show "stop_free m w'"
    using stop_free_keeps [OF assms(2)] wait_frame(3) [OF assms(1), of m] assms(3) by simp
  show "what s \<noteq> ''stop''" if "sig = Some s"
    using wait_frame(2) [OF assms(1) that] assms(4) by (auto simp: stop_free_def)
qed

lemma broker_loop_inv:
  assumes "process_inv p" and "p_broker p = Thread_runs url (Broker_loops b)" and "broker_loop C url b p = Goes q"
  shows "process_inv q"
proof -
  note inv = process_invD [OF assms(1)]
  have bm: "broker_monitor p = Some (b_monitor b)" by (simp add: broker_monitor_def assms(2))
  consider (on) b' w where "broker_turn C b (p_world p) = Inr (turn.Running b' w)"
      "q = p\<lparr>p_world := w, p_broker := Thread_runs url (Broker_loops b')\<rparr>"
    | (off) n w where "broker_turn C b (p_world p) = Inr (Stopped n w)" "q = p\<lparr>p_world := w, p_broker := Thread_returned url\<rparr>"
    using assms(3) by (auto simp: broker_loop_def split: sum.splits turn.splits)
  then show ?thesis
  proof cases
    case on
    obtain ms sig where w: "monitor_wait (monitors (p_world p)) (b_monitor b) = (ms, sig)"
      "keeps UNIV ((p_world p)\<lparr>monitors := ms\<rparr>) w" "b_monitor b' = b_monitor b"
      using broker_turn_running [OF on(1)] by blast
    note k = keeps_but_wait [OF w(1,2), unfolded keeps_but_def]
    have m: "broker_monitor q = Some (b_monitor b)" "vm_monitor q = vm_monitor p" "p_world q = w" "p_statics q = p_statics p"
      "p_vm q = p_vm p" "p_main q = p_main p" "runs_at_all (p_broker q)"
      by (simp_all add: on(2) broker_monitor_def vm_monitor_def w(3))
    have "monitors w c \<noteq> None" if "monitors (p_world p) c \<noteq> None" for c
      using that k keeps_alive [of "- {b_monitor b}" "p_world p" w c] by (cases "c = b_monitor b") auto
    then have "apart q"
      by (intro apart_frame [OF inv(1)]) (use keepsD(1) [of "- {b_monitor b}" "p_world p" w] k in \<open>auto simp: m bm\<close>)
    moreover have "stop_free (b_monitor b) w" if "stop_free (b_monitor b) (p_world p)"
      by (rule stop_free_wait(1) [OF w(1,2) inv(4) [OF bm] that])
    then have "broker_safe q" using inv(2) by (auto simp: broker_safe_def needs_broker_def m bm)
    ultimately show ?thesis using inv(3) by (simp add: process_inv_def m)
  next
    case off
    obtain ms s where w: "monitor_wait (monitors (p_world p)) (b_monitor b) = (ms, Some s)" "what s = ''stop''"
      "w = broker_shutdown b ((p_world p)\<lparr>monitors := ms\<rparr>)"
      using broker_turn_stopped [OF off(1)] by blast
    have k: "keeps_but (b_monitor b) (p_world p) w" unfolding w(3) by (rule keeps_but_wait [OF w(1) keeps_shutdown])
    have no: "\<not> needs_broker p"
    proof
      assume "needs_broker p"
      then have "stop_free (b_monitor b) (p_world p)" using inv(2) by (auto simp: broker_safe_def bm)
      from stop_free_wait(2) [OF w(1) keeps_refl inv(4) [OF bm] this] w(2) show False by blast
    qed
    have m: "broker_monitor q = None" "vm_monitor q = vm_monitor p" "p_world q = w" "p_statics q = p_statics p"
      "p_vm q = p_vm p" "p_main q = p_main p"
      by (simp_all add: off(2) broker_monitor_def vm_monitor_def)
    have "monitors w c \<noteq> None" if "monitors (p_world p) c \<noteq> None" for c
      using that k keeps_alive [of "- {b_monitor b}" "p_world p" w c] by (cases "c = b_monitor b") (auto simp: keeps_but_def)
    then have "apart q"
      by (intro apart_frame [OF inv(1)])
        (use k keepsD(1) [of "- {b_monitor b}" "p_world p" w] in \<open>auto simp: m keeps_but_def\<close>)
    moreover have "broker_safe q" using inv(2) no by (auto simp: broker_safe_def needs_broker_def m)
    ultimately show ?thesis using inv(3) by (simp add: process_inv_def m)
  qed
qed

lemma broker_step_inv:
  assumes "process_inv p" and "broker_step C p (Goes q)" shows "process_inv q"
  using assms(2)
proof (cases rule: broker_step.cases)
  case (begins url)
  then show ?thesis using broker_begin_inv [OF assms(1)] by metis
next
  case (loops url b)
  then show ?thesis using broker_loop_inv [OF assms(1)] by metis
qed

lemma vm_enter_inv:
  assumes "process_inv p" and "p_vm p = Thread_runs url Vm_begins" and "vm_enter url p = Goes q"
  shows "process_inv q"
proof -
  obtain w c d where s: "vm_begin url default_vm (p_statics p) (p_world p) = Inr (w, c, d)"
    and q: "q = p\<lparr>p_world := w, p_vm := Thread_runs url (Vm_dials c d)\<rparr>"
    using assms(3) by (cases "vm_begin url default_vm (p_statics p) (p_world p)") (auto simp: vm_enter_def split: if_splits)
  note v = vm_begun [OF s] and inv = process_invD [OF assms(1)]
  have m: "vm_monitor q = Some (next_addr (p_world p))" "broker_monitor q = broker_monitor p" "p_world q = w"
    "p_statics q = p_statics p" "p_broker q = p_broker p" "p_main q = p_main p" "p_vm q = Thread_runs url (Vm_dials c d)"
    by (simp_all add: q broker_monitor_def vm_monitor_def v(1))
  note a = inv(1) [unfolded apart_def]
  have old: "live q k \<and> k \<noteq> next_addr (p_world p)" if "live p k" for k
    using that v(2) keeps_alive [OF v(3), of k] by (auto simp: live_def m(3))
  have new: "live q (next_addr (p_world p))" using v(2,4) by (auto simp: live_def m(3))
  have "apart q"
    unfolding apart_def m(1,2,4) using a old new v(2) by (auto simp: m(3)) fastforce+
  moreover have "stop_free k w" if "broker_monitor p = Some k" "stop_free k (p_world p)" for k
    by (rule stop_free_keeps [OF v(3) _ inv(4) [OF that(1)] that(2)]) (use a old that(1) in auto)
  then have "broker_safe q"
    using inv(2) assms(2) by (simp add: broker_safe_def needs_broker_def m)
  ultimately show ?thesis by (simp add: process_inv_def m)
qed

lemma vm_connect_inv:
  assumes "process_inv p" and "p_vm p = Thread_runs url (Vm_dials c d)" and "vm_connect C uuid i url c d p = Goes q"
  shows "process_inv q"
proof -
  note inv = process_invD [OF assms(1)]
  obtain w ok where w: "(case d of Dialed k \<Rightarrow> (p_world p, k) | Waiting \<Rightarrow> connect_end (c_socket c) url (p_world p)) = (w, ok)"
    by fastforce
  then have k1: "keeps UNIV (p_world p) w"
    using keeps_connect_end [of UNIV "p_world p" "c_socket c" url] by (cases d) auto
  obtain g vm w' where h: "vm_hello C uuid (vm_id_of url default_vm) c ok i (p_statics p) w = (g, Inr (vm, w'))"
    and q: "q = p\<lparr>p_statics := g, p_world := w', p_vm := Thread_runs url (Vm_runs (Greeting (uuid i) vm))\<rparr>"
    using assms(3) w by (auto simp: vm_connect_def split: prod.splits sum.splits)
  note v = vm_helloed [OF h]
  have k: "keeps UNIV (p_world p) w'" by (rule keeps_trans [OF k1 v(1)])
  obtain st where st: "vm_states g = put (vm_id_of url default_vm) st (vm_states (p_statics p))"
    "n_monitor (stop_notifier st) = Some (c_monitor c)"
    using v(3) by blast
  have m: "vm_monitor q = Some (c_monitor c)" "vm_monitor p = Some (c_monitor c)" "broker_monitor q = broker_monitor p" "p_world q = w'"
    "p_statics q = g" "p_broker q = p_broker p" "p_main q = p_main p" "p_vm q = Thread_runs url (Vm_runs (Greeting (uuid i) vm))"
    by (simp_all add: q broker_monitor_def vm_monitor_def v(2) assms(2))
  have "apart q"
  proof (rule apart_frame [OF inv(1)])
    fix vid n assume "entry_monitor (p_statics q) vid = Some n"
    then show "entry_monitor (p_statics p) vid = Some n \<or> vm_monitor p = Some n"
      using st by (auto simp: m(2,5) entry_monitor_def split: if_splits)
  qed (use keepsD(1) [OF k] keeps_alive [OF k] in \<open>auto simp: m\<close>)
  moreover have "stop_free n w'" if "broker_monitor p = Some n" "stop_free n (p_world p)" for n
    by (rule stop_free_keeps [OF k _ inv(4) [OF that(1)] that(2)]) simp
  then have "broker_safe q" using inv(2) assms(2) by (simp add: broker_safe_def needs_broker_def m)
  moreover have "registered g (p_vm q)" using st by (simp add: m named_def entry_monitor_def v(2))
  ultimately show ?thesis by (simp add: process_inv_def m)
qed

lemma fewer_entries: "fewer_names vid0 g g' \<Longrightarrow> entry_monitor g' vid = Some m \<Longrightarrow> entry_monitor g vid = Some m"
  by (auto simp: fewer_names_def entry_monitor_def split: if_splits)

lemma vm_own_inv:
  assumes "process_inv p" and "p_vm p = Thread_runs url (Vm_runs ph)"
    and "vm_own_step C uuid (vm_id_of url default_vm) mods (p_statics p, p_world p, ph) (g, w, ph')"
  shows "process_inv (p\<lparr>p_statics := g, p_world := w, p_vm := Thread_runs url (Vm_runs ph')\<rparr>)" (is "process_inv ?q")
proof -
  note inv = process_invD [OF assms(1)]
  obtain c where c: "phase_client ph = Some c" using own_step_client [OF assms(3)] by blast
  note k = keeps_own_step [OF assms(3) c]
  have m: "vm_monitor p = Some (c_monitor c)" "broker_monitor ?q = broker_monitor p" "p_world ?q = w" "p_statics ?q = g"
    by (simp_all add: broker_monitor_def vm_monitor_def assms(2) c)
  have vm: "vm_monitor ?q = None \<or> vm_monitor ?q = vm_monitor p" using k(2) by (auto simp: vm_monitor_def assms(2) c)
  have ne: "broker_monitor p \<noteq> Some (c_monitor c)" using inv(1) m(1) by (auto simp: apart_def)
  have "apart ?q"
  proof (rule apart_frame [OF inv(1) _ _ vm])
    fix n assume n: "n \<in> thread_monitors ?q" "monitors (p_world p) n \<noteq> None"
    show "monitors (p_world ?q) n \<noteq> None"
    proof (cases "n = c_monitor c")
      case True
      then have "vm_monitor ?q = Some n" using n(1) ne m(2) by (auto simp: thread_monitors_iff)
      then have "phase_client ph' \<noteq> None" by (auto simp: vm_monitor_def)
      with k(2) True n(2) show ?thesis by (auto simp: m(3))
    next
      case False
      then show ?thesis using keeps_alive [OF k(1)] n(2) by (simp add: m(3))
    qed
  qed (use keepsD(1) [OF k(1)] fewer_entries [OF own_step_fewer [OF assms(3)]] in \<open>auto simp: m(2)\<close>)
  moreover have "stop_free n w" if "broker_monitor p = Some n" "stop_free n (p_world p)" for n
    by (rule stop_free_keeps [OF k(1) _ inv(4) [OF that(1)] that(2)]) (use ne that(1) in auto)
  then have "broker_safe ?q" using inv(2) assms(2) by (simp add: broker_safe_def needs_broker_def m(2,3))
  moreover have "registered g (Thread_runs url (Vm_runs ph'))"
  proof (cases "aborted ph'")
    case False
    then have "vm_states g = vm_states (p_statics p)" by (rule own_step_states [OF assms(3)])
    then show ?thesis
      using inv(3) own_step_not_aborted [OF assms(3)] k(2) c entry_monitor_same [of g "p_statics p"]
      by (auto simp: assms(2) named_def)
  qed simp
  ultimately show ?thesis by (simp add: process_inv_def)
qed

lemma vm_step_inv:
  assumes "process_inv p" and "vm_step_of_thread C uuid mods p (Goes q)" shows "process_inv q"
  using assms(2)
proof (cases rule: vm_step_of_thread.cases)
  case (begins url)
  then show ?thesis using vm_enter_inv [OF assms(1)] by metis
next
  case (dials url c d i)
  then show ?thesis using vm_connect_inv [OF assms(1)] by metis
next
  case (runs url ph g w ph')
  then show ?thesis using vm_own_inv [OF assms(1)] by blast
next
  case (returns url)
  have "apart q"
    by (rule apart_same_world [OF process_invD(1) [OF assms(1)]]) (auto simp: returns broker_monitor_def vm_monitor_def)
  then show ?thesis using assms(1) returns by (auto simp: inv_defs broker_monitor_def)
qed

lemma no_throw [simp]:
  "\<not> broker_step C p (Throws e q)" "\<not> vm_step_of_thread C uuid mods p (Throws e q)" "\<not> others_step p (Throws e q)"
  by (auto simp: broker_begin_def broker_loop_def vm_enter_def vm_connect_def elim!: broker_stepE vm_step_of_threadE others_step.cases
      split: if_splits sum.splits turn.splits prod.splits dialing.splits)

lemma run_inv: "process_run C uuid mods p q \<Longrightarrow> process_inv p \<Longrightarrow> process_inv q"
proof (induction rule: process_run.induct)
  case (goes p q r)
  then show ?case
    unfolding process_step_def using main_inv [of q "Goes r" r] broker_step_inv vm_step_inv others_inv by blast
next
  case (throws p q e r)
  then show ?case unfolding process_step_def using main_inv [of q "Throws e r" r e] by simp
qed

section \<open>The broker outlives the VM\<close>

text \<open>
  C11. As long as the thread of the VM runs, the thread of the broker runs too, and no stop signal is on its way to it,
  in every state that a process reaches through any calls of \<open>start_threads\<close> and \<open>stop_threads\<close>: whatever the VM still
  sends, its unsubscriptions included, there is a broker to receive it.
\<close>

theorem broker_outlives_vm:
  assumes "process_run C uuid mods (fresh_process w) p" and "p_vm p = Thread_runs u r"
  shows "\<exists>u' r'. p_broker p = Thread_runs u' r' \<and>
    (\<forall>b q. r' = Broker_loops b \<longrightarrow> monitors (p_world p) (b_monitor b) = Some q \<longrightarrow> (\<forall>s \<in> set q. what s \<noteq> ''stop''))"
proof -
  have "broker_safe p" using process_invD(2) [OF run_inv [OF assms(1) fresh_inv]] .
  then obtain u' r' where b: "p_broker p = Thread_runs u' r'" "\<forall>m. broker_monitor p = Some m \<longrightarrow> stop_free m (p_world p)"
    using assms(2) by (auto simp: broker_safe_def needs_broker_def runs_at_all_iff)
  then show ?thesis by (cases r') (auto simp: broker_monitor_def stop_free_def)
qed

lemma broker_outlives_vm_witness:
  "reached started \<and> p_vm started = Thread_runs ''url'' Vm_begins \<and> (\<exists>u r. p_broker started = Thread_runs u r)"
proof -
  have "p_vm started = Thread_runs ''url'' Vm_begins" by (simp add: started_def)
  then show ?thesis using broker_outlives_vm [OF reached_started [unfolded reached_def]] reached_started by blast
qed

section \<open>Stopping a VM that serves\<close>

definition stop_at :: "nat \<Rightarrow> signal_t list \<Rightarrow> bool" where
  "stop_at k q \<longleftrightarrow> (\<exists>pre s post. q = pre @ s # post \<and> what s = ''stop'' \<and> length pre \<le> k)"

lemma stop_at_append: "stop_at k q \<Longrightarrow> stop_at k (q @ r)"
  by (fastforce simp: stop_at_def)

lemma stop_at_tl: "stop_at k (s # q) \<Longrightarrow> what s \<noteq> ''stop'' \<Longrightarrow> 0 < k \<and> stop_at (k - 1) q"
  unfolding stop_at_def by (elim exE conjE) (case_tac pre; fastforce)

fun leaving :: "'o vm_phase \<Rightarrow> bool" where
  "leaving (Greeting tx vm) = False"
| "leaving (Loading vm) = False"
| "leaving (Serving vm) = False"
| "leaving _ = True"

text \<open>After the stop the VM serves with the signal among the first \<open>k\<close> of its queue, or it is on its way out.\<close>

definition stopping :: "nat \<Rightarrow> string \<Rightarrow> addr \<Rightarrow> 'o process \<Rightarrow> bool" where
  "stopping k u m p \<longleftrightarrow>
     (\<exists>vm q. p_vm p = Thread_runs u (Vm_runs (Serving vm)) \<and> c_monitor (vm_client vm) = m \<and>
        monitors (p_world p) m = Some q \<and> stop_at k q) \<or>
     (\<exists>ph. p_vm p = Thread_runs u (Vm_runs ph) \<and> leaving ph) \<or> p_vm p = Thread_returned u"

lemma own_step_leaving: "vm_own_step C uuid vid mods (g, w, ph) (g', w', ph') \<Longrightarrow> leaving ph \<Longrightarrow> leaving ph'"
  by (erule vm_own_stepE) auto

lemma stopping_vm:
  assumes "stopping k u m p" and "vm_step_of_thread C uuid mods p (Goes q)"
  shows "stopping (k - 1) u m q" and "p_vm q = Thread_runs u (Vm_runs (Serving vm')) \<Longrightarrow> 0 < k"
proof -
  have "stopping (k - 1) u m q \<and> (p_vm q = Thread_runs u (Vm_runs (Serving vm')) \<longrightarrow> 0 < k)"
    using assms(2)
  proof (cases rule: vm_step_of_thread.cases)
    case (runs url ph g w ph')
    show ?thesis
    proof (cases "leaving ph")
      case True
      with runs own_step_leaving [OF runs(4) True] assms(1) show ?thesis by (auto simp: stopping_def)
    next
      case False
      then obtain vm qs where vm: "url = u" "ph = Serving vm" "c_monitor (vm_client vm) = m"
        and qs: "monitors (p_world p) m = Some qs" "stop_at k qs"
        using assms(1) runs(2) by (auto simp: stopping_def)
      show ?thesis using runs(4) [unfolded vm(2)]
      proof (cases rule: vm_own_step.cases)
        case (serve vm1)
        obtain ms sig where ms: "monitor_wait (monitors (p_world p)) m = (ms, sig)" by fastforce
        note t = vm_turn_on [OF serve(3), unfolded vm(3), OF ms]
        have "sig \<noteq> None" using wait_own(1) [OF ms qs(1)] qs(2) by (auto simp: stop_at_def)
        then obtain s where s: "sig = Some s" by blast
        have hd: "qs = s # tl qs" "ms m = Some (tl qs)" using wait_own(2) [OF ms qs(1) s] by blast+
        obtain r where r: "monitors w m = Some (tl qs @ r)"
          using keepsD(2) [of UNIV "(p_world p)\<lparr>monitors := ms\<rparr>" w m "tl qs"] t hd(2) by auto
        have "0 < k \<and> stop_at (k - 1) (tl qs)" by (rule stop_at_tl [of k s]) (use hd(1) qs(2) t s in auto)
        then show ?thesis
          using runs(1) serve(2) r stop_at_append t vm by (auto simp: stopping_def)
      next
        case (stopped vm1)
        then show ?thesis using runs(1) vm(1) by (simp add: stopping_def)
      next
        case (serve_fails e)
        then show ?thesis using runs(1) vm(1) by (simp add: stopping_def)
      qed
    qed
  qed (use assms(1) in \<open>auto simp: stopping_def\<close>)
  then show "stopping (k - 1) u m q" and "p_vm q = Thread_runs u (Vm_runs (Serving vm')) \<Longrightarrow> 0 < k" by blast+
qed

lemma stopping_world:
  assumes "stopping k u m p" and "p_vm q = p_vm p" and "vm_monitor p = Some m \<Longrightarrow> keeps {m} (p_world p) (p_world q)"
  shows "stopping k u m q"
proof -
  have "stop_at k r" if "vm_monitor p = Some m" "monitors (p_world p) m = Some q0" "stop_at k q0" "monitors (p_world q) m = Some r" for q0 r
    using keepsD(2) [OF assms(3) [OF that(1)] _ that(2)] that(3,4) stop_at_append by auto
  moreover have "monitors (p_world q) m \<noteq> None" if "vm_monitor p = Some m" "monitors (p_world p) m \<noteq> None"
    using keeps_alive [OF assms(3) [OF that(1)] _ that(2)] by simp
  ultimately show ?thesis
    using assms(1,2) unfolding stopping_def vm_monitor_def by (elim disjE exE conjE) fastforce+
qed

text \<open>A turn of the broker keeps the queue of the VM.\<close>

lemma broker_step_keeps:
  assumes "process_inv p" and "broker_step C p (Goes q)" and "vm_monitor p = Some m"
  shows "p_vm q = p_vm p" and "keeps {m} (p_world p) (p_world q)"
proof -
  note a = process_invD(1) [OF assms(1), unfolded apart_def]
  have "p_vm q = p_vm p \<and> keeps {m} (p_world p) (p_world q)"
    using assms(2)
  proof (cases rule: broker_step.cases)
    case (begins url)
    then obtain b w st where s: "broker_start url (p_world p) (p_stops p) = Inr (b, w, st)"
      and q: "q = p\<lparr>p_world := w, p_stops := st, p_broker := Thread_runs url (Broker_loops b)\<rparr>"
      by (cases "broker_start url (p_world p) (p_stops p)") (auto simp: broker_begin_def split: if_splits)
    have "m < next_addr (p_world p)" using a assms(3) by (auto simp: live_def)
    then show ?thesis using keeps_mono [OF broker_started(3) [OF s], of "{m}"] by (auto simp: q)
  next
    case (loops url b)
    have ne: "{m} \<subseteq> - {b_monitor b}" using a assms(3) loops(2) by (auto simp: broker_monitor_def)
    consider (on) b' w where "broker_turn C b (p_world p) = Inr (turn.Running b' w)" "p_world q = w" "p_vm q = p_vm p"
      | (off) n w where "broker_turn C b (p_world p) = Inr (Stopped n w)" "p_world q = w" "p_vm q = p_vm p"
      using loops(1) by (auto simp: broker_loop_def split: sum.splits turn.splits)
    then show ?thesis
    proof cases
      case on
      obtain ms sig where w: "monitor_wait (monitors (p_world p)) (b_monitor b) = (ms, sig)"
        "keeps UNIV ((p_world p)\<lparr>monitors := ms\<rparr>) w"
        using broker_turn_running [OF on(1)] by blast
      show ?thesis using keeps_but_wait [OF w] keeps_mono [OF _ ne] on by (auto simp: keeps_but_def)
    next
      case off
      obtain ms s where w: "monitor_wait (monitors (p_world p)) (b_monitor b) = (ms, Some s)"
        "w = broker_shutdown b ((p_world p)\<lparr>monitors := ms\<rparr>)"
        using broker_turn_stopped [OF off(1)] by blast
      show ?thesis using keeps_but_wait [OF w(1) keeps_shutdown] keeps_mono [OF _ ne] off w(2) by (auto simp: keeps_but_def)
    qed
  qed
  then show "p_vm q = p_vm p" and "keeps {m} (p_world p) (p_world q)" by blast+
qed

lemma broker_step_vm: "broker_step C p (Goes q) \<Longrightarrow> p_vm q = p_vm p \<and> p_statics q = p_statics p"
  by (auto simp: broker_begin_def broker_loop_def elim!: broker_stepE split: if_splits sum.splits turn.splits)

lemma threads_run_stopping:
  "threads_run C uuid mods n p q \<Longrightarrow> process_inv p \<Longrightarrow> stopping k u m p \<Longrightarrow>
     process_inv q \<and> stopping (k - n) u m q \<and> ((\<exists>vm. p_vm q = Thread_runs u (Vm_runs (Serving vm))) \<longrightarrow> n \<le> k)"
proof (induction rule: threads_run.induct)
  case (of_vm n p q r)
  then have "process_inv r" "stopping (k - n) u m q" using vm_step_inv by blast+
  moreover have "0 < k - n" if "p_vm r = Thread_runs u (Vm_runs (Serving vm))" for vm
    by (rule stopping_vm(2) [OF \<open>stopping (k - n) u m q\<close> of_vm(2) that])
  ultimately show ?case using stopping_vm(1) [OF _ of_vm(2)] by fastforce
next
  case (of_others n p q r)
  then have q: "process_inv q" "stopping (k - n) u m q" "(\<exists>vm. p_vm q = Thread_runs u (Vm_runs (Serving vm))) \<longrightarrow> n \<le> k" by blast+
  from of_others(2) show ?case
  proof
    assume b: "broker_step C q (Goes r)"
    show ?thesis
      using broker_step_inv [OF q(1) b] stopping_world [OF q(2), of r] broker_step_keeps [OF q(1) b] broker_step_vm [OF b] q(3)
      by auto
  next
    assume o: "others_step q (Goes r)"
    then obtain w where w: "keeps (thread_monitors q) (p_world q) w" "r = q\<lparr>p_world := w\<rparr>" by (auto elim: others_step.cases)
    have "keeps {m} (p_world q) w" if "vm_monitor q = Some m"
      by (rule keeps_mono [OF w(1)]) (use that in \<open>auto simp: thread_monitors_iff\<close>)
    with others_inv [OF q(1) o] stopping_world [OF q(2), of r] q(3) show ?thesis by (auto simp: w(2))
  qed
qed simp

text \<open>
  C12. \<open>stop_threads\<close> reaches a VM that serves. When the call finds \<open>k\<close> signals in the queue of the VM, then after
  it, whatever the broker and other threads do in between, the VM takes at most \<open>k\<close> further turns in which it goes on
  serving: it handles what came before, and the turn after that leaves the loop.
\<close>

theorem stop_bounds_turns:
  assumes "process_run C uuid mods (fresh_process w) p" and "p_main p = Main_free"
    and "p_vm p = Thread_runs u (Vm_runs (Serving vm))"
    and "monitors (p_world p) (c_monitor (vm_client vm)) = Some sigs"
    and "threads_run C uuid mods n (stop_threads u p) q" and "p_vm q = Thread_runs u (Vm_runs (Serving vm'))"
  shows "n \<le> length sigs"
proof -
  note inv = run_inv [OF assms(1) fresh_inv]
  obtain g w' where s: "vm_stop u default_vm (p_statics p) (p_world p) = (g, w')" by fastforce
  have e: "entry_monitor (p_statics p) (vm_id_of u default_vm) = Some (c_monitor (vm_client vm))"
    using process_invD(3) [OF inv] assms(3) by simp
  obtain x where "monitors w' (c_monitor (vm_client vm)) = Some (sigs @ [x])" "what x = ''stop''"
    using vm_stop_effect(4) [OF s e assms(4)] by blast
  moreover have q: "stop_threads u p = p\<lparr>p_statics := g, p_world := w', p_main := Joins_vm u\<rparr>"
    using assms(3) s by (simp add: stop_threads_def)
  ultimately have "stopping (length sigs) u (c_monitor (vm_client vm)) (stop_threads u p)"
    using assms(3) by (fastforce simp: stopping_def stop_at_def)
  moreover have "process_inv (stop_threads u p)" unfolding q by (rule stop_vm_inv [OF inv assms(2) s])
  ultimately show ?thesis using threads_run_stopping [OF assms(5)] assms(6) by blast
qed

lemma stop_bounds_turns_witness:
  "\<exists>p. reached p \<and> p_vm p = Thread_runs ''url'' (Vm_runs (Serving thread_vm)) \<and>
     (\<forall>n q vm. threads_run thread_codec (\<lambda>i. ''u'') [] n (stop_threads ''url'' p) q \<longrightarrow>
        p_vm q = Thread_runs ''url'' (Vm_runs (Serving vm)) \<longrightarrow> n = 0)"
proof -
  obtain w p where s: "seen (Serving thread_vm) Main_free [] [] w p" using seen_serving by blast
  have p: "reached p" "p_main p = Main_free" "p_vm p = Thread_runs ''url'' (Vm_runs (Serving thread_vm))"
    "monitors (p_world p) (c_monitor (vm_client thread_vm)) = Some []"
    using s by (auto simp: seen_def both_def)
  then show ?thesis using stop_bounds_turns [OF p(1) [unfolded reached_def] p(2-4)] by fastforce
qed

section \<open>Starting again\<close>

definition name_taken :: "string \<Rightarrow> 'o process \<Rightarrow> bool" where
  "name_taken u p \<longleftrightarrow> named (p_statics p) u \<or> (\<exists>u' e. p_vm p = Thread_runs u' (Vm_runs (Aborted e)))"

lemma name_taken_main:
  assumes "name_taken u p" and "main_step p r" and "r = Goes q \<or> r = Throws e q" shows "name_taken u q"
proof -
  have stop: "name_taken u (stop_broker url p')" if "name_taken u p'" for url and p' :: "'o process"
    using that by (auto simp: stop_broker_def name_taken_def split: prod.splits)
  show ?thesis
    using assms(2)
  proof (cases rule: main_step.cases)
    case (stop url)
    obtain g w where s: "vm_stop url default_vm (p_statics p) (p_world p) = (g, w)" by fastforce
    have "named g u = named (p_statics p) u" by (simp add: named_def vm_stop_effect(6) [OF s])
    then show ?thesis using assms(1,3) stop(1) \<open>\<And>url p'. name_taken u p' \<Longrightarrow> name_taken u (stop_broker url p')\<close>
      by (auto simp: stop_threads_def name_taken_def s split: if_splits)
  next
    case (join_vm url u')
    then show ?thesis using assms(1,3) stop [of "p\<lparr>p_vm := Thread_joined u'\<rparr>" url] by (auto simp: name_taken_def)
  qed (use assms(1,3) in \<open>auto simp: name_taken_def start_broker_def start_vm_def split: if_splits\<close>)
qed

lemma name_taken_vm:
  assumes "name_taken u p" and "vm_step_of_thread C uuid mods p (Goes q)" shows "name_taken u q"
  using assms(2)
proof (cases rule: vm_step_of_thread.cases)
  case (begins url)
  then show ?thesis using assms(1) by (auto simp: vm_enter_def name_taken_def split: if_splits sum.splits)
next
  case (dials url c d i)
  then show ?thesis using assms(1) vm_helloed(3)
    by (fastforce simp: vm_connect_def name_taken_def named_def split: prod.splits sum.splits)
next
  case (runs url ph g w ph')
  show ?thesis
  proof (cases "aborted ph'")
    case True
    then show ?thesis using runs(1) by (cases ph') (auto simp: name_taken_def)
  next
    case False
    then have "vm_states g = vm_states (p_statics p)" by (rule own_step_states [OF runs(4)])
    moreover have "named (p_statics p) u"
      using assms(1) runs(2) own_step_not_aborted [OF runs(4)] by (auto simp: name_taken_def)
    ultimately show ?thesis using runs(1) by (simp add: name_taken_def named_def)
  qed
next
  case (returns url)
  then show ?thesis using assms(1) by (auto simp: name_taken_def)
qed

lemma name_taken_run: "process_run C uuid mods p q \<Longrightarrow> name_taken u p \<Longrightarrow> name_taken u q"
proof (induction rule: process_run.induct)
  case (goes p q r)
  have "name_taken u r" if "others_step q (Goes r)" "name_taken u q"
    using that by (auto simp: name_taken_def elim: others_step.cases)
  moreover have "name_taken u r" if "broker_step C q (Goes r)" "name_taken u q"
    using that broker_step_vm [OF that(1)] by (simp add: name_taken_def)
  ultimately show ?case
    using goes name_taken_main [of u q "Goes r" r] name_taken_vm unfolding process_step_def by blast
next
  case (throws p q e r)
  then show ?case using name_taken_main [of u q "Throws e r" r e] unfolding process_step_def by simp
qed

text \<open>
  C31. The threads can not be started twice. Once the thread of a VM has returned, in whatever way the process goes on
  after that, a new thread for the same url ends the process with its first step, since the name of the VM is still
  taken.
\<close>

theorem restart_ends_process:
  assumes "process_run C uuid mods (fresh_process w) p" and "p_vm p = Thread_returned u \<or> p_vm p = Thread_joined u"
    and "process_run C uuid mods p q" and "p_vm q = Thread_runs u Vm_begins"
    and "vm_step_of_thread C uuid mods q r"
  shows "\<exists>e. r = Dies e"
proof -
  have "named (p_statics p) u" using process_invD(3) [OF run_inv [OF assms(1) fresh_inv]] assms(2) by auto
  then have "name_taken u q" using name_taken_run [OF assms(3)] by (simp add: name_taken_def)
  then have "named (p_statics q) u" using assms(4) by (simp add: name_taken_def)
  then have "r = vm_enter u q \<and> (\<exists>e. vm_begin u default_vm (p_statics q) (p_world q) = Inl e)"
    using assms(4,5) by (auto simp: vm_begin_def named_def elim!: vm_step_of_threadE)
  then show ?thesis by (auto simp: vm_enter_def)
qed

lemma restart_ends_process_witness:
  "\<exists>p q e. reached p \<and> thread_run p q \<and> vm_step_of_thread thread_codec (\<lambda>i. ''u'') [] q (Dies e)"
proof -
  obtain p q where p: "reached p" "p_vm p = Thread_returned ''url''" and q: "thread_run p q" "p_vm q = Thread_runs ''url'' Vm_begins"
    using restarted by blast
  have "vm_step_of_thread thread_codec (\<lambda>i. ''u'') [] q (vm_enter ''url'' q)" by (rule vm_step_of_thread.begins [OF q(2)])
  moreover obtain e where "vm_enter ''url'' q = Dies e"
    using restart_ends_process [OF p(1) [unfolded reached_def] _ q calculation] p(2) by blast
  ultimately show ?thesis using p(1) q(1) by auto
qed

end
