(* ===== verification/JsPromise.thy ===== *)
theory JsPromise
  imports JsBinding
begin

text \<open>
  The promise that other threads settle (\<open>bindings/js-node/csrc/js_thread_safe_promise.hpp\<close>). The two
  functions that settle it run under a mutex, so each call is one step; the finalizer of the
  thread-safe function runs later, in the thread of the engine, once the function has no user left.
\<close>

section \<open>The shared context\<close>

text \<open>
  \<open>tc_users\<close> is the number of threads that the thread-safe function counts, \<open>tc_settled\<close> what the promise has been
  settled with: \<open>True\<close> for resolved.
\<close>

record tsfn_context =
  tc_data :: "val option"
  tc_resolve :: bool
  tc_called :: bool
  tc_users :: nat
  tc_settled :: "(bool \<times> js) option"

definition tsfn_context_new :: tsfn_context where
  "tsfn_context_new = \<lparr>tc_data = None, tc_resolve = False, tc_called = False, tc_users = 1, tc_settled = None\<rparr>"

definition release_once :: "tsfn_context \<Rightarrow> tsfn_context" where
  "release_once c = (if tc_called c then c else c\<lparr>tc_called := True, tc_users := tc_users c - 1\<rparr>)"

definition promise_resolve :: "val \<Rightarrow> tsfn_context \<Rightarrow> tsfn_context" where
  "promise_resolve v c = release_once (c\<lparr>tc_data := Some v, tc_resolve := True\<rparr>)"

definition promise_reject :: "val \<Rightarrow> tsfn_context \<Rightarrow> tsfn_context" where
  "promise_reject v c = release_once (c\<lparr>tc_data := Some v, tc_resolve := False\<rparr>)"

definition promise_finalize :: "js_engine \<Rightarrow> tsfn_context \<Rightarrow> tsfn_context res" where
  "promise_finalize E c =
     bindR (deref (tc_data c)) (\<lambda>v.
     bindR (to_napi_value E v) (\<lambda>j. Inr (c\<lparr>tc_settled := Some (tc_resolve c, j)\<rparr>)))"

section \<open>Any order of calls\<close>

text \<open>
  A step is a call of one of the two functions, by any thread, or the finalizer, which runs once and only when no
  user is left.
\<close>

datatype settle = Resolve_with val | Reject_with val

fun settle_call :: "settle \<Rightarrow> tsfn_context \<Rightarrow> tsfn_context" where
  "settle_call (Resolve_with v) c = promise_resolve v c"
| "settle_call (Reject_with v) c = promise_reject v c"

fun settled_with :: "settle \<Rightarrow> bool \<times> val" where
  "settled_with (Resolve_with v) = (True, v)"
| "settled_with (Reject_with v) = (False, v)"

inductive promise_run :: "js_engine \<Rightarrow> settle list \<Rightarrow> settle list \<Rightarrow> tsfn_context \<Rightarrow> bool" for E :: js_engine where
  start: "promise_run E [] [] tsfn_context_new"
| call: "promise_run E cs [] c \<Longrightarrow> tc_settled c = None \<Longrightarrow> promise_run E (cs @ [a]) [] (settle_call a c)"
| final: "promise_run E cs [] c \<Longrightarrow> tc_settled c = None \<Longrightarrow> tc_users c = 0 \<Longrightarrow>
    promise_finalize E c = Inr c' \<Longrightarrow> promise_run E cs [] c'"
| late: "promise_run E cs ds c \<Longrightarrow> tc_settled c \<noteq> None \<Longrightarrow> promise_run E cs (ds @ [a]) (settle_call a c)"

lemma settle_call_simps [simp]:
  "tc_settled (settle_call a c) = tc_settled c"
  "tc_called (settle_call a c)"
  "tc_data (settle_call a c) = Some (snd (settled_with a))"
  "tc_resolve (settle_call a c) = fst (settled_with a)"
  "tc_users (settle_call a c) = (if tc_called c then tc_users c else tc_users c - 1)"
  by (cases a; simp add: promise_resolve_def promise_reject_def release_once_def)+

declare settle_call.simps [simp del]

text \<open>Exactly one release, with the first call; before the finalizer the context holds the last call.\<close>

lemma promise_before:
  assumes "promise_run E cs ds c"
  shows "tc_called c \<longleftrightarrow> cs \<noteq> []" and "tc_users c = (if cs = [] then 1 else 0)"
    and "tc_settled c = None \<longrightarrow> ds = [] \<and>
      (if cs = [] then tc_data c = None else (tc_resolve c, tc_data c) = map_prod id Some (settled_with (last cs)))"
    and "tc_settled c = Some r \<longrightarrow> cs \<noteq> [] \<and> fst r = fst (settled_with (last cs)) \<and>
      to_napi_value E (snd (settled_with (last cs))) = Inr (snd r)"
proof -
  have "(tc_called c \<longleftrightarrow> cs \<noteq> []) \<and> tc_users c = (if cs = [] then 1 else 0) \<and>
    (tc_settled c = None \<longrightarrow> ds = [] \<and>
      (if cs = [] then tc_data c = None else (tc_resolve c, tc_data c) = map_prod id Some (settled_with (last cs)))) \<and>
    (\<forall>r. tc_settled c = Some r \<longrightarrow> cs \<noteq> [] \<and> fst r = fst (settled_with (last cs)) \<and>
      to_napi_value E (snd (settled_with (last cs))) = Inr (snd r))"
    using assms
  proof (induction rule: promise_run.induct)
    case (call cs c a)
    then show ?case by (cases "settled_with a") auto
  next
    case (final cs c c')
    then have "cs \<noteq> []" by (auto split: if_splits)
    with final show ?case
      by (cases "settled_with (last cs)") (auto simp: promise_finalize_def bindR_eq_Inr)
  next
    case (late cs ds c a)
    then show ?case by auto
  qed (simp_all add: tsfn_context_new_def)
  then show "tc_called c \<longleftrightarrow> cs \<noteq> []" and "tc_users c = (if cs = [] then 1 else 0)"
    and "tc_settled c = None \<longrightarrow> ds = [] \<and>
      (if cs = [] then tc_data c = None else (tc_resolve c, tc_data c) = map_prod id Some (settled_with (last cs)))"
    and "tc_settled c = Some r \<longrightarrow> cs \<noteq> [] \<and> fst r = fst (settled_with (last cs)) \<and>
      to_napi_value E (snd (settled_with (last cs))) = Inr (snd r)"
    by blast+
qed

text \<open>A function that is dropped before any call, as at the end of the process, has no value to settle with.\<close>

lemma promise_never_called: "promise_finalize E tsfn_context_new = Inl (UB ''null pointer dereference'')"
  by (simp add: promise_finalize_def tsfn_context_new_def)

section \<open>How it ends\<close>

text \<open>
  A promise is settled once, with the last call before the engine takes it up. Whatever the number of calls and whichever
  threads make them, the thread-safe function is released exactly once, by the first call; when the finalizer has run, the
  promise is resolved or rejected as the last call before it asked, with its value, and calls after that change nothing.
\<close>

lemma promise_settled_last:
  assumes "promise_run E cs ds c"
  shows "tc_users c = (if cs = [] then 1 else 0) \<and>
    (case tc_settled c of
       None \<Rightarrow> ds = []
     | Some (ok, j) \<Rightarrow> cs \<noteq> [] \<and> (\<exists>v. settled_with (last cs) = (ok, v) \<and> to_napi_value E v = Inr j))"
proof (cases "tc_settled c")
  case None
  then show ?thesis using promise_before(2,3) [OF assms] by simp
next
  case (Some r)
  obtain ok j where r: "r = (ok, j)" by fastforce
  show ?thesis using promise_before(2) [OF assms] promise_before(4) [OF assms, of "(ok, j)"] Some
    by (simp add: r prod_eq_iff)
qed

lemma promise_settled_last_witness:
  "\<exists>c. promise_run E [Resolve_with (Bool_t True), Reject_with Null_t] [Resolve_with Null_t] c \<and>
     tc_users c = 0 \<and> tc_settled c = Some (False, JsNull)"
proof -
  let ?c2 = "settle_call (Reject_with Null_t) (settle_call (Resolve_with (Bool_t True)) tsfn_context_new)"
  let ?c = "settle_call (Resolve_with Null_t) (?c2\<lparr>tc_settled := Some (False, JsNull)\<rparr>)"
  have new: "tc_settled tsfn_context_new = None" "tc_called tsfn_context_new = False" "tc_users tsfn_context_new = 1"
    by (simp_all add: tsfn_context_new_def)
  have "promise_run E [Resolve_with (Bool_t True)] [] (settle_call (Resolve_with (Bool_t True)) tsfn_context_new)"
    using promise_run.call [OF promise_run.start new(1), of E "Resolve_with (Bool_t True)"] by simp
  from promise_run.call [OF this _, of "Reject_with Null_t"]
  have "promise_run E [Resolve_with (Bool_t True), Reject_with Null_t] [] ?c2"
    using settle_call_simps(1) new(1) by simp
  moreover have "promise_finalize E ?c2 = Inr (?c2\<lparr>tc_settled := Some (False, JsNull)\<rparr>)"
    by (simp add: promise_finalize_def)
  ultimately have "promise_run E [Resolve_with (Bool_t True), Reject_with Null_t] [] (?c2\<lparr>tc_settled := Some (False, JsNull)\<rparr>)"
    using promise_run.final [of E _ ?c2] by (simp add: new)
  from promise_run.late [OF this, of "Resolve_with Null_t"]
  have run: "promise_run E [Resolve_with (Bool_t True), Reject_with Null_t] [Resolve_with Null_t] ?c" by simp
  moreover have "tc_settled ?c = Some (False, JsNull)" by simp
  ultimately show ?thesis using promise_settled_last [OF run] by auto
qed

end
