(* ===== verification/Uuids.thy ===== *)
theory Uuids
  imports Prelude
begin

text \<open>
  UUIDs (\<open>core/src/uuid.cpp\<close>). The random device is a sequence of 32-bit words, given with the number
  of those that have been used; the generator and the writing of the UUID belong to libraries and are
  parameters. Everywhere else in the development the UUIDs are a function \<open>nat \<Rightarrow> string\<close>; \<open>nth_uuid\<close> is that function.
\<close>

record uuid_lib =
  ul_seed_seq :: "u32 list \<Rightarrow> nat list"
  ul_generate :: "nat list \<Rightarrow> byte list"
  ul_to_string :: "byte list \<Rightarrow> string"

text \<open>The size of the state of \<open>mt19937\<close>: as many words seed it, which a \<open>seed_seq\<close> has mixed.\<close>

definition state_size :: nat where "state_size = 624"

definition draw :: "(nat \<Rightarrow> u32) \<Rightarrow> nat \<Rightarrow> nat \<Rightarrow> u32 list \<times> nat" where
  "draw rd used n = (map (\<lambda>i. rd (used + i)) [0..<n], used + n)"

definition generate_uuid :: "uuid_lib \<Rightarrow> (nat \<Rightarrow> u32) \<Rightarrow> nat \<Rightarrow> string \<times> nat" where
  "generate_uuid U rd used =
     (let (seed_data, used') = draw rd used state_size
      in (ul_to_string U (ul_generate U (ul_seed_seq U seed_data)), used'))"

definition nth_uuid :: "uuid_lib \<Rightarrow> (nat \<Rightarrow> u32) \<Rightarrow> nat \<Rightarrow> string" where
  "nth_uuid U rd i = fst (generate_uuid U rd (i * state_size))"

fun generate_uuids :: "uuid_lib \<Rightarrow> (nat \<Rightarrow> u32) \<Rightarrow> nat \<Rightarrow> nat \<Rightarrow> string list \<times> nat" where
  "generate_uuids U rd 0 used = ([], used)"
| "generate_uuids U rd (Suc n) used =
     (let (x, used1) = generate_uuid U rd used; (xs, used2) = generate_uuids U rd n used1 in (x # xs, used2))"

text \<open>Calls in a row give the UUIDs of that function in order.\<close>

lemma uuids_in_a_row:
  "generate_uuids U rd n (k * state_size) = (map (nth_uuid U rd) [k..<k + n], (k + n) * state_size)"
proof (induction n arbitrary: k)
  case (Suc n)
  have "snd (generate_uuid U rd (k * state_size)) = Suc k * state_size"
    by (simp add: generate_uuid_def draw_def split_beta Let_def)
  moreover have "[k..<k + Suc n] = k # [Suc k..<Suc k + n]" by (simp add: upt_conv_Cons)
  ultimately show ?case using Suc.IH [of "Suc k"] by (simp add: split_beta Let_def nth_uuid_def)
qed simp

text \<open>No draw is used twice, so two equal UUIDs need equal draws or a collision within the libraries.\<close>

lemma uuid_draws_apart:
  assumes "i \<noteq> j" shows "{i * state_size..<Suc i * state_size} \<inter> {j * state_size..<Suc j * state_size} = {}"
proof (cases "i < j")
  case True
  then have "Suc i * state_size \<le> j * state_size" by (intro mult_le_mono1) simp
  then show ?thesis by auto
next
  case False
  with assms have "Suc j * state_size \<le> i * state_size" by (intro mult_le_mono1) simp
  then show ?thesis by auto
qed

end
