(* ===== verification/NodeModule.thy ===== *)
theory NodeModule
  imports JsPromise BindingThreads Uuids
begin

text \<open>
  The functions of the Node module (\<open>bindings/js-node/csrc/binding.cpp\<close>): the arguments of JavaScript, in front of
  what the threads and the UUIDs of the program do.
\<close>

text \<open>
  Without an argument the exception is only noted; reading the argument that is not there then throws it.
\<close>

definition js_url :: "js list \<Rightarrow> string res" where
  "js_url args =
     (if args = [] then Inl (LibThrow ''You must provide at least one argument'') else js_string_arg args 0)"

definition js_start_threads :: "js list \<Rightarrow> 'o process \<Rightarrow> 'o outcome" where
  "js_start_threads args p = (case js_url args of Inl e \<Rightarrow> Throws e p | Inr url \<Rightarrow> start_broker url p)"

definition js_stop_threads :: "js list \<Rightarrow> 'o process \<Rightarrow> 'o outcome" where
  "js_stop_threads args p = (case js_url args of Inl e \<Rightarrow> Throws e p | Inr url \<Rightarrow> Goes (stop_threads url p))"

definition js_generate_uuid :: "js_engine \<Rightarrow> uuid_lib \<Rightarrow> (nat \<Rightarrow> u32) \<Rightarrow> nat \<Rightarrow> js \<times> nat" where
  "js_generate_uuid E U rd used = map_prod (\<lambda>s. JsString (je_text E s)) id (generate_uuid U rd used)"

text \<open>So a call from JavaScript either throws and leaves the threads as they are or is a step of the caller.\<close>

lemma js_threads_step:
  assumes "p_main p = Main_free" and "r = js_start_threads args p \<or> r = js_stop_threads args p"
  shows "main_step p r \<or> (\<exists>e. r = Throws e p)"
proof (cases "js_url args")
  case (Inr url)
  then show ?thesis using assms main_step.start [of p url] main_step.stop [of p url]
    by (auto simp: js_start_threads_def js_stop_threads_def)
qed (use assms in \<open>auto simp: js_start_threads_def js_stop_threads_def\<close>)

end
