(* ===== verification/NodeProperties.thy ===== *)
theory NodeProperties
  imports BindingProperties NodeModule
begin

text \<open>A call from a Node program to the VM and back.\<close>

lemma js_type2_call:
  assumes "from_napi_value E arg = Inr (Some x)"
    and "args = [JsString tx, JsString ''execute'', JsString ''call_function'', JsString f, arg]"
  shows "type2_packet (js_string_arg args) (js_value_arg E args) = Inr (Some (call_function_packet execute tx f (Some x)))"
  using assms by (simp add: type2_packet_def js_string_arg_def js_value_arg_def js_arg_def ptype_arg_def)

lemma result_to_js:
  assumes "js_engine_ok E" and "utf8_ok tx" and "to_napi_value E (wire y) = Inr j"
  shows "packet_to_js E (wire_packet False (respond_execute_ok_packet tx 0 True y)) = Inr (JsObject
    [(''body'', JsObject [(''out'', j), (''status'', JsBool True)]),
     (''headers'', JsArray [JsString tx, JsNumber (int_to_double 0), JsBool True]),
     (''packet_type'', JsString ''respond_execute'')])"
proof -
  have "utf8_ok ''body''" "utf8_ok ''out''" "utf8_ok ''status''" "utf8_ok ''headers''"
    "utf8_ok ''packet_type''" "utf8_ok ''respond_execute''" by code_simp+
  then show ?thesis using assms
    by (simp add: packet_to_js_def js_type_names packet_type_to_string_def wire_packet_def wire_map_def builder_defs
        js_engine_ok_def put_all_def)
qed

text \<open>
  C19. A Node program calls a function and gets its result. Client, broker and VM are as in the round trip of a call; the
  program sends the five arguments of the call, the last of which converts to the value \<open>x\<close>. The VM runs the operator on
  \<open>x\<close>, and what the program's client receives is the object, with which \<open>listen\<close> resolves its promise, that has the
  transaction in its headers and the operator's output in its body.
\<close>

theorem node_call_answered:
  assumes "broker_inv b w" and "map_of (b_sockets b) na = Some a" and "map_of (b_sockets b) ns = Some s"
    and "map_of (b_subs b) (''0/'' @ f) = Some s"
    and "peered k a w" and "peered a k w" and "peered s v w" and "peered v s w"
    and "distinct [k, a, s, v]" and "k \<notin> set (b_refs b)" and "v \<notin> set (b_refs b)"
    and "box k w = []" and "box a w = []" and "box s w = []" and "box v w = []"
    and "c_socket kc = k" and "c_socket (vm_client vm) = v"
    and "call = call_function_packet execute tx f (Some x)"
    and "packet_ok call" and "packet_fits C call" and "packet_faithful C call"
    and "result = respond_execute_ok_packet tx 0 True y"
    and "packet_ok result" and "packet_fits C result" and "packet_faithful C result"
    and "map_of (vm_operators vm) f = Some op" and "op_initialize op (Some (wire x)) = Inr (op1, None)"
    and "op_step op1 = Inr (op2, Ok_output (Some y) True)"
    and "js_engine_ok E" and "utf8_ok tx" and "from_napi_value E arg = Inr (Some x)" and "to_napi_value E (wire y) = Inr j"
  shows "\<exists>w1 b1 w2 w3 p w4 vm' b2 w5 w6 r.
    js_send_type2 E C kc [JsString tx, JsString ''execute'', JsString ''call_function'', JsString f, arg] w = Inr (w1, JsBool True) \<and>
    broker_recv C b a w1 = Inr (b1, w2) \<and>
    client_recv C (vm_client vm) False w2 = Inr (w3, Some p) \<and>
    vm_handle C uuid p vm w3 = Some (Inr (vm', w4)) \<and>
    broker_recv C b1 s w4 = Inr (b2, w5) \<and>
    client_recv C kc False w5 = Inr (w6, Some r) \<and>
    packet_to_js E r = Inr (JsObject
      [(''body'', JsObject [(''out'', j), (''status'', JsBool True)]),
       (''headers'', JsArray [JsString tx, JsNumber (int_to_double 0), JsBool True]),
       (''packet_type'', JsString ''respond_execute'')])"
proof -
  let ?args = "[JsString tx, JsString ''execute'', JsString ''call_function'', JsString f, arg]"
  have "type2_packet (js_string_arg ?args) (js_value_arg E ?args) = Inr (Some call)"
    using js_type2_call [OF assms(31) refl] by (simp add: assms(18))
  then have send: "js_send_type2 E C kc ?args w = mapR_res (map_prod id JsBool) (client_send C kc call w)"
    by (simp add: js_send_type2_def)
  obtain w1 b1 w2 w3 p w4 vm' b2 w5 w6 where run: "client_send C kc call w = Inr (w1, True)"
    "broker_recv C b a w1 = Inr (b1, w2)" "client_recv C (vm_client vm) False w2 = Inr (w3, Some p)"
    "vm_handle C uuid p vm w3 = Some (Inr (vm', w4))" "broker_recv C b1 s w4 = Inr (b2, w5)"
    "client_recv C kc False w5 = Inr (w6, Some (wire_packet False result))"
    using call_and_result [OF assms(1-28), of uuid] by blast
  from send run(1) have "js_send_type2 E C kc ?args w = Inr (w1, JsBool True)" by simp
  with run(2-) result_to_js [OF assms(29,30,32)] show ?thesis unfolding assms(22) by blast
qed

definition node_call :: packet_t where
  "node_call = call_function_packet execute ''t'' ''f'' (Some (Bool_t True))"

definition node_result :: packet_t where
  "node_result = respond_execute_ok_packet ''t'' 0 True (Bool_t True)"

definition node_codec :: codec where
  "node_codec = table_codec [header_json node_call, body_json node_call, header_json node_result, body_json node_result]"

lemma node_packets:
  "packet_ok node_call" "packet_ok node_result" "packet_fits node_codec p"
  "packet_faithful node_codec node_call" "packet_faithful node_codec node_result"
  by (auto simp: packet_ok_def node_call_def node_result_def builder_defs in_body_def has_itype_def dict_ok_def packet_fits_def
      packet_faithful_def node_codec_def intro!: table_codec_faithful)

lemma node_call_answered_witness:
  "let kc = \<lparr>c_socket = 0, c_monitor = 8, external_monitor = False\<rparr> in
   \<exists>w1 b1 w2 w3 p w4 vm' b2 w5 w6 r.
     js_send_type2 sample_engine node_codec kc
       [JsString ''t'', JsString ''execute'', JsString ''call_function'', JsString ''f'', JsBool True] sample_world = Inr (w1, JsBool True) \<and>
     broker_recv node_codec sample_broker 2 w1 = Inr (b1, w2) \<and>
     client_recv node_codec (vm_client sample_vm) False w2 = Inr (w3, Some p) \<and>
     vm_handle node_codec (\<lambda>i. ''u'') p sample_vm w3 = Some (Inr (vm', w4)) \<and>
     broker_recv node_codec b1 3 w4 = Inr (b2, w5) \<and>
     client_recv node_codec kc False w5 = Inr (w6, Some r) \<and>
     packet_to_js sample_engine r = Inr (JsObject
       [(''body'', JsObject [(''out'', JsBool True), (''status'', JsBool True)]),
        (''headers'', JsArray [JsString ''t'', JsNumber (int_to_double 0), JsBool True]),
        (''packet_type'', JsString ''respond_execute'')])"
proof -
  let ?op1 = "sample_op\<lparr>op_in := Some (Bool_t True)\<rparr>" and ?op2 = "sample_op\<lparr>op_in := None\<rparr>"
  have "op_initialize sample_op (Some (wire (Bool_t True))) = Inr (?op1, None)"
    "op_step ?op1 = Inr (?op2, Ok_output (Some (Bool_t True)) True)"
    by (simp_all add: sample_op_def make_operator_def op_initialize_def operator_initialize_def op_step_def
        instant_step_def operator_reset_input_def)
  moreover have "map_of (b_sockets sample_broker) ''2'' = Some 2" "map_of (b_sockets sample_broker) ''3'' = Some 3"
    "map_of (b_subs sample_broker) (''0/'' @ ''f'') = Some 3" "b_refs sample_broker = [2, 3, 3]"
    by (simp_all add: sample_broker_def b_refs_def)
  moreover have "map_of (vm_operators sample_vm) ''f'' = Some sample_op" "c_socket (vm_client sample_vm) = Suc 0"
    by (simp_all add: sample_vm_def)
  moreover have "utf8_ok ''t''" by code_simp
  ultimately show ?thesis
    unfolding Let_def
    by (intro node_call_answered [where k = 0 and a = 2 and s = 3 and v = "Suc 0" and f = "''f''" and x = "Bool_t True"
          and tx = "''t''" and y = "Bool_t True" and na = "''2''" and ns = "''3''" and op = sample_op and ?op1.0 = ?op1
          and ?op2.0 = ?op2 and call = node_call and result = node_result])
      (simp_all add: sample_inv sample_peers sample_names node_packets node_call_def [symmetric]
        node_result_def [symmetric] sample_engine_ok)
qed

end
