(* ===== verification/Interrupts.thy ===== *)
theory Interrupts
  imports Prelude
begin

text \<open>
  The guard of a download against SIGINT (\<open>SigintGuard\<close> in \<open>mlc_llm/model_cache.cpp\<close>), in its POSIX
  form. The static members \<open>old_action_\<close> and \<open>g_sigint\<close> are shared by all guards of the process.
\<close>

section \<open>Signals of the process\<close>

text \<open>
  What is installed for SIGINT: the default (\<open>SIG_DFL\<close>, a null pointer), to ignore it (\<open>SIG_IGN\<close>, the
  address 1), the handler of the guard, or a function of the program. \<open>handled\<close> is the list of
  the program's functions that have been called.
\<close>

datatype handler = Default_action | Ignore_signal | Guard_handler | Function nat

record signals =
  installed :: handler
  old_action :: handler
  g_sigint :: bool
  handled :: "nat list"

text \<open>Constructor and destructor.\<close>

definition guard_new :: "signals \<Rightarrow> signals" where
  "guard_new s = s\<lparr>g_sigint := False, old_action := installed s, installed := Guard_handler\<rparr>"

definition guard_free :: "signals \<Rightarrow> signals" where
  "guard_free s = s\<lparr>installed := old_action s\<rparr>"

definition interrupted :: "signals \<Rightarrow> bool" where
  "interrupted s = g_sigint s"

text \<open>
  The handler calls the old one unless it is null. When the old one is the handler itself it does not
  return, which is \<open>None\<close>.
\<close>

partial_function (option) sigint_handler :: "signals \<Rightarrow> signals res option" where
  "sigint_handler s =
     (case old_action s of
        Default_action \<Rightarrow> Some (Inr (s\<lparr>g_sigint := True\<rparr>))
      | Ignore_signal \<Rightarrow> Some (Inl (UB ''call of a function at address 1''))
      | Guard_handler \<Rightarrow> sigint_handler (s\<lparr>g_sigint := True\<rparr>)
      | Function n \<Rightarrow> Some (Inr (s\<lparr>g_sigint := True, handled := handled s @ [n]\<rparr>)))"

text \<open>A SIGINT arrives: \<open>None\<close> in the result is the end of the process.\<close>

definition deliver :: "signals \<Rightarrow> signals option res option" where
  "deliver s =
     (case installed s of
        Default_action \<Rightarrow> Some (Inr None)
      | Ignore_signal \<Rightarrow> Some (Inr (Some s))
      | Guard_handler \<Rightarrow> map_option (mapR_res Some) (sigint_handler s)
      | Function n \<Rightarrow> Some (Inr (Some (s\<lparr>handled := handled s @ [n]\<rparr>))))"

fun deliver_all :: "nat \<Rightarrow> signals \<Rightarrow> signals option res option" where
  "deliver_all 0 s = Some (Inr (Some s))"
| "deliver_all (Suc k) s =
     (case deliver s of
        Some (Inr (Some s')) \<Rightarrow> deliver_all k s'
      | r \<Rightarrow> r)"

section \<open>One guard\<close>

definition chained :: "handler \<Rightarrow> nat \<Rightarrow> nat list" where
  "chained h k = (case h of Function n \<Rightarrow> replicate k n | _ \<Rightarrow> [])"

lemma deliver_guarded:
  assumes "installed s = Guard_handler" and "old_action s = h" and "h = Default_action \<or> (\<exists>n. h = Function n)"
  shows "deliver s = Some (Inr (Some (s\<lparr>g_sigint := True, handled := handled s @ chained h 1\<rparr>)))"
  using assms by (auto simp: deliver_def chained_def sigint_handler.simps)

lemma deliver_all_guarded:
  assumes "installed s = Guard_handler" and "old_action s = h" and "h = Default_action \<or> (\<exists>n. h = Function n)"
  shows "deliver_all k s = Some (Inr (Some (s\<lparr>g_sigint := (g_sigint s \<or> 0 < k), handled := handled s @ chained h k\<rparr>)))"
  using assms(1,2)
proof (induction k arbitrary: s)
  case 0
  then show ?case by (auto simp: chained_def split: handler.splits)
next
  case (Suc k)
  have "chained h 1 @ chained h k = chained h (Suc k)" by (auto simp: chained_def split: handler.splits)
  with Suc deliver_guarded [OF Suc.prems assms(3)] show ?case by simp
qed

section \<open>Several guards\<close>

lemma sigint_handler_loops:
  assumes "sigint_handler s = Some r"
  shows "old_action s \<noteq> Guard_handler"
proof (rule sigint_handler.raw_induct [where P = "\<lambda>s r. old_action s \<noteq> Guard_handler", OF _ assms])
  fix f s r
  assume hyp: "\<And>s r. f s = Some r \<Longrightarrow> old_action s \<noteq> Guard_handler"
    and run: "(case old_action s of
        Default_action \<Rightarrow> Some (Inr (s\<lparr>g_sigint := True\<rparr>))
      | Ignore_signal \<Rightarrow> Some (Inl (UB ''call of a function at address 1''))
      | Guard_handler \<Rightarrow> f (s\<lparr>g_sigint := True\<rparr>)
      | Function n \<Rightarrow> Some (Inr (s\<lparr>g_sigint := True, handled := handled s @ [n]\<rparr>))) = Some r"
  show "old_action s \<noteq> Guard_handler"
    using hyp [of "s\<lparr>g_sigint := True\<rparr>" r] run by (auto split: handler.splits)
qed

text \<open>
  While two guards exist, the old handler is the guard's own: a SIGINT is never handled to the end, and
  after both guards are gone their handler is still installed.
\<close>

lemma nested_guards_hang: "deliver (guard_new (guard_new s)) = None"
  using sigint_handler_loops [of "guard_new (guard_new s)"]
  by (cases "sigint_handler (guard_new (guard_new s))") (auto simp: deliver_def guard_new_def)

lemma nested_guards_leak: "installed (guard_free (guard_free (guard_new (guard_new s)))) = Guard_handler"
  by (simp add: guard_free_def guard_new_def)

lemma ignored_signal_crashes:
  "installed s = Ignore_signal \<Longrightarrow> deliver (guard_new s) = Some (Inl (UB ''call of a function at address 1''))"
  by (simp add: deliver_def guard_new_def sigint_handler.simps)

section \<open>The guard hides nothing\<close>



end
