(* ===== verification/Logging.thy ===== *)
theory Logging
  imports StringUtil
begin

text \<open>
  The log of the program (\<open>core/src/logging.cpp\<close>). The library spdlog is a parameter: \<open>'g\<close> is its
  state, with the logger named \<open>AILOY\<close> in it; \<open>sp_level\<close> and \<open>sp_lines\<close> are what can be observed of
  it, the level that is set and the messages written.
\<close>

section \<open>The library\<close>

datatype log_level = Debug_level | Info_level | Warn_level | Err_level | Critical_level

fun severity :: "log_level \<Rightarrow> nat" where
  "severity Debug_level = 1" | "severity Info_level = 2" | "severity Warn_level = 3"
| "severity Err_level = 4" | "severity Critical_level = 5"

record 'g spdlog =
  sp_create :: "'g \<Rightarrow> 'g res"
  sp_set_level :: "log_level \<Rightarrow> 'g \<Rightarrow> 'g"
  sp_set_pattern :: "string \<Rightarrow> 'g \<Rightarrow> 'g"
  sp_log :: "log_level \<Rightarrow> string \<Rightarrow> 'g \<Rightarrow> 'g"
  sp_level :: "'g \<Rightarrow> log_level"
  sp_lines :: "'g \<Rightarrow> (log_level \<times> string) list"

section \<open>The logger\<close>

text \<open>\<open>::tolower\<close> on the letters of ASCII.\<close>

definition lower_char :: "char \<Rightarrow> char" where
  "lower_char c = (if 65 \<le> (of_char c :: nat) \<and> (of_char c :: nat) \<le> 90 then char_of (of_char c + 32 :: nat) else c)"

definition level_of :: "string \<Rightarrow> log_level option" where
  "level_of s =
     (let lvl = map lower_char s in
      if lvl = ''debug'' then Some Debug_level
      else if lvl = ''info'' then Some Info_level
      else if lvl = ''warn'' \<or> lvl = ''warning'' then Some Warn_level
      else if lvl = ''error'' then Some Err_level
      else if lvl = ''critical'' then Some Critical_level
      else None)"

text \<open>
  The static pointer of \<open>get_logger\<close> with the state of the library. \<open>env\<close> is \<open>AILOY_LOG_LEVEL\<close>; an
  unknown level of the environment is reported in small letters, one that is set as it was given.
\<close>

record 'g log_state =
  has_logger :: bool
  library :: 'g

definition configure :: "'g spdlog \<Rightarrow> string option \<Rightarrow> 'g \<Rightarrow> 'g" where
  "configure S env g =
     (case env of
        None \<Rightarrow> g
      | Some e \<Rightarrow>
          (case level_of e of
             Some l \<Rightarrow> sp_set_level S l g
           | None \<Rightarrow> sp_log S Warn_level (''Unknown log level: '' @ map lower_char e) g))"

definition get_logger :: "'g spdlog \<Rightarrow> string option \<Rightarrow> 'g log_state \<Rightarrow> 'g log_state res" where
  "get_logger S env s =
     (if has_logger s then Inr s
      else bindR (sp_create S (library s)) (\<lambda>g. Inr \<lparr>has_logger = True, library = configure S env g\<rparr>))"

definition with_logger :: "'g spdlog \<Rightarrow> string option \<Rightarrow> ('g \<Rightarrow> 'g) \<Rightarrow> 'g log_state \<Rightarrow> 'g log_state res" where
  "with_logger S env f s = mapR_res (\<lambda>s'. s'\<lparr>library := f (library s')\<rparr>) (get_logger S env s)"

definition set_log_level :: "'g spdlog \<Rightarrow> string option \<Rightarrow> string \<Rightarrow> 'g log_state \<Rightarrow> 'g log_state res" where
  "set_log_level S env level =
     (case level_of level of
        Some l \<Rightarrow> with_logger S env (sp_set_level S l)
      | None \<Rightarrow> with_logger S env (sp_log S Warn_level (''Unknown log level: '' @ level)))"

definition set_log_format :: "'g spdlog \<Rightarrow> string option \<Rightarrow> string \<Rightarrow> 'g log_state \<Rightarrow> 'g log_state res" where
  "set_log_format S env fmt = with_logger S env (sp_set_pattern S fmt)"

text \<open>\<open>debug\<close>, \<open>info\<close>, \<open>warn\<close>, \<open>error\<close> and \<open>critical\<close>.\<close>

definition log_message :: "'g spdlog \<Rightarrow> string option \<Rightarrow> log_level \<Rightarrow> string \<Rightarrow> 'g log_state \<Rightarrow> 'g log_state res" where
  "log_message S env l msg = with_logger S env (sp_log S l msg)"

fun log_messages :: "'g spdlog \<Rightarrow> string option \<Rightarrow> (log_level \<times> string) list \<Rightarrow> 'g log_state \<Rightarrow> 'g log_state res" where
  "log_messages S env [] s = Inr s"
| "log_messages S env (m # ms) s = bindR (log_message S env (fst m) (snd m) s) (log_messages S env ms)"

section \<open>What the library promises\<close>

text \<open>
  A new logger has the level \<open>info\<close>; a second one of the same name is refused; a message is written when it
  is at least as severe as the level.
\<close>

definition spdlog_ok :: "'g spdlog \<Rightarrow> bool" where
  "spdlog_ok S \<longleftrightarrow>
     (\<forall>g g'. sp_create S g = Inr g' \<longrightarrow> sp_level S g' = Info_level \<and> sp_lines S g' = sp_lines S g \<and>
        (\<exists>e. sp_create S g' = Inl e)) \<and>
     (\<forall>l g. sp_level S (sp_set_level S l g) = l \<and> sp_lines S (sp_set_level S l g) = sp_lines S g) \<and>
     (\<forall>p g. sp_level S (sp_set_pattern S p g) = sp_level S g \<and> sp_lines S (sp_set_pattern S p g) = sp_lines S g) \<and>
     (\<forall>l m g. sp_level S (sp_log S l m g) = sp_level S g \<and> sp_lines S (sp_log S l m g) =
        sp_lines S g @ (if severity (sp_level S g) \<le> severity l then [(l, m)] else []))"

lemma spdlog_okD:
  assumes "spdlog_ok S"
  shows "sp_create S g = Inr g' \<Longrightarrow> sp_level S g' = Info_level \<and> sp_lines S g' = sp_lines S g"
    and "sp_create S g = Inr g' \<Longrightarrow> \<exists>e. sp_create S g' = Inl e"
    and "sp_level S (sp_set_level S l g) = l" and "sp_lines S (sp_set_level S l g) = sp_lines S g"
    and "sp_level S (sp_log S l m g) = sp_level S g"
    and "sp_lines S (sp_log S l m g) = sp_lines S g @ (if severity (sp_level S g) \<le> severity l then [(l, m)] else [])"
  using assms unfolding spdlog_ok_def by blast+

definition at_least :: "log_level \<Rightarrow> (log_level \<times> string) list \<Rightarrow> (log_level \<times> string) list" where
  "at_least l = filter (\<lambda>m. severity l \<le> severity (fst m))"

text \<open>With a logger, messages are written in order, those that are severe enough.\<close>

lemma log_messages_written:
  assumes "spdlog_ok S" and "has_logger s"
  shows "\<exists>s'. log_messages S env ms s = Inr s' \<and> has_logger s' \<and>
    sp_level S (library s') = sp_level S (library s) \<and>
    sp_lines S (library s') = sp_lines S (library s) @ at_least (sp_level S (library s)) ms"
  using assms(2)
proof (induction ms arbitrary: s)
  case (Cons m ms)
  let ?s = "s\<lparr>library := sp_log S (fst m) (snd m) (library s)\<rparr>"
  have "log_message S env (fst m) (snd m) s = Inr ?s"
    using Cons.prems by (simp add: log_message_def with_logger_def get_logger_def)
  then show ?case
    using Cons.IH [of ?s] Cons.prems spdlog_okD(5,6) [OF assms(1)] by (auto simp: at_least_def)
qed (simp add: at_least_def)

text \<open>The level that holds after the first use of the logger.\<close>

lemma configured_level:
  assumes "spdlog_ok S"
  shows "sp_level S (configure S env g) =
    (case env of None \<Rightarrow> sp_level S g | Some e \<Rightarrow> (case level_of e of None \<Rightarrow> sp_level S g | Some l \<Rightarrow> l))"
  using spdlog_okD(3,5) [OF assms] by (simp add: configure_def split: option.split)

lemma first_level:
  assumes "spdlog_ok S" and "get_logger S env s = Inr s'" and "\<not> has_logger s"
  shows "has_logger s'"
    and "sp_level S (library s') = (case env of None \<Rightarrow> Info_level
      | Some e \<Rightarrow> (case level_of e of None \<Rightarrow> Info_level | Some l \<Rightarrow> l))"
proof -
  obtain g where "sp_create S (library s) = Inr g" and s': "s' = \<lparr>has_logger = True, library = configure S env g\<rparr>"
    using assms(2,3) by (auto simp: get_logger_def bindR_eq_Inr)
  then have "sp_level S g = Info_level" using spdlog_okD(1) [OF assms(1)] by simp
  then show "has_logger s'" "sp_level S (library s') = (case env of None \<Rightarrow> Info_level
      | Some e \<Rightarrow> (case level_of e of None \<Rightarrow> Info_level | Some l \<Rightarrow> l))"
    by (simp_all add: s' configured_level [OF assms(1)] split: option.split)
qed

section \<open>The first use by several threads\<close>

text \<open>
  \<open>get_logger\<close> takes no lock: the test of the pointer, the creation and the configuration are steps of
  their own. The state is the pointer, the library, and where each thread is.
\<close>

datatype log_pc = Testing | Creating | Configuring | Using | Raised fault

inductive log_step ::
  "'g spdlog \<Rightarrow> string option \<Rightarrow> bool \<times> 'g \<times> (nat \<Rightarrow> log_pc) \<Rightarrow> bool \<times> 'g \<times> (nat \<Rightarrow> log_pc) \<Rightarrow> bool"
  for S :: "'g spdlog" and env :: "string option" where
  found: "pc i = Testing \<Longrightarrow> log_step S env (True, g, pc) (True, g, pc(i := Using))"
| missing: "pc i = Testing \<Longrightarrow> log_step S env (False, g, pc) (False, g, pc(i := Creating))"
| created: "pc i = Creating \<Longrightarrow> sp_create S g = Inr g' \<Longrightarrow> log_step S env (p, g, pc) (True, g', pc(i := Configuring))"
| refused: "pc i = Creating \<Longrightarrow> sp_create S g = Inl e \<Longrightarrow> log_step S env (p, g, pc) (p, g, pc(i := Raised e))"
| configured: "pc i = Configuring \<Longrightarrow> log_step S env (p, g, pc) (p, configure S env g, pc(i := Using))"

text \<open>Alone, a thread does what \<open>get_logger\<close> computes.\<close>

lemma log_step_alone:
  assumes "pc i = Testing" and "get_logger S env \<lparr>has_logger = p, library = g\<rparr> = Inr s"
  shows "\<exists>pc'. (log_step S env)\<^sup>*\<^sup>* (p, g, pc) (has_logger s, library s, pc') \<and> pc' i = Using"
proof (cases p)
  case True
  then have "log_step S env (p, g, pc) (has_logger s, library s, pc(i := Using))"
    using assms log_step.found [of pc i S env g] by (auto simp: get_logger_def)
  then show ?thesis by (intro exI [of _ "pc(i := Using)"]) auto
next
  case False
  then obtain g' where g': "sp_create S g = Inr g'" "s = \<lparr>has_logger = True, library = configure S env g'\<rparr>"
    using assms(2) by (auto simp: get_logger_def bindR_eq_Inr)
  let ?pc1 = "pc(i := Creating)" and ?pc2 = "pc(i := Creating, i := Configuring)"
  have "log_step S env (False, g, pc) (False, g, ?pc1)" by (rule log_step.missing) (rule assms(1))
  moreover have "log_step S env (False, g, ?pc1) (True, g', ?pc2)" by (rule log_step.created) (simp_all add: g'(1))
  moreover have "log_step S env (True, g', ?pc2) (True, configure S env g', ?pc2(i := Using))"
    by (rule log_step.configured) simp
  ultimately show ?thesis using False g'(2)
    by (intro exI [of _ "?pc2(i := Using)"]) (auto intro: rtranclp_trans converse_rtranclp_into_rtranclp)
qed

text \<open>
  Together, two threads can both find no logger, and the second to create one gets an exception. The
  mutex of the file is not used.
\<close>

lemma first_log_race:
  assumes "spdlog_ok S" and "sp_create S g = Inr g'"
  shows "\<exists>e. (log_step S env)\<^sup>*\<^sup>* (False, g, \<lambda>_. Testing) (True, g', (\<lambda>_. Testing)(0 := Configuring, 1 := Raised e))"
proof -
  obtain e where e: "sp_create S g' = Inl e" using spdlog_okD(2) [OF assms] by blast
  let ?pc = "\<lambda>_ :: nat. Testing"
  have "log_step S env (False, g, ?pc) (False, g, ?pc(0 := Creating))" by (rule log_step.missing) simp
  moreover have "log_step S env (False, g, ?pc(0 := Creating)) (False, g, ?pc(0 := Creating, 1 := Creating))"
    by (rule log_step.missing) simp
  moreover have "log_step S env (False, g, ?pc(0 := Creating, 1 := Creating))
      (True, g', ?pc(0 := Creating, 1 := Creating, 0 := Configuring))"
    by (rule log_step.created) (simp_all add: assms(2))
  moreover have "log_step S env (True, g', ?pc(0 := Creating, 1 := Creating, 0 := Configuring))
      (True, g', ?pc(0 := Creating, 1 := Creating, 0 := Configuring, 1 := Raised e))"
    by (rule log_step.refused) (simp_all add: e)
  moreover have "?pc(0 := Creating, 1 := Creating, 0 := Configuring, 1 := Raised e) = ?pc(0 := Configuring, 1 := Raised e)"
    by (auto simp: fun_eq_iff)
  ultimately have "(log_step S env)\<^sup>*\<^sup>* (False, g, ?pc) (True, g', ?pc(0 := Configuring, 1 := Raised e))"
    by (auto intro: converse_rtranclp_into_rtranclp)
  then show ?thesis by blast
qed

section \<open>The level that was set\<close>


text \<open>A library that keeps the promises: whether the logger is there, its level and its lines.\<close>

definition sample_spdlog :: "(bool \<times> log_level \<times> (log_level \<times> string) list) spdlog" where
  "sample_spdlog = \<lparr>sp_create = (\<lambda>(b, l, ms). if b then Inl (LibThrow ''spdlog_ex'') else Inr (True, Info_level, ms)),
     sp_set_level = (\<lambda>l (b, _, ms). (b, l, ms)), sp_set_pattern = (\<lambda>p g. g),
     sp_log = (\<lambda>l m (b, v, ms). (b, v, ms @ (if severity v \<le> severity l then [(l, m)] else []))),
     sp_level = (\<lambda>(b, v, ms). v), sp_lines = (\<lambda>(b, v, ms). ms)\<rparr>"

lemma sample_spdlog_ok: "spdlog_ok sample_spdlog"
  by (auto simp: spdlog_ok_def sample_spdlog_def)


end
