(* ===== verification/Spec2Isabelle.thy ===== *)
theory Spec2Isabelle
  imports BrokerProperties CoreProperties VmProperties TextProperties StoreProperties ServiceProperties
    CacheProperties ModelProperties TensorProperties BindingProperties ThreadProperties NodeProperties
    Interrupts Logging
begin

text \<open>
  A model of the C++ core of ailoy, with the theorems that make it correct.

  \<^bold>\<open>The program.\<close> ailoy runs language models and tools behind a small message system. A client
  (\<open>broker_client_t\<close>) writes packets and sends them over an in-process socket to the broker
  (\<open>broker_start\<close>), which knows who has subscribed to which function, component type, component or
  method, and relays calls to the owner and results to the caller. A virtual machine (\<open>vm_start\<close>)
  is itself a client: it imports modules, subscribes to what they offer, runs operators and methods
  step by step and sends each output as a packet. The modules are made of operators and components:
  text splitting, a calculator, HTTP requests, vector stores, the client of the OpenAI API, and local
  language and embedding models with their cache of downloaded files. Programs in Python and JavaScript load a
  module that starts a broker and a VM in two threads (\<open>start_threads\<close>), talks to them through a client, and stops
  them again (\<open>stop_threads\<close>). All values that travel are of the
  dynamic type \<open>value_t\<close>, written as CBOR.

  \<^bold>\<open>How the code is modelled.\<close> A C++ call that may throw returns \<open>'a res = fault + 'a\<close>
  (\<open>Prelude\<close>): \<open>Throw\<close> is an exception of the program, \<open>LibThrow\<close> one of a library, \<open>UB\<close> marks
  what the language leaves undefined (a null pointer that is dereferenced, a read past the end).
  \<open>value_or_error_t\<close> and its relatives are the datatype \<open>or_error\<close>. Hash maps are association lists
  in key order, \<open>size_t\<close> and the other integers are words of their width, floating point numbers
  are their bits. The process is an explicit store (\<open>world\<close> in \<open>InprocSocket\<close>): sockets and
  acceptors at addresses, a mailbox with a deque of messages, monitors with their queues of
  signals. A critical section of a lock is one step, and interleavings are sequences of steps.
  A loop that need not return is a \<open>partial_function (option)\<close> (\<open>run_op\<close>, \<open>squeeze\<close>,
  \<open>infer_loop\<close>), so that not returning is the value \<open>None\<close>; all other loops are total functions,
  and nothing uses fuel.

  \<^bold>\<open>Theories and sources.\<close>
  \<^item> \<open>Prelude\<close>, \<open>Bytes\<close>: results, maps (locale \<open>dict\<close>), numbers in byte buffers. \<open>Floats\<close>:
    arithmetic and conversions of floating point numbers on their bits, rounded to the nearest.
  \<^item> \<open>Exceptions\<close>: \<open>core/include/exception.hpp\<close>. \<open>Values\<close>, \<open>Json\<close>, \<open>JsonAccess\<close>,
    \<open>JsonNumbers\<close>: \<open>core/include/value.hpp\<close>, \<open>core/src/value.cpp\<close> and the JSON values of the library.
    \<open>TextCodec\<close>: an instance of the library for the examples, which reads back what it writes.
    \<open>Packets\<close>: \<open>core/include/packet.hpp\<close>, \<open>core/src/packet.cpp\<close>.
  \<^item> \<open>Notify\<close>, \<open>InprocSocket\<close>: monitors, stop signals, mailboxes, sockets, acceptors and the dialer
    of \<open>core/src/thread.cpp\<close> and \<open>core/src/inproc_socket.cpp\<close>. \<open>CoreProperties\<close> has the properties
    of all of these.
  \<^item> \<open>Broker\<close>: one definition per handler of \<open>broker/src/broker.cpp\<close> and the turn of its loop.
    \<open>BrokerSpec\<close>: an abstract hub (locale, with owners and pending calls), which the handlers
    refine. \<open>BrokerSystem\<close>: the step relation of the broker among its clients and its invariants.
    \<open>BrokerClient\<close>: \<open>broker_client.hpp\<close>. \<open>BrokerProperties\<close>: the properties.
  \<^item> \<open>Modules\<close>: operators, components and methods of \<open>vm/include/module.hpp\<close>. \<open>Vm\<close>, \<open>VmFacts\<close>,
    \<open>VmLife\<close>: \<open>vm/src/vm.cpp\<close>, its four handlers, and \<open>vm_start\<close> as a state machine over its
    phases. \<open>VmProperties\<close>: the properties. \<open>Routing\<close>: a call on its way through client, broker
    and VM. \<open>Samples\<close>: a small running system for the examples.
  \<^item> \<open>StringUtil\<close>, \<open>SplitText\<close>, \<open>SplitTextFacts\<close>, \<open>Calculator\<close>, \<open>DebugModule\<close>,
    \<open>LanguageModule\<close>: the files of those names under \<open>vm/src\<close>; \<open>TextProperties\<close>.
  \<^item> \<open>VectorStore\<close>: the component of \<open>vector_store.hpp\<close> over the interface of a store (locale).
    \<open>FaissStore\<close>: the store on a FAISS index. \<open>ChromaStore\<close>: the store on a Chroma server
    (\<open>chromadb_vector_store.cpp\<close>), as the requests it sends. Both provide the interface.
    \<open>StoreProperties\<close>: what is inserted is found, what is removed is gone.
  \<^item> \<open>OpenAI\<close>: \<open>openai.cpp\<close>, its conversions and the engine; \<open>ServiceProperties\<close>.
  \<^item> \<open>Files\<close>, \<open>ModelCache\<close>: the file system and \<open>mlc_llm/model_cache.cpp\<close>; \<open>CacheProperties\<close>.
  \<^item> \<open>ChatEngine\<close>, \<open>LanguageModel\<close>: \<open>mlc_llm_engine.cpp\<close>, \<open>chat_template_engine.cpp\<close>,
    \<open>language_model.cpp\<close>; \<open>ModelProperties\<close>.
  \<^item> \<open>NdArray\<close>: half precision numbers and the printing of tensors (\<open>ndarray_util.cpp\<close>).
    \<open>TvmModel\<close>, \<open>EmbeddingModel\<close>: \<open>tvm_model.cpp\<close> and \<open>embedding_model.cpp\<close>; \<open>TensorProperties\<close>.
  \<^item> \<open>PyBinding\<close>, \<open>JsBinding\<close>: the conversions and the clients of the modules for Python and Node
    (\<open>bindings/python/csrc\<close>, \<open>bindings/js-node/csrc\<close>); \<open>BindingProperties\<close>. \<open>JsPromise\<close>: the promise that other
    threads settle (\<open>js_thread_safe_promise.hpp\<close>, which nothing uses so far). \<open>NodeModule\<close>, \<open>NodeProperties\<close>: the
    functions of the Node module, and a call from Node.
  \<^item> \<open>Rely\<close>: what one thread may rely on while others run, for every operation of sockets, broker and VM.
    \<open>BindingThreads\<close>: the process with the threads of broker and VM and the caller of \<open>start_threads\<close> and
    \<open>stop_threads\<close> (\<open>binding.cpp\<close>), as a step relation. \<open>ThreadProperties\<close>: its invariant and what follows;
    \<open>ThreadSamples\<close>: a run from the first start to the second.
  \<^item> \<open>Interrupts\<close>: the guard of a download against SIGINT (in \<open>mlc_llm/model_cache.cpp\<close>). \<open>Logging\<close>:
    \<open>core/src/logging.cpp\<close>, with the first use by several threads. \<open>Uuids\<close>: \<open>core/src/uuid.cpp\<close>.

  \<^bold>\<open>What is proved.\<close> The invariants are of the tables of the broker and of the pending signals in
  every reachable state; the broker's handlers refine the hub; the VM's loop sends exactly the
  outputs of a complete run; the merging of text pieces in machine words computes a reference in
  natural numbers; packets, values and tensors survive their formats,
  and the way through Python and JavaScript; the arithmetic of floating
  point numbers is rounded to the nearest and half precision is converted exactly; the stores meet
  the contract of the component; a model's parameters come from whole files, and an embedding is
  the first row of what the model computes; the first theorem below puts client, broker and VM together,
  and others begin and end the same call in Python and in Node. In a process that starts and stops its threads the broker
  is there as long as the VM, and a stop bounds the turns that a serving VM still takes: both rest on an invariant of
  all the steps of caller, broker, VM and other threads together. Some theorems
  state behaviour one would not wish for, as the code has it: a call to an owner with a full mailbox
  is lost silently, the name of a VM stays taken after it has ended, so that starting its thread again ends the
  process, an answer that is cut off makes
  the next step of the operator wait for ever.

  \<^bold>\<open>Parameters.\<close> What the program calls but does not contain is an argument of the definitions,
  with its documented behaviour as a hypothesis where a property needs it: the JSON and CBOR
  library (\<open>codec\<close>), UUIDs, the expression parser tinyexpr, the FAISS index (\<open>faiss_ok\<close>), the
  Chroma server (\<open>chroma_ok\<close>), the HTTP client, the machine's environment, the template language
  minja, the engine of the language model with its streamers, the TVM runtime (\<open>tvm_ok\<close>,
  \<open>cache_ok\<close>), the tokenizer, the library spdlog (\<open>spdlog_ok\<close>), and the JavaScript engine (\<open>js_engine_ok\<close>). Examples instantiate each with a concrete function.

  \<^bold>\<open>Bounds.\<close> A mailbox has \<open>mailbox_limit\<close> messages; names of sockets are a 64-bit counter and
  runs use fewer than \<open>2 ^ 64\<close> of them; a packet's header has a 16-bit length and its body a 32-bit
  one (\<open>packet_fits\<close>); the FAISS store gives out fewer than \<open>2 ^ 63\<close> ids; a tensor that leaves the
  runtime has fewer than \<open>2 ^ 31\<close> elements.

  \<^bold>\<open>Not modelled.\<close> The stack traces of exceptions, the generators behind the UUIDs, the progress bars of
  downloads, the variants of the code for Emscripten and Windows, the tables that register functions and classes
  with Python and Node. A data race on the static pointer of the log, which the language leaves undefined, is modelled as an
  interleaving of whole reads and writes. The TVM runtime itself is a library.
\<close>

section \<open>The whole system\<close>

text \<open>
  C1. A call makes its round trip. A client and a VM are connected to a broker and the VM has
  subscribed to the function \<open>f\<close>, which is an instant operator; no message is on the way. Then
  the client's call reaches the VM through the broker, the VM runs the operator on the input as
  CBOR delivers it, the result goes back the same way, and what the client receives is the
  operator's output, as CBOR delivers it, with the transaction id of the call. The broker has
  forgotten the transaction by then.
\<close>

theorem call_round_trip:
  assumes "broker_inv b w" and "map_of (b_sockets b) na = Some a" and "map_of (b_sockets b) ns = Some s"
    and "map_of (b_subs b) (''0/'' @ f) = Some s"
    and "peered k a w" and "peered a k w" and "peered s v w" and "peered v s w"
    and "distinct [k, a, s, v]" and "k \<notin> set (b_refs b)" and "v \<notin> set (b_refs b)"
    and "box k w = []" and "box a w = []" and "box s w = []" and "box v w = []"
    and "c_socket kc = k" and "c_socket (vm_client vm) = v"
    and "call = call_function_packet execute tx f (Some x)"
    and "packet_ok call" and "packet_fits C call" and "packet_faithful C call"
    and "result = respond_execute_ok_packet tx 0 True y"
    and "packet_ok result" and "packet_fits C result" and "packet_faithful C result"
    and "map_of (vm_operators vm) f = Some op" and "op_initialize op (Some (wire x)) = Inr (op1, None)"
    and "op_step op1 = Inr (op2, Ok_output (Some y) True)"
  shows "\<exists>w1 b1 w2 w3 p w4 vm' b2 w5 w6.
    client_send C kc call w = Inr (w1, True) \<and>
    broker_recv C b a w1 = Inr (b1, w2) \<and>
    client_recv C (vm_client vm) False w2 = Inr (w3, Some p) \<and>
    vm_handle C uuid p vm w3 = Some (Inr (vm', w4)) \<and>
    broker_recv C b1 s w4 = Inr (b2, w5) \<and> map_of (b_txs b2) tx = None \<and>
    client_recv C kc False w5 = Inr (w6, Some (wire_packet False result))"
  by (rule call_and_result [OF assms])

lemma call_round_trip_witness:
  "let kc = \<lparr>c_socket = 0, c_monitor = 8, external_monitor = False\<rparr> in
   \<exists>w1 b1 w2 w3 p w4 vm' b2 w5 w6.
     client_send sample_codec kc sample_call sample_world = Inr (w1, True) \<and>
     broker_recv sample_codec sample_broker 2 w1 = Inr (b1, w2) \<and>
     client_recv sample_codec (vm_client sample_vm) False w2 = Inr (w3, Some p) \<and>
     vm_handle sample_codec (\<lambda>i. ''u'') p sample_vm w3 = Some (Inr (vm', w4)) \<and>
     broker_recv sample_codec b1 3 w4 = Inr (b2, w5) \<and>
     client_recv sample_codec kc False w5 = Inr (w6, Some (wire_packet False sample_result))"
proof -
  let ?kc = "\<lparr>c_socket = 0, c_monitor = 8, external_monitor = False\<rparr>"
  let ?op1 = "sample_op\<lparr>op_in := Some (Uint_t 7)\<rparr>" and ?op2 = "sample_op\<lparr>op_in := None\<rparr>"
  have "op_initialize sample_op (Some (wire (Uint_t 7))) = Inr (?op1, None)"
    by (simp add: sample_op_def make_operator_def op_initialize_def operator_initialize_def)
  moreover have "op_step ?op1 = Inr (?op2, Ok_output (Some (Uint_t 7)) True)"
    by (simp add: sample_op_def make_operator_def op_step_def instant_step_def operator_reset_input_def)
  moreover have "map_of (b_sockets sample_broker) ''2'' = Some 2" "map_of (b_sockets sample_broker) ''3'' = Some 3"
    "map_of (b_subs sample_broker) (''0/'' @ ''f'') = Some 3" "b_refs sample_broker = [2, 3, 3]"
    by (simp_all add: sample_broker_def b_refs_def)
  moreover have "map_of (vm_operators sample_vm) ''f'' = Some sample_op" "c_socket (vm_client sample_vm) = Suc 0"
    by (simp_all add: sample_vm_def)
  ultimately have "\<exists>w1 b1 w2 w3 p w4 vm' b2 w5 w6.
     client_send sample_codec ?kc sample_call sample_world = Inr (w1, True) \<and>
     broker_recv sample_codec sample_broker 2 w1 = Inr (b1, w2) \<and>
     client_recv sample_codec (vm_client sample_vm) False w2 = Inr (w3, Some p) \<and>
     vm_handle sample_codec (\<lambda>i. ''u'') p sample_vm w3 = Some (Inr (vm', w4)) \<and>
     broker_recv sample_codec b1 3 w4 = Inr (b2, w5) \<and> map_of (b_txs b2) ''t'' = None \<and>
     client_recv sample_codec ?kc False w5 = Inr (w6, Some (wire_packet False sample_result))"
    by (intro call_round_trip [where k = 0 and a = 2 and s = 3 and v = "Suc 0" and f = "''f''" and x = "Uint_t 7"
          and tx = "''t''" and y = "Uint_t 7" and na = "''2''" and ns = "''3''" and op = sample_op and ?op1.0 = ?op1 and ?op2.0 = ?op2])
      (simp_all add: sample_inv sample_peers sample_names sample_call_def [symmetric] sample_result_def [symmetric])
  then show ?thesis unfolding Let_def by blast
qed

end
